(* ===== verification/Prelude.thy ===== *)
theory Prelude
  imports Complex_Main "HOL-Library.Word" "HOL-Library.AList"
begin

text \<open>
  Shared vocabulary of the development: bytes and strings of the JavaScript
  runtime, the outcome of an effectful (asynchronous) operation with its state
  monad and weakest preconditions, decimal rendering of numbers, and the list
  facts about slicing that the components share.

  Strings that the program builds itself out of ASCII literals and decimal numbers
  (storage keys, labels, error codes) are HOL strings; strings that come from
  outside (paths, note contents, stored text) are sequences of UTF-16 code units,
  as in JavaScript, where \<open>length\<close>, indexing and \<open>slice\<close> count code units.
\<close>

section \<open>Collections of facts\<close>

named_theorems wp_simps \<open>weakest preconditions of the combinators\<close>
named_theorems key_simps \<open>storage keys: injectivity and disjointness\<close>
named_theorems codec_simps \<open>decoding what was encoded\<close>

section \<open>Bytes and strings\<close>

type_synonym byte = "8 word"
type_synonym bytes = "byte list"
type_synonym code_unit = "16 word"
type_synonym jsstr = "code_unit list"

definition lit :: "string \<Rightarrow> jsstr" where
  "lit s = List.map of_char s"

lemma lit_simps [simp]:
  "lit [] = []"
  "lit (c # cs) = of_char c # lit cs"
  by (simp_all add: lit_def)

lemma lit_append: "lit (xs @ ys) = lit xs @ lit ys"
  by (simp add: lit_def)

lemma length_lit [simp]: "length (lit s) = length s"
  by (simp add: lit_def)

section \<open>Outcomes and actions\<close>

text \<open>
  An asynchronous operation returns a value, throws, or never settles (a loop of
  the source that does not advance). Throwing does not undo what was written
  before: only a storage transaction does that, and says so.
\<close>

datatype ('e, 'a) outcome = Return 'a | Throw 'e | Diverge

type_synonym ('s, 'e, 'a) act = "'s \<Rightarrow> ('e, 'a) outcome \<times> 's"

definition act_return :: "'a \<Rightarrow> ('s, 'e, 'a) act" where
  "act_return x = (\<lambda>s. (Return x, s))"

definition act_throw :: "'e \<Rightarrow> ('s, 'e, 'a) act" where
  "act_throw e = (\<lambda>s. (Throw e, s))"

definition act_diverge :: "('s, 'e, 'a) act" where
  "act_diverge = (\<lambda>s. (Diverge, s))"

definition act_bind :: "('s, 'e, 'a) act \<Rightarrow> ('a \<Rightarrow> ('s, 'e, 'b) act) \<Rightarrow> ('s, 'e, 'b) act" where
  "act_bind m f = (\<lambda>s. case m s of
      (Return x, s') \<Rightarrow> f x s'
    | (Throw e, s') \<Rightarrow> (Throw e, s')
    | (Diverge, s') \<Rightarrow> (Diverge, s'))"

definition act_catch :: "('s, 'e, 'a) act \<Rightarrow> ('e \<Rightarrow> ('s, 'e, 'a) act) \<Rightarrow> ('s, 'e, 'a) act" where
  "act_catch m h = (\<lambda>s. case m s of
      (Return x, s') \<Rightarrow> (Return x, s')
    | (Throw e, s') \<Rightarrow> h e s'
    | (Diverge, s') \<Rightarrow> (Diverge, s'))"

definition act_of :: "'e + 'a \<Rightarrow> ('s, 'e, 'a) act" where
  "act_of r = (case r of Inl e \<Rightarrow> act_throw e | Inr x \<Rightarrow> act_return x)"

text \<open>A \<open>for .. of\<close> loop whose body awaits, with an accumulator.\<close>

fun act_fold :: "('b \<Rightarrow> 'a \<Rightarrow> ('s, 'e, 'a) act) \<Rightarrow> 'b list \<Rightarrow> 'a \<Rightarrow> ('s, 'e, 'a) act" where
  "act_fold f [] acc = act_return acc"
| "act_fold f (x # xs) acc = act_bind (f x acc) (act_fold f xs)"

section \<open>Weakest preconditions\<close>

text \<open>
  \<open>wp m Q R s\<close>: run from \<open>s\<close>, a return satisfies \<open>Q\<close>, and a throw of \<open>e\<close> (as
  \<open>Some e\<close>) or a divergence (as \<open>None\<close>) satisfies \<open>R\<close>. With \<open>R\<close> false
  everywhere this is total correctness.
\<close>

definition wp :: "('s, 'e, 'a) act \<Rightarrow> ('a \<Rightarrow> 's \<Rightarrow> bool) \<Rightarrow> ('e option \<Rightarrow> 's \<Rightarrow> bool) \<Rightarrow> 's \<Rightarrow> bool" where
  "wp m Q R s = (case m s of
      (Return x, s') \<Rightarrow> Q x s'
    | (Throw e, s') \<Rightarrow> R (Some e) s'
    | (Diverge, s') \<Rightarrow> R None s')"

lemma wp_return [wp_simps]: "wp (act_return x) Q R s = Q x s"
  by (simp add: wp_def act_return_def)

lemma wp_return_fun: "wp (act_return x) Q R = Q x"
  by (rule ext) (rule wp_return)

lemma wp_throw [wp_simps]: "wp (act_throw e) Q R s = R (Some e) s"
  by (simp add: wp_def act_throw_def)

lemma wp_diverge [wp_simps]: "wp act_diverge Q R s = R None s"
  by (simp add: wp_def act_diverge_def)

lemma wp_bind [wp_simps]: "wp (act_bind m f) Q R s = wp m (\<lambda>x. wp (f x) Q R) R s"
  by (simp add: wp_def act_bind_def split: prod.split outcome.split)

lemma wp_catch [wp_simps]:
  "wp (act_catch m h) Q R s =
   wp m Q (\<lambda>e s'. case e of Some e' \<Rightarrow> wp (h e') Q R s' | None \<Rightarrow> R None s') s"
  by (simp add: wp_def act_catch_def split: prod.split outcome.split)

lemma wp_of [wp_simps]:
  "wp (act_of r) Q R s = (case r of Inl e \<Rightarrow> R (Some e) s | Inr x \<Rightarrow> Q x s)"
  by (simp add: act_of_def wp_simps split: sum.split)

lemma wp_mono:
  assumes "wp m Q R s"
    and "\<And>x s'. Q x s' \<Longrightarrow> Q' x s'"
    and "\<And>e s'. R e s' \<Longrightarrow> R' e s'"
  shows "wp m Q' R' s"
  using assms by (auto simp: wp_def split: prod.splits outcome.splits)

lemma wp_conj:
  "wp m Q R s \<Longrightarrow> wp m Q' R' s \<Longrightarrow> wp m (\<lambda>x s'. Q x s' \<and> Q' x s') (\<lambda>e s'. R e s' \<and> R' e s') s"
  by (auto simp: wp_def split: prod.splits outcome.splits)

lemma wp_ReturnE:
  assumes "wp m Q (\<lambda>_ _. False) s"
  obtains x s' where "m s = (Return x, s')" and "Q x s'"
  using assms by (auto simp: wp_def split: prod.splits outcome.splits)

lemma wp_returned: "wp m Q R s \<Longrightarrow> m s = (Return x, s') \<Longrightarrow> Q x s'"
  by (simp add: wp_def)

lemma wp_thrown: "wp m Q R s \<Longrightarrow> m s = (Throw e, s') \<Longrightarrow> R (Some e) s'"
  by (simp add: wp_def)

lemma act_bind_return [simp]: "act_bind (act_return x) f = f x"
  by (simp add: act_bind_def act_return_def)

lemma act_bind_return_right [simp]: "act_bind m act_return = m"
  by (auto simp: act_bind_def act_return_def fun_eq_iff split: prod.split outcome.split)

lemma act_of_simps [simp]: "act_of (Inr x) = act_return x" "act_of (Inl e) = act_throw e"
  by (simp_all add: act_of_def)

lemma act_bind_run: "m s = (Return x, s') \<Longrightarrow> act_bind m k s = k x s'"
  and act_bind_throw: "m s = (Throw e, s') \<Longrightarrow> act_bind m k s = (Throw e, s')"
  by (simp_all add: act_bind_def)

lemma if_wp: "R (Some e) s \<Longrightarrow> wp m Q R s \<Longrightarrow> wp (if b then act_throw e else m) Q R s"
  by (simp add: wp_throw)

lemma wp_act_fold_step:
  assumes "wp (f x acc) (\<lambda>acc'. wp (act_fold f xs acc') Q R) R s"
  shows "wp (act_fold f (x # xs) acc) Q R s"
  using assms by (simp add: wp_simps)

text \<open>The invariant rule of the loop: \<open>I\<close> relates the processed prefix, the accumulator
  and the state.\<close>

lemma wp_act_fold:
  assumes step: "\<And>pre x post acc s. xs = pre @ x # post \<Longrightarrow> I pre acc s \<Longrightarrow>
                   wp (f x acc) (I (pre @ [x])) R s"
    and start: "I [] acc s"
  shows "wp (act_fold f xs acc) (I xs) R s"
proof -
  have "xs = pre @ post \<Longrightarrow> I pre acc s \<Longrightarrow> wp (act_fold f post acc) (I xs) R s"
    for pre post acc s
  proof (induction post arbitrary: pre acc s)
    case Nil
    then show ?case by (simp add: wp_simps)
  next
    case (Cons x post)
    have "wp (f x acc) (I (pre @ [x])) R s"
      by (rule step) (use Cons.prems in auto)
    moreover have "wp (act_fold f post acc') (I xs) R s'" if "I (pre @ [x]) acc' s'" for acc' s'
      by (rule Cons.IH [OF _ that]) (use Cons.prems in simp)
    ultimately show ?case
      by (simp add: wp_simps) (erule wp_mono, auto)
  qed
  from this [of "[]" xs] start show ?thesis by simp
qed

section \<open>Decimal rendering\<close>

text \<open>The decimal digits that a template string prints for a non-negative integer.\<close>

definition digit_char :: "nat \<Rightarrow> char" where
  "digit_char d = char_of (48 + d)"

fun decimal :: "nat \<Rightarrow> string" where
  "decimal n = (if n < 10 then [digit_char n] else decimal (n div 10) @ [digit_char (n mod 10)])"

declare decimal.simps [simp del]

definition undigit :: "char \<Rightarrow> nat" where
  "undigit c = of_char c - 48"

definition undecimal :: "string \<Rightarrow> nat" where
  "undecimal cs = foldl (\<lambda>acc c. acc * 10 + undigit c) 0 cs"

lemma undigit_digit_char [simp]: "d < 10 \<Longrightarrow> undigit (digit_char d) = d"
  by (simp add: undigit_def digit_char_def)

lemma undecimal_decimal [simp]: "undecimal (decimal n) = n"
proof (induction n rule: decimal.induct)
  case (1 n)
  show ?case
  proof (cases "n < 10")
    case True
    then show ?thesis
      by (subst decimal.simps) (simp add: undecimal_def)
  next
    case False
    with 1 have "undecimal (decimal (n div 10)) = n div 10" by simp
    with False show ?thesis
      by (subst decimal.simps) (simp add: undecimal_def)
  qed
qed

lemma decimal_inject [simp]: "decimal m = decimal n \<longleftrightarrow> m = n"
  by (metis undecimal_decimal)

lemma digit_char_range: "d < 10 \<Longrightarrow> of_char (digit_char d) \<in> {48..57::nat}"
  by (simp add: digit_char_def)

lemma decimal_digits: "c \<in> set (decimal n) \<Longrightarrow> of_char c \<in> {48..57::nat}"
proof (induction n rule: decimal.induct)
  case (1 n)
  show ?case
  proof (cases "n < 10")
    case True
    with "1.prems" show ?thesis
      by (subst (asm) decimal.simps) (auto simp: digit_char_def)
  next
    case False
    with "1.prems" have "c \<in> set (decimal (n div 10)) \<or> c = digit_char (n mod 10)"
      by (subst (asm) decimal.simps) auto
    with "1.IH" False show ?thesis by (auto simp: digit_char_def)
  qed
qed

lemma colon_notin_decimal [simp]: "CHR '':'' \<notin> set (decimal n)"
  using decimal_digits [of "CHR '':''" n] by auto

lemma sep_append_inject:
  assumes "c \<notin> set a" and "c \<notin> set b"
  shows "a @ c # x = b @ c # y \<longleftrightarrow> a = b \<and> x = y"
  using assms
proof (induction a arbitrary: b)
  case Nil
  then show ?case by (cases b) auto
next
  case (Cons z a)
  then show ?case by (cases b) auto
qed

section \<open>Slices\<close>

text \<open>The \<open>i\<close>th slice of \<open>c\<close> elements, as \<open>subarray (i * c, min (i * c + c, length))\<close>.\<close>

definition slice_at :: "nat \<Rightarrow> 'a list \<Rightarrow> nat \<Rightarrow> 'a list" where
  "slice_at c xs i = take c (drop (i * c) xs)"

definition slice_count :: "nat \<Rightarrow> 'a list \<Rightarrow> nat" where
  "slice_count c xs = (length xs + c - 1) div c"

lemma slice_count_Nil [simp]: "0 < c \<Longrightarrow> slice_count c [] = 0"
  by (simp add: slice_count_def)

lemma slice_count_bounds:
  assumes "0 < c"
  shows "length xs \<le> slice_count c xs * c" and "slice_count c xs * c < length xs + c"
proof -
  let ?n = "length xs + c - 1"
  have eq: "?n = ?n div c * c + ?n mod c" by simp
  have lt: "?n mod c < c" using assms by simp
  show "length xs \<le> slice_count c xs * c" and "slice_count c xs * c < length xs + c"
    unfolding slice_count_def using eq lt assms by linarith+
qed

lemma slice_in_range:
  assumes "0 < c" and "i < slice_count c xs"
  shows "i * c < length xs"
proof -
  have "Suc i * c \<le> slice_count c xs * c"
    by (rule mult_le_mono1) (use assms(2) in simp)
  with slice_count_bounds(2) [OF assms(1), of xs] show ?thesis by simp
qed

lemma slice_full:
  assumes "0 < c" and "Suc i < slice_count c xs"
  shows "length (slice_at c xs i) = c"
  using slice_in_range [OF assms] by (simp add: slice_at_def)

lemma take_Suc_slice: "take (Suc i * c) xs = take (i * c) xs @ slice_at c xs i"
proof -
  have "Suc i * c = i * c + c" by simp
  then show ?thesis by (simp only: take_add slice_at_def)
qed

lemma concat_slices: "concat (List.map (slice_at c xs) [0..<n]) = take (n * c) xs"
proof (induction n)
  case 0
  then show ?case by simp
next
  case (Suc n)
  then show ?case
    by (simp add: slice_at_def take_add [symmetric] add.commute)
qed

lemma concat_slices_all:
  "0 < c \<Longrightarrow> concat (List.map (slice_at c xs) [0..<slice_count c xs]) = xs"
  using slice_count_bounds(1) [of c xs] by (simp add: concat_slices)

section \<open>Sets in insertion order\<close>

text \<open>\<open>Set.add\<close>: a new element goes to the end.\<close>

definition set_add :: "'a \<Rightarrow> 'a list \<Rightarrow> 'a list" where
  "set_add x xs = (if x \<in> set xs then xs else xs @ [x])"

lemma set_set_add: "set (fold set_add ks xs) = set ks \<union> set xs"
  by (induction ks arbitrary: xs) (auto simp: set_add_def)

lemma distinct_set_add: "distinct xs \<Longrightarrow> distinct (fold set_add ks xs)"
  by (induction ks arbitrary: xs) (auto simp: set_add_def)

end
