(* ===== verification/JsValue.thy ===== *)
theory JsValue
  imports Prelude
begin

text \<open>
  The values of type \<open>unknown\<close> that the source inspects at run time (what storage
  returns, what a CRDT map holds, what \<open>JSON.parse\<close> gives), and the run-time tests
  it applies to them.
\<close>

section \<open>Numbers\<close>

text \<open>A finite double is the rational it denotes; \<open>-0\<close> and \<open>0\<close> are identified, as \<open>===\<close> does.\<close>

datatype js_num = NaN | PosInf | NegInf | Fin rat

definition is_finite_num :: "js_num \<Rightarrow> bool" where
  "is_finite_num n = (case n of Fin q \<Rightarrow> True | _ \<Rightarrow> False)"

definition is_integer_num :: "js_num \<Rightarrow> bool" where
  "is_integer_num n = (case n of Fin q \<Rightarrow> of_int \<lfloor>q\<rfloor> = q | _ \<Rightarrow> False)"

text \<open>\<open>Number.isSafeInteger\<close>: an integer of magnitude at most \<open>2 ^ 53 - 1\<close>.\<close>

definition is_safe_integer_num :: "js_num \<Rightarrow> bool" where
  "is_safe_integer_num n = (case n of
      Fin q \<Rightarrow> of_int \<lfloor>q\<rfloor> = q \<and> \<bar>q\<bar> \<le> 9007199254740991
    | _ \<Rightarrow> False)"

text \<open>The integer a number that passed \<open>Number.isInteger\<close> stands for.\<close>

definition int_of_num :: "js_num \<Rightarrow> int" where
  "int_of_num n = (case n of Fin q \<Rightarrow> \<lfloor>q\<rfloor> | _ \<Rightarrow> 0)"

definition num_of_nat :: "nat \<Rightarrow> js_num" where
  "num_of_nat n = Fin (of_nat n)"

text \<open>The relational operators: any comparison with NaN is false.\<close>

fun num_less :: "js_num \<Rightarrow> js_num \<Rightarrow> bool" where
  "num_less (Fin a) (Fin b) = (a < b)"
| "num_less NegInf (Fin b) = True"
| "num_less NegInf PosInf = True"
| "num_less (Fin a) PosInf = True"
| "num_less _ _ = False"

definition num_eq :: "js_num \<Rightarrow> js_num \<Rightarrow> bool" where
  "num_eq a b = (a \<noteq> NaN \<and> a = b)"

definition num_le :: "js_num \<Rightarrow> js_num \<Rightarrow> bool" where
  "num_le a b = (num_less a b \<or> num_eq a b)"

lemma num_of_nat_simps [simp]:
  "is_finite_num (num_of_nat n)"
  "is_integer_num (num_of_nat n)"
  "int_of_num (num_of_nat n) = int n"
  "num_of_nat m = num_of_nat n \<longleftrightarrow> m = n"
  by (simp_all add: num_of_nat_def is_finite_num_def is_integer_num_def int_of_num_def)

section \<open>Dynamic values\<close>

text \<open>
  \<open>JUint8\<close>, \<open>JBuffer\<close> and \<open>JView\<close> are the three kinds of binary payload the source
  tells apart (a byte array, a raw buffer, any other view of a buffer with its offset
  and length). \<open>JYMap\<close> is a nested CRDT map, \<open>JObj\<close> a plain object: both list their
  own properties. \<open>JArr\<close> is an array, \<open>JDict\<close> a plain object used as a dictionary, whose keys are any
  strings.
\<close>

datatype js_value =
    JUndefined
  | JNull
  | JBool bool
  | JNum js_num
  | JStr jsstr
  | JUint8 bytes
  | JBuffer bytes
  | JView bytes nat nat
  | JArr "js_value list"
  | JObj "(string \<times> js_value) list"
  | JYMap "(string \<times> js_value) list"
  | JDict "(jsstr \<times> js_value) list"

text \<open>\<open>typeof value === "object" && value !== null\<close>.\<close>

fun is_object_value :: "js_value \<Rightarrow> bool" where
  "is_object_value JUndefined = False"
| "is_object_value JNull = False"
| "is_object_value (JBool _) = False"
| "is_object_value (JNum _) = False"
| "is_object_value (JStr _) = False"
| "is_object_value _ = True"

text \<open>Property access on an object; a property that is not there reads as undefined. The
  names the source reads (\<open>version\<close>, \<open>path\<close>, \<dots>) are own properties of plain objects only.\<close>

fun js_prop :: "js_value \<Rightarrow> string \<Rightarrow> js_value" where
  "js_prop (JObj ps) k = (case map_of ps k of Some v \<Rightarrow> v | None \<Rightarrow> JUndefined)"
| "js_prop (JDict ps) k = (case map_of ps (lit k) of Some v \<Rightarrow> v | None \<Rightarrow> JUndefined)"
| "js_prop _ k = JUndefined"

definition is_string_value :: "js_value \<Rightarrow> bool" where
  "is_string_value v = (case v of JStr _ \<Rightarrow> True | _ \<Rightarrow> False)"

definition string_of_value :: "js_value \<Rightarrow> jsstr" where
  "string_of_value v = (case v of JStr s \<Rightarrow> s | _ \<Rightarrow> [])"

text \<open>\<open>Number.isInteger\<close> of an arbitrary value, and the number it then is.\<close>

definition is_integer_value :: "js_value \<Rightarrow> bool" where
  "is_integer_value v = (case v of JNum n \<Rightarrow> is_integer_num n | _ \<Rightarrow> False)"

definition int_of_value :: "js_value \<Rightarrow> int" where
  "int_of_value v = (case v of JNum n \<Rightarrow> int_of_num n | _ \<Rightarrow> 0)"

definition nat_value :: "nat \<Rightarrow> js_value" where
  "nat_value n = JNum (num_of_nat n)"

lemma nat_value_simps [simp]:
  "is_integer_value (nat_value n)"
  "int_of_value (nat_value n) = int n"
  "nat_value m = nat_value n \<longleftrightarrow> m = n"
  by (simp_all add: nat_value_def is_integer_value_def int_of_value_def)

lemma string_value_simps [simp]:
  "is_string_value (JStr s)"
  "string_of_value (JStr s) = s"
  by (simp_all add: is_string_value_def string_of_value_def)

text \<open>
  What \<open>JSON.parse (JSON.stringify v)\<close> gives for a value of plain data: an undefined property is
  left out, an undefined element and a number that is not finite become null. (Binary
  payloads are never handed to it and count as objects without properties.)
\<close>

fun json_copy :: "js_value \<Rightarrow> js_value" where
  "json_copy (JNum n) = (if is_finite_num n then JNum n else JNull)"
| "json_copy (JArr vs) = JArr (List.map (\<lambda>v. if v = JUndefined then JNull else json_copy v) vs)"
| "json_copy (JObj ps) = JObj (filter (\<lambda>(k, v). v \<noteq> JUndefined) (List.map (\<lambda>(k, v). (k, json_copy v)) ps))"
| "json_copy (JYMap ps) = JObj (filter (\<lambda>(k, v). v \<noteq> JUndefined) (List.map (\<lambda>(k, v). (k, json_copy v)) ps))"
| "json_copy (JDict ps) = JDict (filter (\<lambda>(k, v). v \<noteq> JUndefined) (List.map (\<lambda>(k, v). (k, json_copy v)) ps))"
| "json_copy (JUint8 _) = JObj []"
| "json_copy (JBuffer _) = JObj []"
| "json_copy (JView _ _ _) = JObj []"
| "json_copy v = v"

lemma json_copy_undefined [simp]: "json_copy v = JUndefined \<longleftrightarrow> v = JUndefined"
  by (cases v) auto

lemma map_of_copy:
  assumes "\<And>v. f v = JUndefined \<longleftrightarrow> v = JUndefined"
  shows "distinct (List.map fst ps) \<Longrightarrow>
    map_of (filter (\<lambda>(k, v). v \<noteq> JUndefined) (List.map (\<lambda>(k, v). (k, f v)) ps)) k =
    (case map_of ps k of Some v \<Rightarrow> if v = JUndefined then None else Some (f v) | None \<Rightarrow> None)"
proof (induction ps)
  case Nil
  then show ?case by simp
next
  case (Cons p ps)
  obtain a v where p: "p = (a, v)" by (cases p)
  from Cons.prems p have new: "map_of ps a = None" by (simp add: map_of_eq_None_iff)
  from Cons p new assms show ?case by (cases "k = a") auto
qed

lemma json_copy_prop:
  assumes "distinct (List.map fst ps)"
  shows "js_prop (json_copy (JObj ps)) k = json_copy (js_prop (JObj ps) k)"
  using map_of_copy [of json_copy ps k] assms by (simp split: option.split)

section \<open>Hexadecimal\<close>

text \<open>\<open>hex.ts\<close>: the table \<open>BYTE_TO_HEX\<close> and \<open>bytesToHex\<close>.\<close>

definition hex_digit :: "nat \<Rightarrow> code_unit" where
  "hex_digit d = (if d < 10 then of_nat (48 + d) else of_nat (87 + d))"

definition byteToHex :: "byte \<Rightarrow> jsstr" where
  "byteToHex b = [hex_digit (unat b div 16), hex_digit (unat b mod 16)]"

definition bytesToHex :: "bytes \<Rightarrow> jsstr" where
  "bytesToHex bs = foldl (\<lambda>out b. out @ byteToHex b) [] bs"

text \<open>\<open>sha256Hex\<close> over the runtime's digest, which is a parameter.\<close>

definition sha256Hex :: "(bytes \<Rightarrow> bytes) \<Rightarrow> bytes \<Rightarrow> jsstr" where
  "sha256Hex digest bs = bytesToHex (digest bs)"

text \<open>The test \<open>/^[0-9a-f]{64}$/\<close>.\<close>

definition is_hex_unit :: "code_unit \<Rightarrow> bool" where
  "is_hex_unit u = ((48 \<le> u \<and> u \<le> 57) \<or> (97 \<le> u \<and> u \<le> 102))"

definition is_sha256_hex :: "jsstr \<Rightarrow> bool" where
  "is_sha256_hex s = (length s = 64 \<and> list_all is_hex_unit s)"

lemma foldl_append_concat: "foldl (\<lambda>out b. out @ f b) acc bs = acc @ concat (List.map f bs)"
  by (induction bs arbitrary: acc) auto

lemma bytesToHex_concat: "bytesToHex bs = concat (List.map byteToHex bs)"
  by (simp add: bytesToHex_def foldl_append_concat)

lemma hex_digit_is_hex:
  assumes "d < 16"
  shows "is_hex_unit (hex_digit d)"
proof (cases "d < 10")
  case True
  then have "d \<in> {0,1,2,3,4,5,6,7,8,9}" by auto
  then show ?thesis by (auto simp: hex_digit_def is_hex_unit_def)
next
  case False
  with assms have "d \<in> {10,11,12,13,14,15}" by auto
  then show ?thesis by (auto simp: hex_digit_def is_hex_unit_def)
qed

definition hex_value :: "code_unit \<Rightarrow> nat" where
  "hex_value u = (if u < 97 then unat u - 48 else unat u - 87)"

lemma hex_value_digit:
  assumes "d < 16"
  shows "hex_value (hex_digit d) = d"
proof (cases "d < 10")
  case True
  then have "d \<in> {0,1,2,3,4,5,6,7,8,9}" by auto
  then show ?thesis by (auto simp: hex_digit_def hex_value_def)
next
  case False
  with assms have "d \<in> {10,11,12,13,14,15}" by auto
  then show ?thesis by (auto simp: hex_digit_def hex_value_def)
qed

lemma unat_byte_halves: "unat (b :: byte) div 16 < 16 \<and> unat b mod 16 < 16"
proof -
  have "unat b < 2 ^ LENGTH(8)" by (rule unsigned_less)
  then show ?thesis by auto
qed

lemma byteToHex_props:
  "length (byteToHex b) = 2" "list_all is_hex_unit (byteToHex b)"
proof -
  show "length (byteToHex b) = 2" "list_all is_hex_unit (byteToHex b)"
    by (simp_all add: byteToHex_def hex_digit_is_hex unat_byte_halves)
qed

lemma byteToHex_inject [simp]: "byteToHex a = byteToHex b \<longleftrightarrow> a = b"
proof
  assume eq: "byteToHex a = byteToHex b"
  have lt: "unat x div 16 < 16 \<and> unat x mod 16 < 16" for x :: byte
    by (rule unat_byte_halves)
  from eq have "unat a div 16 = unat b div 16" and "unat a mod 16 = unat b mod 16"
    using lt [of a] lt [of b] hex_value_digit by (auto simp: byteToHex_def dest: arg_cong [of _ _ hex_value])
  then have "unat a = unat b" by (metis div_mult_mod_eq)
  then show "a = b" by (simp only: word_unat_eq_iff)
qed simp

lemma length_bytesToHex [simp]: "length (bytesToHex bs) = 2 * length bs"
  by (induction bs) (auto simp: bytesToHex_concat byteToHex_props)

lemma bytesToHex_is_hex: "list_all is_hex_unit (bytesToHex bs)"
  by (induction bs) (auto simp: bytesToHex_concat byteToHex_props)

lemma sha256Hex_is_sha256_hex: "length (digest bs) = 32 \<Longrightarrow> is_sha256_hex (sha256Hex digest bs)"
  by (simp add: is_sha256_hex_def sha256Hex_def bytesToHex_is_hex)

lemma bytesToHex_inject [simp]: "bytesToHex a = bytesToHex b \<longleftrightarrow> a = b"
proof
  show "bytesToHex a = bytesToHex b \<Longrightarrow> a = b"
  proof (induction a arbitrary: b)
    case Nil
    then show ?case
      by (cases b) (auto simp: bytesToHex_concat byteToHex_def)
  next
    case (Cons x a)
    then obtain y b' where b: "b = y # b'"
      by (cases b) (auto simp: bytesToHex_concat byteToHex_def)
    with Cons.prems have "byteToHex x = byteToHex y \<and> bytesToHex a = bytesToHex b'"
      by (simp add: bytesToHex_concat byteToHex_props)
    with Cons.IH b show ?case by simp
  qed
qed simp

end
