(* ===== verification/StoragePort.thy ===== *)
theory StoragePort
  imports JsValue
begin

text \<open>
  The key-value storage behind a vault, as the interface \<open>StorageLike\<close> of
  \<open>chunkedDocStore.ts\<close> declares it. The runtime that implements it is not part of
  the repository, so the operations are a record the model takes as an argument, and
  what the code relies on is the locale \<open>txn_storage\<close>: a get returns what the last
  put stored, an operation on at most \<open>limit\<close> keys does not fail unless the storage
  is \<open>flaky\<close>, and a transaction that throws leaves the contents as they were.
  \<open>ref_storage\<close> is the in-memory reference the laws are checked on, and
  \<open>faulty_storage\<close> the same with a script of injected failures.
\<close>

section \<open>The interface\<close>

record ('s, 'e) storage_ops =
  st_get :: "string \<Rightarrow> ('s, 'e, js_value option) act"
  st_get_many :: "string list \<Rightarrow> ('s, 'e, (string \<times> js_value) list) act"
  st_put :: "(string \<times> js_value) list \<Rightarrow> ('s, 'e, unit) act"
  st_delete :: "string list \<Rightarrow> ('s, 'e, nat) act"
  st_transaction :: "('s, 'e, unit) act \<Rightarrow> ('s, 'e, unit) act"

type_synonym contents = "string \<Rightarrow> js_value option"

definition put_all :: "(string \<times> js_value) list \<Rightarrow> contents \<Rightarrow> contents" where
  "put_all kvs m = fold (\<lambda>(k, v) m. m(k \<mapsto> v)) kvs m"

definition delete_all :: "string list \<Rightarrow> contents \<Rightarrow> contents" where
  "delete_all ks m = (\<lambda>k. if k \<in> set ks then None else m k)"

lemma put_all_simps [simp]:
  "put_all [] m = m"
  "put_all ((k, v) # kvs) m = put_all kvs (m(k \<mapsto> v))"
  by (simp_all add: put_all_def)

lemma put_all_append: "put_all (xs @ ys) m = put_all ys (put_all xs m)"
  by (simp add: put_all_def)

lemma put_all_other: "k \<notin> fst ` set kvs \<Longrightarrow> put_all kvs m k = m k"
  by (induction kvs arbitrary: m) auto

lemma put_all_distinct:
  "distinct (List.map fst kvs) \<Longrightarrow> (k, v) \<in> set kvs \<Longrightarrow> put_all kvs m k = Some v"
proof (induction kvs arbitrary: m)
  case Nil
  then show ?case by simp
next
  case (Cons kv kvs)
  then show ?case
    by (cases kv) (auto simp: put_all_other image_iff)
qed

lemma delete_all_Nil [simp]: "delete_all [] m = m"
  by (simp add: delete_all_def)

lemma delete_all_append: "delete_all (xs @ ys) m = delete_all ys (delete_all xs m)"
  by (auto simp: delete_all_def)

section \<open>The contract\<close>

definition storage_fails :: "bool \<Rightarrow> ('s \<Rightarrow> contents) \<Rightarrow> 's \<Rightarrow> 'e option \<Rightarrow> 's \<Rightarrow> bool" where
  "storage_fails flaky view s e s' = (flaky \<and> e \<noteq> None \<and> view s' = view s)"

locale txn_storage =
  fixes ops :: "('s, 'e) storage_ops"
    and view :: "'s \<Rightarrow> contents"
    and limit :: nat
    and flaky :: bool
  assumes get_law: "wp (st_get ops k) (\<lambda>v s'. v = view s k \<and> view s' = view s)
      (storage_fails flaky view s) s"
    and get_many_law: "length ks \<le> limit \<Longrightarrow>
      wp (st_get_many ops ks)
        (\<lambda>es s'. distinct (List.map fst es) \<and> map_of es = view s |` set ks \<and> view s' = view s)
        (storage_fails flaky view s) s"
    and put_law: "length kvs \<le> limit \<Longrightarrow>
      wp (st_put ops kvs) (\<lambda>_ s'. view s' = put_all kvs (view s)) (storage_fails flaky view s) s"
    and delete_law: "length ks \<le> limit \<Longrightarrow>
      wp (st_delete ops ks) (\<lambda>_ s'. view s' = delete_all ks (view s)) (storage_fails flaky view s) s"
    and transaction_law:
      "(\<And>s0. view s0 = view s \<Longrightarrow> wp f (\<lambda>_ s1. P (view s1)) (\<lambda>e _. E e) s0) \<Longrightarrow>
       wp (st_transaction ops f) (\<lambda>_ s'. P (view s'))
         (\<lambda>e s'. (E e \<or> flaky \<and> e \<noteq> None) \<and> view s' = view s) s"

section \<open>Reference storage\<close>

definition ref_get_entries :: "string list \<Rightarrow> contents \<Rightarrow> (string \<times> js_value) list" where
  "ref_get_entries ks m =
     List.map (\<lambda>k. (k, the (m k))) (filter (\<lambda>k. m k \<noteq> None) (remdups ks))"

definition ref_storage :: "nat \<Rightarrow> 'e \<Rightarrow> (contents, 'e) storage_ops" where
  "ref_storage limit err = \<lparr>
     st_get = (\<lambda>k m. (Return (m k), m)),
     st_get_many = (\<lambda>ks m. if limit < length ks then (Throw err, m)
                            else (Return (ref_get_entries ks m), m)),
     st_put = (\<lambda>kvs m. if limit < length kvs then (Throw err, m)
                        else (Return (), put_all kvs m)),
     st_delete = (\<lambda>ks m. if limit < length ks then (Throw err, m)
                          else (Return (length (filter (\<lambda>k. m k \<noteq> None) ks)), delete_all ks m)),
     st_transaction = (\<lambda>f m. case f m of
         (Return u, m') \<Rightarrow> (Return u, m')
       | (Throw e, m') \<Rightarrow> (Throw e, m)
       | (Diverge, m') \<Rightarrow> (Diverge, m)) \<rparr>"

lemma map_of_ref_get_entries: "map_of (ref_get_entries ks m) = m |` set ks"
proof
  fix k
  show "map_of (ref_get_entries ks m) k = (m |` set ks) k"
  proof (cases "k \<in> set ks \<and> m k \<noteq> None")
    case True
    then show ?thesis
      by (auto simp: ref_get_entries_def map_of_map_restrict restrict_map_def)
  next
    case False
    then show ?thesis
      by (auto simp: ref_get_entries_def map_of_map_restrict restrict_map_def)
  qed
qed

lemma distinct_ref_get_entries: "distinct (List.map fst (ref_get_entries ks m))"
  by (simp add: ref_get_entries_def comp_def)

interpretation ref_storage: txn_storage "ref_storage limit err" id limit False
proof (unfold_locales, goal_cases)
  case (5 s f P E)
  show ?case
    using 5 [of s]
    by (auto simp: wp_def ref_storage_def split: prod.splits outcome.splits)
qed (auto simp: wp_def ref_storage_def map_of_ref_get_entries distinct_ref_get_entries)

section \<open>Reference storage with injected failures\<close>

text \<open>Each operation consumes one entry of the script; \<open>True\<close> makes it throw.\<close>

definition with_fault :: "'e \<Rightarrow> ('s, 'e, 'a) act \<Rightarrow> ('s \<times> bool list, 'e, 'a) act" where
  "with_fault err m = (\<lambda>(s, fs). case fs of
      True # fs' \<Rightarrow> (Throw err, (s, fs'))
    | _ \<Rightarrow> (case m s of (r, s') \<Rightarrow> (r, (s', tl fs))))"

definition faulty_storage :: "nat \<Rightarrow> 'e \<Rightarrow> (contents \<times> bool list, 'e) storage_ops" where
  "faulty_storage limit err = \<lparr>
     st_get = (\<lambda>k. with_fault err (st_get (ref_storage limit err) k)),
     st_get_many = (\<lambda>ks. with_fault err (st_get_many (ref_storage limit err) ks)),
     st_put = (\<lambda>kvs. with_fault err (st_put (ref_storage limit err) kvs)),
     st_delete = (\<lambda>ks. with_fault err (st_delete (ref_storage limit err) ks)),
     st_transaction = (\<lambda>f (m, fs). case fs of
         True # fs' \<Rightarrow> (Throw err, (m, fs'))
       | _ \<Rightarrow> (case f (m, tl fs) of
           (Return u, s') \<Rightarrow> (Return u, s')
         | (Throw e, (m', fs')) \<Rightarrow> (Throw e, (m, fs'))
         | (Diverge, (m', fs')) \<Rightarrow> (Diverge, (m, fs')))) \<rparr>"

lemma wp_with_fault:
  assumes "wp m Q (\<lambda>_ _. False) (fst s)"
    and "\<And>x m' fs'. Q x m' \<Longrightarrow> Q' x (m', fs')"
    and "\<And>fs'. R (Some err) (fst s, fs')"
  shows "wp (with_fault err m) Q' R s"
  using assms
  by (auto simp: wp_def with_fault_def split: prod.splits outcome.splits list.splits bool.splits)

interpretation faulty_storage: txn_storage "faulty_storage limit err" fst limit True
proof (unfold_locales, goal_cases)
  case (1 k s)
  show ?case
    by (simp add: faulty_storage_def)
      (rule wp_with_fault [OF wp_mono [OF ref_storage.get_law]],
        auto simp: storage_fails_def)
next
  case (2 ks s)
  then show ?case
    by (simp add: faulty_storage_def)
      (rule wp_with_fault [OF wp_mono [OF ref_storage.get_many_law]],
        auto simp: storage_fails_def)
next
  case (3 kvs s)
  then show ?case
    by (simp add: faulty_storage_def)
      (rule wp_with_fault [OF wp_mono [OF ref_storage.put_law]],
        auto simp: storage_fails_def)
next
  case (4 ks s)
  then show ?case
    by (simp add: faulty_storage_def)
      (rule wp_with_fault [OF wp_mono [OF ref_storage.delete_law]],
        auto simp: storage_fails_def)
next
  case (5 s f P E)
  obtain m fs where s: "s = (m, fs)" by (cases s)
  have "wp f (\<lambda>_ s1. P (fst s1)) (\<lambda>e _. E e) (m, tl fs)"
    using 5 [of "(m, tl fs)"] s by simp
  then show ?case
    by (auto simp: s wp_def faulty_storage_def split: prod.splits outcome.splits list.splits bool.splits)
qed

end
