(* ===== verification/DocStore.thy ===== *)
theory DocStore
  imports StoragePort
begin

text \<open>
  The chunked document store, \<open>packages/yaos-core/src/chunkedDocStore.ts\<close>: a vault's
  CRDT document is kept as one checkpoint (an update and its state vector) plus a
  journal of updates, each payload cut into chunks, described by a manifest, and
  written under keys of its own. Operations are in the source's order and are built
  from the same helpers; the storage is the argument \<open>ops\<close>, SHA-256 the argument
  \<open>digest\<close>, and the time stamp an operation takes is its argument \<open>now\<close>. The sequence numbers of the journal are
  doubles, rounded as the code's arithmetic rounds them; checkpoint versions, chunk counts and byte totals are exact,
  which they are in the code up to \<open>2 ^ 53\<close>.
\<close>

section \<open>Errors, records and configuration\<close>

datatype doc_error =
    InvalidBinaryPayload string
  | CheckpointPointerInvalid
  | CheckpointManifestInvalid nat
  | CheckpointVersionMismatch nat nat
  | StateVectorMissing nat
  | StateVectorLengthMismatch nat nat
  | StateVectorHashMismatch
  | LoadExpectedChunks string nat nat
  | LoadMissingChunk string nat
  | LoadChunkLength string nat nat
  | LoadFinalChunkTooLarge string nat
  | LoadChunksExceedManifest string
  | LoadLengthMismatch string nat nat
  | LoadHashMismatch string
  | JournalMetaInvalid
  | JournalMetaInconsistent nat nat
  | JournalEmptyWithBytes
  | JournalManifestsMissing string nat nat
  | JournalManifestInvalid string nat
  | JournalTotalBytesMismatch nat nat
  | StorageFailure string

record manifest_pointer =
  ptr_version :: nat

record checkpoint_manifest =
  ck_version :: nat
  ck_chunkSizeBytes :: nat
  ck_chunkCount :: nat
  ck_byteLength :: nat
  ck_sha256 :: jsstr
  ck_stateVectorByteLength :: nat
  ck_stateVectorSha256 :: jsstr
  ck_updatedAt :: jsstr

record journal_meta =
  jm_nextSeq :: nat
  jm_entryCount :: nat
  jm_totalBytes :: nat
  jm_updatedAt :: jsstr

record journal_entry_manifest =
  je_seq :: nat
  je_chunkSizeBytes :: nat
  je_chunkCount :: nat
  je_byteLength :: nat
  je_sha256 :: jsstr
  je_updatedAt :: jsstr

record chunk_descriptor =
  cd_chunkCount :: nat
  cd_chunkSizeBytes :: nat
  cd_byteLength :: nat
  cd_sha256 :: jsstr

record journal_stats =
  js_entryCount :: nat
  js_totalBytes :: nat
  js_nextSeq :: nat

record loaded_doc_state =
  ld_checkpoint :: "bytes option"
  ld_checkpointStateVector :: "bytes option"
  ld_journalUpdates :: "bytes list"
  ld_journalStats :: journal_stats

record store_config =
  chunkSizeBytes :: nat
  maxKeysPerOperation :: nat

text \<open>The constructor: absent options take the defaults.\<close>

definition newChunkedDocStore :: "nat option \<Rightarrow> nat option \<Rightarrow> store_config" where
  "newChunkedDocStore optChunk optKeys = \<lparr>
     chunkSizeBytes = (case optChunk of Some c \<Rightarrow> c | None \<Rightarrow> 512 * 1024),
     maxKeysPerOperation = (case optKeys of Some k \<Rightarrow> k | None \<Rightarrow> 128) \<rparr>"

section \<open>Keys\<close>

definition CHECKPOINT_POINTER_KEY :: string where
  "CHECKPOINT_POINTER_KEY = ''document:checkpoint:current''"

definition JOURNAL_META_KEY :: string where
  "JOURNAL_META_KEY = ''document:journal:meta''"

definition checkpointManifestKey :: "nat \<Rightarrow> string" where
  "checkpointManifestKey version = ''document:checkpoint:manifest:'' @ decimal version"

definition checkpointChunkKey :: "nat \<Rightarrow> nat \<Rightarrow> string" where
  "checkpointChunkKey version index =
     ''document:checkpoint:chunk:'' @ decimal version @ '':'' @ decimal index"

definition checkpointStateVectorKey :: "nat \<Rightarrow> string" where
  "checkpointStateVectorKey version = ''document:checkpoint:state-vector:'' @ decimal version"

definition journalManifestKey :: "nat \<Rightarrow> string" where
  "journalManifestKey seq = ''document:journal:manifest:'' @ decimal seq"

definition journalChunkKey :: "nat \<Rightarrow> nat \<Rightarrow> string" where
  "journalChunkKey seq index =
     ''document:journal:chunk:'' @ decimal seq @ '':'' @ decimal index"

section \<open>Run-time checks of stored values\<close>

fun normalizeBytes :: "js_value \<Rightarrow> string \<Rightarrow> doc_error + bytes" where
  "normalizeBytes (JUint8 bs) label = Inr bs"
| "normalizeBytes (JView buffer offset len) label = Inr (take len (drop offset buffer))"
| "normalizeBytes (JBuffer bs) label = Inr bs"
| "normalizeBytes _ label = Inl (InvalidBinaryPayload label)"

text \<open>The checks on integer properties that the guards share.\<close>

definition int_prop_ge :: "js_value \<Rightarrow> string \<Rightarrow> int \<Rightarrow> bool" where
  "int_prop_ge v name lo =
     (is_integer_value (js_prop v name) \<and> lo \<le> int_of_value (js_prop v name))"

definition nat_prop :: "js_value \<Rightarrow> string \<Rightarrow> nat" where
  "nat_prop v name = nat (int_of_value (js_prop v name))"

definition sha_prop :: "js_value \<Rightarrow> string \<Rightarrow> bool" where
  "sha_prop v name =
     (is_string_value (js_prop v name) \<and> is_sha256_hex (string_of_value (js_prop v name)))"

definition isManifestPointer :: "js_value \<Rightarrow> bool" where
  "isManifestPointer v = (is_object_value v \<and> int_prop_ge v ''version'' 1)"

definition isChunkedManifest :: "js_value \<Rightarrow> bool" where
  "isChunkedManifest m =
     (is_object_value m \<and>
      js_prop m ''format'' = JStr (lit ''yaos-doc-checkpoint-v2'') \<and>
      int_prop_ge m ''version'' 1 \<and>
      int_prop_ge m ''chunkSizeBytes'' 1 \<and>
      int_prop_ge m ''chunkCount'' 0 \<and>
      int_prop_ge m ''byteLength'' 0 \<and>
      sha_prop m ''sha256'' \<and>
      int_prop_ge m ''stateVectorByteLength'' 0 \<and>
      sha_prop m ''stateVectorSha256'' \<and>
      is_string_value (js_prop m ''updatedAt'') \<and>
      string_of_value (js_prop m ''updatedAt'') \<noteq> [])"

definition isJournalMeta :: "js_value \<Rightarrow> bool" where
  "isJournalMeta m =
     (is_object_value m \<and>
      js_prop m ''format'' = JStr (lit ''yaos-doc-journal-v1'') \<and>
      int_prop_ge m ''nextSeq'' 1 \<and>
      int_prop_ge m ''entryCount'' 0 \<and>
      int_prop_ge m ''totalBytes'' 0 \<and>
      is_string_value (js_prop m ''updatedAt'') \<and>
      string_of_value (js_prop m ''updatedAt'') \<noteq> [])"

definition isJournalEntryManifest :: "js_value \<Rightarrow> bool" where
  "isJournalEntryManifest m =
     (is_object_value m \<and>
      js_prop m ''format'' = JStr (lit ''yaos-doc-journal-entry-v1'') \<and>
      int_prop_ge m ''seq'' 1 \<and>
      int_prop_ge m ''chunkSizeBytes'' 1 \<and>
      int_prop_ge m ''chunkCount'' 0 \<and>
      int_prop_ge m ''byteLength'' 0 \<and>
      sha_prop m ''sha256'' \<and>
      is_string_value (js_prop m ''updatedAt'') \<and>
      string_of_value (js_prop m ''updatedAt'') \<noteq> [])"

text \<open>A value that passed its guard is used at the guard's type: the record it stands for.\<close>

definition as_pointer :: "js_value \<Rightarrow> manifest_pointer" where
  "as_pointer v = \<lparr>ptr_version = nat_prop v ''version''\<rparr>"

definition as_checkpoint_manifest :: "js_value \<Rightarrow> checkpoint_manifest" where
  "as_checkpoint_manifest v = \<lparr>
     ck_version = nat_prop v ''version'',
     ck_chunkSizeBytes = nat_prop v ''chunkSizeBytes'',
     ck_chunkCount = nat_prop v ''chunkCount'',
     ck_byteLength = nat_prop v ''byteLength'',
     ck_sha256 = string_of_value (js_prop v ''sha256''),
     ck_stateVectorByteLength = nat_prop v ''stateVectorByteLength'',
     ck_stateVectorSha256 = string_of_value (js_prop v ''stateVectorSha256''),
     ck_updatedAt = string_of_value (js_prop v ''updatedAt'')\<rparr>"

definition as_journal_meta :: "js_value \<Rightarrow> journal_meta" where
  "as_journal_meta v = \<lparr>
     jm_nextSeq = nat_prop v ''nextSeq'',
     jm_entryCount = nat_prop v ''entryCount'',
     jm_totalBytes = nat_prop v ''totalBytes'',
     jm_updatedAt = string_of_value (js_prop v ''updatedAt'')\<rparr>"

definition as_journal_entry_manifest :: "js_value \<Rightarrow> journal_entry_manifest" where
  "as_journal_entry_manifest v = \<lparr>
     je_seq = nat_prop v ''seq'',
     je_chunkSizeBytes = nat_prop v ''chunkSizeBytes'',
     je_chunkCount = nat_prop v ''chunkCount'',
     je_byteLength = nat_prop v ''byteLength'',
     je_sha256 = string_of_value (js_prop v ''sha256''),
     je_updatedAt = string_of_value (js_prop v ''updatedAt'')\<rparr>"

text \<open>The object literals the store writes.\<close>

definition pointer_value :: "manifest_pointer \<Rightarrow> js_value" where
  "pointer_value p = JObj [(''version'', nat_value (ptr_version p))]"

definition checkpoint_manifest_value :: "checkpoint_manifest \<Rightarrow> js_value" where
  "checkpoint_manifest_value m = JObj [
     (''format'', JStr (lit ''yaos-doc-checkpoint-v2'')),
     (''version'', nat_value (ck_version m)),
     (''chunkSizeBytes'', nat_value (ck_chunkSizeBytes m)),
     (''chunkCount'', nat_value (ck_chunkCount m)),
     (''byteLength'', nat_value (ck_byteLength m)),
     (''sha256'', JStr (ck_sha256 m)),
     (''stateVectorByteLength'', nat_value (ck_stateVectorByteLength m)),
     (''stateVectorSha256'', JStr (ck_stateVectorSha256 m)),
     (''updatedAt'', JStr (ck_updatedAt m))]"

definition journal_meta_value :: "journal_meta \<Rightarrow> js_value" where
  "journal_meta_value m = JObj [
     (''format'', JStr (lit ''yaos-doc-journal-v1'')),
     (''nextSeq'', nat_value (jm_nextSeq m)),
     (''entryCount'', nat_value (jm_entryCount m)),
     (''totalBytes'', nat_value (jm_totalBytes m)),
     (''updatedAt'', JStr (jm_updatedAt m))]"

definition journal_entry_manifest_value :: "journal_entry_manifest \<Rightarrow> js_value" where
  "journal_entry_manifest_value m = JObj [
     (''format'', JStr (lit ''yaos-doc-journal-entry-v1'')),
     (''seq'', nat_value (je_seq m)),
     (''chunkSizeBytes'', nat_value (je_chunkSizeBytes m)),
     (''chunkCount'', nat_value (je_chunkCount m)),
     (''byteLength'', nat_value (je_byteLength m)),
     (''sha256'', JStr (je_sha256 m)),
     (''updatedAt'', JStr (je_updatedAt m))]"

section \<open>Loops and counters\<close>

text \<open>A loop that never ends has the value \<open>None\<close>; the operation it stands in does not end either.\<close>

definition act_loop :: "'a option \<Rightarrow> ('s, 'e, 'a) act" where
  "act_loop r = (case r of None \<Rightarrow> act_diverge | Some x \<Rightarrow> act_return x)"

text \<open>
  The journal's counters are doubles. \<open>to_double n\<close> is the double nearest to the integer \<open>n\<close>: \<open>n\<close> itself up to
  \<open>2 ^ 53\<close>, above that the nearest multiple of the spacing \<open>double_unit n\<close>, ties going to the even significand.
\<close>

function double_unit :: "nat \<Rightarrow> nat" where
  "double_unit n = (if n < 2 ^ 53 then 1 else 2 * double_unit (n div 2))"
  by pat_completeness auto
termination
  by (relation "measure id") auto

declare double_unit.simps [simp del]

definition to_double :: "nat \<Rightarrow> nat" where
  "to_double n =
     (if n \<le> 2 ^ 53 then n
      else let unit = double_unit n; below = n div unit; rest = n mod unit in
        if 2 * rest < unit \<or> 2 * rest = unit \<and> even below then below * unit else (below + 1) * unit)"

text \<open>
  \<open>for (let seq = first; seq < limit; seq++)\<close>, the values of \<open>seq\<close>. Where adding one gives the same double the
  loop never ends.
\<close>

function count_from :: "nat \<Rightarrow> nat \<Rightarrow> nat list option" where
  "count_from seq limit =
     (if limit \<le> seq then Some []
      else if to_double (seq + 1) \<le> seq then None
      else map_option (Cons seq) (count_from (to_double (seq + 1)) limit))"
  by pat_completeness auto
termination
  by (relation "measure (\<lambda>(seq, limit). limit - seq)") auto

declare count_from.simps [simp del]

lemma to_double_exact [simp]: "n \<le> 2 ^ 53 \<Longrightarrow> to_double n = n"
  by (simp add: to_double_def)

lemma count_from_exact: "limit \<le> 2 ^ 53 \<Longrightarrow> count_from seq limit = Some [seq..<limit]"
proof (induction seq limit rule: count_from.induct)
  case (1 seq limit)
  then show ?case
    by (subst count_from.simps) (auto simp: upt_conv_Cons)
qed

lemma to_double_stuck: "to_double (2 ^ 53 + 1) = 2 ^ 53"
  by (simp add: to_double_def Let_def double_unit.simps)

lemma count_from_stuck: "seq \<le> 2 ^ 53 \<Longrightarrow> 2 ^ 53 < limit \<Longrightarrow> count_from seq limit = None"
proof (induction seq limit rule: count_from.induct)
  case (1 seq limit)
  show ?case
  proof (cases "seq = 2 ^ 53")
    case True
    with 1(3) to_double_stuck show ?thesis by (subst count_from.simps) simp
  next
    case False
    with 1(2) have "to_double (seq + 1) = seq + 1" "seq + 1 \<le> 2 ^ 53" by simp_all
    with 1 show ?thesis by (subst count_from.simps) simp
  qed
qed

section \<open>Batched access\<close>

text \<open>
  \<open>chunkArray\<close>: the loop advances by \<open>size\<close> (here \<open>batchSize\<close>), so with size 0 and a non-empty array it
  never ends; that is \<open>None\<close>.
\<close>

function chunkArray :: "'a list \<Rightarrow> nat \<Rightarrow> 'a list list option" where
  "chunkArray arr batchSize =
     (if arr = [] then Some []
      else if batchSize = 0 then None
      else map_option (Cons (take batchSize arr)) (chunkArray (drop batchSize arr) batchSize))"
  by pat_completeness auto
termination
  by (relation "measure (\<lambda>(arr, batchSize). length arr)") auto

declare chunkArray.simps [simp del]

text \<open>A \<open>Map\<close> is the association list of its entries in insertion order; \<open>set\<close> is
  \<open>AList.update\<close> and \<open>size\<close> is \<open>length\<close>.\<close>

definition getManyBatched ::
  "('s, doc_error) storage_ops \<Rightarrow> string list \<Rightarrow> nat \<Rightarrow> ('s, doc_error, (string \<times> js_value) list) act" where
  "getManyBatched ops keys maxKeys =
     act_bind (act_loop (chunkArray keys maxKeys)) (\<lambda>batches.
     act_fold (\<lambda>batch merged.
       act_bind (st_get_many ops batch) (\<lambda>page.
       act_return (foldl (\<lambda>merged (key, val). AList.update key val merged) merged page)))
       batches [])"

definition putEntriesBatched ::
  "('s, doc_error) storage_ops \<Rightarrow> (string \<times> js_value) list \<Rightarrow> nat \<Rightarrow> ('s, doc_error, unit) act" where
  "putEntriesBatched ops entries maxKeys =
     act_bind (act_loop (chunkArray entries maxKeys)) (\<lambda>batches.
     act_fold (\<lambda>batch _.
       st_put ops (foldl (\<lambda>rec (key, val). AList.update key val rec) [] batch))
       batches ())"

definition deleteKeysBatched ::
  "('s, doc_error) storage_ops \<Rightarrow> string list \<Rightarrow> nat \<Rightarrow> ('s, doc_error, unit) act" where
  "deleteKeysBatched ops keys maxKeys =
     (if keys = [] then act_return ()
      else act_bind (act_loop (chunkArray keys maxKeys)) (\<lambda>batches.
           act_fold (\<lambda>batch _. act_bind (st_delete ops batch) (\<lambda>_. act_return ())) batches ()))"

text \<open>
  The loop of \<open>putChunkedPayloadBatched\<close>: \<open>n\<close> chunks a round from \<open>chunkStart\<close> on.
  With \<open>n = 0\<close> no round advances and the loop never ends.
\<close>

function putChunkBatches ::
  "('s, doc_error) storage_ops \<Rightarrow> bytes \<Rightarrow> nat \<Rightarrow> (nat \<Rightarrow> string) \<Rightarrow> nat \<Rightarrow> nat \<Rightarrow> nat
     \<Rightarrow> ('s, doc_error, unit) act" where
  "putChunkBatches ops bs csize keyFor n chunkStart chunkCount =
     (if chunkCount \<le> chunkStart then act_return ()
      else if n = 0 then act_diverge
      else act_bind
        (st_put ops
          (List.map (\<lambda>i. (keyFor i, JUint8 (slice_at csize bs i)))
                    [chunkStart..<min (chunkStart + n) chunkCount]))
        (\<lambda>_. putChunkBatches ops bs csize keyFor n (chunkStart + n) chunkCount))"
  by pat_completeness auto
termination
  by (relation "measure (\<lambda>(_, _, _, _, _, start, cnt). cnt - start)") auto

declare putChunkBatches.simps [simp del]

text \<open>
  \<open>Math.ceil (byteLength / chunkSizeBytes)\<close> chunks; with chunk size 0 the quotient is
  infinite and the loop that follows never ends.
\<close>

definition putChunkedPayloadBatched ::
  "('s, doc_error) storage_ops \<Rightarrow> bytes \<Rightarrow> nat \<Rightarrow> (nat \<Rightarrow> string) \<Rightarrow> nat
     \<Rightarrow> ('s, doc_error, nat) act" where
  "putChunkedPayloadBatched ops bs csize keyFor maxKeys =
     (if bs = [] then act_return 0
      else if csize = 0 then act_diverge
      else let chunkCount = slice_count csize bs in
        act_bind (putChunkBatches ops bs csize keyFor maxKeys 0 chunkCount)
          (\<lambda>_. act_return chunkCount))"

section \<open>Journal bookkeeping\<close>

definition emptyJournalMeta :: "jsstr \<Rightarrow> journal_meta" where
  "emptyJournalMeta now =
     \<lparr>jm_nextSeq = 1, jm_entryCount = 0, jm_totalBytes = 0, jm_updatedAt = now\<rparr>"

definition journalStatsFromMeta :: "journal_meta \<Rightarrow> journal_stats" where
  "journalStatsFromMeta meta =
     \<lparr>js_entryCount = jm_entryCount meta, js_totalBytes = jm_totalBytes meta,
      js_nextSeq = jm_nextSeq meta\<rparr>"

definition expectedJournalSeqs :: "journal_meta \<Rightarrow> ('s, doc_error, nat list) act" where
  "expectedJournalSeqs meta =
     (let difference = int (jm_nextSeq meta) - int (jm_entryCount meta) in
      if difference < 1 then act_throw (JournalMetaInconsistent (jm_nextSeq meta) (jm_entryCount meta))
      else act_loop (count_from (to_double (nat difference)) (jm_nextSeq meta)))"

section \<open>Reading a chunked payload\<close>

text \<open>\<open>fullUpdate.set (bytes, offset)\<close> on a typed array.\<close>

definition typed_set :: "bytes \<Rightarrow> bytes \<Rightarrow> nat \<Rightarrow> bytes" where
  "typed_set full bs offset = take offset full @ bs @ drop (offset + length bs) full"

definition readChunkStep ::
  "chunk_descriptor \<Rightarrow> (nat \<Rightarrow> string) \<Rightarrow> string \<Rightarrow> (string \<times> js_value) list \<Rightarrow>
   nat \<Rightarrow> bytes \<times> nat \<Rightarrow> doc_error + bytes \<times> nat" where
  "readChunkStep d keyFor label chunks i = (\<lambda>(fullUpdate, offset).
     case map_of chunks (keyFor i) of
       None \<Rightarrow> Inl (LoadMissingChunk label i)
     | Some rawChunk \<Rightarrow>
         (case normalizeBytes rawChunk (keyFor i) of
            Inl e \<Rightarrow> Inl e
          | Inr bs \<Rightarrow>
              if i + 1 < cd_chunkCount d \<and> length bs \<noteq> cd_chunkSizeBytes d
              then Inl (LoadChunkLength label i (length bs))
              else if i + 1 = cd_chunkCount d \<and> cd_chunkSizeBytes d < length bs
              then Inl (LoadFinalChunkTooLarge label (length bs))
              else if cd_byteLength d < offset + length bs
              then Inl (LoadChunksExceedManifest label)
              else Inr (typed_set fullUpdate bs offset, offset + length bs)))"

fun readChunkLoop ::
  "(nat \<Rightarrow> bytes \<times> nat \<Rightarrow> doc_error + bytes \<times> nat) \<Rightarrow> nat list \<Rightarrow> bytes \<times> nat
     \<Rightarrow> doc_error + bytes \<times> nat" where
  "readChunkLoop step [] st = Inr st"
| "readChunkLoop step (i # is) st =
     (case step i st of Inl e \<Rightarrow> Inl e | Inr st' \<Rightarrow> readChunkLoop step is st')"

definition assembleChunks ::
  "(bytes \<Rightarrow> bytes) \<Rightarrow> chunk_descriptor \<Rightarrow> (nat \<Rightarrow> string) \<Rightarrow> string \<Rightarrow>
   (string \<times> js_value) list \<Rightarrow> doc_error + bytes" where
  "assembleChunks digest d keyFor label chunks =
     (if length chunks \<noteq> cd_chunkCount d
      then Inl (LoadExpectedChunks label (cd_chunkCount d) (length chunks))
      else case readChunkLoop (readChunkStep d keyFor label chunks) [0..<cd_chunkCount d]
                  (replicate (cd_byteLength d) 0, 0) of
        Inl e \<Rightarrow> Inl e
      | Inr (fullUpdate, offset) \<Rightarrow>
          if offset \<noteq> cd_byteLength d
          then Inl (LoadLengthMismatch label (cd_byteLength d) offset)
          else if sha256Hex digest fullUpdate \<noteq> cd_sha256 d
          then Inl (LoadHashMismatch label)
          else Inr fullUpdate)"

definition readChunkedPayload ::
  "(bytes \<Rightarrow> bytes) \<Rightarrow> ('s, doc_error) storage_ops \<Rightarrow> chunk_descriptor \<Rightarrow>
   (nat \<Rightarrow> string) \<Rightarrow> string \<Rightarrow> nat \<Rightarrow> ('s, doc_error, bytes) act" where
  "readChunkedPayload digest ops d keyFor label maxKeys =
     act_bind (getManyBatched ops (List.map keyFor [0..<cd_chunkCount d]) maxKeys)
       (\<lambda>chunks. act_of (assembleChunks digest d keyFor label chunks))"

section \<open>Operations of the store\<close>

definition readJournalMeta ::
  "('s, doc_error) storage_ops \<Rightarrow> jsstr \<Rightarrow> ('s, doc_error, journal_meta) act" where
  "readJournalMeta ops now =
     act_bind (st_get ops JOURNAL_META_KEY) (\<lambda>raw.
       case raw of
         None \<Rightarrow> act_return (emptyJournalMeta now)
       | Some v \<Rightarrow> if isJournalMeta v then act_return (as_journal_meta v)
                   else act_throw JournalMetaInvalid)"

definition getJournalStats ::
  "('s, doc_error) storage_ops \<Rightarrow> jsstr \<Rightarrow> ('s, doc_error, journal_stats) act" where
  "getJournalStats ops now =
     act_bind (readJournalMeta ops now) (\<lambda>meta. act_return (journalStatsFromMeta meta))"

definition checkpoint_descriptor :: "checkpoint_manifest \<Rightarrow> chunk_descriptor" where
  "checkpoint_descriptor m =
     \<lparr>cd_chunkCount = ck_chunkCount m, cd_chunkSizeBytes = ck_chunkSizeBytes m,
      cd_byteLength = ck_byteLength m, cd_sha256 = ck_sha256 m\<rparr>"

definition journal_descriptor :: "journal_entry_manifest \<Rightarrow> chunk_descriptor" where
  "journal_descriptor m =
     \<lparr>cd_chunkCount = je_chunkCount m, cd_chunkSizeBytes = je_chunkSizeBytes m,
      cd_byteLength = je_byteLength m, cd_sha256 = je_sha256 m\<rparr>"

definition checkStateVector ::
  "(bytes \<Rightarrow> bytes) \<Rightarrow> checkpoint_manifest \<Rightarrow> js_value option \<Rightarrow> doc_error + bytes" where
  "checkStateVector digest m rawStateVector =
     (case rawStateVector of
        None \<Rightarrow> Inl (StateVectorMissing (ck_version m))
      | Some v \<Rightarrow>
          (case normalizeBytes v (checkpointStateVectorKey (ck_version m)) of
             Inl e \<Rightarrow> Inl e
           | Inr sv \<Rightarrow>
               if length sv \<noteq> ck_stateVectorByteLength m
               then Inl (StateVectorLengthMismatch (ck_stateVectorByteLength m) (length sv))
               else if sha256Hex digest sv \<noteq> ck_stateVectorSha256 m
               then Inl StateVectorHashMismatch
               else Inr sv))"

definition loadCheckpoint ::
  "(bytes \<Rightarrow> bytes) \<Rightarrow> ('s, doc_error) storage_ops \<Rightarrow> store_config \<Rightarrow>
   ('s, doc_error, (bytes \<times> bytes) option) act" where
  "loadCheckpoint digest ops cfg =
     act_bind (st_get ops CHECKPOINT_POINTER_KEY) (\<lambda>rawPointer.
     case rawPointer of
       None \<Rightarrow> act_return None
     | Some pv \<Rightarrow>
       if \<not> isManifestPointer pv then act_throw CheckpointPointerInvalid
       else let pointer = as_pointer pv in
       act_bind (st_get ops (checkpointManifestKey (ptr_version pointer))) (\<lambda>rawManifest.
       case rawManifest of
         None \<Rightarrow> act_throw (CheckpointManifestInvalid (ptr_version pointer))
       | Some mv \<Rightarrow>
         if \<not> isChunkedManifest mv
         then act_throw (CheckpointManifestInvalid (ptr_version pointer))
         else let m = as_checkpoint_manifest mv in
         if ck_version m \<noteq> ptr_version pointer
         then act_throw (CheckpointVersionMismatch (ptr_version pointer) (ck_version m))
         else
           act_bind (readChunkedPayload digest ops (checkpoint_descriptor m)
               (\<lambda>i. checkpointChunkKey (ck_version m) i) ''checkpoint''
               (maxKeysPerOperation cfg)) (\<lambda>upd.
           act_bind (st_get ops (checkpointStateVectorKey (ck_version m))) (\<lambda>rawStateVector.
           act_bind (act_of (checkStateVector digest m rawStateVector)) (\<lambda>stateVector.
           act_return (Some (upd, stateVector)))))))"

text \<open>The manifest of sequence number \<open>seq\<close> out of the batch read, as both loops that
  walk the journal look it up.\<close>

definition journalManifestAt ::
  "string \<Rightarrow> (string \<times> js_value) list \<Rightarrow> nat \<Rightarrow> doc_error + journal_entry_manifest" where
  "journalManifestAt context manifestMap seq =
     (case map_of manifestMap (journalManifestKey seq) of
        None \<Rightarrow> Inl (JournalManifestInvalid context seq)
      | Some v \<Rightarrow>
          if \<not> isJournalEntryManifest v \<or> je_seq (as_journal_entry_manifest v) \<noteq> seq
          then Inl (JournalManifestInvalid context seq)
          else Inr (as_journal_entry_manifest v))"

definition loadJournalEntry ::
  "(bytes \<Rightarrow> bytes) \<Rightarrow> ('s, doc_error) storage_ops \<Rightarrow> store_config \<Rightarrow>
   (string \<times> js_value) list \<Rightarrow> nat \<Rightarrow> nat \<times> bytes list \<Rightarrow>
   ('s, doc_error, nat \<times> bytes list) act" where
  "loadJournalEntry digest ops cfg manifestMap seq = (\<lambda>(totalBytes, entries).
     act_bind (act_of (journalManifestAt ''journal load'' manifestMap seq)) (\<lambda>m.
     act_bind (readChunkedPayload digest ops (journal_descriptor m)
         (\<lambda>i. journalChunkKey seq i) (''journal entry '' @ decimal seq)
         (maxKeysPerOperation cfg)) (\<lambda>entry.
     act_return (totalBytes + length entry, entries @ [entry]))))"

definition loadJournal ::
  "(bytes \<Rightarrow> bytes) \<Rightarrow> ('s, doc_error) storage_ops \<Rightarrow> store_config \<Rightarrow> jsstr \<Rightarrow>
   ('s, doc_error, journal_meta \<times> bytes list) act" where
  "loadJournal digest ops cfg now =
     act_bind (readJournalMeta ops now) (\<lambda>meta.
     if jm_entryCount meta = 0 then
       (if jm_totalBytes meta \<noteq> 0 then act_throw JournalEmptyWithBytes
        else act_return (meta, []))
     else
       act_bind (expectedJournalSeqs meta) (\<lambda>seqs.
       act_bind (getManyBatched ops (List.map journalManifestKey seqs) (maxKeysPerOperation cfg))
         (\<lambda>manifestMap.
       if length manifestMap \<noteq> length seqs
       then act_throw (JournalManifestsMissing ''journal load'' (length seqs) (length manifestMap))
       else
         act_bind (act_fold (loadJournalEntry digest ops cfg manifestMap) seqs (0, []))
           (\<lambda>(totalBytes, entries).
         if totalBytes \<noteq> jm_totalBytes meta
         then act_throw (JournalTotalBytesMismatch (jm_totalBytes meta) totalBytes)
         else act_return (meta, entries)))))"

definition loadState ::
  "(bytes \<Rightarrow> bytes) \<Rightarrow> ('s, doc_error) storage_ops \<Rightarrow> store_config \<Rightarrow> jsstr \<Rightarrow>
   ('s, doc_error, loaded_doc_state) act" where
  "loadState digest ops cfg now =
     act_bind (loadCheckpoint digest ops cfg) (\<lambda>checkpoint.
     act_bind (loadJournal digest ops cfg now) (\<lambda>(meta, entries).
     act_return \<lparr>
       ld_checkpoint = map_option fst checkpoint,
       ld_checkpointStateVector = map_option snd checkpoint,
       ld_journalUpdates = entries,
       ld_journalStats = journalStatsFromMeta meta\<rparr>))"

text \<open>The closure that \<open>appendUpdate\<close> runs in a transaction.\<close>

definition appendTransaction ::
  "(bytes \<Rightarrow> bytes) \<Rightarrow> ('s, doc_error) storage_ops \<Rightarrow> store_config \<Rightarrow> jsstr \<Rightarrow> bytes \<Rightarrow>
   ('s, doc_error, unit) act" where
  "appendTransaction digest ops cfg now bs =
     act_bind (readJournalMeta ops now) (\<lambda>meta.
     if bs = [] then act_return ()
     else let seq = jm_nextSeq meta; hash = sha256Hex digest bs in
       act_bind (putChunkedPayloadBatched ops bs (chunkSizeBytes cfg)
           (\<lambda>i. journalChunkKey seq i) (maxKeysPerOperation cfg)) (\<lambda>chunkCount.
       putEntriesBatched ops
         [(journalManifestKey seq, journal_entry_manifest_value \<lparr>
             je_seq = seq, je_chunkSizeBytes = chunkSizeBytes cfg,
             je_chunkCount = chunkCount, je_byteLength = length bs,
             je_sha256 = hash, je_updatedAt = now\<rparr>),
          (JOURNAL_META_KEY, journal_meta_value \<lparr>
             jm_nextSeq = to_double (seq + 1), jm_entryCount = to_double (jm_entryCount meta + 1),
             jm_totalBytes = jm_totalBytes meta + length bs, jm_updatedAt = now\<rparr>)]
         (maxKeysPerOperation cfg)))"

definition appendUpdate ::
  "(bytes \<Rightarrow> bytes) \<Rightarrow> ('s, doc_error) storage_ops \<Rightarrow> store_config \<Rightarrow> jsstr \<Rightarrow> bytes \<Rightarrow>
   ('s, doc_error, journal_stats) act" where
  "appendUpdate digest ops cfg now upd =
     act_bind (st_transaction ops (appendTransaction digest ops cfg now upd)) (\<lambda>_.
     act_bind (readJournalMeta ops now) (\<lambda>meta.
     act_return (journalStatsFromMeta meta)))"

text \<open>
  \<open>rewriteCheckpoint\<close>, in its three stages: the keys of the checkpoint that is
  replaced, the keys of the journal that is folded in, and the new checkpoint. The set
  \<open>cleanupKeys\<close> is listed in insertion order.
\<close>

definition readPointerForRewrite ::
  "('s, doc_error) storage_ops \<Rightarrow> ('s, doc_error, manifest_pointer option) act" where
  "readPointerForRewrite ops =
     act_bind (st_get ops CHECKPOINT_POINTER_KEY) (\<lambda>raw.
     case raw of
       None \<Rightarrow> act_return None
     | Some v \<Rightarrow> if isManifestPointer v then act_return (Some (as_pointer v))
                 else act_throw CheckpointPointerInvalid)"

definition oldCheckpointKeys ::
  "('s, doc_error) storage_ops \<Rightarrow> manifest_pointer option \<Rightarrow> ('s, doc_error, string list) act" where
  "oldCheckpointKeys ops existingPointer =
     (case existingPointer of
        None \<Rightarrow> act_return []
      | Some p \<Rightarrow>
          act_bind (st_get ops (checkpointManifestKey (ptr_version p))) (\<lambda>oldManifestRaw.
          case oldManifestRaw of
            None \<Rightarrow> act_throw (CheckpointManifestInvalid (ptr_version p))
          | Some v \<Rightarrow>
              if \<not> isChunkedManifest v
              then act_throw (CheckpointManifestInvalid (ptr_version p))
              else let old = as_checkpoint_manifest v in
                act_return (checkpointManifestKey (ptr_version p)
                  # checkpointStateVectorKey (ptr_version p)
                  # List.map (\<lambda>i. checkpointChunkKey (ck_version old) i) [0..<ck_chunkCount old])))"

fun journalKeysOf ::
  "(string \<times> js_value) list \<Rightarrow> nat list \<Rightarrow> doc_error + string list" where
  "journalKeysOf manifestMap [] = Inr []"
| "journalKeysOf manifestMap (seq # seqs) =
     (case journalManifestAt ''journal compact'' manifestMap seq of
        Inl e \<Rightarrow> Inl e
      | Inr m \<Rightarrow>
          (case journalKeysOf manifestMap seqs of
             Inl e \<Rightarrow> Inl e
           | Inr ks \<Rightarrow> Inr ((journalManifestKey seq
               # List.map (\<lambda>i. journalChunkKey seq i) [0..<je_chunkCount m]) @ ks)))"

definition oldJournalKeys ::
  "('s, doc_error) storage_ops \<Rightarrow> store_config \<Rightarrow> journal_meta \<Rightarrow> ('s, doc_error, string list) act" where
  "oldJournalKeys ops cfg journalMeta =
     (if jm_entryCount journalMeta = 0 then act_return []
      else
        act_bind (expectedJournalSeqs journalMeta) (\<lambda>seqs.
        act_bind (getManyBatched ops (List.map journalManifestKey seqs) (maxKeysPerOperation cfg))
          (\<lambda>manifestMap.
        if length manifestMap \<noteq> length seqs
        then act_throw (JournalManifestsMissing ''journal compact'' (length seqs) (length manifestMap))
        else act_of (journalKeysOf manifestMap seqs))))"

definition rewriteTransaction ::
  "(bytes \<Rightarrow> bytes) \<Rightarrow> ('s, doc_error) storage_ops \<Rightarrow> store_config \<Rightarrow> jsstr \<Rightarrow>
   bytes \<Rightarrow> bytes \<Rightarrow> ('s, doc_error, unit) act" where
  "rewriteTransaction digest ops cfg now upd stateVector =
     act_bind (readPointerForRewrite ops) (\<lambda>existingPointer.
     act_bind (oldCheckpointKeys ops existingPointer) (\<lambda>checkpointKeys.
     act_bind (readJournalMeta ops now) (\<lambda>journalMeta.
     act_bind (oldJournalKeys ops cfg journalMeta) (\<lambda>journalKeys.
     let cleanupKeys = checkpointKeys @ journalKeys;
         newVersion = (case existingPointer of Some p \<Rightarrow> ptr_version p + 1 | None \<Rightarrow> 1)
     in act_bind (putChunkedPayloadBatched ops upd (chunkSizeBytes cfg)
          (\<lambda>i. checkpointChunkKey newVersion i) (maxKeysPerOperation cfg)) (\<lambda>chunkCount.
        act_bind (putEntriesBatched ops
          [(checkpointManifestKey newVersion, checkpoint_manifest_value \<lparr>
              ck_version = newVersion, ck_chunkSizeBytes = chunkSizeBytes cfg,
              ck_chunkCount = chunkCount, ck_byteLength = length upd,
              ck_sha256 = sha256Hex digest upd,
              ck_stateVectorByteLength = length stateVector,
              ck_stateVectorSha256 = sha256Hex digest stateVector,
              ck_updatedAt = now\<rparr>),
           (checkpointStateVectorKey newVersion, JUint8 stateVector),
           (CHECKPOINT_POINTER_KEY, pointer_value \<lparr>ptr_version = newVersion\<rparr>),
           (JOURNAL_META_KEY, journal_meta_value (emptyJournalMeta now))]
          (maxKeysPerOperation cfg)) (\<lambda>_.
        deleteKeysBatched ops cleanupKeys (maxKeysPerOperation cfg)))))))"

definition rewriteCheckpoint ::
  "(bytes \<Rightarrow> bytes) \<Rightarrow> ('s, doc_error) storage_ops \<Rightarrow> store_config \<Rightarrow> jsstr \<Rightarrow>
   bytes \<Rightarrow> bytes \<Rightarrow> ('s, doc_error, unit) act" where
  "rewriteCheckpoint digest ops cfg now upd stateVector =
     st_transaction ops (rewriteTransaction digest ops cfg now upd stateVector)"

text \<open>\<open>loadLatest\<close> merges what it loads with the CRDT library's \<open>mergeUpdates\<close>, a parameter.\<close>

definition loadLatest ::
  "(bytes \<Rightarrow> bytes) \<Rightarrow> ('s, doc_error) storage_ops \<Rightarrow> store_config \<Rightarrow> (bytes list \<Rightarrow> bytes) \<Rightarrow>
   jsstr \<Rightarrow> ('s, doc_error, bytes option) act" where
  "loadLatest digest ops cfg mergeUpdates now =
     act_bind (loadState digest ops cfg now) (\<lambda>st.
     let updates = (case ld_checkpoint st of Some c \<Rightarrow> [c] | None \<Rightarrow> []) @ ld_journalUpdates st in
     act_return (case updates of
         [] \<Rightarrow> None
       | [u] \<Rightarrow> Some u
       | us \<Rightarrow> Some (mergeUpdates us)))"

text \<open>\<open>saveLatest\<close> recomputes the state vector on a scratch document: \<open>vectorOf upd\<close> is
  the state vector of a fresh document after applying \<open>upd\<close> (unless it is empty).\<close>

definition saveLatest ::
  "(bytes \<Rightarrow> bytes) \<Rightarrow> ('s, doc_error) storage_ops \<Rightarrow> store_config \<Rightarrow>
   (bytes option \<Rightarrow> bytes) \<Rightarrow> jsstr \<Rightarrow> bytes \<Rightarrow> ('s, doc_error, unit) act" where
  "saveLatest digest ops cfg vectorOf now upd =
     rewriteCheckpoint digest ops cfg now upd
       (vectorOf (if upd = [] then None else Some upd))"

end
