(* ===== verification/DocStoreRep.thy ===== *)
theory DocStoreRep
  imports DocStore
begin

text \<open>
  What the contents of storage mean. \<open>doc_abs\<close> is the abstract document store (at most
  one checkpoint with its state vector, and the journal of updates since), \<open>doc_rep\<close>
  says that contents represent an abstract state, and \<open>no_orphans\<close> that they hold no
  manifest, chunk or state vector besides those of the state. The lemmas show that the
  guards accept what the store writes and that chunks assemble to the payload.
\<close>

section \<open>Keys\<close>

lemma doc_keys_distinct [key_simps]:
  "CHECKPOINT_POINTER_KEY \<noteq> JOURNAL_META_KEY" "JOURNAL_META_KEY \<noteq> CHECKPOINT_POINTER_KEY"
  "CHECKPOINT_POINTER_KEY \<noteq> checkpointManifestKey v" "checkpointManifestKey v \<noteq> CHECKPOINT_POINTER_KEY"
  "CHECKPOINT_POINTER_KEY \<noteq> checkpointChunkKey v i" "checkpointChunkKey v i \<noteq> CHECKPOINT_POINTER_KEY"
  "CHECKPOINT_POINTER_KEY \<noteq> checkpointStateVectorKey v" "checkpointStateVectorKey v \<noteq> CHECKPOINT_POINTER_KEY"
  "CHECKPOINT_POINTER_KEY \<noteq> journalManifestKey q" "journalManifestKey q \<noteq> CHECKPOINT_POINTER_KEY"
  "CHECKPOINT_POINTER_KEY \<noteq> journalChunkKey q i" "journalChunkKey q i \<noteq> CHECKPOINT_POINTER_KEY"
  "JOURNAL_META_KEY \<noteq> checkpointManifestKey v" "checkpointManifestKey v \<noteq> JOURNAL_META_KEY"
  "JOURNAL_META_KEY \<noteq> checkpointChunkKey v i" "checkpointChunkKey v i \<noteq> JOURNAL_META_KEY"
  "JOURNAL_META_KEY \<noteq> checkpointStateVectorKey v" "checkpointStateVectorKey v \<noteq> JOURNAL_META_KEY"
  "JOURNAL_META_KEY \<noteq> journalManifestKey q" "journalManifestKey q \<noteq> JOURNAL_META_KEY"
  "JOURNAL_META_KEY \<noteq> journalChunkKey q i" "journalChunkKey q i \<noteq> JOURNAL_META_KEY"
  "checkpointManifestKey v \<noteq> checkpointChunkKey w i" "checkpointChunkKey w i \<noteq> checkpointManifestKey v"
  "checkpointManifestKey v \<noteq> checkpointStateVectorKey w" "checkpointStateVectorKey w \<noteq> checkpointManifestKey v"
  "checkpointManifestKey v \<noteq> journalManifestKey q" "journalManifestKey q \<noteq> checkpointManifestKey v"
  "checkpointManifestKey v \<noteq> journalChunkKey q i" "journalChunkKey q i \<noteq> checkpointManifestKey v"
  "checkpointChunkKey v i \<noteq> checkpointStateVectorKey w" "checkpointStateVectorKey w \<noteq> checkpointChunkKey v i"
  "checkpointChunkKey v i \<noteq> journalManifestKey q" "journalManifestKey q \<noteq> checkpointChunkKey v i"
  "checkpointChunkKey v i \<noteq> journalChunkKey q j" "journalChunkKey q j \<noteq> checkpointChunkKey v i"
  "checkpointStateVectorKey v \<noteq> journalManifestKey q" "journalManifestKey q \<noteq> checkpointStateVectorKey v"
  "checkpointStateVectorKey v \<noteq> journalChunkKey q i" "journalChunkKey q i \<noteq> checkpointStateVectorKey v"
  "journalManifestKey q \<noteq> journalChunkKey r i" "journalChunkKey r i \<noteq> journalManifestKey q"
  by (simp_all add: CHECKPOINT_POINTER_KEY_def JOURNAL_META_KEY_def checkpointManifestKey_def
      checkpointChunkKey_def checkpointStateVectorKey_def journalManifestKey_def journalChunkKey_def)

lemma doc_keys_inject [key_simps]:
  "checkpointManifestKey v = checkpointManifestKey w \<longleftrightarrow> v = w"
  "checkpointStateVectorKey v = checkpointStateVectorKey w \<longleftrightarrow> v = w"
  "journalManifestKey q = journalManifestKey r \<longleftrightarrow> q = r"
  "checkpointChunkKey v i = checkpointChunkKey w j \<longleftrightarrow> v = w \<and> i = j"
  "journalChunkKey q i = journalChunkKey r j \<longleftrightarrow> q = r \<and> i = j"
  by (simp_all add: checkpointManifestKey_def checkpointStateVectorKey_def journalManifestKey_def
      checkpointChunkKey_def journalChunkKey_def sep_append_inject)

lemma inj_checkpointChunkKey [simp]: "inj (checkpointChunkKey v)"
  by (auto simp: inj_def key_simps)

lemma inj_journalChunkKey [simp]: "inj (journalChunkKey q)"
  by (auto simp: inj_def key_simps)

lemma inj_journalManifestKey [simp]: "inj journalManifestKey"
  by (auto simp: inj_def key_simps)

section \<open>Guards accept what is written\<close>

lemmas guard_defs =
  isManifestPointer_def isChunkedManifest_def isJournalMeta_def isJournalEntryManifest_def
  int_prop_ge_def nat_prop_def sha_prop_def pointer_value_def checkpoint_manifest_value_def
  journal_meta_value_def journal_entry_manifest_value_def

lemma pointer_codec [codec_simps]:
  "isManifestPointer (pointer_value p) \<longleftrightarrow> 0 < ptr_version p"
  "as_pointer (pointer_value p) = p"
  by (auto simp: guard_defs as_pointer_def)

lemma checkpoint_manifest_codec [codec_simps]:
  "isChunkedManifest (checkpoint_manifest_value m) \<longleftrightarrow>
     0 < ck_version m \<and> 0 < ck_chunkSizeBytes m \<and> is_sha256_hex (ck_sha256 m) \<and>
     is_sha256_hex (ck_stateVectorSha256 m) \<and> ck_updatedAt m \<noteq> []"
  "as_checkpoint_manifest (checkpoint_manifest_value m) = m"
  by (auto simp: guard_defs as_checkpoint_manifest_def)

lemma journal_meta_codec [codec_simps]:
  "isJournalMeta (journal_meta_value m) \<longleftrightarrow> 0 < jm_nextSeq m \<and> jm_updatedAt m \<noteq> []"
  "as_journal_meta (journal_meta_value m) = m"
  by (auto simp: guard_defs as_journal_meta_def)

lemma journal_entry_codec [codec_simps]:
  "isJournalEntryManifest (journal_entry_manifest_value m) \<longleftrightarrow>
     0 < je_seq m \<and> 0 < je_chunkSizeBytes m \<and> is_sha256_hex (je_sha256 m) \<and> je_updatedAt m \<noteq> []"
  "as_journal_entry_manifest (journal_entry_manifest_value m) = m"
  by (auto simp: guard_defs as_journal_entry_manifest_def)

section \<open>Abstract state and representation\<close>

record doc_abs =
  abs_checkpoint :: "(nat \<times> bytes \<times> bytes) option"
  abs_firstSeq :: nat
  abs_journal :: "bytes list"

text \<open>The journal can take \<open>n\<close> more entries before its sequence numbers leave the integers that doubles hold exactly.\<close>

definition journal_room :: "nat \<Rightarrow> doc_abs \<Rightarrow> bool" where
  "journal_room n d \<longleftrightarrow> abs_firstSeq d + length (abs_journal d) + n \<le> 2 ^ 53"

lemma journal_room_less: "journal_room n d \<Longrightarrow> m \<le> n \<Longrightarrow> journal_room m d"
  by (simp add: journal_room_def)

definition empty_doc :: doc_abs where
  "empty_doc = \<lparr>abs_checkpoint = None, abs_firstSeq = 1, abs_journal = []\<rparr>"

text \<open>The chunks of payload \<open>u\<close>, cut every \<open>c\<close> bytes, are stored under \<open>keyFor\<close>.\<close>

definition payload_at :: "contents \<Rightarrow> (nat \<Rightarrow> string) \<Rightarrow> nat \<Rightarrow> bytes \<Rightarrow> bool" where
  "payload_at m keyFor c u \<longleftrightarrow> (\<forall>i < slice_count c u. m (keyFor i) = Some (JUint8 (slice_at c u i)))"

definition checkpoint_manifest_of ::
  "(bytes \<Rightarrow> bytes) \<Rightarrow> nat \<Rightarrow> bytes \<Rightarrow> bytes \<Rightarrow> nat \<Rightarrow> jsstr \<Rightarrow> checkpoint_manifest" where
  "checkpoint_manifest_of digest v u sv c t = \<lparr>
     ck_version = v, ck_chunkSizeBytes = c, ck_chunkCount = slice_count c u,
     ck_byteLength = length u, ck_sha256 = sha256Hex digest u,
     ck_stateVectorByteLength = length sv, ck_stateVectorSha256 = sha256Hex digest sv,
     ck_updatedAt = t\<rparr>"

definition checkpoint_rep ::
  "(bytes \<Rightarrow> bytes) \<Rightarrow> contents \<Rightarrow> (nat \<times> bytes \<times> bytes) option \<Rightarrow> bool" where
  "checkpoint_rep digest m ck = (case ck of
      None \<Rightarrow> m CHECKPOINT_POINTER_KEY = None
    | Some (v, u, sv) \<Rightarrow>
        0 < v \<and>
        m CHECKPOINT_POINTER_KEY = Some (pointer_value \<lparr>ptr_version = v\<rparr>) \<and>
        m (checkpointStateVectorKey v) = Some (JUint8 sv) \<and>
        (\<exists>c t. 0 < c \<and> t \<noteq> [] \<and>
           m (checkpointManifestKey v) =
             Some (checkpoint_manifest_value (checkpoint_manifest_of digest v u sv c t)) \<and>
           payload_at m (checkpointChunkKey v) c u))"

definition journal_manifest_of ::
  "(bytes \<Rightarrow> bytes) \<Rightarrow> nat \<Rightarrow> bytes \<Rightarrow> nat \<Rightarrow> jsstr \<Rightarrow> journal_entry_manifest" where
  "journal_manifest_of digest q u c t = \<lparr>
     je_seq = q, je_chunkSizeBytes = c, je_chunkCount = slice_count c u,
     je_byteLength = length u, je_sha256 = sha256Hex digest u, je_updatedAt = t\<rparr>"

definition entry_rep :: "(bytes \<Rightarrow> bytes) \<Rightarrow> contents \<Rightarrow> nat \<Rightarrow> bytes \<Rightarrow> bool" where
  "entry_rep digest m q u \<longleftrightarrow>
     (\<exists>c t. 0 < c \<and> t \<noteq> [] \<and>
        m (journalManifestKey q) =
          Some (journal_entry_manifest_value (journal_manifest_of digest q u c t)) \<and>
        payload_at m (journalChunkKey q) c u)"

definition journal_meta_of :: "nat \<Rightarrow> bytes list \<Rightarrow> jsstr \<Rightarrow> journal_meta" where
  "journal_meta_of first us t = \<lparr>
     jm_nextSeq = first + length us, jm_entryCount = length us,
     jm_totalBytes = sum_list (List.map length us), jm_updatedAt = t\<rparr>"

definition meta_rep :: "contents \<Rightarrow> nat \<Rightarrow> bytes list \<Rightarrow> bool" where
  "meta_rep m first us \<longleftrightarrow>
     (m JOURNAL_META_KEY = None \<and> first = 1 \<and> us = []) \<or>
     (\<exists>t. t \<noteq> [] \<and> m JOURNAL_META_KEY = Some (journal_meta_value (journal_meta_of first us t)))"

definition doc_rep :: "(bytes \<Rightarrow> bytes) \<Rightarrow> contents \<Rightarrow> doc_abs \<Rightarrow> bool" where
  "doc_rep digest m d \<longleftrightarrow>
     checkpoint_rep digest m (abs_checkpoint d) \<and>
     0 < abs_firstSeq d \<and> journal_room 0 d \<and>
     meta_rep m (abs_firstSeq d) (abs_journal d) \<and>
     (\<forall>k<length (abs_journal d). entry_rep digest m (abs_firstSeq d + k) (abs_journal d ! k))"

text \<open>The keys (besides the pointer and the journal's metadata) that a state uses, and:
  every document key that holds a value is one of them.\<close>

definition doc_key :: "string \<Rightarrow> bool" where
  "doc_key k \<longleftrightarrow> (\<exists>v i. k \<in> {checkpointManifestKey v, checkpointStateVectorKey v,
     checkpointChunkKey v i, journalManifestKey v, journalChunkKey v i})"

definition checkpoint_keys :: "contents \<Rightarrow> doc_abs \<Rightarrow> string set" where
  "checkpoint_keys m d = (case abs_checkpoint d of
      None \<Rightarrow> {}
    | Some (v, _) \<Rightarrow> {checkpointManifestKey v, checkpointStateVectorKey v} \<union>
        {checkpointChunkKey v i | i mv. m (checkpointManifestKey v) = Some mv \<and>
           i < ck_chunkCount (as_checkpoint_manifest mv)})"

definition journal_entry_keys :: "contents \<Rightarrow> nat \<Rightarrow> string set" where
  "journal_entry_keys m q = insert (journalManifestKey q)
     {journalChunkKey q i | i mv. m (journalManifestKey q) = Some mv \<and>
        i < je_chunkCount (as_journal_entry_manifest mv)}"

definition journal_keys :: "contents \<Rightarrow> doc_abs \<Rightarrow> string set" where
  "journal_keys m d =
     (\<Union>q\<in>{abs_firstSeq d..<abs_firstSeq d + length (abs_journal d)}. journal_entry_keys m q)"

definition no_orphans :: "contents \<Rightarrow> doc_abs \<Rightarrow> bool" where
  "no_orphans m d \<longleftrightarrow>
     (\<forall>k. doc_key k \<and> m k \<noteq> None \<longrightarrow> k \<in> checkpoint_keys m d \<union> journal_keys m d)"

section \<open>The abstract operations\<close>

definition abs_append :: "bytes \<Rightarrow> doc_abs \<Rightarrow> doc_abs" where
  "abs_append u d = (if u = [] then d else d\<lparr>abs_journal := abs_journal d @ [u]\<rparr>)"

definition abs_rewrite :: "bytes \<Rightarrow> bytes \<Rightarrow> doc_abs \<Rightarrow> doc_abs" where
  "abs_rewrite u sv d = \<lparr>
     abs_checkpoint = Some (case abs_checkpoint d of Some (v, _) \<Rightarrow> v + 1 | None \<Rightarrow> 1, u, sv),
     abs_firstSeq = 1, abs_journal = []\<rparr>"

definition abs_stats :: "doc_abs \<Rightarrow> journal_stats" where
  "abs_stats d = \<lparr>js_entryCount = length (abs_journal d),
     js_totalBytes = sum_list (List.map length (abs_journal d)),
     js_nextSeq = abs_firstSeq d + length (abs_journal d)\<rparr>"

definition abs_load :: "doc_abs \<Rightarrow> loaded_doc_state" where
  "abs_load d = \<lparr>
     ld_checkpoint = map_option (\<lambda>(v, u, sv). u) (abs_checkpoint d),
     ld_checkpointStateVector = map_option (\<lambda>(v, u, sv). sv) (abs_checkpoint d),
     ld_journalUpdates = abs_journal d,
     ld_journalStats = abs_stats d\<rparr>"

lemma journal_room_ops:
  "journal_room (Suc n) d \<Longrightarrow> journal_room n (abs_append u d)"
  "journal_room (Suc n) d \<Longrightarrow> journal_room n (abs_rewrite u' sv d')"
  by (simp_all add: journal_room_def abs_append_def abs_rewrite_def)

lemma journal_room_empty [simp]: "journal_room n empty_doc \<longleftrightarrow> n < 2 ^ 53"
  by (auto simp: journal_room_def empty_doc_def)

lemma doc_rep_empty [simp]: "doc_rep digest Map.empty empty_doc"
  by (simp add: doc_rep_def empty_doc_def checkpoint_rep_def meta_rep_def journal_room_def)

lemma no_orphans_empty [simp]: "no_orphans Map.empty empty_doc"
  by (simp add: no_orphans_def)

section \<open>Assembling chunks\<close>

lemma typed_set_slice:
  assumes "i * c < length u"
  shows "typed_set (take (i * c) u @ replicate (length u - i * c) 0) (slice_at c u i) (i * c) =
         take (Suc i * c) u @ replicate (length u - Suc i * c) 0"
proof -
  have len: "length (slice_at c u i) = min c (length u - i * c)"
    by (simp add: slice_at_def)
  have "take (Suc i * c) u = take (i * c) u @ slice_at c u i"
    by (rule take_Suc_slice)
  moreover have "drop (i * c + length (slice_at c u i))
      (take (i * c) u @ replicate (length u - i * c) (0::byte)) = replicate (length u - Suc i * c) 0"
    using assms by (auto simp: len min_def)
  moreover have "take (i * c) (take (i * c) u @ replicate (length u - i * c) 0) = take (i * c) u"
    using assms by simp
  ultimately show ?thesis
    by (simp add: typed_set_def)
qed

lemma readChunkStep_slice:
  assumes c: "0 < c" and i: "i < slice_count c u"
    and d: "cd_chunkCount d = slice_count c u" "cd_chunkSizeBytes d = c" "cd_byteLength d = length u"
    and chunk: "map_of chunks (keyFor i) = Some (JUint8 (slice_at c u i))"
  shows "readChunkStep d keyFor label chunks i
           (take (i * c) u @ replicate (length u - i * c) 0, min (i * c) (length u)) =
         Inr (take (Suc i * c) u @ replicate (length u - Suc i * c) 0, min (Suc i * c) (length u))"
proof -
  have lt: "i * c < length u" using slice_in_range [OF c i] .
  have len: "length (slice_at c u i) = min c (length u - i * c)"
    by (simp add: slice_at_def)
  have full: "length (slice_at c u i) = c" if "Suc i < slice_count c u"
    using slice_full [OF c that] .
  have off: "min (i * c) (length u) = i * c" using lt by simp
  have sum: "i * c + length (slice_at c u i) = min (Suc i * c) (length u)"
    using lt by (auto simp: len min_def)
  show ?thesis
    using lt full
    by (simp add: readChunkStep_def d chunk off sum typed_set_slice del: mult_Suc) (simp add: len)
qed

lemma readChunkLoop_slices:
  assumes c: "0 < c"
    and d: "cd_chunkCount d = slice_count c u" "cd_chunkSizeBytes d = c" "cd_byteLength d = length u"
    and chunk: "\<And>i. i < slice_count c u \<Longrightarrow>
                  map_of chunks (keyFor i) = Some (JUint8 (slice_at c u i))"
    and i: "i \<le> slice_count c u"
  shows "readChunkLoop (readChunkStep d keyFor label chunks) [i..<slice_count c u]
           (take (i * c) u @ replicate (length u - i * c) 0, min (i * c) (length u)) =
         Inr (u, length u)"
  using i
proof (induction "slice_count c u - i" arbitrary: i)
  case 0
  with slice_count_bounds(1) [OF c, of u] show ?case by simp
next
  case (Suc n)
  then have lt: "i < slice_count c u" by simp
  from Suc.hyps(1) [of "Suc i"] Suc.hyps(2) lt show ?case
    by (simp add: upt_conv_Cons readChunkStep_slice [where d = d and label = label and chunks = chunks and keyFor = keyFor,
          OF c lt d chunk [OF lt]]
        del: mult_Suc replicate.simps)
qed

lemma length_restricted_entries:
  assumes "distinct (List.map fst es)" and "map_of es = m |` set ks"
    and "distinct ks" and "\<And>k. k \<in> set ks \<Longrightarrow> m k \<noteq> None"
  shows "length es = length ks"
proof -
  have "length es = card (fst ` set es)"
    using distinct_card [OF assms(1)] by simp
  also have "fst ` set es = dom (map_of es)" by (simp add: dom_map_of_conv_image_fst)
  also have "\<dots> = set ks" using assms(2,4) by (auto simp: restrict_map_def split: if_splits)
  finally show ?thesis using distinct_card [OF assms(3)] by simp
qed

lemma assembleChunks_payload:
  assumes c: "0 < c" and p: "payload_at m keyFor c u" and inj: "inj keyFor"
    and es: "distinct (List.map fst chunks)"
      "map_of chunks = m |` set (List.map keyFor [0..<slice_count c u])"
    and d: "cd_chunkCount d = slice_count c u" "cd_chunkSizeBytes d = c"
      "cd_byteLength d = length u" "cd_sha256 d = sha256Hex digest u"
  shows "assembleChunks digest d keyFor label chunks = Inr u"
proof -
  have "length chunks = length (List.map keyFor [0..<slice_count c u])"
    by (rule length_restricted_entries [OF es])
      (use p inj in \<open>auto simp: payload_at_def distinct_map inj_on_def inj_def\<close>)
  moreover have "map_of chunks (keyFor i) = Some (JUint8 (slice_at c u i))" if "i < slice_count c u" for i
    using p that by (auto simp: es payload_at_def restrict_map_def)
  note readChunkLoop_slices [where chunks = chunks and keyFor = keyFor and i = 0 and label = label,
      OF c d(1-3) this]
  ultimately show ?thesis
    by (simp add: assembleChunks_def d)
qed

section \<open>The effect of the writes on the representation\<close>

lemma put_all_new: "put_all kvs m k = Some v \<Longrightarrow> m k = None \<Longrightarrow> k \<in> fst ` set kvs"
  by (metis put_all_other option.distinct(1))

lemma put_all_indexed:
  assumes "inj keyFor"
  shows "i < n \<Longrightarrow> put_all (List.map (\<lambda>i. (keyFor i, f i)) [0..<n]) m (keyFor i) = Some (f i)"
    and "k \<notin> range keyFor \<Longrightarrow> put_all (List.map (\<lambda>i. (keyFor i, f i)) [0..<n]) m k = m k"
proof -
  have "distinct (List.map fst (List.map (\<lambda>i. (keyFor i, f i)) [0..<n]))"
    using assms by (simp add: comp_def distinct_map inj_on_def inj_def)
  then show "i < n \<Longrightarrow> put_all (List.map (\<lambda>i. (keyFor i, f i)) [0..<n]) m (keyFor i) = Some (f i)"
    by (rule put_all_distinct) auto
  show "k \<notin> range keyFor \<Longrightarrow> put_all (List.map (\<lambda>i. (keyFor i, f i)) [0..<n]) m k = m k"
    by (rule put_all_other) auto
qed

lemmas put_chunks = put_all_indexed [where f = "\<lambda>i. JUint8 (slice_at c u i)" for c u]

definition append_contents ::
  "(bytes \<Rightarrow> bytes) \<Rightarrow> nat \<Rightarrow> jsstr \<Rightarrow> bytes \<Rightarrow> doc_abs \<Rightarrow> contents \<Rightarrow> contents" where
  "append_contents digest c now u d m =
     (let q = abs_firstSeq d + length (abs_journal d) in
      put_all [(journalManifestKey q, journal_entry_manifest_value (journal_manifest_of digest q u c now)),
               (JOURNAL_META_KEY, journal_meta_value
                  (journal_meta_of (abs_firstSeq d) (abs_journal d @ [u]) now))]
        (put_all (List.map (\<lambda>i. (journalChunkKey q i, JUint8 (slice_at c u i))) [0..<slice_count c u]) m))"

lemma append_contents_lookup:
  fixes d :: doc_abs and u :: bytes
  defines "q \<equiv> abs_firstSeq d + length (abs_journal d)"
  shows "append_contents digest c now u d m (journalManifestKey q) =
           Some (journal_entry_manifest_value (journal_manifest_of digest q u c now))"
    and "append_contents digest c now u d m JOURNAL_META_KEY =
           Some (journal_meta_value (journal_meta_of (abs_firstSeq d) (abs_journal d @ [u]) now))"
    and "i < slice_count c u \<Longrightarrow>
           append_contents digest c now u d m (journalChunkKey q i) = Some (JUint8 (slice_at c u i))"
    and "k \<noteq> journalManifestKey q \<Longrightarrow> k \<noteq> JOURNAL_META_KEY \<Longrightarrow> k \<notin> range (journalChunkKey q) \<Longrightarrow>
           append_contents digest c now u d m k = m k"
  by (auto simp: append_contents_def Let_def q_def key_simps put_chunks)

lemma append_contents_frame:
  "append_contents digest c now u d m CHECKPOINT_POINTER_KEY = m CHECKPOINT_POINTER_KEY"
  "append_contents digest c now u d m (checkpointManifestKey v) = m (checkpointManifestKey v)"
  "append_contents digest c now u d m (checkpointStateVectorKey v) = m (checkpointStateVectorKey v)"
  "append_contents digest c now u d m (checkpointChunkKey v i) = m (checkpointChunkKey v i)"
  "r \<noteq> abs_firstSeq d + length (abs_journal d) \<Longrightarrow>
     append_contents digest c now u d m (journalManifestKey r) = m (journalManifestKey r)"
  "r \<noteq> abs_firstSeq d + length (abs_journal d) \<Longrightarrow>
     append_contents digest c now u d m (journalChunkKey r i) = m (journalChunkKey r i)"
  by (rule append_contents_lookup(4); auto simp: key_simps)+

lemma doc_rep_append:
  assumes rep: "doc_rep digest m d" and c: "0 < c" and now: "now \<noteq> []" and u: "u \<noteq> []"
    and room: "journal_room 1 d"
  shows "doc_rep digest (append_contents digest c now u d m) (abs_append u d)"
proof -
  let ?m = "append_contents digest c now u d m"
  let ?q = "abs_firstSeq d + length (abs_journal d)"
  have ck: "checkpoint_rep digest ?m (abs_checkpoint d)"
    using rep by (auto simp: doc_rep_def checkpoint_rep_def append_contents_frame payload_at_def
        split: option.splits prod.splits)
  have new: "entry_rep digest ?m ?q u"
    unfolding entry_rep_def
    by (rule exI [of _ c], rule exI [of _ now])
      (simp add: c now append_contents_lookup payload_at_def)
  have old: "entry_rep digest ?m (abs_firstSeq d + k) (abs_journal d ! k)"
    if "k < length (abs_journal d)" for k
    using rep that
    by (auto simp: doc_rep_def entry_rep_def payload_at_def append_contents_frame)
  have meta: "meta_rep ?m (abs_firstSeq d) (abs_journal d @ [u])"
    using now by (auto simp: meta_rep_def append_contents_lookup)
  from rep ck new old meta room show ?thesis
    by (auto simp: doc_rep_def abs_append_def journal_room_def u nth_append less_Suc_eq)
qed

lemma no_orphans_append:
  assumes no: "no_orphans m d" and u: "u \<noteq> []"
  shows "no_orphans (append_contents digest c now u d m) (abs_append u d)"
  unfolding no_orphans_def
proof (intro allI impI)
  let ?m = "append_contents digest c now u d m"
  let ?q = "abs_firstSeq d + length (abs_journal d)"
  fix k
  assume k: "doc_key k \<and> ?m k \<noteq> None"
  have cks: "checkpoint_keys ?m (abs_append u d) = checkpoint_keys m d"
    by (simp add: checkpoint_keys_def abs_append_def append_contents_frame split: option.split)
  have entries: "journal_entry_keys ?m r = journal_entry_keys m r" if "r < ?q" for r
    using that by (simp add: journal_entry_keys_def append_contents_frame)
  moreover have "{abs_firstSeq d..<Suc ?q} = insert ?q {abs_firstSeq d..<?q}" by auto
  ultimately have jks: "journal_keys ?m (abs_append u d) = journal_keys m d \<union> journal_entry_keys ?m ?q"
    using u by (simp add: journal_keys_def abs_append_def Un_commute)
  show "k \<in> checkpoint_keys ?m (abs_append u d) \<union> journal_keys ?m (abs_append u d)"
  proof (cases "k = journalManifestKey ?q \<or> k \<in> range (journalChunkKey ?q)")
    case True
    have "k \<in> journal_entry_keys ?m ?q" if "k = journalChunkKey ?q i" for i
    proof (cases "i < slice_count c u")
      case True
      with that show ?thesis
        by (auto simp: journal_entry_keys_def append_contents_lookup codec_simps journal_manifest_of_def)
    next
      case False
      then have same: "?m k = m k"
        by (simp add: that append_contents_def Let_def key_simps)
          (rule put_all_other, auto simp: key_simps)
      with k no have "k \<in> checkpoint_keys m d \<union> journal_keys m d" by (simp add: no_orphans_def)
      then show ?thesis
        by (auto simp: that checkpoint_keys_def journal_keys_def journal_entry_keys_def key_simps
            split: option.splits)
    qed
    with True show ?thesis by (auto simp: jks journal_entry_keys_def)
  next
    case False
    moreover have "k \<noteq> JOURNAL_META_KEY" using k by (auto simp: doc_key_def key_simps)
    ultimately have "?m k = m k" by (auto intro: append_contents_lookup(4))
    with k no show ?thesis by (auto simp: no_orphans_def cks jks)
  qed
qed

definition new_version :: "doc_abs \<Rightarrow> nat" where
  "new_version d = (case abs_checkpoint d of Some (v, _) \<Rightarrow> v + 1 | None \<Rightarrow> 1)"

definition rewrite_written ::
  "(bytes \<Rightarrow> bytes) \<Rightarrow> nat \<Rightarrow> jsstr \<Rightarrow> bytes \<Rightarrow> bytes \<Rightarrow> doc_abs \<Rightarrow> contents \<Rightarrow> contents" where
  "rewrite_written digest c now u sv d m =
     (let v = new_version d in
      put_all
        [(checkpointManifestKey v,
            checkpoint_manifest_value (checkpoint_manifest_of digest v u sv c now)),
         (checkpointStateVectorKey v, JUint8 sv),
         (CHECKPOINT_POINTER_KEY, pointer_value \<lparr>ptr_version = v\<rparr>),
         (JOURNAL_META_KEY, journal_meta_value (emptyJournalMeta now))]
        (put_all (List.map (\<lambda>i. (checkpointChunkKey v i, JUint8 (slice_at c u i)))
                   [0..<slice_count c u]) m))"

definition rewrite_contents ::
  "(bytes \<Rightarrow> bytes) \<Rightarrow> nat \<Rightarrow> jsstr \<Rightarrow> bytes \<Rightarrow> bytes \<Rightarrow> doc_abs \<Rightarrow> contents \<Rightarrow> contents" where
  "rewrite_contents digest c now u sv d m =
     (\<lambda>k. if k \<in> checkpoint_keys m d \<union> journal_keys m d then None
          else rewrite_written digest c now u sv d m k)"

lemma new_keys_live:
  "CHECKPOINT_POINTER_KEY \<notin> checkpoint_keys m d \<union> journal_keys m d"
  "JOURNAL_META_KEY \<notin> checkpoint_keys m d \<union> journal_keys m d"
  "checkpointManifestKey (new_version d) \<notin> checkpoint_keys m d \<union> journal_keys m d"
  "checkpointStateVectorKey (new_version d) \<notin> checkpoint_keys m d \<union> journal_keys m d"
  "checkpointChunkKey (new_version d) i \<notin> checkpoint_keys m d \<union> journal_keys m d"
  by (auto simp: checkpoint_keys_def journal_keys_def journal_entry_keys_def new_version_def key_simps
      split: option.splits)

lemma rewrite_contents_lookup:
  fixes d :: doc_abs
  defines "v \<equiv> new_version d"
  shows "rewrite_contents digest c now u sv d m (checkpointManifestKey v) =
           Some (checkpoint_manifest_value (checkpoint_manifest_of digest v u sv c now))"
    and "rewrite_contents digest c now u sv d m (checkpointStateVectorKey v) = Some (JUint8 sv)"
    and "rewrite_contents digest c now u sv d m CHECKPOINT_POINTER_KEY =
           Some (pointer_value \<lparr>ptr_version = v\<rparr>)"
    and "rewrite_contents digest c now u sv d m JOURNAL_META_KEY =
           Some (journal_meta_value (emptyJournalMeta now))"
    and "i < slice_count c u \<Longrightarrow> rewrite_contents digest c now u sv d m (checkpointChunkKey v i) =
           Some (JUint8 (slice_at c u i))"
  using new_keys_live [where m = m and d = d]
  by (auto simp: rewrite_contents_def rewrite_written_def Let_def v_def key_simps put_chunks)

lemma doc_rep_rewrite:
  assumes c: "0 < c" and now: "now \<noteq> []"
  shows "doc_rep digest (rewrite_contents digest c now u sv d m) (abs_rewrite u sv d)"
proof -
  let ?m = "rewrite_contents digest c now u sv d m"
  have v: "abs_checkpoint (abs_rewrite u sv d) = Some (new_version d, u, sv)" "0 < new_version d"
    by (auto simp: abs_rewrite_def new_version_def split: option.split)
  have "checkpoint_rep digest ?m (abs_checkpoint (abs_rewrite u sv d))"
    unfolding v(1) checkpoint_rep_def option.case prod.case
    by (intro conjI v(2) rewrite_contents_lookup exI [of _ c] exI [of _ now] c now)
      (simp add: payload_at_def rewrite_contents_lookup)
  moreover have "meta_rep ?m 1 []"
    using now unfolding meta_rep_def
    by (intro disjI2 exI [of _ now]) (simp add: rewrite_contents_lookup journal_meta_of_def emptyJournalMeta_def)
  ultimately show ?thesis
    by (simp add: doc_rep_def abs_rewrite_def journal_room_def)
qed

lemma no_orphans_rewrite:
  assumes no: "no_orphans m d"
  shows "no_orphans (rewrite_contents digest c now u sv d m) (abs_rewrite u sv d)"
  unfolding no_orphans_def
proof (intro allI impI)
  let ?m = "rewrite_contents digest c now u sv d m"
  let ?v = "new_version d"
  fix k
  assume k: "doc_key k \<and> ?m k \<noteq> None"
  then have notold: "k \<notin> checkpoint_keys m d \<union> journal_keys m d"
    and written: "rewrite_written digest c now u sv d m k \<noteq> None"
    by (auto simp: rewrite_contents_def split: if_splits)
  from notold no k have "m k = None" by (auto simp: no_orphans_def)
  moreover have "k \<noteq> CHECKPOINT_POINTER_KEY" "k \<noteq> JOURNAL_META_KEY"
    using k by (auto simp: doc_key_def key_simps)
  ultimately have "k = checkpointManifestKey ?v \<or> k = checkpointStateVectorKey ?v \<or>
      (\<exists>i < slice_count c u. k = checkpointChunkKey ?v i)"
    using written put_all_new [where kvs = "List.map (\<lambda>i. (checkpointChunkKey ?v i, JUint8 (slice_at c u i)))
                   [0..<slice_count c u]" and m = m and k = k]
    by (auto simp: rewrite_written_def Let_def key_simps split: if_splits)
  then show "k \<in> checkpoint_keys ?m (abs_rewrite u sv d) \<union> journal_keys ?m (abs_rewrite u sv d)"
    by (auto simp: checkpoint_keys_def abs_rewrite_def rewrite_contents_lookup codec_simps
        checkpoint_manifest_of_def new_version_def [symmetric])
qed

end
