(* ===== verification/DocStoreCorrect.thy ===== *)
theory DocStoreCorrect
  imports DocStoreRep
begin

text \<open>
  The store of \<open>DocStore\<close> over any storage that keeps the contract \<open>txn_storage\<close>: every
  helper's effect on the contents, then each operation as a refinement of the abstract
  document store of \<open>DocStoreRep\<close>: loading returns the abstract state, appending adds to
  its journal, rewriting replaces its checkpoint and empties the journal, nothing
  stale survives, and a failed operation changes nothing.
\<close>

section \<open>Batches\<close>

lemma chunkArray_Some:
  assumes "0 < n"
  shows "\<exists>bs. chunkArray xs n = Some bs \<and> concat bs = xs \<and> (\<forall>b\<in>set bs. length b \<le> n)"
  using assms
proof (induction xs n rule: chunkArray.induct)
  case (1 xs n)
  show ?case
  proof (cases "xs = []")
    case True
    then show ?thesis by (simp add: chunkArray.simps)
  next
    case False
    with 1 obtain bs where "chunkArray (drop n xs) n = Some bs" "concat bs = drop n xs"
      "\<forall>b\<in>set bs. length b \<le> n" by auto
    with False 1(2) show ?thesis by (auto simp: chunkArray.simps [of xs n])
  qed
qed

lemma map_of_foldl_update:
  "map_of (foldl (\<lambda>rec (key, val). AList.update key val rec) acc kvs) = put_all kvs (map_of acc)"
  by (induction kvs arbitrary: acc) (auto simp: update_conv')

lemma distinct_foldl_update:
  "distinct (List.map fst acc) \<Longrightarrow>
   distinct (List.map fst (foldl (\<lambda>rec (key, val). AList.update key val rec) acc kvs))"
  by (induction kvs arbitrary: acc) (auto simp: distinct_update)

lemma length_update_le: "length (AList.update k v al) \<le> Suc (length al)"
  by (induction al) auto

lemma length_foldl_update:
  "length (foldl (\<lambda>rec (key, val). AList.update key val rec) acc kvs) \<le> length acc + length kvs"
proof (induction kvs arbitrary: acc)
  case Nil
  then show ?case by simp
next
  case (Cons kv kvs)
  obtain k v where kv: "kv = (k, v)" by (cases kv)
  from Cons.IH [of "AList.update k v acc"] length_update_le [of k v acc] kv show ?case by simp
qed

lemma put_all_map_add: "put_all kvs m = m ++ put_all kvs Map.empty"
proof (induction kvs arbitrary: m)
  case Nil
  then show ?case by simp
next
  case (Cons kv kvs)
  obtain k v where kv: "kv = (k, v)" by (cases kv)
  have "put_all kvs (m(k \<mapsto> v)) = m(k \<mapsto> v) ++ put_all kvs Map.empty" by (rule Cons.IH)
  also have "\<dots> = m ++ ([k \<mapsto> v] ++ put_all kvs Map.empty)" by simp
  also have "[k \<mapsto> v] ++ put_all kvs Map.empty = put_all kvs [k \<mapsto> v]" by (rule Cons.IH [symmetric])
  finally show ?case unfolding kv put_all_simps .
qed

lemma put_all_distinct_map_of: "distinct (List.map fst kvs) \<Longrightarrow> put_all kvs m = m ++ map_of kvs"
proof (induction kvs arbitrary: m)
  case Nil
  then show ?case by simp
next
  case (Cons kv kvs)
  obtain k v where kv: "kv = (k, v)" by (cases kv)
  with Cons.prems have notin: "map_of kvs k = None" and d: "distinct (List.map fst kvs)"
    by (auto simp: map_of_eq_None_iff)
  have "m(k \<mapsto> v) ++ map_of kvs = m ++ (map_of kvs)(k \<mapsto> v)"
    using notin by (auto simp: map_add_def fun_eq_iff split: option.split)
  then show ?case
    unfolding kv put_all_simps Cons.IH [OF d] by (simp only: map_of.simps fst_conv snd_conv)
qed

lemma put_all_record:
  "put_all (foldl (\<lambda>rec (key, val). AList.update key val rec) [] kvs) m = put_all kvs m"
  by (subst put_all_distinct_map_of)
    (simp_all add: distinct_foldl_update map_of_foldl_update put_all_map_add [of kvs m])

section \<open>Helpers over a storage that keeps its contract\<close>

definition io_error :: "bool \<Rightarrow> 'e option \<Rightarrow> 's \<Rightarrow> bool" where
  "io_error flaky e s' = (flaky \<and> e \<noteq> None)"

locale doc_storage = txn_storage ops view limit flaky
  for ops :: "('s, doc_error) storage_ops" and view limit flaky +
  fixes digest :: "bytes \<Rightarrow> bytes" and cfg :: store_config
  assumes digest_length: "length (digest bs) = 32"
    and chunk_size_pos: "0 < chunkSizeBytes cfg"
    and max_keys_pos: "0 < maxKeysPerOperation cfg"
    and max_keys_limit: "maxKeysPerOperation cfg \<le> limit"

context doc_storage begin

lemma sha_ok [simp]: "is_sha256_hex (sha256Hex digest bs)"
  by (rule sha256Hex_is_sha256_hex) (rule digest_length)

lemma wp_act_loop:
  assumes "\<And>bs. concat bs = xs \<Longrightarrow> (\<forall>b\<in>set bs. length b \<le> limit) \<Longrightarrow> Q bs s"
  shows "wp (act_loop (chunkArray xs (maxKeysPerOperation cfg))) Q R s"
proof -
  obtain bs where "chunkArray xs (maxKeysPerOperation cfg) = Some bs" "concat bs = xs"
    "\<forall>b\<in>set bs. length b \<le> maxKeysPerOperation cfg"
    using chunkArray_Some [OF max_keys_pos] by blast
  with assms [of bs] max_keys_limit show ?thesis
    by (auto simp: act_loop_def wp_simps dest: order_trans)
qed

lemma wp_getManyBatched:
  "wp (getManyBatched ops keys (maxKeysPerOperation cfg))
     (\<lambda>es s'. distinct (List.map fst es) \<and> map_of es = view s |` set keys \<and> view s' = view s)
     (storage_fails flaky view s) s"
  unfolding getManyBatched_def wp_simps
proof (rule wp_act_loop)
  fix bs
  assume bs: "concat bs = keys" "\<forall>b\<in>set bs. length b \<le> limit"
  let ?I = "\<lambda>pre es s'. distinct (List.map fst es) \<and>
    map_of es = view s |` set (concat pre) \<and> view s' = view s"
  have "wp (act_fold (\<lambda>batch merged. act_bind (st_get_many ops batch) (\<lambda>page.
           act_return (foldl (\<lambda>merged (key, val). AList.update key val merged) merged page)))
          bs []) (?I bs) (storage_fails flaky view s) s"
  proof (rule wp_act_fold)
    fix pre b post es s'
    assume split: "bs = pre @ b # post" and I: "?I pre es s'"
    have "length b \<le> limit" using bs(2) split by simp
    from get_many_law [OF this, of s']
    show "wp (act_bind (st_get_many ops b) (\<lambda>page.
           act_return (foldl (\<lambda>merged (key, val). AList.update key val merged) es page)))
          (?I (pre @ [b])) (storage_fails flaky view s) s'"
      unfolding wp_simps
      by (rule wp_mono)
        (use I in \<open>auto simp: distinct_foldl_update map_of_foldl_update put_all_distinct_map_of
           map_add_def restrict_map_def storage_fails_def fun_eq_iff split: option.splits\<close>)
  qed simp
  then show "wp (act_fold (\<lambda>batch merged. act_bind (st_get_many ops batch) (\<lambda>page.
           act_return (foldl (\<lambda>merged (key, val). AList.update key val merged) merged page)))
          bs []) (\<lambda>es s'. distinct (List.map fst es) \<and> map_of es = view s |` set keys \<and>
            view s' = view s) (storage_fails flaky view s) s"
    by (rule wp_mono) (auto simp: bs(1))
qed

lemma wp_putEntriesBatched:
  "wp (putEntriesBatched ops kvs (maxKeysPerOperation cfg))
     (\<lambda>_ s'. view s' = put_all kvs (view s)) (io_error flaky) s"
  unfolding putEntriesBatched_def wp_simps
proof (rule wp_act_loop)
  fix bs
  assume bs: "concat bs = kvs" "\<forall>b\<in>set bs. length b \<le> limit"
  let ?f = "\<lambda>batch (_::unit). st_put ops
    (foldl (\<lambda>rec (key, val). AList.update key val rec) [] batch)"
  have "wp (act_fold ?f bs ()) (\<lambda>_ s'. view s' = put_all (concat bs) (view s)) (io_error flaky) s"
  proof (rule wp_act_fold [where I = "\<lambda>pre _ s'. view s' = put_all (concat pre) (view s)"])
    fix pre b post acc s'
    assume split: "bs = pre @ b # post" and I: "view s' = put_all (concat pre) (view s)"
    have "length (foldl (\<lambda>rec (key, val). AList.update key val rec) [] b) \<le> limit"
      using length_foldl_update [of "[]" b] bs(2) split by simp
    from put_law [OF this, of s']
    show "wp (?f b acc) (\<lambda>_ s'. view s' = put_all (concat (pre @ [b])) (view s)) (io_error flaky) s'"
      by (rule wp_mono) (auto simp: put_all_record put_all_append I storage_fails_def io_error_def)
  qed simp
  then show "wp (act_fold ?f bs ()) (\<lambda>_ s'. view s' = put_all kvs (view s)) (io_error flaky) s"
    by (simp add: bs(1))
qed

lemma wp_deleteKeysBatched:
  "wp (deleteKeysBatched ops ks (maxKeysPerOperation cfg))
     (\<lambda>_ s'. view s' = delete_all ks (view s)) (io_error flaky) s"
proof (cases "ks = []")
  case True
  then show ?thesis by (simp add: deleteKeysBatched_def wp_simps)
next
  case False
  let ?f = "\<lambda>batch (_::unit). act_bind (st_delete ops batch) (\<lambda>_. act_return ())"
  have "wp (act_fold ?f bs ()) (\<lambda>_ s'. view s' = delete_all ks (view s)) (io_error flaky) s"
    if bs: "concat bs = ks" "\<forall>b\<in>set bs. length b \<le> limit" for bs
  proof -
    have "wp (act_fold ?f bs ()) (\<lambda>_ s'. view s' = delete_all (concat bs) (view s)) (io_error flaky) s"
    proof (rule wp_act_fold [where I = "\<lambda>pre _ s'. view s' = delete_all (concat pre) (view s)"])
      fix pre b post acc s'
      assume split: "bs = pre @ b # post" and I: "view s' = delete_all (concat pre) (view s)"
      have "length b \<le> limit" using bs(2) split by simp
      from delete_law [OF this, of s']
      show "wp (?f b acc) (\<lambda>_ s'. view s' = delete_all (concat (pre @ [b])) (view s)) (io_error flaky) s'"
        unfolding wp_simps
        by (rule wp_mono) (auto simp: delete_all_append I storage_fails_def io_error_def)
    qed simp
    then show ?thesis by (simp add: bs(1))
  qed
  with False show ?thesis
    unfolding deleteKeysBatched_def by (simp add: wp_simps) (rule wp_act_loop)
qed

lemma wp_putChunkBatches:
  "wp (putChunkBatches ops bs c keyFor (maxKeysPerOperation cfg) start cnt)
     (\<lambda>_ s'. view s' = put_all (List.map (\<lambda>i. (keyFor i, JUint8 (slice_at c bs i))) [start..<cnt]) (view s))
     (io_error flaky) s"
proof (induction "cnt - start" arbitrary: start s rule: less_induct)
  case less
  let ?n = "maxKeysPerOperation cfg"
  let ?kvs = "\<lambda>a b. List.map (\<lambda>i. (keyFor i, JUint8 (slice_at c bs i))) [a..<b]"
  show ?case
  proof (cases "cnt \<le> start")
    case True
    then show ?thesis by (subst putChunkBatches.simps) (simp add: wp_simps)
  next
    case False
    let ?e = "min (start + ?n) cnt"
    have "length (?kvs start ?e) \<le> limit" using max_keys_limit by simp
    note put = put_law [OF this, of s]
    have split: "put_all (?kvs start cnt) m = put_all (?kvs (start + ?n) cnt) (put_all (?kvs start ?e) m)" for m
    proof (cases "start + ?n \<le> cnt")
      case True
      then have "[start..<cnt] = [start..<start + ?n] @ [start + ?n..<cnt]"
        by (metis le_add1 upt_add_eq_append le_add_diff_inverse)
      with True show ?thesis by (simp add: put_all_append)
    qed simp
    have rest: "wp (putChunkBatches ops bs c keyFor ?n (start + ?n) cnt)
        (\<lambda>_ s''. view s'' = put_all (?kvs start cnt) (view s)) (io_error flaky) s'"
      if "view s' = put_all (?kvs start ?e) (view s)" for s'
      using less.hyps [of "start + ?n" s'] False max_keys_pos by (simp add: split that)
    from put have "wp (st_put ops (?kvs start ?e))
        (\<lambda>_. wp (putChunkBatches ops bs c keyFor ?n (start + ?n) cnt)
           (\<lambda>_ s''. view s'' = put_all (?kvs start cnt) (view s)) (io_error flaky)) (io_error flaky) s"
      by (rule wp_mono) (simp_all add: rest storage_fails_def io_error_def)
    with False max_keys_pos show ?thesis
      by (subst putChunkBatches.simps) (simp add: wp_simps)
  qed
qed

lemma wp_putChunkedPayloadBatched:
  "wp (putChunkedPayloadBatched ops bs (chunkSizeBytes cfg) keyFor (maxKeysPerOperation cfg))
     (\<lambda>n s'. n = slice_count (chunkSizeBytes cfg) bs \<and>
        view s' = put_all (List.map (\<lambda>i. (keyFor i, JUint8 (slice_at (chunkSizeBytes cfg) bs i)))
                            [0..<slice_count (chunkSizeBytes cfg) bs]) (view s))
     (io_error flaky) s"
proof (cases "bs = []")
  case True
  with chunk_size_pos show ?thesis
    by (simp add: putChunkedPayloadBatched_def wp_simps)
next
  case False
  with chunk_size_pos show ?thesis
    by (simp add: putChunkedPayloadBatched_def wp_simps Let_def)
      (rule wp_mono [OF wp_putChunkBatches], auto simp: wp_simps)
qed

lemma wp_readChunkedPayload:
  assumes "0 < c" and "payload_at (view s) keyFor c u" and "inj keyFor"
    and "cd_chunkCount d = slice_count c u" "cd_chunkSizeBytes d = c"
      "cd_byteLength d = length u" "cd_sha256 d = sha256Hex digest u"
  shows "wp (readChunkedPayload digest ops d keyFor label (maxKeysPerOperation cfg))
           (\<lambda>x s'. x = u \<and> view s' = view s) (storage_fails flaky view s) s"
proof -
  have "wp (getManyBatched ops (List.map keyFor [0..<cd_chunkCount d]) (maxKeysPerOperation cfg))
     (\<lambda>chunks s'. assembleChunks digest d keyFor label chunks = Inr u \<and> view s' = view s)
     (storage_fails flaky view s) s"
    by (rule wp_mono [OF wp_getManyBatched])
      (use assms in \<open>auto intro: assembleChunks_payload simp: assms(4)\<close>)
  then show ?thesis
    unfolding readChunkedPayload_def wp_simps by (rule wp_mono) auto
qed


end

section \<open>Reading actions\<close>

text \<open>\<open>reads view flaky c m P\<close>: from any state with contents \<open>c\<close>, the action leaves the
  contents alone and returns something with property \<open>P\<close>; it fails only if the storage does.\<close>

definition reads ::
  "('s \<Rightarrow> contents) \<Rightarrow> bool \<Rightarrow> contents \<Rightarrow> ('s, 'e, 'a) act \<Rightarrow> ('a \<Rightarrow> bool) \<Rightarrow> bool" where
  "reads view flaky c m P \<longleftrightarrow> (\<forall>s. view s = c \<longrightarrow>
     wp m (\<lambda>r s'. P r \<and> view s' = c) (\<lambda>e s'. flaky \<and> e \<noteq> None \<and> view s' = c) s)"

lemma readsD:
  "reads view flaky c m P \<Longrightarrow> view s = c \<Longrightarrow>
   wp m (\<lambda>r s'. P r \<and> view s' = c) (\<lambda>e s'. flaky \<and> e \<noteq> None \<and> view s' = c) s"
  by (simp add: reads_def)

lemma reads_bind:
  assumes "reads view flaky c m P" and "\<And>x. P x \<Longrightarrow> reads view flaky c (f x) Q"
  shows "reads view flaky c (act_bind m f) Q"
  unfolding reads_def wp_bind
proof (intro allI impI)
  fix s assume "view s = c"
  with assms(1) have "wp m (\<lambda>r s'. P r \<and> view s' = c) (\<lambda>e s'. flaky \<and> e \<noteq> None \<and> view s' = c) s"
    by (simp add: reads_def)
  then show "wp m (\<lambda>x. wp (f x) (\<lambda>r s'. Q r \<and> view s' = c) (\<lambda>e s'. flaky \<and> e \<noteq> None \<and> view s' = c))
      (\<lambda>e s'. flaky \<and> e \<noteq> None \<and> view s' = c) s"
    by (rule wp_mono) (use assms(2) in \<open>auto simp: reads_def\<close>)
qed

lemma reads_return: "P x \<Longrightarrow> reads view flaky c (act_return x) P"
  by (simp add: reads_def wp_simps)

lemma reads_of: "r = Inr x \<Longrightarrow> P x \<Longrightarrow> reads view flaky c (act_of r) P"
  by (simp add: reads_def wp_simps)

lemma reads_mono: "reads view flaky c m P \<Longrightarrow> (\<And>x. P x \<Longrightarrow> Q x) \<Longrightarrow> reads view flaky c m Q"
  unfolding reads_def by (blast intro: wp_mono)

lemma reads_fold:
  assumes "\<And>pre x post acc. xs = pre @ x # post \<Longrightarrow> I pre acc \<Longrightarrow>
             reads view flaky c (f x acc) (I (pre @ [x]))"
    and "I [] acc"
  shows "reads view flaky c (act_fold f xs acc) (I xs)"
  unfolding reads_def
proof (intro allI impI)
  fix s assume "view s = c"
  show "wp (act_fold f xs acc) (\<lambda>r s'. I xs r \<and> view s' = c)
      (\<lambda>e s'. flaky \<and> e \<noteq> None \<and> view s' = c) s"
    by (rule wp_act_fold [where I = "\<lambda>pre acc s'. I pre acc \<and> view s' = c"])
      (use assms \<open>view s = c\<close> in \<open>auto simp: reads_def\<close>)
qed

lemma reads_wp:
  "reads view flaky (view s) m P \<Longrightarrow>
   wp m (\<lambda>r s'. P r \<and> view s' = view s) (storage_fails flaky view s) s"
  by (rule wp_mono [OF readsD [OF _ refl]]) (auto simp: storage_fails_def)

lemma reads_io:
  "reads view flaky (view s) m P \<Longrightarrow>
   wp m (\<lambda>r s'. P r \<and> view s' = view s) (io_error flaky) s"
  by (rule wp_mono [OF readsD [OF _ refl]]) (auto simp: io_error_def)

section \<open>Loading\<close>

context doc_storage begin

lemma reads_get: "reads view flaky c (st_get ops k) (\<lambda>v. v = c k)"
  unfolding reads_def
proof (intro allI impI)
  fix s assume "view s = c"
  then show "wp (st_get ops k) (\<lambda>v s'. v = c k \<and> view s' = c)
      (\<lambda>e s'. flaky \<and> e \<noteq> None \<and> view s' = c) s"
    by (intro wp_mono [OF get_law]) (auto simp: storage_fails_def)
qed

lemma reads_getMany:
  "reads view flaky c (getManyBatched ops keys (maxKeysPerOperation cfg))
     (\<lambda>es. distinct (List.map fst es) \<and> map_of es = c |` set keys)"
  unfolding reads_def
proof (intro allI impI)
  fix s assume "view s = c"
  then show "wp (getManyBatched ops keys (maxKeysPerOperation cfg))
      (\<lambda>es s'. (distinct (List.map fst es) \<and> map_of es = c |` set keys) \<and> view s' = c)
      (\<lambda>e s'. flaky \<and> e \<noteq> None \<and> view s' = c) s"
    by (intro wp_mono [OF wp_getManyBatched]) (auto simp: storage_fails_def)
qed

lemma reads_payload:
  assumes "0 < n" and "payload_at c keyFor n u" and "inj keyFor"
    and "cd_chunkCount d = slice_count n u" "cd_chunkSizeBytes d = n"
      "cd_byteLength d = length u" "cd_sha256 d = sha256Hex digest u"
  shows "reads view flaky c (readChunkedPayload digest ops d keyFor label (maxKeysPerOperation cfg))
           (\<lambda>x. x = u)"
  unfolding readChunkedPayload_def
  by (rule reads_bind [OF reads_getMany], rule reads_of, rule assembleChunks_payload)
    (use assms in auto)

lemma reads_journalMeta:
  assumes "doc_rep digest c d"
  shows "reads view flaky c (readJournalMeta ops now)
     (\<lambda>meta. \<exists>t. meta = journal_meta_of (abs_firstSeq d) (abs_journal d) t)"
proof -
  have "meta_rep c (abs_firstSeq d) (abs_journal d)" "0 < abs_firstSeq d"
    using assms by (simp_all add: doc_rep_def)
  then show ?thesis
    unfolding readJournalMeta_def
    by (intro reads_bind [OF reads_get])
      (auto simp: meta_rep_def codec_simps emptyJournalMeta_def journal_meta_of_def
        intro!: reads_return split: option.split)
qed

lemma reads_journalStats:
  assumes "doc_rep digest c d"
  shows "reads view flaky c (getJournalStats ops now) (\<lambda>st. st = abs_stats d)"
  unfolding getJournalStats_def
  by (rule reads_bind [OF reads_journalMeta [OF assms]])
    (auto intro!: reads_return simp: journalStatsFromMeta_def journal_meta_of_def abs_stats_def)

lemma reads_checkpoint:
  assumes "doc_rep digest c d"
  shows "reads view flaky c (loadCheckpoint digest ops cfg) (\<lambda>r. r = map_option snd (abs_checkpoint d))"
proof (cases "abs_checkpoint d")
  case None
  with assms have "c CHECKPOINT_POINTER_KEY = None"
    by (simp add: doc_rep_def checkpoint_rep_def)
  then show ?thesis
    unfolding loadCheckpoint_def
    by (intro reads_bind [OF reads_get]) (auto intro: reads_return simp: None)
next
  case (Some vus)
  obtain v u sv where ck: "abs_checkpoint d = Some (v, u, sv)" using Some by (cases vus) auto
  with assms obtain n t where v: "0 < v" and n: "0 < n" and t: "t \<noteq> []"
    and ptr: "c CHECKPOINT_POINTER_KEY = Some (pointer_value \<lparr>ptr_version = v\<rparr>)"
    and vec: "c (checkpointStateVectorKey v) = Some (JUint8 sv)"
    and man: "c (checkpointManifestKey v) =
       Some (checkpoint_manifest_value (checkpoint_manifest_of digest v u sv n t))"
    and pay: "payload_at c (checkpointChunkKey v) n u"
    by (auto simp: doc_rep_def checkpoint_rep_def)
  let ?m = "checkpoint_manifest_of digest v u sv n t"
  have fields: "ck_version ?m = v" "isChunkedManifest (checkpoint_manifest_value ?m)"
    using v n t by (simp_all add: codec_simps) (simp_all add: checkpoint_manifest_of_def)
  have vector: "checkStateVector digest ?m (c (checkpointStateVectorKey v)) = Inr sv"
    by (simp add: checkStateVector_def checkpoint_manifest_of_def vec)
  have payload: "reads view flaky c (readChunkedPayload digest ops (checkpoint_descriptor ?m)
      (\<lambda>i. checkpointChunkKey v i) ''checkpoint'' (maxKeysPerOperation cfg)) (\<lambda>x. x = u)"
    by (rule reads_payload [OF n pay])
      (simp_all add: checkpoint_descriptor_def checkpoint_manifest_of_def)
  show ?thesis
    unfolding loadCheckpoint_def
    apply (rule reads_bind [OF reads_get])
    apply (simp add: ptr codec_simps v ck Let_def)
    apply (rule reads_bind [OF reads_get])
    apply (simp add: man codec_simps(4) fields Let_def)
    apply (rule reads_bind [OF payload])
    apply (rule reads_bind [OF reads_get])
    apply (simp add: vector act_of_def reads_return)
    done
qed


lemma manifest_entries:
  assumes rep: "doc_rep digest c d"
    and es: "distinct (List.map fst es)"
      "map_of es = c |` set (List.map journalManifestKey [abs_firstSeq d..<abs_firstSeq d + length (abs_journal d)])"
  shows "length es = length (abs_journal d)"
    and "k < length (abs_journal d) \<Longrightarrow> \<exists>n t. 0 < n \<and>
           journalManifestAt ctxt es (abs_firstSeq d + k) =
             Inr (journal_manifest_of digest (abs_firstSeq d + k) (abs_journal d ! k) n t) \<and>
           c (journalManifestKey (abs_firstSeq d + k)) = Some (journal_entry_manifest_value
             (journal_manifest_of digest (abs_firstSeq d + k) (abs_journal d ! k) n t)) \<and>
           payload_at c (journalChunkKey (abs_firstSeq d + k)) n (abs_journal d ! k)"
proof -
  let ?ks = "List.map journalManifestKey [abs_firstSeq d..<abs_firstSeq d + length (abs_journal d)]"
  have first: "0 < abs_firstSeq d" using rep by (simp add: doc_rep_def)
  have present: "\<exists>n t. 0 < n \<and> t \<noteq> [] \<and>
      c (journalManifestKey (abs_firstSeq d + k)) = Some (journal_entry_manifest_value
             (journal_manifest_of digest (abs_firstSeq d + k) (abs_journal d ! k) n t)) \<and>
      payload_at c (journalChunkKey (abs_firstSeq d + k)) n (abs_journal d ! k)"
    if "k < length (abs_journal d)" for k
    using rep that by (auto simp: doc_rep_def entry_rep_def)
  have some: "c q \<noteq> None" if "q \<in> set ?ks" for q
  proof -
    from that obtain j where "abs_firstSeq d \<le> j" "j < abs_firstSeq d + length (abs_journal d)"
      "q = journalManifestKey j" by auto
    then have "j - abs_firstSeq d < length (abs_journal d)" "abs_firstSeq d + (j - abs_firstSeq d) = j"
      by auto
    with present [of "j - abs_firstSeq d"] \<open>q = journalManifestKey j\<close> show ?thesis by auto
  qed
  have "distinct ?ks" by (simp add: distinct_map inj_on_def key_simps)
  then have "length es = length ?ks"
    by (rule length_restricted_entries [OF es]) (rule some)
  then show "length es = length (abs_journal d)" by simp
  assume k: "k < length (abs_journal d)"
  from present [OF k] obtain n t where n: "0 < n" "t \<noteq> []"
    and man: "c (journalManifestKey (abs_firstSeq d + k)) = Some (journal_entry_manifest_value
             (journal_manifest_of digest (abs_firstSeq d + k) (abs_journal d ! k) n t))"
    and pay: "payload_at c (journalChunkKey (abs_firstSeq d + k)) n (abs_journal d ! k)" by blast
  have "map_of es (journalManifestKey (abs_firstSeq d + k)) = c (journalManifestKey (abs_firstSeq d + k))"
    using k by (simp add: es restrict_map_def image_iff key_simps)
  with n man first have "journalManifestAt ctxt es (abs_firstSeq d + k) =
      Inr (journal_manifest_of digest (abs_firstSeq d + k) (abs_journal d ! k) n t)"
    by (simp add: journalManifestAt_def codec_simps) (simp add: journal_manifest_of_def)
  with n man pay show "\<exists>n t. 0 < n \<and>
           journalManifestAt ctxt es (abs_firstSeq d + k) =
             Inr (journal_manifest_of digest (abs_firstSeq d + k) (abs_journal d ! k) n t) \<and>
           c (journalManifestKey (abs_firstSeq d + k)) = Some (journal_entry_manifest_value
             (journal_manifest_of digest (abs_firstSeq d + k) (abs_journal d ! k) n t)) \<and>
           payload_at c (journalChunkKey (abs_firstSeq d + k)) n (abs_journal d ! k)"
    by blast
qed

lemma expectedJournalSeqs_meta:
  assumes "doc_rep digest c d"
  shows "expectedJournalSeqs (journal_meta_of (abs_firstSeq d) (abs_journal d) t) =
    act_return [abs_firstSeq d..<abs_firstSeq d + length (abs_journal d)]"
  using assms
  by (auto simp: expectedJournalSeqs_def journal_meta_of_def Let_def doc_rep_def journal_room_def
      count_from_exact act_loop_def)

lemma reads_journalEntry:
  assumes rep: "doc_rep digest c d"
    and es: "distinct (List.map fst es)"
      "map_of es = c |` set (List.map journalManifestKey [abs_firstSeq d..<abs_firstSeq d + length (abs_journal d)])"
    and k: "k < length (abs_journal d)"
  shows "reads view flaky c (loadJournalEntry digest ops cfg es (abs_firstSeq d + k) (n, us))
     (\<lambda>r. r = (n + length (abs_journal d ! k), us @ [abs_journal d ! k]))"
proof -
  obtain m t where m: "0 < m"
    and man: "journalManifestAt ''journal load'' es (abs_firstSeq d + k) =
      Inr (journal_manifest_of digest (abs_firstSeq d + k) (abs_journal d ! k) m t)"
    and pay: "payload_at c (journalChunkKey (abs_firstSeq d + k)) m (abs_journal d ! k)"
    using manifest_entries(2) [OF rep es k] by blast
  show ?thesis
    unfolding loadJournalEntry_def prod.case man
    by (simp, rule reads_bind [OF reads_payload [OF m pay]])
      (simp_all add: journal_descriptor_def journal_manifest_of_def reads_return)
qed

lemma reads_journal:
  assumes rep: "doc_rep digest c d"
  shows "reads view flaky c (loadJournal digest ops cfg now)
     (\<lambda>r. journalStatsFromMeta (fst r) = abs_stats d \<and> snd r = abs_journal d)"
  unfolding loadJournal_def
proof (rule reads_bind [OF reads_journalMeta [OF rep]], elim exE)
  fix meta t
  let ?first = "abs_firstSeq d" and ?us = "abs_journal d"
  assume meta: "meta = journal_meta_of ?first ?us t"
  have stats: "journalStatsFromMeta meta = abs_stats d"
    by (simp add: meta journalStatsFromMeta_def journal_meta_of_def abs_stats_def)
  have first: "0 < ?first" using rep by (simp add: doc_rep_def)
  let ?I = "\<lambda>pre r. r = (sum_list (List.map length (take (length pre) ?us)), take (length pre) ?us)"
  have loop: "reads view flaky c
      (act_fold (loadJournalEntry digest ops cfg es) [?first..<?first + length ?us] (0, []))
      (?I [?first..<?first + length ?us])"
    if es: "distinct (List.map fst es)"
      "map_of es = c |` set (List.map journalManifestKey [?first..<?first + length ?us])" for es
  proof (rule reads_fold)
    fix pre q post acc
    assume split: "[?first..<?first + length ?us] = pre @ q # post" and I: "?I pre acc"
    have "length pre < length ?us" using arg_cong [OF split, of length] by simp
    moreover have "q = ?first + length pre"
      using arg_cong [OF split, of "\<lambda>xs. xs ! length pre"] calculation by simp
    ultimately show "reads view flaky c (loadJournalEntry digest ops cfg es q acc) (?I (pre @ [q]))"
      using reads_journalEntry [OF rep es] I by (simp add: take_Suc_conv_app_nth)
  qed simp
  show "reads view flaky c
      (if jm_entryCount meta = 0
       then if jm_totalBytes meta \<noteq> 0 then act_throw JournalEmptyWithBytes else act_return (meta, [])
       else act_bind (expectedJournalSeqs meta) (\<lambda>seqs.
          act_bind (getManyBatched ops (List.map journalManifestKey seqs) (maxKeysPerOperation cfg))
            (\<lambda>manifestMap. if length manifestMap \<noteq> length seqs
              then act_throw (JournalManifestsMissing ''journal load'' (length seqs) (length manifestMap))
              else act_bind (act_fold (loadJournalEntry digest ops cfg manifestMap) seqs (0, []))
                (\<lambda>(totalBytes, entries). if totalBytes \<noteq> jm_totalBytes meta
                   then act_throw (JournalTotalBytesMismatch (jm_totalBytes meta) totalBytes)
                   else act_return (meta, entries)))))
      (\<lambda>r. journalStatsFromMeta (fst r) = abs_stats d \<and> snd r = ?us)"
  proof (cases "?us = []")
    case True
    then show ?thesis
      by (simp add: meta journal_meta_of_def)
        (rule reads_return, simp add: journalStatsFromMeta_def abs_stats_def True)
  next
    case False
    then have nz: "jm_entryCount (journal_meta_of ?first ?us t) \<noteq> 0"
      by (simp add: journal_meta_of_def)
    show ?thesis
      unfolding meta if_not_P [OF nz] expectedJournalSeqs_meta [OF rep]
      apply (simp only: act_bind_return)
      apply (rule reads_bind [OF reads_getMany])
      apply (elim conjE)
      apply (frule manifest_entries(1) [OF rep])
       apply simp
      apply simp
      apply (rule reads_bind [OF loop])
        apply simp
       apply simp
      apply (simp add: journal_meta_of_def)
      apply (rule reads_return)
      apply (simp add: stats [unfolded meta journal_meta_of_def])
      done
  qed
qed

lemma reads_state:
  assumes "doc_rep digest c d"
  shows "reads view flaky c (loadState digest ops cfg now) (\<lambda>r. r = abs_load d)"
  unfolding loadState_def
  by (rule reads_bind [OF reads_checkpoint [OF assms]], rule reads_bind [OF reads_journal [OF assms]])
    (cases "abs_checkpoint d"; auto intro!: reads_return simp: abs_load_def)

end

end
