(* ===== verification/DocStoreOps.thy ===== *)
theory DocStoreOps
  imports DocStoreCorrect
begin

text \<open>
  The operations of the document store that write, over any storage that keeps the
  contract, and the interface \<open>doc_store\<close> that the persistence coordinator relies on.
  The properties of the store stand at the end, over every storage with the
  contract, with witnesses on the reference storages.
\<close>

section \<open>Appending\<close>

context doc_storage begin

definition appended :: "jsstr \<Rightarrow> bytes \<Rightarrow> doc_abs \<Rightarrow> contents \<Rightarrow> contents" where
  "appended now u d c = (if u = [] then c else append_contents digest (chunkSizeBytes cfg) now u d c)"

lemma appended_rep:
  "doc_rep digest c d \<Longrightarrow> now \<noteq> [] \<Longrightarrow> journal_room 1 d \<Longrightarrow> doc_rep digest (appended now u d c) (abs_append u d)"
  using doc_rep_append [OF _ chunk_size_pos] by (auto simp: appended_def abs_append_def)

lemma appended_no_orphans: "no_orphans c d \<Longrightarrow> no_orphans (appended now u d c) (abs_append u d)"
  using no_orphans_append by (auto simp: appended_def abs_append_def)

lemma wp_appendTransaction:
  assumes rep: "doc_rep digest (view s) d" and room: "journal_room 1 d"
  shows "wp (appendTransaction digest ops cfg now u) (\<lambda>_ s'. view s' = appended now u d (view s))
     (\<lambda>e _. flaky \<and> e \<noteq> None) s"
  unfolding appendTransaction_def wp_bind
proof (rule wp_mono [OF reads_io [OF reads_journalMeta [OF rep]]])
  fix meta s1
  assume "(\<exists>t. meta = journal_meta_of (abs_firstSeq d) (abs_journal d) t) \<and> view s1 = view s"
  then obtain t where meta: "meta = journal_meta_of (abs_firstSeq d) (abs_journal d) t"
    and s1: "view s1 = view s" by blast
  let ?q = "abs_firstSeq d + length (abs_journal d)"
  have seq: "jm_nextSeq meta = ?q" "jm_entryCount meta = length (abs_journal d)"
    "jm_totalBytes meta = sum_list (List.map length (abs_journal d))"
    by (simp_all add: meta journal_meta_of_def)
  have exact: "to_double (?q + 1) = ?q + 1" "to_double (length (abs_journal d) + 1) = length (abs_journal d) + 1"
    using room by (simp_all add: journal_room_def)
  show "wp (if u = [] then act_return ()
      else let seq = jm_nextSeq meta; hash = sha256Hex digest u in
        act_bind (putChunkedPayloadBatched ops u (chunkSizeBytes cfg) (\<lambda>i. journalChunkKey seq i)
            (maxKeysPerOperation cfg)) (\<lambda>chunkCount.
          putEntriesBatched ops
            [(journalManifestKey seq, journal_entry_manifest_value \<lparr>
                je_seq = seq, je_chunkSizeBytes = chunkSizeBytes cfg,
                je_chunkCount = chunkCount, je_byteLength = length u,
                je_sha256 = hash, je_updatedAt = now\<rparr>),
             (JOURNAL_META_KEY, journal_meta_value \<lparr>
                jm_nextSeq = to_double (seq + 1), jm_entryCount = to_double (jm_entryCount meta + 1),
                jm_totalBytes = jm_totalBytes meta + length u, jm_updatedAt = now\<rparr>)]
            (maxKeysPerOperation cfg)))
      (\<lambda>_ s'. view s' = appended now u d (view s)) (\<lambda>e _. flaky \<and> e \<noteq> None) s1"
  proof (cases "u = []")
    case True
    then show ?thesis by (simp add: wp_simps appended_def s1)
  next
    case False
    then show ?thesis
      unfolding if_not_P [OF False] Let_def wp_bind seq exact
      apply (intro wp_mono [OF wp_putChunkedPayloadBatched])
       apply (rule wp_mono [OF wp_putEntriesBatched])
        apply (simp add: s1 appended_def append_contents_def Let_def journal_manifest_of_def
          journal_meta_of_def)
      by (auto simp: io_error_def)
  qed
qed (auto simp: io_error_def)

text \<open>What an append leaves: it is done, or nothing changed and the storage failed, or
  it is durable and the read of the statistics that follows failed.\<close>

lemma wp_appendUpdate:
  assumes rep: "doc_rep digest (view s) d" and now: "now \<noteq> []" and room: "journal_room 1 d"
  shows "wp (appendUpdate digest ops cfg now u)
     (\<lambda>st s'. st = abs_stats (abs_append u d) \<and> view s' = appended now u d (view s))
     (\<lambda>e s'. flaky \<and> e \<noteq> None \<and> (view s' = view s \<or> view s' = appended now u d (view s))) s"
proof -
  have trans: "wp (st_transaction ops (appendTransaction digest ops cfg now u))
      (\<lambda>_ s'. view s' = appended now u d (view s))
      (\<lambda>e s'. ((flaky \<and> e \<noteq> None) \<or> flaky \<and> e \<noteq> None) \<and> view s' = view s) s"
    by (rule transaction_law [where P = "\<lambda>c. c = appended now u d (view s)"],
        rule wp_mono [OF wp_appendTransaction [OF _ room]]) (use rep in auto)
  show ?thesis
    unfolding appendUpdate_def
  proof (subst wp_bind, rule wp_mono [OF trans])
    fix x s1 assume s1: "view s1 = appended now u d (view s)"
    have "doc_rep digest (view s1) (abs_append u d)" unfolding s1 by (rule appended_rep [OF rep now room])
    from reads_wp [OF reads_journalStats [OF this, unfolded getJournalStats_def], of now]
    show "wp (act_bind (readJournalMeta ops now) (\<lambda>meta. act_return (journalStatsFromMeta meta)))
        (\<lambda>st s'. st = abs_stats (abs_append u d) \<and> view s' = appended now u d (view s))
        (\<lambda>e s'. flaky \<and> e \<noteq> None \<and> (view s' = view s \<or> view s' = appended now u d (view s))) s1"
      by (rule wp_mono) (auto simp: s1 storage_fails_def)
  qed auto
qed

section \<open>Rewriting\<close>

lemma reads_pointer:
  assumes rep: "doc_rep digest c d"
  shows "reads view flaky c (readPointerForRewrite ops)
     (\<lambda>p. p = map_option (\<lambda>(v, _). \<lparr>ptr_version = v\<rparr>) (abs_checkpoint d))"
  unfolding readPointerForRewrite_def
  by (rule reads_bind [OF reads_get], cases "abs_checkpoint d")
    (use rep in \<open>auto simp: doc_rep_def checkpoint_rep_def codec_simps intro!: reads_return\<close>)

lemma reads_oldCheckpointKeys:
  assumes rep: "doc_rep digest c d"
    and p: "p = map_option (\<lambda>(v, _). \<lparr>ptr_version = v\<rparr>) (abs_checkpoint d)"
  shows "reads view flaky c (oldCheckpointKeys ops p) (\<lambda>ks. set ks = checkpoint_keys c d)"
proof (cases "abs_checkpoint d")
  case None
  with p show ?thesis
    by (simp add: oldCheckpointKeys_def checkpoint_keys_def reads_return)
next
  case (Some vus)
  obtain v u sv where ck: "abs_checkpoint d = Some (v, u, sv)" using Some by (cases vus) auto
  with rep obtain n t where v: "0 < v" "0 < n" "t \<noteq> []"
    and man: "c (checkpointManifestKey v) =
       Some (checkpoint_manifest_value (checkpoint_manifest_of digest v u sv n t))"
    by (auto simp: doc_rep_def checkpoint_rep_def)
  have ok: "isChunkedManifest (checkpoint_manifest_value (checkpoint_manifest_of digest v u sv n t))"
    using v by (simp add: codec_simps) (simp add: checkpoint_manifest_of_def)
  have fields: "ck_version (checkpoint_manifest_of digest v u sv n t) = v"
    "ck_chunkCount (checkpoint_manifest_of digest v u sv n t) = slice_count n u"
    by (simp_all add: checkpoint_manifest_of_def)
  have "set (checkpointManifestKey v # checkpointStateVectorKey v
      # List.map (\<lambda>i. checkpointChunkKey v i) [0..<slice_count n u]) = checkpoint_keys c d"
    by (auto simp: checkpoint_keys_def ck man codec_simps checkpoint_manifest_of_def)
  then show ?thesis
    unfolding oldCheckpointKeys_def p ck
    by simp (rule reads_bind [OF reads_get], simp add: man ok fields Let_def codec_simps(4)
      reads_return)
qed

lemma journalKeysOf_entries:
  assumes "\<And>q. q \<in> set seqs \<Longrightarrow> \<exists>m. journalManifestAt ''journal compact'' es q = Inr m \<and>
      c (journalManifestKey q) = Some (journal_entry_manifest_value m)"
  shows "\<exists>ks. journalKeysOf es seqs = Inr ks \<and> set ks = (\<Union>q\<in>set seqs. journal_entry_keys c q)"
  using assms
proof (induction seqs)
  case Nil
  then show ?case by simp
next
  case (Cons q seqs)
  from Cons.prems [of q] obtain m where m: "journalManifestAt ''journal compact'' es q = Inr m"
    "c (journalManifestKey q) = Some (journal_entry_manifest_value m)" by auto
  from Cons obtain ks where "journalKeysOf es seqs = Inr ks"
    "set ks = (\<Union>q\<in>set seqs. journal_entry_keys c q)" by auto
  moreover have "set (journalManifestKey q # List.map (\<lambda>i. journalChunkKey q i) [0..<je_chunkCount m]) =
      journal_entry_keys c q"
    by (auto simp: journal_entry_keys_def m codec_simps)
  ultimately show ?case by (auto simp: m)
qed

lemma reads_oldJournalKeys:
  assumes rep: "doc_rep digest c d"
  shows "reads view flaky c (oldJournalKeys ops cfg (journal_meta_of (abs_firstSeq d) (abs_journal d) t))
     (\<lambda>ks. set ks = journal_keys c d)"
proof (cases "abs_journal d = []")
  case True
  then show ?thesis
    by (simp add: oldJournalKeys_def journal_meta_of_def journal_keys_def reads_return)
next
  case False
  let ?first = "abs_firstSeq d" and ?us = "abs_journal d"
  have nz: "jm_entryCount (journal_meta_of ?first ?us t) \<noteq> 0"
    using False by (simp add: journal_meta_of_def)
  have first: "0 < ?first" using rep by (simp add: doc_rep_def)
  have keys: "\<exists>ks. journalKeysOf es [?first..<?first + length ?us] = Inr ks \<and> set ks = journal_keys c d"
    if es: "distinct (List.map fst es)"
      "map_of es = c |` set (List.map journalManifestKey [?first..<?first + length ?us])" for es
  proof -
    have "\<exists>m. journalManifestAt ''journal compact'' es q = Inr m \<and>
        c (journalManifestKey q) = Some (journal_entry_manifest_value m)"
      if "q \<in> set [?first..<?first + length ?us]" for q
      using manifest_entries(2) [OF rep es, of "q - ?first" "''journal compact''"] that
      by fastforce
    from journalKeysOf_entries [where seqs = "[?first..<?first + length ?us]", OF this]
    show ?thesis by (simp add: journal_keys_def)
  qed
  show ?thesis
    unfolding oldJournalKeys_def if_not_P [OF nz] expectedJournalSeqs_meta [OF rep] act_bind_return
  proof (rule reads_bind [OF reads_getMany])
    fix es
    assume es: "distinct (List.map fst es) \<and>
      map_of es = c |` set (List.map journalManifestKey [?first..<?first + length ?us])"
    then have "length es = length ?us"
      using manifest_entries(1) [OF rep] by blast
    with keys [of es] es show "reads view flaky c
        (if length es \<noteq> length [?first..<?first + length ?us]
         then act_throw (JournalManifestsMissing ''journal compact''
           (length [?first..<?first + length ?us]) (length es))
         else act_of (journalKeysOf es [?first..<?first + length ?us]))
        (\<lambda>ks. set ks = journal_keys c d)"
      by (auto intro: reads_of)
  qed
qed

lemma wp_writeCheckpoint:
  assumes v: "v = new_version d" and ks: "set ks = checkpoint_keys (view s) d \<union> journal_keys (view s) d"
  shows "wp (act_bind (putChunkedPayloadBatched ops u (chunkSizeBytes cfg)
          (\<lambda>i. checkpointChunkKey v i) (maxKeysPerOperation cfg)) (\<lambda>chunkCount.
        act_bind (putEntriesBatched ops
          [(checkpointManifestKey v, checkpoint_manifest_value \<lparr>
              ck_version = v, ck_chunkSizeBytes = chunkSizeBytes cfg,
              ck_chunkCount = chunkCount, ck_byteLength = length u,
              ck_sha256 = sha256Hex digest u,
              ck_stateVectorByteLength = length sv,
              ck_stateVectorSha256 = sha256Hex digest sv,
              ck_updatedAt = now\<rparr>),
           (checkpointStateVectorKey v, JUint8 sv),
           (CHECKPOINT_POINTER_KEY, pointer_value \<lparr>ptr_version = v\<rparr>),
           (JOURNAL_META_KEY, journal_meta_value (emptyJournalMeta now))]
          (maxKeysPerOperation cfg)) (\<lambda>_.
        deleteKeysBatched ops ks (maxKeysPerOperation cfg))))
     (\<lambda>_ s'. view s' = rewrite_contents digest (chunkSizeBytes cfg) now u sv d (view s))
     (io_error flaky) s"
  unfolding wp_bind
  apply (rule wp_mono [OF wp_putChunkedPayloadBatched])
   apply (rule wp_mono [OF wp_putEntriesBatched])
    apply (rule wp_mono [OF wp_deleteKeysBatched])
     apply (simp_all only: delete_all_def rewrite_contents_def rewrite_written_def Let_def ks v
      checkpoint_manifest_of_def)
  done

lemma wp_rewriteTransaction:
  assumes rep: "doc_rep digest (view s) d"
  shows "wp (rewriteTransaction digest ops cfg now u sv)
     (\<lambda>_ s'. view s' = rewrite_contents digest (chunkSizeBytes cfg) now u sv d (view s))
     (io_error flaky) s"
proof -
  let ?p = "map_option (\<lambda>(v, _). \<lparr>ptr_version = v\<rparr>) (abs_checkpoint d)"
  have version: "(case ?p of None \<Rightarrow> 1 | Some p \<Rightarrow> ptr_version p + 1) = new_version d"
    by (auto simp: new_version_def split: option.split)
  have fails: "flaky \<and> e \<noteq> None \<and> view s' = view s \<Longrightarrow> io_error flaky e s'" for e s'
    by (simp add: io_error_def)
  show ?thesis
    unfolding rewriteTransaction_def Let_def
    apply (subst wp_bind)
    apply (rule wp_mono [OF readsD [OF reads_pointer [OF rep] refl] _ fails])
     apply (subst wp_bind)
     apply (erule conjE)
     apply (rule wp_mono [OF readsD [OF reads_oldCheckpointKeys [OF rep]] _ fails]; assumption?)
     apply (subst wp_bind)
     apply (erule conjE)
     apply (rule wp_mono [OF readsD [OF reads_journalMeta [OF rep]] _ fails]; assumption?)
     apply (subst wp_bind)
     apply (elim conjE exE)
     apply (simp only:)
     apply (rule wp_mono [OF readsD [OF reads_oldJournalKeys [OF rep]] _ fails]; assumption?)
     apply (erule conjE)
     apply (rule wp_mono [OF wp_writeCheckpoint [where d = d]])
        apply (rule version)
       apply simp
      apply simp
     apply assumption
    apply assumption
    done
qed

lemma wp_rewriteCheckpoint:
  assumes rep: "doc_rep digest (view s) d"
  shows "wp (rewriteCheckpoint digest ops cfg now u sv)
     (\<lambda>_ s'. view s' = rewrite_contents digest (chunkSizeBytes cfg) now u sv d (view s))
     (storage_fails flaky view s) s"
proof -
  have "wp (st_transaction ops (rewriteTransaction digest ops cfg now u sv))
      (\<lambda>_ s'. view s' = rewrite_contents digest (chunkSizeBytes cfg) now u sv d (view s))
      (\<lambda>e s'. ((flaky \<and> e \<noteq> None) \<or> flaky \<and> e \<noteq> None) \<and> view s' = view s) s"
    by (rule transaction_law [where P =
          "\<lambda>c. c = rewrite_contents digest (chunkSizeBytes cfg) now u sv d (view s)"],
        rule wp_mono [OF wp_rewriteTransaction]) (use rep in \<open>auto simp: io_error_def\<close>)
  then show ?thesis
    unfolding rewriteCheckpoint_def by (rule wp_mono) (auto simp: storage_fails_def)
qed

end

end
