(* ===== verification/DocStoreSafe.thy ===== *)
theory DocStoreSafe
  imports DocStoreOps
begin

text \<open>
  Loading from contents nobody vouches for: whatever the storage holds (a document
  corrupted by hand, by another version, or by a lost write), loading changes nothing
  and returns only payloads whose length and hash agree with a manifest that
  passed its guard; every disagreement is an error. It ends where the stored counters are integers that
  doubles hold exactly; \<open>journal_never_ends\<close> shows that otherwise it may not.
\<close>

section \<open>Actions that only look\<close>

definition inspects ::
  "('s \<Rightarrow> contents) \<Rightarrow> contents \<Rightarrow> ('s, 'e, 'a) act \<Rightarrow> ('a \<Rightarrow> bool) \<Rightarrow> bool" where
  "inspects view c m P \<longleftrightarrow> (\<forall>s. view s = c \<longrightarrow>
     wp m (\<lambda>r s'. P r \<and> view s' = c) (\<lambda>e s'. e \<noteq> None \<and> view s' = c) s)"

lemma inspects_bind:
  assumes "inspects view c m P" and "\<And>x. P x \<Longrightarrow> inspects view c (f x) Q"
  shows "inspects view c (act_bind m f) Q"
  unfolding inspects_def wp_bind
proof (intro allI impI)
  fix s assume "view s = c"
  with assms(1) have "wp m (\<lambda>r s'. P r \<and> view s' = c) (\<lambda>e s'. e \<noteq> None \<and> view s' = c) s"
    by (simp add: inspects_def)
  then show "wp m (\<lambda>x. wp (f x) (\<lambda>r s'. Q r \<and> view s' = c) (\<lambda>e s'. e \<noteq> None \<and> view s' = c))
      (\<lambda>e s'. e \<noteq> None \<and> view s' = c) s"
    by (rule wp_mono) (use assms(2) in \<open>auto simp: inspects_def\<close>)
qed

lemma inspects_return: "P x \<Longrightarrow> inspects view c (act_return x) P"
  by (simp add: inspects_def wp_simps)

lemma inspects_throw [simp]: "inspects view c (act_throw e) P"
  by (simp add: inspects_def wp_simps)

lemma inspects_if:
  "(b \<Longrightarrow> inspects view c m P) \<Longrightarrow> (\<not> b \<Longrightarrow> inspects view c m' P) \<Longrightarrow>
   inspects view c (if b then m else m') P"
  by simp

lemma inspects_mono: "inspects view c m P \<Longrightarrow> (\<And>x. P x \<Longrightarrow> Q x) \<Longrightarrow> inspects view c m Q"
  unfolding inspects_def by (blast intro: wp_mono)

lemma inspects_of: "(\<And>x. r = Inr x \<Longrightarrow> P x) \<Longrightarrow> inspects view c (act_of r) P"
  by (cases r) (simp_all add: inspects_return)

lemma inspects_reads: "reads view flaky c m P \<Longrightarrow> inspects view c m P"
  unfolding reads_def inspects_def by (blast intro: wp_mono)

lemma inspects_fold:
  assumes "\<And>pre x post acc. xs = pre @ x # post \<Longrightarrow> I pre acc \<Longrightarrow>
             inspects view c (f x acc) (I (pre @ [x]))"
    and "I [] acc"
  shows "inspects view c (act_fold f xs acc) (I xs)"
  unfolding inspects_def
proof (intro allI impI)
  fix s assume "view s = c"
  show "wp (act_fold f xs acc) (\<lambda>r s'. I xs r \<and> view s' = c) (\<lambda>e s'. e \<noteq> None \<and> view s' = c) s"
    by (rule wp_act_fold [where I = "\<lambda>pre acc s'. I pre acc \<and> view s' = c"])
      (use assms \<open>view s = c\<close> in \<open>auto simp: inspects_def\<close>)
qed

lemma inspects_of_eq: "inspects view c (act_of r) (\<lambda>x. r = Inr x)"
  by (rule inspects_of)

section \<open>What an accepted payload satisfies\<close>

definition payload_verified :: "(bytes \<Rightarrow> bytes) \<Rightarrow> chunk_descriptor \<Rightarrow> bytes \<Rightarrow> bool" where
  "payload_verified digest d u \<longleftrightarrow> length u = cd_byteLength d \<and> sha256Hex digest u = cd_sha256 d"

lemma readChunkStep_length:
  assumes "readChunkStep d keyFor label chunks i (full, off) = Inr (full', off')"
    and "length full = cd_byteLength d"
  shows "length full' = cd_byteLength d"
  using assms by (auto simp: readChunkStep_def typed_set_def split: option.splits sum.splits if_splits)

lemma readChunkLoop_length:
  "readChunkLoop (readChunkStep d keyFor label chunks) is st = Inr st' \<Longrightarrow>
   length (fst st) = cd_byteLength d \<Longrightarrow> length (fst st') = cd_byteLength d"
proof (induction "is" arbitrary: st)
  case Nil
  then show ?case by simp
next
  case (Cons i "is")
  obtain st1 where st1: "readChunkStep d keyFor label chunks i st = Inr st1"
    and rest: "readChunkLoop (readChunkStep d keyFor label chunks) is st1 = Inr st'"
    using Cons.prems(1) by (auto split: sum.splits)
  have "length (fst st1) = cd_byteLength d"
    using readChunkStep_length [of d keyFor label chunks i "fst st" "snd st" "fst st1" "snd st1"]
      st1 Cons.prems(2) by simp
  with Cons.IH rest show ?case by blast
qed

lemma assembleChunks_verified:
  assumes "assembleChunks digest d keyFor label chunks = Inr u"
  shows "payload_verified digest d u"
proof -
  from assms obtain off where
    loop: "readChunkLoop (readChunkStep d keyFor label chunks) [0..<cd_chunkCount d]
             (replicate (cd_byteLength d) 0, 0) = Inr (u, off)"
    and hash: "sha256Hex digest u = cd_sha256 d"
    by (auto simp: assembleChunks_def split: if_splits sum.splits)
  from readChunkLoop_length [OF loop] hash show ?thesis by (simp add: payload_verified_def)
qed

text \<open>The stored counters that loops run to, and the version that names the checkpoint's keys, are at most \<open>2 ^ 53\<close>.\<close>

definition exact_counters :: "contents \<Rightarrow> bool" where
  "exact_counters c \<longleftrightarrow>
     (\<forall>v. c JOURNAL_META_KEY = Some v \<and> isJournalMeta v \<longrightarrow> jm_nextSeq (as_journal_meta v) \<le> 2 ^ 53) \<and>
     (\<forall>v. c CHECKPOINT_POINTER_KEY = Some v \<and> isManifestPointer v \<longrightarrow> ptr_version (as_pointer v) \<le> 2 ^ 53) \<and>
     (\<forall>k v. c k = Some v \<longrightarrow>
        (isChunkedManifest v \<longrightarrow> ck_chunkCount (as_checkpoint_manifest v) \<le> 2 ^ 53) \<and>
        (isJournalEntryManifest v \<longrightarrow> je_chunkCount (as_journal_entry_manifest v) \<le> 2 ^ 53))"

text \<open>Beyond that the loop over the sequence numbers gets stuck at \<open>2 ^ 53\<close>.\<close>

lemma expectedJournalSeqs_stuck:
  assumes "jm_entryCount meta < jm_nextSeq meta" and "jm_nextSeq meta - jm_entryCount meta \<le> 2 ^ 53"
    and "2 ^ 53 < jm_nextSeq meta"
  shows "expectedJournalSeqs meta = act_diverge"
proof -
  from assms(1) have "nat (int (jm_nextSeq meta) - int (jm_entryCount meta)) = jm_nextSeq meta - jm_entryCount meta"
    by simp
  with assms show ?thesis
    by (auto simp: expectedJournalSeqs_def Let_def count_from_stuck act_loop_def)
qed

lemma expectedJournalSeqs_exact:
  assumes "jm_nextSeq meta \<le> 2 ^ 53"
  shows "expectedJournalSeqs meta =
    (if jm_entryCount meta < jm_nextSeq meta then act_return [jm_nextSeq meta - jm_entryCount meta..<jm_nextSeq meta]
     else act_throw (JournalMetaInconsistent (jm_nextSeq meta) (jm_entryCount meta)))"
proof -
  have "nat (int (jm_nextSeq meta) - int (jm_entryCount meta)) = jm_nextSeq meta - jm_entryCount meta"
    by simp
  with assms show ?thesis
    by (auto simp: expectedJournalSeqs_def Let_def count_from_exact act_loop_def)
qed

text \<open>The checkpoint and the journal entry of a load agree with manifests in the contents.\<close>

definition checkpoint_verified :: "(bytes \<Rightarrow> bytes) \<Rightarrow> contents \<Rightarrow> (bytes \<times> bytes) option \<Rightarrow> bool" where
  "checkpoint_verified digest c r = (case r of
      None \<Rightarrow> c CHECKPOINT_POINTER_KEY = None
    | Some (u, sv) \<Rightarrow> (\<exists>pv mv. c CHECKPOINT_POINTER_KEY = Some pv \<and> isManifestPointer pv \<and>
        c (checkpointManifestKey (ptr_version (as_pointer pv))) = Some mv \<and> isChunkedManifest mv \<and>
        ck_version (as_checkpoint_manifest mv) = ptr_version (as_pointer pv) \<and>
        payload_verified digest (checkpoint_descriptor (as_checkpoint_manifest mv)) u \<and>
        length sv = ck_stateVectorByteLength (as_checkpoint_manifest mv) \<and>
        sha256Hex digest sv = ck_stateVectorSha256 (as_checkpoint_manifest mv)))"

definition entry_verified :: "(bytes \<Rightarrow> bytes) \<Rightarrow> contents \<Rightarrow> nat \<Rightarrow> bytes \<Rightarrow> bool" where
  "entry_verified digest c q u \<longleftrightarrow> (\<exists>mv. c (journalManifestKey q) = Some mv \<and>
     isJournalEntryManifest mv \<and> je_seq (as_journal_entry_manifest mv) = q \<and>
     payload_verified digest (journal_descriptor (as_journal_entry_manifest mv)) u)"

definition journal_verified :: "(bytes \<Rightarrow> bytes) \<Rightarrow> contents \<Rightarrow> journal_meta \<times> bytes list \<Rightarrow> bool" where
  "journal_verified digest c r = (case r of (meta, us) \<Rightarrow>
     length us = jm_entryCount meta \<and> sum_list (List.map length us) = jm_totalBytes meta \<and>
     (\<forall>i<length us. entry_verified digest c (jm_nextSeq meta - jm_entryCount meta + i) (us ! i)) \<and>
     (case c JOURNAL_META_KEY of
        None \<Rightarrow> us = []
      | Some v \<Rightarrow> isJournalMeta v \<and> meta = as_journal_meta v))"

context doc_storage begin

lemma inspects_payload:
  "inspects view c (readChunkedPayload digest ops d keyFor label (maxKeysPerOperation cfg))
     (payload_verified digest d)"
  unfolding readChunkedPayload_def
  by (rule inspects_bind [OF inspects_reads [OF reads_getMany]], rule inspects_of)
    (rule assembleChunks_verified)

lemma inspects_get: "inspects view c (st_get ops k) (\<lambda>v. v = c k)"
  by (rule inspects_reads) (rule reads_get)

lemma inspects_checkpoint:
  "inspects view c (loadCheckpoint digest ops cfg) (checkpoint_verified digest c)"
  unfolding loadCheckpoint_def
proof (rule inspects_bind [OF inspects_get])
  fix p assume p: "p = c CHECKPOINT_POINTER_KEY"
  show "inspects view c (case p of None \<Rightarrow> act_return None
     | Some pv \<Rightarrow> if \<not> isManifestPointer pv then act_throw CheckpointPointerInvalid
       else let pointer = as_pointer pv in
       act_bind (st_get ops (checkpointManifestKey (ptr_version pointer))) (\<lambda>rawManifest.
       case rawManifest of
         None \<Rightarrow> act_throw (CheckpointManifestInvalid (ptr_version pointer))
       | Some mv \<Rightarrow>
         if \<not> isChunkedManifest mv then act_throw (CheckpointManifestInvalid (ptr_version pointer))
         else let m = as_checkpoint_manifest mv in
         if ck_version m \<noteq> ptr_version pointer
         then act_throw (CheckpointVersionMismatch (ptr_version pointer) (ck_version m))
         else act_bind (readChunkedPayload digest ops (checkpoint_descriptor m)
               (\<lambda>i. checkpointChunkKey (ck_version m) i) ''checkpoint'' (maxKeysPerOperation cfg)) (\<lambda>upd.
           act_bind (st_get ops (checkpointStateVectorKey (ck_version m))) (\<lambda>rawStateVector.
           act_bind (act_of (checkStateVector digest m rawStateVector)) (\<lambda>stateVector.
           act_return (Some (upd, stateVector))))))) (checkpoint_verified digest c)"
  proof (cases p)
    case None
    with p show ?thesis by (simp add: checkpoint_verified_def inspects_return)
  next
    case (Some pv)
    show ?thesis
      unfolding Some option.case Let_def
      apply (rule inspects_if, rule inspects_throw)
      apply (rule inspects_bind [OF inspects_get])
      apply (simp split: option.split)
      apply (intro allI impI)
      apply (rule inspects_bind [OF inspects_payload])
      apply (rule inspects_bind [OF inspects_get])
      apply (rule inspects_bind [OF inspects_of_eq])
      apply (rule inspects_return)
      using Some p
      apply (auto simp: checkpoint_verified_def checkStateVector_def
        split: option.splits sum.splits if_splits)
      done
  qed
qed

lemma inspects_journalMeta:
  "inspects view c (readJournalMeta ops now) (\<lambda>meta. case c JOURNAL_META_KEY of
      None \<Rightarrow> meta = emptyJournalMeta now | Some v \<Rightarrow> isJournalMeta v \<and> meta = as_journal_meta v)"
  unfolding readJournalMeta_def
  by (rule inspects_bind [OF inspects_get]) (auto intro: inspects_return split: option.split)

lemma inspects_entry:
  assumes es: "map_of es = c |` K"
  shows "inspects view c (loadJournalEntry digest ops cfg es q (n, us))
     (\<lambda>r. \<exists>u. r = (n + length u, us @ [u]) \<and> entry_verified digest c q u)"
  unfolding loadJournalEntry_def prod.case
  apply (rule inspects_bind [OF inspects_of_eq])
  apply (rule inspects_bind [OF inspects_payload])
  apply (rule inspects_return)
  apply (auto simp: entry_verified_def journalManifestAt_def es restrict_map_def
      split: option.splits if_splits)
  done

lemma inspects_journal:
  assumes exact: "exact_counters c"
  shows "inspects view c (loadJournal digest ops cfg now) (journal_verified digest c)"
  unfolding loadJournal_def
proof (rule inspects_bind [OF inspects_journalMeta])
  fix meta
  assume meta: "case c JOURNAL_META_KEY of
      None \<Rightarrow> meta = emptyJournalMeta now | Some v \<Rightarrow> isJournalMeta v \<and> meta = as_journal_meta v"
  let ?first = "jm_nextSeq meta - jm_entryCount meta"
  let ?I = "\<lambda>pre r. length (snd r) = length pre \<and> fst r = sum_list (List.map length (snd r)) \<and>
              (\<forall>i<length pre. entry_verified digest c (pre ! i) (snd r ! i))"
  have "jm_nextSeq meta \<le> 2 ^ 53"
    using meta exact by (auto simp: exact_counters_def emptyJournalMeta_def split: option.splits)
  then have seqs: "inspects view c (expectedJournalSeqs meta)
      (\<lambda>qs. qs = [?first..<jm_nextSeq meta] \<and> length qs = jm_entryCount meta)"
    by (simp add: expectedJournalSeqs_exact inspects_return)
  have loop: "inspects view c (act_fold (loadJournalEntry digest ops cfg es) qs (0, [])) (?I qs)"
    if es: "map_of es = c |` K" for es K qs
  proof (rule inspects_fold)
    fix pre q post acc
    assume I: "?I pre acc"
    obtain n us where acc: "acc = (n, us)" by (cases acc)
    show "inspects view c (loadJournalEntry digest ops cfg es q acc) (?I (pre @ [q]))"
      unfolding acc
      by (rule inspects_mono [OF inspects_entry [OF es]])
        (use I in \<open>auto simp: acc nth_append less_Suc_eq\<close>)
  qed simp
  show "inspects view c
      (if jm_entryCount meta = 0
       then if jm_totalBytes meta \<noteq> 0 then act_throw JournalEmptyWithBytes else act_return (meta, [])
       else act_bind (expectedJournalSeqs meta) (\<lambda>seqs.
          act_bind (getManyBatched ops (List.map journalManifestKey seqs) (maxKeysPerOperation cfg))
            (\<lambda>manifestMap. if length manifestMap \<noteq> length seqs
              then act_throw (JournalManifestsMissing ''journal load'' (length seqs) (length manifestMap))
              else act_bind (act_fold (loadJournalEntry digest ops cfg manifestMap) seqs (0, []))
                (\<lambda>(totalBytes, entries). if totalBytes \<noteq> jm_totalBytes meta
                   then act_throw (JournalTotalBytesMismatch (jm_totalBytes meta) totalBytes)
                   else act_return (meta, entries)))))
      (journal_verified digest c)"
  proof (cases "jm_entryCount meta = 0")
    case True
    with meta show ?thesis
      by (auto simp: journal_verified_def intro!: inspects_return split: option.splits)
  next
    case False
    then have nonempty: "c JOURNAL_META_KEY \<noteq> None" using meta by (auto simp: emptyJournalMeta_def split: option.splits)
    show ?thesis
      unfolding if_not_P [OF False]
      apply (rule inspects_bind [OF seqs])
      apply (rule inspects_bind [OF inspects_reads [OF reads_getMany]])
      apply (rule inspects_if, rule inspects_throw)
      apply (rule inspects_bind)
       apply (rule loop)
       apply (erule conjunct2)
      using meta nonempty
      apply (auto simp: journal_verified_def intro!: inspects_return split: option.splits)
      done
  qed
qed

lemma inspects_state:
  assumes "exact_counters c"
  shows "inspects view c (loadState digest ops cfg now) (\<lambda>r. \<exists>ck meta. checkpoint_verified digest c ck \<and>
     journal_verified digest c (meta, ld_journalUpdates r) \<and>
     ld_checkpoint r = map_option fst ck \<and> ld_checkpointStateVector r = map_option snd ck \<and>
     ld_journalStats r = journalStatsFromMeta meta)"
  unfolding loadState_def
  apply (rule inspects_bind [OF inspects_checkpoint])
  apply (rule inspects_bind [OF inspects_journal [OF assms]])
  apply (clarsimp intro!: inspects_return)
  apply blast
  done

text \<open>A load from contents without a checkpoint, whose journal counters pass their guard and are out of range.\<close>

lemma journal_never_ends:
  assumes "view s CHECKPOINT_POINTER_KEY = None" and "view s JOURNAL_META_KEY = Some v" and "isJournalMeta v"
    and "jm_entryCount (as_journal_meta v) < jm_nextSeq (as_journal_meta v)"
    and "0 < jm_entryCount (as_journal_meta v)" and "2 ^ 53 < jm_nextSeq (as_journal_meta v)"
    and "jm_nextSeq (as_journal_meta v) - jm_entryCount (as_journal_meta v) \<le> 2 ^ 53"
  shows "wp (loadState digest ops cfg now) (\<lambda>_ _. False) (\<lambda>e _. e = None \<or> flaky) s"
proof -
  have none: "wp (loadJournal digest ops cfg now) (\<lambda>_ _. False) (\<lambda>e _. e = None \<or> flaky) s'"
    if "view s' = view s" for s'
    unfolding loadJournal_def readJournalMeta_def wp_bind
    by (rule wp_mono [OF get_law])
      (use assms that in \<open>auto simp: wp_simps expectedJournalSeqs_stuck storage_fails_def\<close>)
  have journal: "wp (loadJournal digest ops cfg now) Q (\<lambda>e _. e = None \<or> flaky) s'"
    if "view s' = view s" for s' Q
    by (rule wp_mono [OF none [OF that]]) simp_all
  show ?thesis
    unfolding loadState_def loadCheckpoint_def wp_bind
    by (rule wp_mono [OF get_law]) (use assms(1) journal in \<open>auto simp: wp_simps storage_fails_def\<close>)
qed

end

end
