(* ===== verification/DocStoreProps.thy ===== *)
theory DocStoreProps
  imports DocStoreSafe
begin

text \<open>
  The interface of the document store that the persistence coordinator uses, as the
  locale \<open>doc_store\<close>, its interpretation on the chunked store over any storage with the
  contract, and the properties of the store with their witnesses on the reference
  storages.
\<close>

section \<open>The interface\<close>

record ('s, 'e) doc_store_ops =
  ds_append :: "jsstr \<Rightarrow> bytes \<Rightarrow> ('s, 'e, journal_stats) act"
  ds_rewrite :: "jsstr \<Rightarrow> bytes \<Rightarrow> bytes \<Rightarrow> ('s, 'e, unit) act"
  ds_stats :: "jsstr \<Rightarrow> ('s, 'e, journal_stats) act"
  ds_load :: "jsstr \<Rightarrow> ('s, 'e, loaded_doc_state) act"

locale doc_store =
  fixes store :: "('s, 'e) doc_store_ops"
    and rep :: "'s \<Rightarrow> doc_abs \<Rightarrow> bool"
    and flaky :: bool
  assumes append_law: "rep s d \<Longrightarrow> now \<noteq> [] \<Longrightarrow> journal_room 1 d \<Longrightarrow> wp (ds_append store now u)
      (\<lambda>st s'. rep s' (abs_append u d) \<and> st = abs_stats (abs_append u d))
      (\<lambda>e s'. flaky \<and> e \<noteq> None \<and> (rep s' d \<or> rep s' (abs_append u d))) s"
    and rewrite_law: "rep s d \<Longrightarrow> now \<noteq> [] \<Longrightarrow> wp (ds_rewrite store now u sv)
      (\<lambda>_ s'. rep s' (abs_rewrite u sv d)) (\<lambda>e s'. flaky \<and> e \<noteq> None \<and> rep s' d) s"
    and stats_law: "rep s d \<Longrightarrow> wp (ds_stats store now)
      (\<lambda>st s'. rep s' d \<and> st = abs_stats d) (\<lambda>e s'. flaky \<and> e \<noteq> None \<and> rep s' d) s"
    and load_law: "rep s d \<Longrightarrow> wp (ds_load store now)
      (\<lambda>r s'. rep s' d \<and> r = abs_load d) (\<lambda>e s'. flaky \<and> e \<noteq> None \<and> rep s' d) s"

definition chunked_store ::
  "(bytes \<Rightarrow> bytes) \<Rightarrow> ('s, doc_error) storage_ops \<Rightarrow> store_config \<Rightarrow> ('s, doc_error) doc_store_ops" where
  "chunked_store digest ops cfg = \<lparr>
     ds_append = appendUpdate digest ops cfg,
     ds_rewrite = rewriteCheckpoint digest ops cfg,
     ds_stats = getJournalStats ops,
     ds_load = loadState digest ops cfg\<rparr>"

definition doc_holds :: "(bytes \<Rightarrow> bytes) \<Rightarrow> contents \<Rightarrow> doc_abs \<Rightarrow> bool" where
  "doc_holds digest c d \<longleftrightarrow> doc_rep digest c d \<and> no_orphans c d"

lemma doc_holds_empty [simp]: "doc_holds digest Map.empty empty_doc"
  by (simp add: doc_holds_def)

context doc_storage begin

lemma appended_holds:
  "doc_holds digest c d \<Longrightarrow> now \<noteq> [] \<Longrightarrow> journal_room 1 d \<Longrightarrow> doc_holds digest (appended now u d c) (abs_append u d)"
  by (simp add: doc_holds_def appended_rep appended_no_orphans)

lemma rewritten_holds:
  "doc_holds digest c d \<Longrightarrow> now \<noteq> [] \<Longrightarrow>
   doc_holds digest (rewrite_contents digest (chunkSizeBytes cfg) now u sv d c) (abs_rewrite u sv d)"
  by (simp add: doc_holds_def doc_rep_rewrite chunk_size_pos no_orphans_rewrite)

lemma wp_append_holds:
  assumes "doc_holds digest (view s) d" and "now \<noteq> []" and "journal_room 1 d"
  shows "wp (appendUpdate digest ops cfg now u)
    (\<lambda>st s'. doc_holds digest (view s') (abs_append u d) \<and> st = abs_stats (abs_append u d))
    (\<lambda>e s'. flaky \<and> e \<noteq> None \<and>
       (view s' = view s \<or> doc_holds digest (view s') (abs_append u d))) s"
  using assms appended_holds [OF assms]
  by (intro wp_mono [OF wp_appendUpdate]) (auto simp: doc_holds_def)

lemma wp_rewrite_holds:
  assumes "doc_holds digest (view s) d" and "now \<noteq> []"
  shows "wp (rewriteCheckpoint digest ops cfg now u sv)
    (\<lambda>_ s'. doc_holds digest (view s') (abs_rewrite u sv d)) (storage_fails flaky view s) s"
  using assms rewritten_holds [OF assms]
  by (intro wp_mono [OF wp_rewriteCheckpoint]) (auto simp: doc_holds_def)

lemma wp_load_holds:
  assumes "doc_holds digest (view s) d"
  shows "wp (loadState digest ops cfg now) (\<lambda>r s'. r = abs_load d \<and> view s' = view s)
    (storage_fails flaky view s) s"
  using assms by (intro reads_wp reads_state) (simp add: doc_holds_def)

lemma wp_stats_holds:
  assumes "doc_holds digest (view s) d"
  shows "wp (getJournalStats ops now) (\<lambda>r s'. r = abs_stats d \<and> view s' = view s)
    (storage_fails flaky view s) s"
  using assms by (intro reads_wp reads_journalStats) (simp add: doc_holds_def)

end

sublocale doc_storage \<subseteq> chunked: doc_store "chunked_store digest ops cfg"
  "\<lambda>s d. doc_holds digest (view s) d" flaky
proof (unfold_locales, goal_cases)
  case (1 s d now u)
  show ?case
    unfolding chunked_store_def by simp (rule wp_mono [OF wp_append_holds [OF 1]], use 1 in auto)
next
  case (2 s d now u sv)
  show ?case
    unfolding chunked_store_def
    by simp (rule wp_mono [OF wp_rewrite_holds [OF 2]], use 2 in \<open>auto simp: storage_fails_def\<close>)
next
  case (3 s d now)
  show ?case
    unfolding chunked_store_def
    by simp (rule wp_mono [OF wp_stats_holds [OF 3]], use 3 in \<open>auto simp: storage_fails_def\<close>)
next
  case (4 s d now)
  show ?case
    unfolding chunked_store_def
    by simp (rule wp_mono [OF wp_load_holds [OF 4]], use 4 in \<open>auto simp: storage_fails_def\<close>)
qed

context doc_storage begin

lemma chunked_doc_store:
  "doc_store (chunked_store digest ops cfg) (\<lambda>s d. doc_holds digest (view s) d) flaky"
  by (rule chunked.doc_store_axioms)

end

section \<open>The reference instances\<close>

text \<open>SHA-256 is a parameter; for concrete runs any function with 32-byte results serves.\<close>

definition ref_digest :: "bytes \<Rightarrow> bytes" where
  "ref_digest bs = replicate 31 0 @ [foldl (\<lambda>h b. 31 * h + b) 7 bs]"

definition ref_err :: doc_error where
  "ref_err = StorageFailure ''refused''"

definition small_cfg :: store_config where
  "small_cfg = \<lparr>chunkSizeBytes = 2, maxKeysPerOperation = 3\<rparr>"

definition ref_time :: jsstr where
  "ref_time = lit ''2026-01-01T00:00:00.000Z''"

lemma ref_time_nonempty [simp]: "ref_time \<noteq> []"
  by (simp add: ref_time_def)

lemma id_holds_empty: "doc_holds digest (id Map.empty) empty_doc"
  by simp

interpretation ref_store: doc_storage "ref_storage 128 ref_err" id 128 False ref_digest small_cfg
  by unfold_locales (simp_all add: ref_digest_def small_cfg_def)

interpretation faulty_store: doc_storage "faulty_storage 128 ref_err" fst 128 True ref_digest small_cfg
  by unfold_locales (simp_all add: ref_digest_def small_cfg_def)

interpretation default_store: doc_storage "ref_storage 128 ref_err" id 128 False ref_digest
  "newChunkedDocStore None None"
  by unfold_locales (simp_all add: ref_digest_def newChunkedDocStore_def)

section \<open>Histories\<close>

text \<open>A caller that tries one operation after another and goes on after a failure.\<close>

datatype store_op = OpAppend bytes | OpRewrite bytes bytes | OpLoad

fun run_op ::
  "(bytes \<Rightarrow> bytes) \<Rightarrow> ('s, doc_error) storage_ops \<Rightarrow> store_config \<Rightarrow> jsstr \<Rightarrow> store_op \<Rightarrow>
   ('s, doc_error, unit) act" where
  "run_op digest ops cfg now (OpAppend u) =
     act_bind (appendUpdate digest ops cfg now u) (\<lambda>_. act_return ())"
| "run_op digest ops cfg now (OpRewrite u sv) = rewriteCheckpoint digest ops cfg now u sv"
| "run_op digest ops cfg now OpLoad =
     act_bind (loadState digest ops cfg now) (\<lambda>_. act_return ())"

fun run_history ::
  "(bytes \<Rightarrow> bytes) \<Rightarrow> ('s, doc_error) storage_ops \<Rightarrow> store_config \<Rightarrow> jsstr \<Rightarrow> store_op list \<Rightarrow>
   's \<Rightarrow> bool list \<times> 's" where
  "run_history digest ops cfg now [] s = ([], s)"
| "run_history digest ops cfg now (x # xs) s =
     (case run_op digest ops cfg now x s of (r, s1) \<Rightarrow>
      case run_history digest ops cfg now xs s1 of (oks, s2) \<Rightarrow> ((r = Return ()) # oks, s2))"

fun abs_op :: "store_op \<Rightarrow> doc_abs \<Rightarrow> doc_abs" where
  "abs_op (OpAppend u) d = abs_append u d"
| "abs_op (OpRewrite u sv) d = abs_rewrite u sv d"
| "abs_op OpLoad d = d"

text \<open>\<open>abs_history x oks d d'\<close>: \<open>d'\<close> is \<open>d\<close> after the operations that were reported done, and
  possibly some appends whose report failed.\<close>

fun abs_history :: "store_op list \<Rightarrow> bool list \<Rightarrow> doc_abs \<Rightarrow> doc_abs set" where
  "abs_history [] [] d = {d}"
| "abs_history (x # xs) (ok # oks) d =
     (if ok then abs_history xs oks (abs_op x d)
      else abs_history xs oks d \<union>
        (case x of OpAppend u \<Rightarrow> abs_history xs oks (abs_append u d) | _ \<Rightarrow> {}))"
| "abs_history _ _ d = {}"

context doc_storage begin

lemma wp_run_op:
  assumes "doc_holds digest (view s) d" and "now \<noteq> []" and "journal_room 1 d"
  shows "wp (run_op digest ops cfg now x) (\<lambda>_ s'. doc_holds digest (view s') (abs_op x d))
    (\<lambda>e s'. flaky \<and> (doc_holds digest (view s') d \<or>
       (\<exists>u. x = OpAppend u \<and> doc_holds digest (view s') (abs_append u d)))) s"
proof (cases x)
  case (OpAppend u)
  then show ?thesis
    using assms by (simp add: wp_simps) (rule wp_mono [OF wp_append_holds [OF assms]], auto simp: wp_simps)
next
  case (OpRewrite u sv)
  then show ?thesis
    using assms by simp (rule wp_mono [OF wp_rewrite_holds [OF assms(1,2)]], auto simp: storage_fails_def)
next
  case OpLoad
  then show ?thesis
    using assms by (simp add: wp_simps) (rule wp_mono [OF wp_load_holds [OF assms(1)]],
      auto simp: wp_simps storage_fails_def)
qed

lemma abs_op_room: "journal_room (Suc n) d \<Longrightarrow> journal_room n (abs_op x d)"
  by (cases x) (auto intro: journal_room_ops journal_room_less)

lemma run_history_holds:
  assumes "doc_holds digest (view s) d" and "now \<noteq> []" and "journal_room (length xs) d"
    and "run_history digest ops cfg now xs s = (oks, s')"
  shows "\<exists>d'\<in>abs_history xs oks d. doc_holds digest (view s') d'"
    and "\<not> flaky \<Longrightarrow> oks = replicate (length xs) True"
  using assms
proof (induction xs arbitrary: s d oks s')
  case (Cons x xs)
  {
    case 1
    have room: "journal_room 1 d" "journal_room (length xs) d" "journal_room (length xs) (abs_op x d)"
      "\<And>u. journal_room (length xs) (abs_append u d)"
      using 1(3) abs_op_room [of "length xs" d] journal_room_ops(1) [of "length xs" d]
      by (auto intro: journal_room_less)
    obtain r s1 where r: "run_op digest ops cfg now x s = (r, s1)" by fastforce
    obtain oks1 where rest: "run_history digest ops cfg now xs s1 = (oks1, s')"
      "oks = (r = Return ()) # oks1"
      using 1(4) r by (auto split: prod.splits)
    from wp_run_op [OF 1(1,2) room(1), of x] have
      "if r = Return () then doc_holds digest (view s1) (abs_op x d)
       else doc_holds digest (view s1) d \<or>
         (\<exists>u. x = OpAppend u \<and> doc_holds digest (view s1) (abs_append u d))"
      by (auto simp: wp_def r split: outcome.splits)
    with Cons.IH(1) [OF _ 1(2) _ rest(1)] room(2-) show ?case
      unfolding rest(2) by (fastforce split: if_splits)
  next
    case 2
    have room: "journal_room 1 d" "journal_room (length xs) (abs_op x d)"
      using 2(4) abs_op_room [of "length xs" d] by (auto intro: journal_room_less)
    obtain r s1 where r: "run_op digest ops cfg now x s = (r, s1)" by fastforce
    obtain oks1 where rest: "run_history digest ops cfg now xs s1 = (oks1, s')"
      "oks = (r = Return ()) # oks1"
      using 2(5) r by (auto split: prod.splits)
    from wp_run_op [OF 2(2,3) room(1), of x] 2(1) have "r = Return ()" "doc_holds digest (view s1) (abs_op x d)"
      by (auto simp: wp_def r split: outcome.splits)
    with Cons.IH(2) [OF 2(1) _ 2(3) room(2) rest(1)] rest(2) show ?case by simp
  }
qed auto

end

section \<open>Properties\<close>

text \<open>
  C3. \<open>appendUpdate\<close> implements appending to the abstract journal, over every storage with the
  contract and as long as the next sequence number is below \<open>2 ^ 53\<close>, where doubles count exactly: a return leaves contents that hold the journal with the update at its end (nothing
  for an empty update), with no stray key, and reports its statistics; a failure happens only
  with a flaky storage and leaves the contents as they were, or with the whole append done.
\<close>

theorem append_refines:
  assumes "doc_storage ops view limit flaky digest cfg"
    and "doc_holds digest (view s) d" and "now \<noteq> []" and "journal_room 1 d"
  shows "case appendUpdate digest ops cfg now u s of
      (Return st, s') \<Rightarrow> doc_holds digest (view s') (abs_append u d) \<and> st = abs_stats (abs_append u d)
    | (Throw e, s') \<Rightarrow> flaky \<and> (view s' = view s \<or> doc_holds digest (view s') (abs_append u d))
    | (Diverge, s') \<Rightarrow> False"
  using doc_storage.wp_append_holds [OF assms, of u]
  by (auto simp: wp_def split: prod.splits outcome.splits)

theorem append_refines_witness:
  "case appendUpdate ref_digest (ref_storage 128 ref_err) small_cfg ref_time [1, 2, 3] Map.empty of
     (Return st, c) \<Rightarrow> st = \<lparr>js_entryCount = 1, js_totalBytes = 3, js_nextSeq = 2\<rparr> \<and>
        doc_holds ref_digest c \<lparr>abs_checkpoint = None, abs_firstSeq = 1, abs_journal = [[1, 2, 3]]\<rparr>
   | _ \<Rightarrow> False"
proof -
  have d: "abs_append [1, 2, 3] empty_doc =
      \<lparr>abs_checkpoint = None, abs_firstSeq = 1, abs_journal = [[1, 2, 3]]\<rparr>"
    by (simp add: abs_append_def empty_doc_def)
  from append_refines [OF ref_store.doc_storage_axioms, of Map.empty empty_doc ref_time "[1, 2, 3]"]
  show ?thesis
    by (simp add: d abs_stats_def split: prod.splits outcome.splits)
qed

text \<open>
  C5. \<open>rewriteCheckpoint\<close> implements replacing the checkpoint: a return leaves contents that hold
  the new checkpoint under the next version and an empty journal, with every key of the old
  checkpoint and of the folded journal deleted; a failure happens only with a flaky storage and
  leaves the contents as they were.
\<close>

theorem rewrite_refines:
  assumes "doc_storage ops view limit flaky digest cfg"
    and "doc_holds digest (view s) d" and "now \<noteq> []"
  shows "case rewriteCheckpoint digest ops cfg now u sv s of
      (Return _, s') \<Rightarrow> doc_holds digest (view s') (abs_rewrite u sv d)
    | (Throw e, s') \<Rightarrow> flaky \<and> view s' = view s
    | (Diverge, s') \<Rightarrow> False"
  using doc_storage.wp_rewrite_holds [OF assms, of u sv]
  by (auto simp: wp_def storage_fails_def split: prod.splits outcome.splits)

theorem rewrite_refines_witness:
  "case rewriteCheckpoint ref_digest (faulty_storage 128 ref_err) small_cfg ref_time [1, 2, 3] [9]
          (Map.empty, [False, False]) of
     (Return _, s') \<Rightarrow> doc_holds ref_digest (fst s')
        \<lparr>abs_checkpoint = Some (1, [1, 2, 3], [9]), abs_firstSeq = 1, abs_journal = []\<rparr>
   | (Throw e, s') \<Rightarrow> fst s' = Map.empty
   | (Diverge, s') \<Rightarrow> False"
proof -
  have d: "abs_rewrite [1, 2, 3] [9] empty_doc =
      \<lparr>abs_checkpoint = Some (1, [1, 2, 3], [9]), abs_firstSeq = 1, abs_journal = []\<rparr>"
    by (simp add: abs_rewrite_def empty_doc_def)
  from rewrite_refines [OF faulty_store.doc_storage_axioms, of "(Map.empty, [False, False])"
      empty_doc ref_time "[1, 2, 3]" "[9]"]
  show ?thesis by (auto simp: d split: prod.splits outcome.splits)
qed

text \<open>
  C15. \<open>loadState\<close> returns what the contents hold (the checkpoint's update and state vector and
  the journal's updates in order, with the statistics) and changes nothing; it fails only with
  a flaky storage.
\<close>

theorem load_refines:
  assumes "doc_storage ops view limit flaky digest cfg" and "doc_holds digest (view s) d"
  shows "case loadState digest ops cfg now s of
      (Return r, s') \<Rightarrow> r = abs_load d \<and> view s' = view s
    | (Throw e, s') \<Rightarrow> flaky \<and> view s' = view s
    | (Diverge, s') \<Rightarrow> False"
  using doc_storage.wp_load_holds [OF assms, of now]
  by (auto simp: wp_def storage_fails_def split: prod.splits outcome.splits)

theorem load_refines_witness:
  "case loadState ref_digest (ref_storage 128 ref_err) small_cfg ref_time
     (append_contents ref_digest 2 ref_time [1, 2, 3] empty_doc Map.empty) of
     (Return r, c) \<Rightarrow> ld_checkpoint r = None \<and> ld_journalUpdates r = [[1, 2, 3]]
   | _ \<Rightarrow> False"
proof -
  let ?c = "append_contents ref_digest 2 ref_time [1, 2, 3] empty_doc Map.empty"
  have "doc_holds ref_digest ?c (abs_append [1, 2, 3] empty_doc)"
    by (simp add: doc_holds_def doc_rep_append no_orphans_append)
  then have "doc_holds ref_digest (id ?c) (abs_append [1, 2, 3] empty_doc)" by simp
  note load_refines [where s = ?c and now = ref_time and view = id, OF ref_store.doc_storage_axioms this]
  moreover have "ld_checkpoint (abs_load (abs_append [1, 2, 3] empty_doc)) = None"
    "ld_journalUpdates (abs_load (abs_append [1, 2, 3] empty_doc)) = [[1, 2, 3]]"
    by (simp_all add: abs_load_def abs_append_def empty_doc_def)
  ultimately show ?thesis
    by (auto split: prod.splits outcome.splits)
qed

text \<open>
  C16. Loading never returns unverified data: from any contents, corrupt or incomplete, whose stored counters
  (the journal's next sequence number, the checkpoint's version and the chunk counts of the manifests) are
  at most \<open>2 ^ 53\<close> where they pass their guards, \<open>loadState\<close> changes nothing and ends, and what it returns agrees in length and hash with
  manifests that passed their guards (the checkpoint with the manifest the pointer names, each
  journal entry with the manifest under its sequence number), with entry count and byte total
  equal to the journal's metadata.
\<close>

theorem load_verified:
  assumes "doc_storage ops view limit flaky digest cfg" and "exact_counters (view s)"
  shows "case loadState digest ops cfg now s of
      (Return r, s') \<Rightarrow> view s' = view s \<and>
        (\<exists>ck meta. checkpoint_verified digest (view s) ck \<and>
           journal_verified digest (view s) (meta, ld_journalUpdates r) \<and>
           ld_checkpoint r = map_option fst ck \<and> ld_checkpointStateVector r = map_option snd ck \<and>
           ld_journalStats r = journalStatsFromMeta meta)
    | (Throw e, s') \<Rightarrow> view s' = view s
    | (Diverge, s') \<Rightarrow> False"
  using doc_storage.inspects_state [OF assms, of now, unfolded inspects_def,
      THEN spec, THEN mp, OF refl]
  by (auto simp: wp_def split: prod.splits outcome.splits)

theorem load_verified_witness:
  "case loadState ref_digest (ref_storage 128 ref_err) small_cfg ref_time
     [JOURNAL_META_KEY \<mapsto> JNull] of
     (Return r, c) \<Rightarrow> \<exists>meta. journal_verified ref_digest [JOURNAL_META_KEY \<mapsto> JNull] (meta, ld_journalUpdates r)
   | (Throw e, c) \<Rightarrow> c = [JOURNAL_META_KEY \<mapsto> JNull]
   | (Diverge, c) \<Rightarrow> False"
proof -
  have guards: "\<not> isJournalMeta JNull" "\<not> isManifestPointer JNull" "\<not> isChunkedManifest JNull"
    "\<not> isJournalEntryManifest JNull"
    by (simp_all add: guard_defs)
  then have "exact_counters (id [JOURNAL_META_KEY \<mapsto> JNull])"
    by (simp add: exact_counters_def)
  from load_verified [where view = id and s = "[JOURNAL_META_KEY \<mapsto> JNull]" and now = ref_time,
      OF ref_store.doc_storage_axioms this] show ?thesis
    by (auto split: prod.splits outcome.splits)
qed

text \<open>
  C11. No acknowledged write is lost: after any history of appends, rewrites and loads over a
  storage that may fail at any operation, where the caller goes on after a failure and the history is short enough for
  the journal's sequence numbers to stay within \<open>2 ^ 53\<close>, the contents
  hold the result of exactly the operations that were reported done, in order, except that an
  append reported as failed may be in the journal too; with a storage that does not fail every
  operation is reported done.
\<close>

theorem history_refines:
  assumes "doc_storage ops view limit flaky digest cfg"
    and "doc_holds digest (view s) d" and "now \<noteq> []" and "journal_room (length xs) d"
  shows "case run_history digest ops cfg now xs s of (oks, s') \<Rightarrow>
     (\<exists>d'\<in>abs_history xs oks d. doc_holds digest (view s') d') \<and>
     (flaky \<or> oks = replicate (length xs) True)"
  using doc_storage.run_history_holds [OF assms]
  by (auto split: prod.splits)

theorem history_refines_witness:
  "case run_history ref_digest (ref_storage 128 ref_err) small_cfg ref_time
      [OpAppend [1], OpRewrite [1, 2, 3] [7], OpAppend [4], OpAppend [5, 6]] Map.empty of
     (oks, c) \<Rightarrow> oks = [True, True, True, True] \<and>
       doc_holds ref_digest c \<lparr>abs_checkpoint = Some (1, [1, 2, 3], [7]), abs_firstSeq = 1,
          abs_journal = [[4], [5, 6]]\<rparr>"
proof -
  let ?xs = "[OpAppend [1], OpRewrite [1, 2, 3] [7], OpAppend [4], OpAppend [5, 6]]"
  have d: "abs_history ?xs [True, True, True, True] empty_doc =
      {\<lparr>abs_checkpoint = Some (1, [1, 2, 3], [7]), abs_firstSeq = 1, abs_journal = [[4], [5, 6]]\<rparr>}"
    by (simp add: abs_append_def abs_rewrite_def empty_doc_def)
  have n: "replicate (length ?xs) True = [True, True, True, True]" by (simp add: eval_nat_numeral)
  have room: "journal_room (length ?xs) empty_doc" by simp
  obtain oks c where run: "run_history ref_digest (ref_storage 128 ref_err) small_cfg ref_time ?xs
      Map.empty = (oks, c)" by fastforce
  from history_refines [where s = Map.empty and view = id and xs = ?xs,
      OF ref_store.doc_storage_axioms id_holds_empty ref_time_nonempty room]
  have h: "(\<exists>d'\<in>abs_history ?xs oks empty_doc. doc_holds ref_digest (id c) d') \<and>
      (False \<or> oks = [True, True, True, True])"
    unfolding run prod.case n .
  then have ok: "oks = [True, True, True, True]" by (rule disjE [OF conjunct2]) simp_all
  from conjunct1 [OF h] show ?thesis
    unfolding run prod.case ok d id_apply bex_simps by (simp only: simp_thms)
qed



text \<open>
  \<open>chunkArray\<close> ends for every positive batch size, with batches that concatenate to the input, each
  non-empty and of at most the batch size; for batch size 0 it never ends on a non-empty array.
\<close>

theorem chunkArray_batches:
  "if 0 < n then \<exists>bs. chunkArray xs n = Some bs \<and> concat bs = xs \<and>
       list_all (\<lambda>b. b \<noteq> [] \<and> length b \<le> n) bs
   else chunkArray xs n = (if xs = [] then Some [] else None)"
proof (induction xs n rule: chunkArray.induct)
  case (1 xs n)
  show ?case
  proof (cases "xs = [] \<or> n = 0")
    case True
    then show ?thesis by (subst (1 2) chunkArray.simps) auto
  next
    case False
    with 1 obtain bs where "chunkArray (drop n xs) n = Some bs" "concat bs = drop n xs"
      "list_all (\<lambda>b. b \<noteq> [] \<and> length b \<le> n) bs" by auto
    then have "chunkArray xs n = Some (take n xs # bs)" "concat (take n xs # bs) = xs"
      "list_all (\<lambda>b. b \<noteq> [] \<and> length b \<le> n) (take n xs # bs)"
      using False by (simp_all add: chunkArray.simps [of xs n])
    with False show ?thesis by auto
  qed
qed

end
