(* ===== verification/Persistence.thy ===== *)
theory Persistence
  imports DocStoreProps
begin

text \<open>
  The save chain of a vault, \<open>packages/yaos-core/src/persistenceCoordinator.ts\<close>, and the
  loading of a vault's document, \<open>loadDocument\<close> of \<open>apps/worker/src/vault-coordinator.ts\<close>.
  The CRDT library is the argument \<open>c\<close> (its encode, apply and state vector functions on
  documents of a type of its own). A save awaits the store twice, and the document may be edited
  meanwhile: \<open>d\<close> is the document when the save starts and \<open>d'\<close> when it encodes the document
  again. Error objects are described by the argument \<open>describe\<close> (class name and
  message), and \<open>clock i\<close> is the \<open>i\<close>th time stamp a save takes. The trace callback is left out.
\<close>

section \<open>State\<close>

record 'd crdt_ops =
  y_new :: 'd
  y_apply :: "'d \<Rightarrow> bytes \<Rightarrow> 'd"
  y_update :: "'d \<Rightarrow> bytes"
  y_delta :: "'d \<Rightarrow> bytes \<Rightarrow> bytes"
  y_vector :: "'d \<Rightarrow> bytes"

datatype persistence_status = Healthy | Degraded

record health =
  h_status :: persistence_status
  h_lastSaveStartedAt :: "jsstr option"
  h_lastSaveSucceededAt :: "jsstr option"
  h_lastSaveFailedAt :: "jsstr option"
  h_lastSaveError :: "jsstr option"
  h_successfulSaveCount :: nat
  h_failedSaveCount :: nat
  h_consecutiveSaveFailures :: nat
  h_pendingPersistence :: bool
  h_queuedSaveCount :: nat
  h_lastDeltaBytes :: "nat option"
  h_lastPersistedStateVectorHash :: "jsstr option"
  h_journalEntryCount :: "nat option"
  h_journalBytes :: "nat option"
  h_checkpointFallbackCount :: nat
  h_lastCompactionAt :: "jsstr option"
  h_lastCompactionReason :: "jsstr option"
  h_lastCompactionError :: "jsstr option"

record persist_cfg =
  checkpointFallbackDeltaBytes :: nat
  checkpointFallbackAfterFailures :: nat
  journalCompactMaxEntries :: nat
  journalCompactMaxBytes :: nat

record persistence =
  pc_lastPersisted :: "bytes option"
  pc_failures :: nat
  pc_health :: health

datatype save_method = MAppend | MCheckpointFallback | MImmediateFallback | MSkipped

record save_result =
  sr_success :: bool
  sr_method :: save_method
  sr_error :: "jsstr option"
  sr_journalStats :: "journal_stats option"

definition newPersistenceCfg ::
  "nat option \<Rightarrow> nat option \<Rightarrow> nat option \<Rightarrow> nat option \<Rightarrow> persist_cfg" where
  "newPersistenceCfg deltaBytes failures entries bs = \<lparr>
     checkpointFallbackDeltaBytes = (case deltaBytes of Some n \<Rightarrow> n | None \<Rightarrow> 2 * 1024 * 1024),
     checkpointFallbackAfterFailures = (case failures of Some n \<Rightarrow> n | None \<Rightarrow> 2),
     journalCompactMaxEntries = (case entries of Some n \<Rightarrow> n | None \<Rightarrow> 50),
     journalCompactMaxBytes = (case bs of Some n \<Rightarrow> n | None \<Rightarrow> 1 * 1024 * 1024)\<rparr>"

definition initialHealth :: health where
  "initialHealth = \<lparr>
     h_status = Healthy, h_lastSaveStartedAt = None, h_lastSaveSucceededAt = None,
     h_lastSaveFailedAt = None, h_lastSaveError = None, h_successfulSaveCount = 0,
     h_failedSaveCount = 0, h_consecutiveSaveFailures = 0, h_pendingPersistence = False,
     h_queuedSaveCount = 0, h_lastDeltaBytes = None, h_lastPersistedStateVectorHash = None,
     h_journalEntryCount = None, h_journalBytes = None, h_checkpointFallbackCount = 0,
     h_lastCompactionAt = None, h_lastCompactionReason = None, h_lastCompactionError = None\<rparr>"

definition newPersistence :: persistence where
  "newPersistence = \<lparr>pc_lastPersisted = None, pc_failures = 0, pc_health = initialHealth\<rparr>"

definition equalBytes :: "bytes \<Rightarrow> bytes \<Rightarrow> bool" where
  "equalBytes a b =
     (if length a \<noteq> length b then False else list_all (\<lambda>i. a ! i = b ! i) [0..<length a])"

definition stateVectorHash :: "bytes \<Rightarrow> jsstr" where
  "stateVectorHash sv = bytesToHex (take 16 sv)"

section \<open>Updates of the coordinator's state\<close>

definition setInitialStateVector :: "bytes \<Rightarrow> persistence \<Rightarrow> persistence" where
  "setInitialStateVector sv p = p\<lparr>pc_lastPersisted := Some sv,
     pc_health := (pc_health p)\<lparr>h_lastPersistedStateVectorHash := Some (stateVectorHash sv)\<rparr>\<rparr>"

definition saveStarted :: "jsstr \<Rightarrow> persistence \<Rightarrow> persistence" where
  "saveStarted now p = p\<lparr>pc_health := (pc_health p)\<lparr>h_lastSaveStartedAt := Some now\<rparr>\<rparr>"

text \<open>What both fallbacks record once the checkpoint is rewritten.\<close>

definition checkpointSaved :: "bytes \<Rightarrow> jsstr \<Rightarrow> nat \<Rightarrow> persistence \<Rightarrow> persistence" where
  "checkpointSaved sv now deltaBytes p = p\<lparr>
     pc_lastPersisted := Some sv, pc_failures := 0,
     pc_health := (pc_health p)\<lparr>
       h_status := Healthy, h_lastSaveSucceededAt := Some now, h_lastSaveError := None,
       h_successfulSaveCount := h_successfulSaveCount (pc_health p) + 1,
       h_lastDeltaBytes := Some deltaBytes,
       h_lastPersistedStateVectorHash := Some (stateVectorHash sv),
       h_checkpointFallbackCount := h_checkpointFallbackCount (pc_health p) + 1,
       h_consecutiveSaveFailures := 0\<rparr>\<rparr>"

definition statsSeen :: "journal_stats \<Rightarrow> persistence \<Rightarrow> persistence" where
  "statsSeen st p = p\<lparr>pc_health := (pc_health p)\<lparr>
     h_journalEntryCount := Some (js_entryCount st), h_journalBytes := Some (js_totalBytes st)\<rparr>\<rparr>"

definition saveFailed :: "jsstr \<Rightarrow> jsstr \<Rightarrow> persistence \<Rightarrow> persistence" where
  "saveFailed now err p = p\<lparr>
     pc_failures := pc_failures p + 1,
     pc_health := (pc_health p)\<lparr>
       h_lastSaveFailedAt := Some now, h_lastSaveError := Some err,
       h_failedSaveCount := h_failedSaveCount (pc_health p) + 1,
       h_consecutiveSaveFailures := pc_failures p + 1, h_status := Degraded\<rparr>\<rparr>"

definition appendSaved :: "bytes \<Rightarrow> jsstr \<Rightarrow> nat \<Rightarrow> journal_stats \<Rightarrow> persistence \<Rightarrow> persistence" where
  "appendSaved sv now deltaBytes st p = p\<lparr>
     pc_lastPersisted := Some sv, pc_failures := 0,
     pc_health := (pc_health p)\<lparr>
       h_status := Healthy, h_lastSaveSucceededAt := Some now, h_lastSaveError := None,
       h_successfulSaveCount := h_successfulSaveCount (pc_health p) + 1,
       h_lastDeltaBytes := Some deltaBytes,
       h_lastPersistedStateVectorHash := Some (stateVectorHash sv),
       h_journalEntryCount := Some (js_entryCount st), h_journalBytes := Some (js_totalBytes st),
       h_consecutiveSaveFailures := 0\<rparr>\<rparr>"

definition compactionSaved :: "bytes \<Rightarrow> jsstr \<Rightarrow> jsstr \<Rightarrow> persistence \<Rightarrow> persistence" where
  "compactionSaved sv now reason p = p\<lparr>
     pc_lastPersisted := Some sv,
     pc_health := (pc_health p)\<lparr>
       h_lastPersistedStateVectorHash := Some (stateVectorHash sv),
       h_lastCompactionAt := Some now, h_lastCompactionReason := Some reason,
       h_lastCompactionError := None\<rparr>\<rparr>"

definition compactionFailed :: "jsstr \<Rightarrow> jsstr \<Rightarrow> jsstr \<Rightarrow> persistence \<Rightarrow> persistence" where
  "compactionFailed now reason err p = p\<lparr>pc_health := (pc_health p)\<lparr>
     h_lastCompactionAt := Some now, h_lastCompactionReason := Some reason,
     h_lastCompactionError := Some err\<rparr>\<rparr>"

section \<open>Saving\<close>

text \<open>A save runs on the store's state and the coordinator's; \<open>try\<close> makes a throw a value.\<close>

definition on_store :: "('s, 'e, 'a) act \<Rightarrow> ('s \<times> 'p, 'e, 'a) act" where
  "on_store m = (\<lambda>(s, p). case m s of (r, s') \<Rightarrow> (r, (s', p)))"

definition pc_modify :: "('p \<Rightarrow> 'p) \<Rightarrow> ('s \<times> 'p, 'e, unit) act" where
  "pc_modify f = (\<lambda>(s, p). (Return (), (s, f p)))"

definition pc_get :: "('s \<times> 'p, 'e, 'p) act" where
  "pc_get = (\<lambda>(s, p). (Return p, (s, p)))"

definition act_try :: "('s, 'e, 'a) act \<Rightarrow> ('s, 'e, 'e + 'a) act" where
  "act_try m = act_catch (act_bind m (\<lambda>x. act_return (Inr x))) (\<lambda>e. act_return (Inl e))"

definition executeCheckpointFallback ::
  "'d crdt_ops \<Rightarrow> ('s, 'e) doc_store_ops \<Rightarrow> ('e \<Rightarrow> jsstr \<times> jsstr) \<Rightarrow> (nat \<Rightarrow> jsstr) \<Rightarrow>
   'd \<Rightarrow> bytes \<Rightarrow> ('s \<times> persistence, 'e, save_result) act" where
  "executeCheckpointFallback c store describe clock d delta =
     act_catch
       (let checkpointUpdate = y_update c d; checkpointStateVector = y_vector c d in
        act_bind (on_store (ds_rewrite store (clock 1) checkpointUpdate checkpointStateVector)) (\<lambda>_.
        act_bind (pc_modify (checkpointSaved checkpointStateVector (clock 2) (length delta))) (\<lambda>_.
        act_bind (on_store (ds_stats store (clock 3))) (\<lambda>stats.
        act_bind (pc_modify (statsSeen stats)) (\<lambda>_.
        act_return \<lparr>sr_success = True, sr_method = MCheckpointFallback, sr_error = None,
          sr_journalStats = Some stats\<rparr>)))))
       (\<lambda>err. case describe err of (errorClass, errorMessage) \<Rightarrow>
        act_bind (pc_modify (saveFailed (clock 4)
            (errorClass @ lit '': '' @ errorMessage @ lit '' (checkpoint fallback)''))) (\<lambda>_.
        act_return \<lparr>sr_success = False, sr_method = MCheckpointFallback,
          sr_error = Some errorMessage, sr_journalStats = None\<rparr>))"

definition executeImmediateFallback ::
  "'d crdt_ops \<Rightarrow> ('s, 'e) doc_store_ops \<Rightarrow> ('e \<Rightarrow> jsstr \<times> jsstr) \<Rightarrow> (nat \<Rightarrow> jsstr) \<Rightarrow>
   'd \<Rightarrow> bytes \<Rightarrow> ('s \<times> persistence, 'e, save_result) act" where
  "executeImmediateFallback c store describe clock d' delta =
     act_catch
       (let checkpointUpdate = y_update c d'; checkpointStateVector = y_vector c d' in
        act_bind (on_store (ds_rewrite store (clock 5) checkpointUpdate checkpointStateVector)) (\<lambda>_.
        act_bind (pc_modify (checkpointSaved checkpointStateVector (clock 6) (length delta))) (\<lambda>_.
        act_bind (on_store (ds_stats store (clock 7))) (\<lambda>stats.
        act_bind (pc_modify (statsSeen stats)) (\<lambda>_.
        act_return \<lparr>sr_success = True, sr_method = MImmediateFallback, sr_error = None,
          sr_journalStats = Some stats\<rparr>)))))
       (\<lambda>err. case describe err of (errorClass, errorMessage) \<Rightarrow>
        act_return \<lparr>sr_success = False, sr_method = MImmediateFallback,
          sr_error = Some errorMessage, sr_journalStats = None\<rparr>)"

definition compactionReason :: "persist_cfg \<Rightarrow> journal_stats \<Rightarrow> jsstr" where
  "compactionReason cfg journalStats =
     (if journalCompactMaxEntries cfg < js_entryCount journalStats
      then lit ''entry_count_exceeded'' else lit ''byte_size_exceeded'')"

definition executeCompaction ::
  "'d crdt_ops \<Rightarrow> ('s, 'e) doc_store_ops \<Rightarrow> persist_cfg \<Rightarrow> ('e \<Rightarrow> jsstr \<times> jsstr) \<Rightarrow>
   (nat \<Rightarrow> jsstr) \<Rightarrow> 'd \<Rightarrow> journal_stats \<Rightarrow> ('s \<times> persistence, 'e, unit) act" where
  "executeCompaction c store cfg describe clock d' journalStats =
      act_catch
       (let checkpointUpdate = y_update c d'; checkpointStateVector = y_vector c d' in
        act_bind (on_store (ds_rewrite store (clock 5) checkpointUpdate checkpointStateVector)) (\<lambda>_.
        act_bind (pc_modify (compactionSaved checkpointStateVector (clock 6)
          (compactionReason cfg journalStats))) (\<lambda>_.
        act_bind (on_store (ds_stats store (clock 7))) (\<lambda>compactedStats.
        pc_modify (statsSeen compactedStats)))))
       (\<lambda>err. case describe err of (errorClass, errorMessage) \<Rightarrow>
        pc_modify (compactionFailed (clock 8) (compactionReason cfg journalStats)
          (errorClass @ lit '': '' @ errorMessage)))"

definition executeAppend ::
  "'d crdt_ops \<Rightarrow> ('s, 'e) doc_store_ops \<Rightarrow> persist_cfg \<Rightarrow> ('e \<Rightarrow> jsstr \<times> jsstr) \<Rightarrow>
   (nat \<Rightarrow> jsstr) \<Rightarrow> 'd \<Rightarrow> bytes \<Rightarrow> bytes \<Rightarrow> ('s \<times> persistence, 'e, save_result) act" where
  "executeAppend c store cfg describe clock d' delta currentStateVector =
     act_bind (act_try (on_store (ds_append store (clock 1) delta))) (\<lambda>appended.
     case appended of
       Inl appendErr \<Rightarrow>
         (case describe appendErr of (errorClass, errorMessage) \<Rightarrow>
          act_bind (pc_modify (saveFailed (clock 2) (errorClass @ lit '': '' @ errorMessage))) (\<lambda>_.
          act_bind pc_get (\<lambda>p.
          if checkpointFallbackAfterFailures cfg \<le> pc_failures p
          then executeImmediateFallback c store describe clock d' delta
          else act_return \<lparr>sr_success = False, sr_method = MAppend,
                 sr_error = Some errorMessage, sr_journalStats = None\<rparr>)))
     | Inr journalStats \<Rightarrow>
         act_bind (pc_modify (appendSaved currentStateVector (clock 3) (length delta) journalStats)) (\<lambda>_.
         act_bind
           (if journalCompactMaxEntries cfg < js_entryCount journalStats \<or>
               journalCompactMaxBytes cfg < js_totalBytes journalStats
            then executeCompaction c store cfg describe clock d' journalStats
            else act_return ()) (\<lambda>_.
         act_return \<lparr>sr_success = True, sr_method = MAppend, sr_error = None,
           sr_journalStats = Some journalStats\<rparr>)))"

definition skippedSave :: save_result where
  "skippedSave = \<lparr>sr_success = True, sr_method = MSkipped, sr_error = None, sr_journalStats = None\<rparr>"

definition executeSave ::
  "'d crdt_ops \<Rightarrow> ('s, 'e) doc_store_ops \<Rightarrow> persist_cfg \<Rightarrow> ('e \<Rightarrow> jsstr \<times> jsstr) \<Rightarrow>
   (nat \<Rightarrow> jsstr) \<Rightarrow> 'd \<Rightarrow> 'd \<Rightarrow> ('s \<times> persistence, 'e, save_result) act" where
  "executeSave c store cfg describe clock d d' =
     act_bind (pc_modify (saveStarted (clock 0))) (\<lambda>_.
     act_bind pc_get (\<lambda>p.
     let baseStateVector = pc_lastPersisted p; currentStateVector = y_vector c d in
     if (case baseStateVector of Some base \<Rightarrow> equalBytes base currentStateVector | None \<Rightarrow> False)
     then act_return skippedSave
     else let delta = (case baseStateVector of Some base \<Rightarrow> y_delta c d base | None \<Rightarrow> y_update c d) in
     if length delta = 0 then act_return skippedSave
     else if checkpointFallbackDeltaBytes cfg < length delta \<or>
             checkpointFallbackAfterFailures cfg \<le> pc_failures p
     then executeCheckpointFallback c store describe clock d delta
     else executeAppend c store cfg describe clock d' delta currentStateVector))"

section \<open>The queue\<close>

text \<open>\<open>enqueueSave\<close> in its two halves: what it does at once, and the \<open>finally\<close> of the task
  it chains.\<close>

definition enqueueSave :: "persistence \<Rightarrow> persistence" where
  "enqueueSave p = p\<lparr>pc_health := (pc_health p)\<lparr>
     h_queuedSaveCount := h_queuedSaveCount (pc_health p) + 1, h_pendingPersistence := True\<rparr>\<rparr>"

definition saveSettled :: "persistence \<Rightarrow> persistence" where
  "saveSettled p =
     (let queued = h_queuedSaveCount (pc_health p) - 1 in
      p\<lparr>pc_health := (pc_health p)\<lparr>
        h_queuedSaveCount := queued,
        h_pendingPersistence := (0 < queued \<or> h_status (pc_health p) = Degraded)\<rparr>\<rparr>)"

section \<open>Loading\<close>

definition loadDocument ::
  "'d crdt_ops \<Rightarrow> ('s, 'e) doc_store_ops \<Rightarrow> jsstr \<Rightarrow> 'd \<Rightarrow> ('s \<times> persistence, 'e, 'd) act" where
  "loadDocument c store now doc =
     act_bind (on_store (ds_load store now)) (\<lambda>state.
     let doc1 = (case ld_checkpoint state of Some u \<Rightarrow> y_apply c doc u | None \<Rightarrow> doc);
         doc2 = foldl (y_apply c) doc1 (ld_journalUpdates state);
         stateVector = (case ld_checkpointStateVector state of
             Some sv \<Rightarrow> if ld_journalUpdates state = [] then sv else y_vector c doc2
           | None \<Rightarrow> y_vector c doc2)
     in act_bind (pc_modify (setInitialStateVector stateVector)) (\<lambda>_.
        act_bind (pc_modify (statsSeen (ld_journalStats state))) (\<lambda>_.
        act_return doc2)))"

end
