(* ===== verification/PersistenceSpec.thy ===== *)
theory PersistenceSpec
  imports Persistence
begin

text \<open>
  What saving promises. The CRDT library is described by \<open>crdt_laws\<close>: the items a document has
  inserted and deleted, what applying an encoded update adds, and that a state vector names the
  inserted items only (deletions are not part of it). Over a document store with the contract
  \<open>doc_store\<close> the lemmas show that the persisted state vector never claims more than a reload
  returns, whatever fails.
\<close>

section \<open>The laws of the CRDT library\<close>

locale crdt_laws =
  fixes c :: "'d crdt_ops" and ins :: "'d \<Rightarrow> 'i set" and del :: "'d \<Rightarrow> 'i set"
    and vec :: "bytes \<Rightarrow> 'i set"
  assumes new_law: "ins (y_new c) = {}" "del (y_new c) = {}"
    and vector_law: "vec (y_vector c d) = ins d"
    and update_law: "ins (y_apply c e (y_update c d)) = ins e \<union> ins d"
      "del (y_apply c e (y_update c d)) = del e \<union> del d"
    and delta_law: "vec sv \<subseteq> ins e \<Longrightarrow> ins (y_apply c e (y_delta c d sv)) = ins e \<union> ins d"
      "vec sv \<subseteq> ins e \<Longrightarrow> del (y_apply c e (y_delta c d sv)) = del e \<union> del d"
    and update_nonempty: "y_update c d \<noteq> []" "y_delta c d sv \<noteq> []"

text \<open>\<open>d\<close> has everything \<open>e\<close> has.\<close>

definition covers :: "('d \<Rightarrow> 'i set) \<Rightarrow> ('d \<Rightarrow> 'i set) \<Rightarrow> 'd \<Rightarrow> 'd \<Rightarrow> bool" where
  "covers ins del d e \<longleftrightarrow> ins e \<subseteq> ins d \<and> del e \<subseteq> del d"

lemma covers_refl [simp]: "covers ins del d d"
  by (simp add: covers_def)

lemma covers_trans: "covers ins del d e \<Longrightarrow> covers ins del e f \<Longrightarrow> covers ins del d f"
  by (auto simp: covers_def)

text \<open>The document a fresh load of the store's state yields.\<close>

definition checkpoint_doc :: "'d crdt_ops \<Rightarrow> doc_abs \<Rightarrow> 'd" where
  "checkpoint_doc c D = (case abs_checkpoint D of
     Some (v, u, sv) \<Rightarrow> y_apply c (y_new c) u | None \<Rightarrow> y_new c)"

definition replay :: "'d crdt_ops \<Rightarrow> doc_abs \<Rightarrow> 'd" where
  "replay c D = foldl (y_apply c) (checkpoint_doc c D) (abs_journal D)"

text \<open>Both state vectors, the checkpoint's and the coordinator's, claim only what a reload has.\<close>

definition vectors_sound ::
  "'d crdt_ops \<Rightarrow> ('d \<Rightarrow> 'i set) \<Rightarrow> (bytes \<Rightarrow> 'i set) \<Rightarrow> doc_abs \<Rightarrow> persistence \<Rightarrow> bool" where
  "vectors_sound c ins vec D p \<longleftrightarrow>
     (\<forall>sv. pc_lastPersisted p = Some sv \<longrightarrow> vec sv \<subseteq> ins (replay c D)) \<and>
     (\<forall>v u sv. abs_checkpoint D = Some (v, u, sv) \<longrightarrow> vec sv \<subseteq> ins (checkpoint_doc c D))"

text \<open>The state a save runs in: the document \<open>d\<close> was loaded from the store and only grew.\<close>

definition durable ::
  "'d crdt_ops \<Rightarrow> ('d \<Rightarrow> 'i set) \<Rightarrow> ('d \<Rightarrow> 'i set) \<Rightarrow> (bytes \<Rightarrow> 'i set) \<Rightarrow> ('s \<Rightarrow> doc_abs \<Rightarrow> bool) \<Rightarrow>
   doc_abs \<Rightarrow> 'd \<Rightarrow> 's \<times> persistence \<Rightarrow> bool" where
  "durable c ins del vec rep D d sp \<longleftrightarrow>
     rep (fst sp) D \<and> vectors_sound c ins vec D (snd sp) \<and> covers ins del d (replay c D) \<and>
     pc_failures (snd sp) = h_consecutiveSaveFailures (pc_health (snd sp))"

text \<open>A save uses up at most one sequence number of the journal.\<close>

definition room_kept :: "doc_abs \<Rightarrow> doc_abs \<Rightarrow> bool" where
  "room_kept D D' \<longleftrightarrow> (\<forall>n. journal_room (Suc n) D \<longrightarrow> journal_room n D')"

lemma room_kept_simps [simp]:
  "room_kept D D" "room_kept D (abs_append u D)" "room_kept D (abs_rewrite u sv D')"
  by (auto simp: room_kept_def intro: journal_room_ops journal_room_less)

text \<open>What holds after a save of \<open>d\<close> that may have seen the document grow to \<open>d'\<close>.\<close>

definition saved ::
  "'d crdt_ops \<Rightarrow> ('d \<Rightarrow> 'i set) \<Rightarrow> ('d \<Rightarrow> 'i set) \<Rightarrow> (bytes \<Rightarrow> 'i set) \<Rightarrow> ('s \<Rightarrow> doc_abs \<Rightarrow> bool) \<Rightarrow>
   doc_abs \<Rightarrow> 'd \<Rightarrow> 'd \<Rightarrow> save_result \<Rightarrow> 's \<times> persistence \<Rightarrow> bool" where
  "saved c ins del vec rep D d d' r sp \<longleftrightarrow> (\<exists>D'. durable c ins del vec rep D' d' sp \<and>
     covers ins del (replay c D') (replay c D) \<and> room_kept D D' \<and>
     (sr_success r \<and> sr_method r \<noteq> MSkipped \<longrightarrow>
        covers ins del (replay c D') d \<and> h_status (pc_health (snd sp)) = Healthy \<and>
        pc_failures (snd sp) = 0) \<and>
     (sr_success r \<longrightarrow> ins d \<subseteq> ins (replay c D')) \<and>
     (\<not> sr_success r \<longrightarrow> (h_status (pc_health (snd sp)) = Degraded \<or>
        sr_method r = MImmediateFallback \<and> covers ins del (replay c D') d')))"

section \<open>Combinators\<close>

lemma wp_on_store [wp_simps]:
  "wp (on_store m) Q R (s, p) = wp m (\<lambda>x s'. Q x (s', p)) (\<lambda>e s'. R e (s', p)) s"
  by (simp add: wp_def on_store_def split: prod.split outcome.split)

lemma wp_pc_modify [wp_simps]: "wp (pc_modify f) Q R (s, p) = Q () (s, f p)"
  by (simp add: wp_def pc_modify_def)

lemma wp_pc_get [wp_simps]: "wp pc_get Q R (s, p) = Q p (s, p)"
  by (simp add: wp_def pc_get_def)

lemma wp_try [wp_simps]:
  "wp (act_try m) Q R s =
   wp m (\<lambda>x. Q (Inr x)) (\<lambda>e s'. case e of Some e' \<Rightarrow> Q (Inl e') s' | None \<Rightarrow> R None s') s"
  by (simp add: act_try_def wp_simps wp_return_fun cong: option.case_cong)

lemma equalBytes_eq [simp]: "equalBytes a b \<longleftrightarrow> a = b"
  by (auto simp: equalBytes_def list_all_iff intro: nth_equalityI)

lemmas pc_update_defs =
  saveStarted_def checkpointSaved_def statsSeen_def saveFailed_def appendSaved_def
  compactionSaved_def compactionFailed_def setInitialStateVector_def

lemma pc_updates [simp]:
  "pc_lastPersisted (saveStarted now p) = pc_lastPersisted p"
  "pc_lastPersisted (checkpointSaved sv now n p) = Some sv"
  "pc_lastPersisted (statsSeen st p) = pc_lastPersisted p"
  "pc_lastPersisted (saveFailed now err p) = pc_lastPersisted p"
  "pc_lastPersisted (appendSaved sv now n st p) = Some sv"
  "pc_lastPersisted (compactionSaved sv now r p) = Some sv"
  "pc_lastPersisted (compactionFailed now r err p) = pc_lastPersisted p"
  "pc_lastPersisted (setInitialStateVector sv p) = Some sv"
  "pc_failures (saveStarted now p) = pc_failures p"
  "pc_failures (statsSeen st p) = pc_failures p"
  "pc_failures (compactionSaved sv now r p) = pc_failures p"
  "pc_failures (compactionFailed now r err p) = pc_failures p"
  "pc_failures (checkpointSaved sv now n p) = 0"
  "pc_failures (appendSaved sv now n st p) = 0"
  "pc_failures (saveFailed now err p) = Suc (pc_failures p)"
  by (simp_all add: pc_update_defs)

lemma health_updates [simp]:
  "h_status (pc_health (saveStarted now p)) = h_status (pc_health p)"
  "h_status (pc_health (statsSeen st p)) = h_status (pc_health p)"
  "h_status (pc_health (compactionSaved sv now r p)) = h_status (pc_health p)"
  "h_status (pc_health (compactionFailed now r err p)) = h_status (pc_health p)"
  "h_status (pc_health (checkpointSaved sv now n p)) = Healthy"
  "h_status (pc_health (appendSaved sv now n st p)) = Healthy"
  "h_status (pc_health (saveFailed now err p)) = Degraded"
  "h_consecutiveSaveFailures (pc_health (saveStarted now p)) = h_consecutiveSaveFailures (pc_health p)"
  "h_consecutiveSaveFailures (pc_health (statsSeen st p)) = h_consecutiveSaveFailures (pc_health p)"
  "h_consecutiveSaveFailures (pc_health (compactionSaved sv now r p)) =
     h_consecutiveSaveFailures (pc_health p)"
  "h_consecutiveSaveFailures (pc_health (compactionFailed now r err p)) =
     h_consecutiveSaveFailures (pc_health p)"
  "h_consecutiveSaveFailures (pc_health (checkpointSaved sv now n p)) = 0"
  "h_consecutiveSaveFailures (pc_health (appendSaved sv now n st p)) = 0"
  "h_consecutiveSaveFailures (pc_health (saveFailed now err p)) = Suc (pc_failures p)"
  by (simp_all add: pc_update_defs)

section \<open>Saving keeps the state durable\<close>

locale saving = doc_store store rep flaky + crdt_laws c ins del vec
  for store :: "('s, 'e) doc_store_ops" and rep flaky
    and c :: "'d crdt_ops" and ins :: "'d \<Rightarrow> 'i set" and del vec +
  fixes clock :: "nat \<Rightarrow> jsstr"
  assumes clock_nonempty: "clock i \<noteq> []"

context saving begin

lemma replay_append:
  "u \<noteq> [] \<Longrightarrow> replay c (abs_append u D) = y_apply c (replay c D) u"
  by (simp add: replay_def abs_append_def checkpoint_doc_def)

lemma checkpoint_rewrite:
  "abs_checkpoint (abs_rewrite u sv D) = Some (new_version D, u, sv)"
  "checkpoint_doc c (abs_rewrite u sv D) = y_apply c (y_new c) u"
  by (auto simp: checkpoint_doc_def abs_rewrite_def new_version_def split: option.split)

lemma replay_rewrite: "replay c (abs_rewrite (y_update c d) sv D) = y_apply c (y_new c) (y_update c d)"
  by (simp add: replay_def abs_rewrite_def checkpoint_doc_def)

lemma items_rewrite:
  "ins (replay c (abs_rewrite (y_update c d) sv D)) = ins d"
  "del (replay c (abs_rewrite (y_update c d) sv D)) = del d"
  by (simp_all add: replay_rewrite update_law new_law)

lemma vectors_rewrite:
  "vectors_sound c ins vec (abs_rewrite (y_update c d) (y_vector c d) D) p \<longleftrightarrow>
   (\<forall>sv. pc_lastPersisted p = Some sv \<longrightarrow> vec sv \<subseteq> ins d)"
  by (simp add: vectors_sound_def items_rewrite checkpoint_rewrite vector_law update_law new_law)

text \<open>The delta a save computes adds the document to whatever the store replays to.\<close>

definition save_delta :: "'d \<Rightarrow> persistence \<Rightarrow> bytes" where
  "save_delta d p = (case pc_lastPersisted p of Some base \<Rightarrow> y_delta c d base | None \<Rightarrow> y_update c d)"

lemma items_append:
  assumes "vectors_sound c ins vec D p"
  shows "ins (replay c (abs_append (save_delta d p) D)) = ins (replay c D) \<union> ins d"
    and "del (replay c (abs_append (save_delta d p) D)) = del (replay c D) \<union> del d"
  using assms
  by (auto simp: save_delta_def vectors_sound_def replay_append update_nonempty update_law delta_law
      split: option.split)

lemma vectors_append:
  assumes "vectors_sound c ins vec D p"
    and "pc_lastPersisted q = pc_lastPersisted p \<or> pc_lastPersisted q = Some (y_vector c d)"
  shows "vectors_sound c ins vec (abs_append (save_delta d p) D) q"
proof -
  have "abs_checkpoint (abs_append u D) = abs_checkpoint D" for u
    by (simp add: abs_append_def)
  then show ?thesis
    using assms by (fastforce simp: vectors_sound_def items_append [OF assms(1)] checkpoint_doc_def vector_law)
qed

lemma durable_rewritten:
  assumes "rep s' (abs_rewrite (y_update c d) (y_vector c d) D)"
    and "pc_lastPersisted p = Some (y_vector c d)"
    and "pc_failures p = h_consecutiveSaveFailures (pc_health p)"
  shows "durable c ins del vec rep (abs_rewrite (y_update c d) (y_vector c d) D) d (s', p)"
  using assms by (auto simp: durable_def vectors_rewrite vector_law covers_def items_rewrite)

lemma covers_rewritten:
  assumes "covers ins del d (replay c D)"
  shows "covers ins del (replay c (abs_rewrite (y_update c d) sv D)) (replay c D)"
    "covers ins del (replay c (abs_rewrite (y_update c d) sv D)) d"
  using assms by (auto simp: covers_def items_rewrite)

lemma wp_rewrite:
  assumes "rep s D"
  shows "wp (ds_rewrite store (clock i) u sv) (\<lambda>_ s'. rep s' (abs_rewrite u sv D))
    (\<lambda>e s'. flaky \<and> e \<noteq> None \<and> rep s' D) s"
  by (rule rewrite_law [OF assms clock_nonempty])

lemma durable_grow:
  "durable c ins del vec rep D d sp \<Longrightarrow> covers ins del d' d \<Longrightarrow> durable c ins del vec rep D d' sp"
  by (auto simp: durable_def intro: covers_trans)

text \<open>A failed rewrite or statistics read leaves some durable state; the failure is recorded.\<close>

lemma saved_failed:
  assumes "durable c ins del vec rep D' d (s', q)" and "covers ins del (replay c D') (replay c D)"
    and "covers ins del d' d" and "room_kept D D'" and "\<not> sr_success r"
  shows "saved c ins del vec rep D d d' r (s', saveFailed a b q)"
  unfolding saved_def
  using assms durable_grow [OF assms(1,3)]
  by (intro exI [of _ D']) (simp add: durable_def vectors_sound_def)

lemma saved_rewritten:
  assumes "rep s' (abs_rewrite (y_update c d1) (y_vector c d1) D)"
    and "covers ins del d1 (replay c D)" and "covers ins del d1 d" and "covers ins del d' d1"
    and "covers ins del (replay c D) (replay c D0)"
    and "pc_lastPersisted q = Some (y_vector c d1)"
      "pc_failures q = 0" "h_consecutiveSaveFailures (pc_health q) = 0" "h_status (pc_health q) = Healthy"
    and "sr_success r \<or> sr_method r = MImmediateFallback \<and> d1 = d'"
  shows "saved c ins del vec rep D0 d d' r (s', q)"
proof -
  let ?D = "abs_rewrite (y_update c d1) (y_vector c d1) D"
  have "durable c ins del vec rep ?D d' (s', q)"
    by (rule durable_grow [OF durable_rewritten assms(4)]) (use assms in simp_all)
  moreover have "covers ins del (replay c ?D) d" "covers ins del (replay c ?D) (replay c D0)"
    "covers ins del (replay c ?D) d1"
    using covers_rewritten [OF assms(2)] assms(3,5) by (blast intro: covers_trans)+
  ultimately show ?thesis
    unfolding saved_def using assms(6-) by (intro exI [of _ ?D]) (auto simp: covers_def)
qed

lemma wp_checkpointFallback:
  assumes dur: "durable c ins del vec rep D d (s, p)" and grow: "covers ins del d' d"
  shows "wp (executeCheckpointFallback c store describe clock d delta)
    (\<lambda>r sp. saved c ins del vec rep D d d' r sp \<and> (sr_success r \<or> flaky)) (\<lambda>_ _. False) (s, p)"
proof -
  from dur have rep: "rep s D" and cov: "covers ins del d (replay c D)"
    by (simp_all add: durable_def)
  have before: "durable c ins del vec rep D d (s', p)" if "rep s' D" for s'
    using dur that by (simp add: durable_def)
  have wrote: "durable c ins del vec rep (abs_rewrite (y_update c d) (y_vector c d) D) d
      (s', checkpointSaved (y_vector c d) a n p)"
    if "rep s' (abs_rewrite (y_update c d) (y_vector c d) D)" for s' a n
    using that by (rule durable_rewritten) simp_all
  show ?thesis
    unfolding executeCheckpointFallback_def Let_def wp_simps
    apply (rule wp_mono [OF wp_rewrite [OF rep]])
     apply (rule wp_mono [OF stats_law], assumption)
      apply clarsimp
      apply (rule saved_rewritten [OF _ cov covers_refl grow covers_refl]; simp)
     apply (clarsimp simp: wp_simps split: prod.split)
     apply (rule saved_failed [OF wrote covers_rewritten(1) [OF cov] grow]; simp)
    apply (clarsimp simp: wp_simps split: prod.split)
    apply (rule saved_failed [OF before covers_refl grow]; simp)
    done
qed

lemma wp_immediateFallback:
  assumes dur: "durable c ins del vec rep D d' (s, p)" and grow: "covers ins del d' d"
    and old: "covers ins del (replay c D) (replay c D0)" "room_kept D0 D" and bad: "h_status (pc_health p) = Degraded"
  shows "wp (executeImmediateFallback c store describe clock d' delta)
    (\<lambda>r sp. saved c ins del vec rep D0 d d' r sp \<and> (sr_success r \<or> flaky)) (\<lambda>_ _. False) (s, p)"
proof -
  from dur have rep: "rep s D" and cov: "covers ins del d' (replay c D)"
    by (simp_all add: durable_def)
  have before: "saved c ins del vec rep D0 d d' \<lparr>sr_success = False, sr_method = MImmediateFallback, sr_error = m,
      sr_journalStats = None\<rparr> (s', p)" if "rep s' D" for s' m
    unfolding saved_def by (intro exI [of _ D]) (use dur that bad old in \<open>simp add: durable_def\<close>)
  show ?thesis
    unfolding executeImmediateFallback_def Let_def wp_simps
    apply (rule wp_mono [OF wp_rewrite [OF rep]])
     apply (rule wp_mono [OF stats_law], assumption)
      apply clarsimp
      apply (rule saved_rewritten [OF _ cov grow covers_refl old(1)]; simp)
     apply (clarsimp simp: wp_simps split: prod.split)
     apply (rule saved_rewritten [OF _ cov grow covers_refl old(1)]; simp)
    apply (clarsimp simp: wp_simps split: prod.split)
    apply (rule before; simp)
    done
qed

lemma wp_compaction:
  assumes dur: "durable c ins del vec rep D d' (s, p)"
  shows "wp (executeCompaction c store cfg describe clock d' st)
    (\<lambda>_ sp. \<exists>D'. durable c ins del vec rep D' d' sp \<and> covers ins del (replay c D') (replay c D) \<and>
       (\<forall>E. room_kept E D \<longrightarrow> room_kept E D') \<and> h_status (pc_health (snd sp)) = h_status (pc_health p) \<and>
       pc_failures (snd sp) = pc_failures p) (\<lambda>_ _. False) (s, p)"
proof -
  let ?D = "abs_rewrite (y_update c d') (y_vector c d') D"
  from dur have rep: "rep s D" and cov: "covers ins del d' (replay c D)"
    and fails: "pc_failures p = h_consecutiveSaveFailures (pc_health p)"
    by (simp_all add: durable_def)
  have wrote: "durable c ins del vec rep ?D d' (s', q)"
    if "rep s' ?D" "pc_lastPersisted q = Some (y_vector c d')"
      "pc_failures q = h_consecutiveSaveFailures (pc_health q)" for s' q
    using that by (rule durable_rewritten)
  show ?thesis
    unfolding executeCompaction_def Let_def wp_simps
    apply (rule wp_mono [OF wp_rewrite [OF rep]])
     apply (rule wp_mono [OF stats_law], assumption)
      apply (intro exI [of _ ?D] conjI wrote covers_rewritten(1) [OF cov]; simp add: fails)
     apply (clarsimp simp: wp_simps split: prod.split)
     apply (intro exI [of _ ?D] conjI wrote covers_rewritten(1) [OF cov]; simp add: fails)
    apply (clarsimp simp: wp_simps split: prod.split)
    apply (intro exI [of _ D]; use dur in \<open>simp add: durable_def vectors_sound_def\<close>)
    done
qed

lemma wp_executeAppend:
  assumes dur: "durable c ins del vec rep D d (s, p)" and grow: "covers ins del d' d"
    and room: "journal_room 1 D"
  shows "wp (executeAppend c store cfg describe clock d' (save_delta d p) (y_vector c d))
    (\<lambda>r sp. saved c ins del vec rep D d d' r sp \<and> (sr_success r \<or> flaky)) (\<lambda>_ _. False) (s, p)"
proof -
  let ?D = "abs_append (save_delta d p) D"
  from dur have rep: "rep s D" and cov: "covers ins del d (replay c D)"
    and sound: "vectors_sound c ins vec D p"
    and fails: "pc_failures p = h_consecutiveSaveFailures (pc_health p)"
    by (simp_all add: durable_def)
  have items: "covers ins del (replay c ?D) d" "covers ins del (replay c ?D) (replay c D)"
    "covers ins del d' (replay c ?D)" "ins d \<subseteq> ins (replay c ?D)"
    using items_append [OF sound, of d] cov grow by (auto simp: covers_def)
  have appended: "durable c ins del vec rep ?D d' (s', q)"
    if "rep s' ?D" "pc_lastPersisted q = pc_lastPersisted p \<or> pc_lastPersisted q = Some (y_vector c d)"
      "pc_failures q = h_consecutiveSaveFailures (pc_health q)" for s' q
    unfolding durable_def fst_conv snd_conv
    by (intro conjI that vectors_append [OF sound] items(3))
  have before: "durable c ins del vec rep D d' (s', q)"
    if "rep s' D" "pc_lastPersisted q = pc_lastPersisted p"
      "pc_failures q = h_consecutiveSaveFailures (pc_health q)" for s' q
    using that sound covers_trans [OF grow cov] by (simp add: durable_def vectors_sound_def)
  have either: "\<exists>D'. durable c ins del vec rep D' d' (s', saveFailed a b p) \<and>
      covers ins del (replay c D') (replay c D) \<and> room_kept D D'" if "rep s' D \<or> rep s' ?D" for s' a b
    using that
  proof
    assume "rep s' D"
    then show ?thesis by (intro exI [of _ D] conjI before) simp_all
  next
    assume "rep s' ?D"
    then show ?thesis by (intro exI [of _ ?D] conjI appended items) simp_all
  qed
  have failure: "wp (act_bind (pc_modify (saveFailed (clock 2) e)) (\<lambda>_.
          act_bind pc_get (\<lambda>p. if checkpointFallbackAfterFailures cfg \<le> pc_failures p
          then executeImmediateFallback c store describe clock d' (save_delta d q)
          else act_return \<lparr>sr_success = False, sr_method = MAppend,
                 sr_error = Some m, sr_journalStats = None\<rparr>)))
      (\<lambda>r sp. saved c ins del vec rep D d d' r sp \<and> (sr_success r \<or> flaky)) (\<lambda>_ _. False) (s', p)"
    if fl: "flaky" and st: "rep s' D \<or> rep s' ?D" for s' e m q
  proof -
    obtain D' where D': "durable c ins del vec rep D' d' (s', saveFailed (clock 2) e p)"
      "covers ins del (replay c D') (replay c D)" "room_kept D D'" using either [OF st] by blast
    have "saved c ins del vec rep D d d' \<lparr>sr_success = False, sr_method = MAppend, sr_error = Some m,
        sr_journalStats = None\<rparr> (s', saveFailed (clock 2) e p)"
      unfolding saved_def by (intro exI [of _ D']) (use D' in simp)
    with fl wp_immediateFallback [OF D'(1) grow D'(2,3)] show ?thesis
      by (simp add: wp_simps)
  qed
  have finish: "saved c ins del vec rep D d d' \<lparr>sr_success = True, sr_method = MAppend, sr_error = None,
      sr_journalStats = Some st\<rparr> sp"
    if "durable c ins del vec rep D' d' sp" "covers ins del (replay c D') (replay c ?D)"
      "h_status (pc_health (snd sp)) = Healthy" "pc_failures (snd sp) = 0" "room_kept D D'" for D' sp st
    unfolding saved_def
    by (intro exI [of _ D'])
      (use that items covers_trans [OF that(2) items(1)] covers_trans [OF that(2) items(2)] in
        \<open>auto simp: covers_def\<close>)
  have success: "wp (act_bind (pc_modify (appendSaved (y_vector c d) (clock 3) n st)) (\<lambda>_.
         act_bind
           (if journalCompactMaxEntries cfg < js_entryCount st \<or>
               journalCompactMaxBytes cfg < js_totalBytes st
            then executeCompaction c store cfg describe clock d' st
            else act_return ()) (\<lambda>_.
         act_return \<lparr>sr_success = True, sr_method = MAppend, sr_error = None,
           sr_journalStats = Some st\<rparr>)))
      (\<lambda>r sp. saved c ins del vec rep D d d' r sp \<and> (sr_success r \<or> flaky)) (\<lambda>_ _. False) (s', p)"
    if "rep s' ?D" for s' st n
  proof -
    have dur': "durable c ins del vec rep ?D d' (s', appendSaved (y_vector c d) (clock 3) n st p)"
      by (intro appended that) simp_all
    have "wp (executeCompaction c store cfg describe clock d' st)
        (\<lambda>_. saved c ins del vec rep D d d' \<lparr>sr_success = True, sr_method = MAppend, sr_error = None,
           sr_journalStats = Some st\<rparr>)
        (\<lambda>_ _. False) (s', appendSaved (y_vector c d) (clock 3) n st p)"
      by (rule wp_mono [OF wp_compaction [OF dur']]) (auto intro: finish)
    moreover have "saved c ins del vec rep D d d' \<lparr>sr_success = True, sr_method = MAppend, sr_error = None,
        sr_journalStats = Some st\<rparr> (s', appendSaved (y_vector c d) (clock 3) n st p)"
      by (rule finish [OF dur']) simp_all
    ultimately show ?thesis by (simp add: wp_simps wp_return_fun)
  qed
  show ?thesis
    unfolding executeAppend_def wp_bind wp_try wp_on_store
    by (rule wp_mono [OF append_law [OF rep clock_nonempty room]])
      (use success failure in \<open>auto simp: wp_bind split: prod.split\<close>)
qed

lemma wp_executeSave:
  assumes dur: "durable c ins del vec rep D d (s, p)" and grow: "covers ins del d' d"
    and room: "journal_room 1 D"
  shows "wp (executeSave c store cfg describe clock d d')
    (\<lambda>r sp. saved c ins del vec rep D d d' r sp \<and> (sr_success r \<or> flaky)) (\<lambda>_ _. False) (s, p)"
proof -
  let ?p = "saveStarted (clock 0) p"
  have dur': "durable c ins del vec rep D d (s, ?p)"
    using dur by (simp add: durable_def vectors_sound_def)
  have delta: "(case pc_lastPersisted ?p of Some base \<Rightarrow> y_delta c d base | None \<Rightarrow> y_update c d) =
      save_delta d ?p"
    by (simp add: save_delta_def)
  have "length (save_delta d ?p) \<noteq> 0"
    by (auto simp: save_delta_def update_nonempty split: option.split)
  moreover have "saved c ins del vec rep D d d' skippedSave (s, ?p)"
    if "pc_lastPersisted p = Some (y_vector c d)"
    unfolding saved_def
    by (intro exI [of _ D])
      (use durable_grow [OF dur' grow] dur that in \<open>auto simp: skippedSave_def durable_def vectors_sound_def vector_law\<close>)
  ultimately show ?thesis
    unfolding executeSave_def wp_bind wp_pc_modify wp_pc_get Let_def delta
    using wp_checkpointFallback [OF dur' grow] wp_executeAppend [OF dur' grow room]
    by (auto simp: wp_return skippedSave_def split: option.splits)
qed

end

end
