(* ===== verification/PersistenceProps.thy ===== *)
theory PersistenceProps
  imports PersistenceSpec
begin

text \<open>
  The save chain as a state machine (edits, enqueued saves, runs and their settling), a reference
  CRDT on which the laws are checked, and the properties of saving and loading over the chunked
  document store.
\<close>

section \<open>Loading\<close>

context saving begin

lemma foldl_restore:
  "foldl (y_apply c) (case ld_checkpoint (abs_load D) of Some u \<Rightarrow> y_apply c (y_new c) u | None \<Rightarrow> y_new c)
     (ld_journalUpdates (abs_load D)) = replay c D"
  by (cases "abs_checkpoint D") (auto simp: abs_load_def replay_def checkpoint_doc_def)

lemma wp_loadDocument:
  assumes rep: "rep s D" and sound: "vectors_sound c ins vec D p"
    and fails: "pc_failures p = h_consecutiveSaveFailures (pc_health p)"
  shows "wp (loadDocument c store now (y_new c))
    (\<lambda>d sp. d = replay c D \<and> durable c ins del vec rep D d sp \<and> pc_lastPersisted (snd sp) \<noteq> None)
    (\<lambda>e sp. flaky \<and> e \<noteq> None \<and> rep (fst sp) D \<and> snd sp = p) (s, p)"
proof -
  let ?sv = "case ld_checkpointStateVector (abs_load D) of
      Some sv \<Rightarrow> if ld_journalUpdates (abs_load D) = [] then sv else y_vector c (replay c D)
    | None \<Rightarrow> y_vector c (replay c D)"
  have "vec ?sv \<subseteq> ins (replay c D)"
    using sound
    by (auto simp: abs_load_def vector_law vectors_sound_def replay_def split: option.splits)
  then have "durable c ins del vec rep D (replay c D)
      (s', statsSeen st (setInitialStateVector ?sv p))" if "rep s' D" for s' st
    using that sound fails
    by (simp add: durable_def vectors_sound_def) (simp add: setInitialStateVector_def statsSeen_def)
  then show ?thesis
    unfolding loadDocument_def wp_bind wp_on_store
    by (intro wp_mono [OF load_law [OF rep]])
      (simp_all add: Let_def foldl_restore wp_simps wp_return_fun cong: option.case_cong if_cong)
qed

end

section \<open>The save chain\<close>

record ('s, 'd) vault_sys =
  vs_store :: 's
  vs_pc :: persistence
  vs_doc :: 'd
  vs_waiting :: nat
  vs_running :: bool

text \<open>\<open>vs_waiting\<close> counts the chained tasks that have not started, \<open>vs_running\<close> is set
  from the end of a task's body to its \<open>finally\<close>. The document may grow at any time,
  while a save awaits the store too.\<close>

inductive vault_step ::
  "'d crdt_ops \<Rightarrow> ('s, 'e) doc_store_ops \<Rightarrow> persist_cfg \<Rightarrow> ('e \<Rightarrow> jsstr \<times> jsstr) \<Rightarrow> (nat \<Rightarrow> jsstr) \<Rightarrow>
   ('d \<Rightarrow> 'd \<Rightarrow> bool) \<Rightarrow> ('s, 'd) vault_sys \<Rightarrow> ('s, 'd) vault_sys \<Rightarrow> bool"
  for c store cfg describe clock grows where
  edit: "grows d' (vs_doc v) \<Longrightarrow>
    vault_step c store cfg describe clock grows v (v\<lparr>vs_doc := d'\<rparr>)"
| enqueue: "vault_step c store cfg describe clock grows v
    (v\<lparr>vs_pc := enqueueSave (vs_pc v), vs_waiting := vs_waiting v + 1\<rparr>)"
| run: "vs_waiting v = Suc n \<Longrightarrow> \<not> vs_running v \<Longrightarrow> grows d' (vs_doc v) \<Longrightarrow>
    executeSave c store cfg describe clock (vs_doc v) d' (vs_store v, vs_pc v) = (Return r, (s', p')) \<Longrightarrow>
    vault_step c store cfg describe clock grows v
      (v\<lparr>vs_store := s', vs_pc := p', vs_doc := d', vs_waiting := n, vs_running := True\<rparr>)"
| settle: "vs_running v \<Longrightarrow>
    vault_step c store cfg describe clock grows v
      (v\<lparr>vs_pc := saveSettled (vs_pc v), vs_running := False\<rparr>)"

text \<open>The queue bookkeeping of the health record.\<close>

definition queue_view :: "persistence \<Rightarrow> nat \<times> bool" where
  "queue_view p = (h_queuedSaveCount (pc_health p), h_pendingPersistence (pc_health p))"

definition queue_kept :: "('s \<times> persistence, 'e, 'a) act \<Rightarrow> bool" where
  "queue_kept m \<longleftrightarrow> (\<forall>sp. queue_view (snd (snd (m sp))) = queue_view (snd sp))"

lemma queue_keptD: "queue_kept m \<Longrightarrow> m sp = (r, sp') \<Longrightarrow> queue_view (snd sp') = queue_view (snd sp)"
  by (metis queue_kept_def snd_conv)

lemma queue_kept_bind: "queue_kept m \<Longrightarrow> (\<And>x. queue_kept (f x)) \<Longrightarrow> queue_kept (act_bind m f)"
  by (auto simp: queue_kept_def act_bind_def split: prod.split outcome.split) (metis snd_conv)+

lemma queue_kept_catch: "queue_kept m \<Longrightarrow> (\<And>e. queue_kept (h e)) \<Longrightarrow> queue_kept (act_catch m h)"
  by (auto simp: queue_kept_def act_catch_def split: prod.split outcome.split) (metis snd_conv)+

lemma queue_kept_basic:
  "queue_kept (act_return x)" "queue_kept (on_store n)" "queue_kept pc_get"
  "(\<And>p. queue_view (f p) = queue_view p) \<Longrightarrow> queue_kept (pc_modify f)"
  by (auto simp: queue_kept_def act_return_def on_store_def pc_get_def pc_modify_def split: prod.split)

lemma queue_view_updates [simp]:
  "queue_view (saveStarted a p) = queue_view p" "queue_view (checkpointSaved sv a n p) = queue_view p"
  "queue_view (statsSeen st p) = queue_view p" "queue_view (saveFailed a b p) = queue_view p"
  "queue_view (appendSaved sv a n st p) = queue_view p"
  "queue_view (compactionSaved sv a r p) = queue_view p"
  "queue_view (compactionFailed a b r p) = queue_view p"
  by (simp_all add: queue_view_def pc_update_defs)

lemma queue_kept_if: "queue_kept m \<Longrightarrow> queue_kept n \<Longrightarrow> queue_kept (if b then m else n)"
  by simp

lemmas queue_keeps = queue_kept_bind queue_kept_catch queue_kept_basic queue_kept_if

lemma executeSave_queue: "queue_kept (executeSave c store cfg describe clock d d')"
proof -
  have "queue_kept (executeImmediateFallback c store describe clock d' u)" for u
    unfolding executeImmediateFallback_def Let_def
    by (intro queue_keeps) (auto split: prod.split intro!: queue_keeps)
  moreover have "queue_kept (executeCheckpointFallback c store describe clock d u)" for u
    unfolding executeCheckpointFallback_def Let_def
    by (intro queue_keeps) (auto split: prod.split intro!: queue_keeps)
  moreover have "queue_kept (executeCompaction c store cfg describe clock d' st)" for st
    unfolding executeCompaction_def Let_def
    by (intro queue_keeps) (auto split: prod.split intro!: queue_keeps)
  ultimately have "queue_kept (executeAppend c store cfg describe clock d' u sv)"
    and "queue_kept (executeCheckpointFallback c store describe clock d u)" for u sv
    unfolding executeAppend_def act_try_def
    by (auto split: sum.split prod.split intro!: queue_keeps)
  then show ?thesis
    unfolding executeSave_def Let_def by (auto intro!: queue_keeps)
qed

lemma queue_executeSave:
  assumes "executeSave c store cfg describe clock d d' (s, p) = (Return r, (s', p'))"
  shows "h_queuedSaveCount (pc_health p') = h_queuedSaveCount (pc_health p)"
    "h_pendingPersistence (pc_health p') = h_pendingPersistence (pc_health p)"
  using queue_keptD [OF executeSave_queue assms] by (simp_all add: queue_view_def)

text \<open>The steps the chain still has to take: a run and a settling for each waiting save.\<close>

definition chain_work :: "('s, 'd) vault_sys \<Rightarrow> nat" where
  "chain_work v = 2 * vs_waiting v + (if vs_running v then 1 else 0)"

definition chain_inv :: "('s, 'd) vault_sys \<Rightarrow> bool" where
  "chain_inv v \<longleftrightarrow>
     h_queuedSaveCount (pc_health (vs_pc v)) = vs_waiting v + (if vs_running v then 1 else 0) \<and>
     (h_pendingPersistence (pc_health (vs_pc v)) \<longleftrightarrow>
        0 < vs_waiting v \<or> vs_running v \<or> h_status (pc_health (vs_pc v)) = Degraded)"

definition vault_inv ::
  "'d crdt_ops \<Rightarrow> ('d \<Rightarrow> 'i set) \<Rightarrow> ('d \<Rightarrow> 'i set) \<Rightarrow> (bytes \<Rightarrow> 'i set) \<Rightarrow> ('s \<Rightarrow> doc_abs \<Rightarrow> bool) \<Rightarrow>
   doc_abs \<Rightarrow> ('s, 'd) vault_sys \<Rightarrow> bool" where
  "vault_inv c ins del vec rep D0 v \<longleftrightarrow> chain_inv v \<and>
     (\<exists>D. durable c ins del vec rep D (vs_doc v) (vs_store v, vs_pc v) \<and>
          covers ins del (replay c D) (replay c D0))"

text \<open>The invariant, with room in the journal for \<open>k\<close> more saves.\<close>

definition vault_room ::
  "'d crdt_ops \<Rightarrow> ('d \<Rightarrow> 'i set) \<Rightarrow> ('d \<Rightarrow> 'i set) \<Rightarrow> (bytes \<Rightarrow> 'i set) \<Rightarrow> ('s \<Rightarrow> doc_abs \<Rightarrow> bool) \<Rightarrow>
   doc_abs \<Rightarrow> nat \<Rightarrow> ('s, 'd) vault_sys \<Rightarrow> bool" where
  "vault_room c ins del vec rep D0 k v \<longleftrightarrow> chain_inv v \<and>
     (\<exists>D. durable c ins del vec rep D (vs_doc v) (vs_store v, vs_pc v) \<and>
          covers ins del (replay c D) (replay c D0) \<and> journal_room k D)"

lemma room_kept_Suc: "journal_room (Suc k) D \<Longrightarrow> journal_room k D"
  by (rule journal_room_less) auto

lemma vault_roomI:
  "vault_inv c ins del vec rep D0 v \<Longrightarrow> (\<And>D. rep (vs_store v) D \<Longrightarrow> journal_room k D) \<Longrightarrow>
   vault_room c ins del vec rep D0 k v"
  by (auto simp: vault_inv_def vault_room_def durable_def)

lemma vault_room_inv: "vault_room c ins del vec rep D0 k v \<Longrightarrow> vault_inv c ins del vec rep D0 v"
  by (auto simp: vault_inv_def vault_room_def)

lemma chain_inv_enqueue:
  "chain_inv v \<Longrightarrow> chain_inv (v\<lparr>vs_pc := enqueueSave (vs_pc v), vs_waiting := vs_waiting v + 1\<rparr>)"
  by (simp add: chain_inv_def enqueueSave_def)

lemma chain_inv_settle:
  "chain_inv v \<Longrightarrow> vs_running v \<Longrightarrow>
   chain_inv (v\<lparr>vs_pc := saveSettled (vs_pc v), vs_running := False\<rparr>)"
  by (simp add: chain_inv_def saveSettled_def Let_def)

lemma durable_queue:
  "durable c ins del vec rep D d (s, enqueueSave p) = durable c ins del vec rep D d (s, p)"
  "durable c ins del vec rep D d (s, saveSettled p) = durable c ins del vec rep D d (s, p)"
  by (simp_all add: durable_def vectors_sound_def enqueueSave_def saveSettled_def Let_def)

context saving begin

lemma executeSave_returns:
  assumes "durable c ins del vec rep D d (s, p)" and "covers ins del d' d" and "journal_room 1 D"
  obtains r s' p' where "executeSave c store cfg describe clock d d' (s, p) = (Return r, (s', p'))"
    and "saved c ins del vec rep D d d' r (s', p')" and "sr_success r \<or> flaky"
  using wp_executeSave [OF assms, of cfg describe] that
  by (auto simp: wp_def split: prod.splits outcome.splits)

lemma vault_step_inv:
  assumes "vault_step c store cfg describe clock (covers ins del) v v'"
    and "vault_room c ins del vec rep D0 (Suc k) v"
  shows "vault_room c ins del vec rep D0 k v'"
  using assms
proof (induction rule: vault_step.induct)
  case (edit d' v)
  then show ?case
    by (auto simp: vault_room_def chain_inv_def intro: durable_grow room_kept_Suc)
next
  case (enqueue v)
  then show ?case
    using chain_inv_enqueue by (auto simp: vault_room_def durable_queue intro: room_kept_Suc)
next
  case (run v n d' r s' p')
  then obtain D where D: "durable c ins del vec rep D (vs_doc v) (vs_store v, vs_pc v)"
    "covers ins del (replay c D) (replay c D0)" "journal_room (Suc k) D" by (auto simp: vault_room_def)
  from executeSave_returns [OF D(1) run(3) journal_room_less [OF D(3)], of cfg describe] run(4)
  have "saved c ins del vec rep D (vs_doc v) d' r (s', p')" by auto
  then obtain D' where "durable c ins del vec rep D' d' (s', p')"
    "covers ins del (replay c D') (replay c D)" "journal_room k D'"
    using D(3) by (auto simp: saved_def room_kept_def)
  with D(2) queue_executeSave [OF run(4)] run show ?case
    by (auto simp: vault_room_def chain_inv_def intro: covers_trans)
next
  case (settle v)
  then show ?case
    using chain_inv_settle by (auto simp: vault_room_def durable_queue intro: room_kept_Suc)
qed

lemma vault_reachable_inv:
  assumes "(vault_step c store cfg describe clock (covers ins del) ^^ n) v v'"
    and "vault_room c ins del vec rep D0 (n + k) v"
  shows "vault_room c ins del vec rep D0 k v'"
  using assms
proof (induction n arbitrary: k v')
  case (Suc n)
  from Suc.prems(1) obtain u where "(vault_step c store cfg describe clock (covers ins del) ^^ n) v u"
    "vault_step c store cfg describe clock (covers ins del) u v'" by auto
  with Suc.IH [of u "Suc k"] Suc.prems(2) show ?case by (auto intro: vault_step_inv)
qed simp

lemma vault_progress:
  assumes "vault_room c ins del vec rep D0 1 v" and "0 < vs_waiting v \<or> vs_running v"
  shows "\<exists>v'. vault_step c store cfg describe clock (covers ins del) v v' \<and>
    chain_work v' < chain_work v"
proof (cases "vs_running v")
  case True
  then show ?thesis
    by (intro exI conjI, rule vault_step.settle) (simp_all add: chain_work_def)
next
  case False
  with assms(2) obtain n where n: "vs_waiting v = Suc n" by (cases "vs_waiting v") auto
  from assms(1) obtain D where "durable c ins del vec rep D (vs_doc v) (vs_store v, vs_pc v)" "journal_room 1 D"
    by (auto simp: vault_room_def)
  from executeSave_returns [OF this(1) covers_refl this(2)]
  obtain r s' p' where "executeSave c store cfg describe clock (vs_doc v) (vs_doc v)
      (vs_store v, vs_pc v) = (Return r, (s', p'))" by metis
  from vault_step.run [OF n False _ this, where grows = "covers ins del"] n False
  show ?thesis by (intro exI conjI) (assumption | simp add: chain_work_def)+
qed

end

section \<open>A reference CRDT\<close>

text \<open>Documents are lists of inserted and of deleted items, an item is a byte, an update lists
  tagged items and a state vector the inserted items.\<close>

fun ref_parse :: "bytes \<Rightarrow> bytes \<times> bytes" where
  "ref_parse (t # x # r) = (case ref_parse r of (is, ds) \<Rightarrow>
     if t = 0 then (x # is, ds) else (is, x # ds))"
| "ref_parse _ = ([], [])"

definition ref_encode :: "bytes \<times> bytes \<Rightarrow> bytes" where
  "ref_encode d = 9 # concat (List.map (\<lambda>x. [0, x]) (fst d)) @ concat (List.map (\<lambda>x. [1, x]) (snd d))"

definition ref_crdt :: "(bytes \<times> bytes) crdt_ops" where
  "ref_crdt = \<lparr>
     y_new = ([], []),
     y_apply = (\<lambda>d u. case ref_parse (tl u) of (is, ds) \<Rightarrow>
        (remdups (fst d @ is), remdups (snd d @ ds))),
     y_update = ref_encode,
     y_delta = (\<lambda>d sv. ref_encode (filter (\<lambda>x. x \<notin> set sv) (fst d), snd d)),
     y_vector = fst\<rparr>"

definition ref_ins :: "bytes \<times> bytes \<Rightarrow> byte set" where "ref_ins d = set (fst d)"
definition ref_del :: "bytes \<times> bytes \<Rightarrow> byte set" where "ref_del d = set (snd d)"

lemma ref_parse_encode: "ref_parse (tl (ref_encode d)) = d"
proof -
  have dels: "ref_parse (concat (List.map (\<lambda>x. [1, x]) ds)) = ([], ds)" for ds
    by (induction ds) simp_all
  have "ref_parse (concat (List.map (\<lambda>x. [0, x]) is) @ concat (List.map (\<lambda>x. [1, x]) ds)) = (is, ds)"
    for "is" ds
    by (induction "is") (simp_all add: dels)
  then show ?thesis by (simp add: ref_encode_def)
qed

interpretation ref_crdt: crdt_laws ref_crdt ref_ins ref_del set
  by unfold_locales
    (auto simp: ref_crdt_def ref_ins_def ref_del_def ref_parse_encode, simp_all add: ref_encode_def)

lemma saving_chunked:
  assumes "doc_storage ops view limit flaky digest scfg" and "crdt_laws c ins del vec"
    and "\<forall>i. clock i \<noteq> []"
  shows "saving (chunked_store digest ops scfg) (\<lambda>s D. doc_holds digest (view s) D) flaky c ins del vec clock"
  using doc_storage.chunked_doc_store [OF assms(1)] assms(2,3)
  by (simp add: saving_def saving_axioms_def)

section \<open>Properties\<close>

abbreviation chunked_rep :: "(bytes \<Rightarrow> bytes) \<Rightarrow> ('s \<Rightarrow> contents) \<Rightarrow> 's \<Rightarrow> doc_abs \<Rightarrow> bool" where
  "chunked_rep digest view \<equiv> (\<lambda>s D. doc_holds digest (view s) D)"

definition no_describe :: "doc_error \<Rightarrow> jsstr \<times> jsstr" where
  "no_describe e = (lit ''Error'', lit ''storage'')"

lemma ref_saving_clock: "\<forall>i. (\<lambda>_. ref_time) i \<noteq> []"
  by simp

lemma durable_new:
  "crdt_laws c ins del vec \<Longrightarrow> durable c ins del vec (chunked_rep digest id) empty_doc d (Map.empty, newPersistence)"
  by (simp add: durable_def vectors_sound_def newPersistence_def initialHealth_def covers_def
      empty_doc_def [symmetric] replay_def checkpoint_doc_def crdt_laws.new_law)
    (simp add: empty_doc_def crdt_laws.new_law)

lemma save_durable_aux:
  assumes "doc_storage ops view limit flaky digest scfg" and "crdt_laws c ins del vec"
    and "\<forall>i. clock i \<noteq> []"
    and "durable c ins del vec (chunked_rep digest view) D d (s, p)" and "covers ins del d' d" and "journal_room 1 D"
  shows "case executeSave c (chunked_store digest ops scfg) cfg describe clock d d' (s, p) of
      (Return r, sp) \<Rightarrow> saved c ins del vec (chunked_rep digest view) D d d' r sp \<and>
        (flaky \<or> sr_success r)
    | _ \<Rightarrow> False"
  using saving.wp_executeSave [OF saving_chunked [OF assms(1-3)] assms(4-6), of cfg describe]
  by (auto simp: wp_def split: prod.splits outcome.splits)

text \<open>
  C12. A save keeps the vault durable whatever the storage does and however the document grows while
  the save awaits it, as long as the journal's next sequence number is below \<open>2 ^ 53\<close>: the save always ends with a result; afterwards the store holds some state
  that a reload turns into a document with everything the earlier reload had, the persisted state
  vector claims only what the reload has, a reported success has every insertion of the saved document in the
  reload, and if the save was not skipped (the method is not \<open>MSkipped\<close>) every deletion too, with the failure count
  reset, while a skipped success promises no deletion; and a failure,
  possible only with a flaky storage, is shown in the health unless a fallback's checkpoint is
  durable all the same.
\<close>

theorem save_durable:
  assumes "doc_storage ops view limit flaky digest scfg" and "crdt_laws c ins del vec"
    and "\<forall>i. clock i \<noteq> []"
    and "durable c ins del vec (chunked_rep digest view) D d (s, p)" and "covers ins del d' d" and "journal_room 1 D"
  shows "case executeSave c (chunked_store digest ops scfg) cfg describe clock d d' (s, p) of
      (Return r, sp) \<Rightarrow> saved c ins del vec (chunked_rep digest view) D d d' r sp \<and>
        (flaky \<or> sr_success r)
    | _ \<Rightarrow> False"
  by (rule save_durable_aux [OF assms])

theorem save_durable_witness:
  "case executeSave ref_crdt (chunked_store ref_digest (ref_storage 128 ref_err) small_cfg)
      (newPersistenceCfg None None None None) no_describe (\<lambda>_. ref_time) ([3, 4], [3]) ([3, 4, 5], [3])
      (Map.empty, newPersistence) of
     (Return r, sp) \<Rightarrow> sr_success r \<and>
       (\<exists>D. doc_holds ref_digest (fst sp) D \<and> {3, 4} \<subseteq> ref_ins (replay ref_crdt D))
   | _ \<Rightarrow> False"
proof -
  have d: "durable ref_crdt ref_ins ref_del set (chunked_rep ref_digest id) empty_doc ([3, 4], [3])
      (Map.empty, newPersistence)"
    by (rule durable_new) (rule ref_crdt.crdt_laws_axioms)
  have g: "covers ref_ins ref_del ([3, 4, 5], [3]) ([3, 4], [3])"
    by (simp add: covers_def ref_ins_def ref_del_def)
  have room: "journal_room 1 empty_doc" by simp
  from save_durable [OF ref_store.doc_storage_axioms ref_crdt.crdt_laws_axioms ref_saving_clock d g room,
      of "newPersistenceCfg None None None None" no_describe]
  show ?thesis
    by (auto simp: saved_def durable_def ref_ins_def split: prod.splits outcome.splits)
qed

text \<open>
  C18. What was acknowledged is there after a restart: when a save reports success (from a journal whose
  next sequence number is below \<open>2 ^ 53\<close>), a new process
  that loads the document from the store gets every item the saved document had inserted, and
  unless the save was skipped every deletion too.
\<close>

theorem reload_after_save:
  assumes "doc_storage ops view limit flaky digest scfg" and "crdt_laws c ins del vec"
    and "\<forall>i. clock i \<noteq> []"
    and "durable c ins del vec (chunked_rep digest view) D d (s, p)" and "covers ins del d' d" and "journal_room 1 D"
    and "executeSave c (chunked_store digest ops scfg) cfg describe clock d d' (s, p) = (Return r, (s', p'))"
    and "sr_success r"
  shows "case loadDocument c (chunked_store digest ops scfg) now (y_new c) (s', newPersistence) of
      (Return d2, _) \<Rightarrow> ins d \<subseteq> ins d2 \<and> (sr_method r = MSkipped \<or> del d \<subseteq> del d2)
    | (Throw e, _) \<Rightarrow> flaky
    | (Diverge, _) \<Rightarrow> False"
proof -
  have "saved c ins del vec (chunked_rep digest view) D d d' r (s', p')"
    using save_durable_aux [where cfg = cfg and describe = describe, OF assms(1-6)]
    unfolding assms(7) by simp
  then obtain D' where D': "durable c ins del vec (chunked_rep digest view) D' d' (s', p')"
    "ins d \<subseteq> ins (replay c D')" "sr_method r \<noteq> MSkipped \<Longrightarrow> covers ins del (replay c D') d"
    using assms(8) by (auto simp: saved_def)
  then have "vectors_sound c ins vec D' newPersistence" "chunked_rep digest view s' D'"
    by (auto simp: durable_def vectors_sound_def newPersistence_def)
  from saving.wp_loadDocument [OF saving_chunked [OF assms(1-3)] this(2,1), of now] D'(2,3)
  show ?thesis
    by (auto simp: wp_def newPersistence_def initialHealth_def covers_def split: prod.splits outcome.splits)
qed

lemma ref_room: "journal_room 1 empty_doc"
  by simp

lemma ref_saves:
  "case executeSave ref_crdt (chunked_store ref_digest (ref_storage 128 ref_err) small_cfg)
      cfg no_describe (\<lambda>_. ref_time) d d (Map.empty, newPersistence) of
     (Return r, sp) \<Rightarrow> sr_success r | _ \<Rightarrow> False"
  using save_durable_aux [OF ref_store.doc_storage_axioms ref_crdt.crdt_laws_axioms ref_saving_clock
      durable_new [OF ref_crdt.crdt_laws_axioms] covers_refl ref_room, where cfg = cfg and describe = no_describe and d = d]
  by (auto split: prod.splits outcome.splits)

theorem reload_after_save_witness:
  "case executeSave ref_crdt (chunked_store ref_digest (ref_storage 128 ref_err) small_cfg)
      (newPersistenceCfg None None None None) no_describe (\<lambda>_. ref_time) ([3, 4], [3]) ([3, 4], [3])
      (Map.empty, newPersistence) of
     (Return r, (c, p)) \<Rightarrow>
       (case loadDocument ref_crdt (chunked_store ref_digest (ref_storage 128 ref_err) small_cfg)
          ref_time (y_new ref_crdt) (c, newPersistence) of
          (Return d2, _) \<Rightarrow> {3, 4} \<subseteq> ref_ins d2
        | _ \<Rightarrow> False)
   | _ \<Rightarrow> False"
proof -
  let ?save = "executeSave ref_crdt (chunked_store ref_digest (ref_storage 128 ref_err) small_cfg)
      (newPersistenceCfg None None None None) no_describe (\<lambda>_. ref_time) ([3, 4], [3]) ([3, 4], [3])
      (Map.empty, newPersistence)"
  obtain r s' p' where run: "?save = (Return r, (s', p'))" and ok: "sr_success r"
    using ref_saves [of "newPersistenceCfg None None None None" "([3, 4], [3])"]
    by (auto split: prod.splits outcome.splits)
  from reload_after_save [OF ref_store.doc_storage_axioms ref_crdt.crdt_laws_axioms ref_saving_clock
      durable_new [OF ref_crdt.crdt_laws_axioms] covers_refl ref_room run ok, where now = ref_time]
  show ?thesis unfolding run by (auto simp: ref_ins_def split: prod.splits outcome.splits)
qed

text \<open>
  C19. The save chain never loses its bookkeeping or its durability: from a loaded vault, after any
  \<open>n\<close> steps that interleave edits, enqueued saves, runs (over a storage that may fail, with edits while a
  save awaits it) and settlings, where the journal's sequence numbers leave room for \<open>n + 1\<close> more entries
  within \<open>2 ^ 53\<close>, \<open>queuedSaveCount\<close> is the number of unfinished saves,
  \<open>pendingPersistence\<close> holds exactly when one is unfinished or the health is degraded, the store
  keeps everything it had and the persisted state vector claims only what a reload has; and while
  saves are unfinished a step is possible that brings the chain closer to empty.
\<close>

theorem save_chain_invariant:
  assumes "doc_storage ops view limit flaky digest scfg" and "crdt_laws c ins del vec"
    and "\<forall>i. clock i \<noteq> []"
    and "vault_inv c ins del vec (chunked_rep digest view) D0 v"
    and "(vault_step c (chunked_store digest ops scfg) cfg describe clock (covers ins del) ^^ n) v v'"
    and "\<And>D. doc_holds digest (view (vs_store v)) D \<Longrightarrow> journal_room (n + 1) D"
  shows "vault_inv c ins del vec (chunked_rep digest view) D0 v' \<and>
    (vs_waiting v' = 0 \<and> \<not> vs_running v' \<or>
     (\<exists>v''. vault_step c (chunked_store digest ops scfg) cfg describe clock (covers ins del) v' v'' \<and>
        chain_work v'' < chain_work v'))"
proof -
  note saves = saving_chunked [OF assms(1-3)]
  have inv: "vault_room c ins del vec (chunked_rep digest view) D0 1 v'"
    by (rule saving.vault_reachable_inv [OF saves assms(5) vault_roomI [OF assms(4)]]) (rule assms(6))
  from saving.vault_progress [OF saves inv, of cfg describe] vault_room_inv [OF inv] show ?thesis
    by (cases "0 < vs_waiting v' \<or> vs_running v'") auto
qed

definition ref_vault :: "(contents, bytes \<times> bytes) vault_sys" where
  "ref_vault = \<lparr>vs_store = Map.empty, vs_pc = newPersistence, vs_doc = ([], []),
     vs_waiting = 0, vs_running = False\<rparr>"

lemma ref_vault_inv: "vault_inv ref_crdt ref_ins ref_del set (chunked_rep ref_digest id) empty_doc ref_vault"
  using durable_new [OF ref_crdt.crdt_laws_axioms, of ref_digest "([], [])"]
  by (auto simp: vault_inv_def ref_vault_def chain_inv_def newPersistence_def initialHealth_def
      intro!: exI [of _ empty_doc])

theorem save_chain_invariant_witness:
  "\<exists>v''. vault_step ref_crdt (chunked_store ref_digest (ref_storage 128 ref_err) small_cfg)
      (newPersistenceCfg None None None None) no_describe (\<lambda>_. ref_time) (covers ref_ins ref_del)
      (ref_vault\<lparr>vs_pc := enqueueSave newPersistence, vs_waiting := 1\<rparr>) v'' \<and>
    vs_waiting v'' = 0 \<and> vs_running v''"
proof -
  let ?step = "vault_step ref_crdt (chunked_store ref_digest (ref_storage 128 ref_err) small_cfg)
      (newPersistenceCfg None None None None) no_describe (\<lambda>_. ref_time) (covers ref_ins ref_del)"
  let ?v = "ref_vault\<lparr>vs_pc := enqueueSave newPersistence, vs_waiting := 1\<rparr>"
  have "(?step ^^ 1) ref_vault ?v"
    using vault_step.enqueue [of ref_crdt _ _ _ _ _ ref_vault]
    by (simp add: ref_vault_def relcompp_apply)
  moreover have "journal_room (1 + 1) D" if "doc_holds ref_digest (id (vs_store ref_vault)) D" for D
    using that by (auto simp: ref_vault_def doc_holds_def doc_rep_def meta_rep_def journal_room_def)
  ultimately have "0 = vs_waiting ?v \<and> \<not> vs_running ?v \<or> (\<exists>v''. ?step ?v v'' \<and> chain_work v'' < chain_work ?v)"
    using save_chain_invariant [where n = 1, OF ref_store.doc_storage_axioms ref_crdt.crdt_laws_axioms
      ref_saving_clock ref_vault_inv, of "newPersistenceCfg None None None None" no_describe ?v] by auto
  then obtain v'' where "?step ?v v''" and "chain_work v'' < 2"
    by (auto simp: ref_vault_def chain_work_def)
  then show ?thesis
    by (intro exI [of _ v'']) (auto simp: ref_vault_def chain_work_def elim!: vault_step.cases split: if_splits)
qed

text \<open>
  A save is skipped as successful whenever the state vector is the persisted one, whatever the
  document holds: nothing reaches the store then. State vectors name insertions only, so an
  edit that only deletes is reported saved while a reload brings the deleted items back.
\<close>

theorem skip_on_equal_vector:
  assumes "pc_lastPersisted p = Some (y_vector c d)"
  shows "executeSave c store cfg describe clock d d' (s, p) =
    (Return skippedSave, (s, saveStarted (clock 0) p))"
  using assms
  by (simp add: executeSave_def act_bind_def pc_modify_def pc_get_def act_return_def Let_def)

theorem skip_on_equal_vector_witness:
  "executeSave ref_crdt (chunked_store ref_digest (ref_storage 128 ref_err) small_cfg)
     (newPersistenceCfg None None None None) no_describe (\<lambda>_. ref_time) ([3, 4], [3]) ([3, 4], [3])
     (Map.empty, newPersistence\<lparr>pc_lastPersisted := Some [3, 4]\<rparr>) =
   (Return skippedSave, (Map.empty, saveStarted ref_time (newPersistence\<lparr>pc_lastPersisted := Some [3, 4]\<rparr>)))"
  by (rule skip_on_equal_vector) (simp add: ref_crdt_def)

end
