(* ===== verification/JsText.thy ===== *)
theory JsText
  imports JsValue
begin

text \<open>
  What the source uses of the runtime's text functions: UTF-8 length of a string
  (\<open>TextEncoder\<close>), \<open>btoa\<close> and \<open>atob\<close> with the chunked base64 helpers around them, and
  \<open>JSON.stringify\<close> of strings and object literals and \<open>JSON.parse\<close>. A parsed number is the exact
  rational its literal denotes (the runtime rounds to a double), a parsed object keeps the
  properties with ASCII names, the only ones the source reads.
\<close>

section \<open>UTF-8\<close>

definition high_surrogate :: "code_unit \<Rightarrow> bool" where
  "high_surrogate u = (0xD800 \<le> u \<and> u \<le> 0xDBFF)"

definition low_surrogate :: "code_unit \<Rightarrow> bool" where
  "low_surrogate u = (0xDC00 \<le> u \<and> u \<le> 0xDFFF)"

text \<open>A lone surrogate is encoded as U+FFFD, three bytes.\<close>

fun utf8_length :: "jsstr \<Rightarrow> nat" where
  "utf8_length [] = 0"
| "utf8_length [u] = (if u < 0x80 then 1 else if u < 0x800 then 2 else 3)"
| "utf8_length (u # v # r) =
     (if u < 0x80 then 1 + utf8_length (v # r)
      else if u < 0x800 then 2 + utf8_length (v # r)
      else if high_surrogate u \<and> low_surrogate v then 4 + utf8_length r
      else 3 + utf8_length (v # r))"

lemma utf8_length_ascii: "list_all (\<lambda>u. u < 0x80) s \<Longrightarrow> utf8_length s = length s"
  by (induction s rule: utf8_length.induct) auto

section \<open>Base64\<close>

definition b64_code :: "nat \<Rightarrow> nat" where
  "b64_code d =
     (if d < 26 then 65 + d else if d < 52 then 71 + d
      else if d < 62 then d - 4 else if d = 62 then 43 else 47)"

definition b64_char :: "nat \<Rightarrow> code_unit" where
  "b64_char d = of_nat (b64_code d)"

definition b64_value :: "code_unit \<Rightarrow> nat option" where
  "b64_value u =
     (let n = unat u in
      if 65 \<le> n \<and> n \<le> 90 then Some (n - 65)
      else if 97 \<le> n \<and> n \<le> 122 then Some (n - 71)
      else if 48 \<le> n \<and> n \<le> 57 then Some (n + 4)
      else if n = 43 then Some 62 else if n = 47 then Some 63 else None)"

fun b64_encode :: "nat list \<Rightarrow> jsstr" where
  "b64_encode [] = []"
| "b64_encode [a] = [b64_char (a div 4), b64_char (a mod 4 * 16), 61, 61]"
| "b64_encode [a, b] =
     [b64_char (a div 4), b64_char (a mod 4 * 16 + b div 16), b64_char (b mod 16 * 4), 61]"
| "b64_encode (a # b # c # r) =
     b64_char (a div 4) # b64_char (a mod 4 * 16 + b div 16) #
     b64_char (b mod 16 * 4 + c div 64) # b64_char (c mod 64) # b64_encode r"

text \<open>\<open>btoa\<close> throws on a code unit above 255.\<close>

definition btoa :: "jsstr \<Rightarrow> jsstr option" where
  "btoa s = (if list_all (\<lambda>u. u < 256) s then Some (b64_encode (List.map unat s)) else None)"

text \<open>Groups of four digits, then the two or three that may be left; bits left over are dropped.\<close>

fun b64_groups :: "nat list \<Rightarrow> nat list" where
  "b64_groups (a # b # c # d # r) =
     (a * 4 + b div 16) # (b mod 16 * 16 + c div 4) # (c mod 4 * 64 + d) # b64_groups r"
| "b64_groups [a, b, c] = [a * 4 + b div 16, b mod 16 * 16 + c div 4]"
| "b64_groups [a, b] = [a * 4 + b div 16]"
| "b64_groups _ = []"

definition ascii_whitespace :: "code_unit \<Rightarrow> bool" where
  "ascii_whitespace u = (u = 9 \<or> u = 10 \<or> u = 12 \<or> u = 13 \<or> u = 32)"

definition strip_padding :: "jsstr \<Rightarrow> jsstr" where
  "strip_padding s =
     (if length s mod 4 \<noteq> 0 then s
      else case rev s of
          x # y # r \<Rightarrow> if x = 61 then (if y = 61 then rev r else rev (y # r)) else s
        | _ \<Rightarrow> s)"

definition atob :: "jsstr \<Rightarrow> jsstr option" where
  "atob s =
     (let t = strip_padding (filter (\<lambda>u. \<not> ascii_whitespace u) s);
          ds = List.map b64_value t
      in if length t mod 4 = 1 \<or> None \<in> set ds then None
         else Some (List.map of_nat (b64_groups (List.map the ds))))"

text \<open>\<open>encodeBytesBase64\<close> collects the characters 8192 bytes at a time; the result of \<open>btoa\<close> is
  always there because every unit is a byte.\<close>

definition encodeBytesBase64 :: "bytes \<Rightarrow> jsstr" where
  "encodeBytesBase64 bs =
     the (btoa (foldl (\<lambda>s i. s @ List.map ucast (slice_at 8192 bs i)) [] [0..<slice_count 8192 bs]))"

definition decodeBytesBase64 :: "jsstr \<Rightarrow> bytes option" where
  "decodeBytesBase64 s = (case atob s of
     None \<Rightarrow> None
   | Some binary \<Rightarrow> Some (List.map ucast binary))"

lemma unat_unit: "n < 65536 \<Longrightarrow> unat (of_nat n :: code_unit) = n"
  by (simp add: unat_of_nat take_bit_nat_eq_self)

lemma unat_b64_char: "d < 64 \<Longrightarrow> unat (b64_char d) = b64_code d"
  unfolding b64_char_def by (rule unat_unit) (auto simp: b64_code_def)

lemma b64_value_char: "d < 64 \<Longrightarrow> b64_value (b64_char d) = Some d"
  by (simp add: b64_value_def Let_def unat_b64_char) (auto simp: b64_code_def)

lemma b64_char_plain:
  assumes "d < 64"
  shows "b64_char d < 0x80" "b64_char d \<noteq> 61" "\<not> ascii_whitespace (b64_char d)" "b64_char d \<noteq> 34"
    "b64_char d \<noteq> 92" "32 \<le> b64_char d"
proof -
  have u: "unat (b64_char d) = b64_code d" by (rule unat_b64_char) (rule assms)
  have c: "b64_code d < 128 \<and> 42 < b64_code d \<and> b64_code d \<noteq> 61 \<and> b64_code d \<noteq> 92"
    using assms by (auto simp: b64_code_def)
  show "b64_char d < 0x80" "32 \<le> b64_char d"
    using c by (simp_all add: word_less_nat_alt word_le_nat_alt u)
  show "b64_char d \<noteq> 61" "\<not> ascii_whitespace (b64_char d)" "b64_char d \<noteq> 34" "b64_char d \<noteq> 92"
    using c u by (auto simp: ascii_whitespace_def)
qed

text \<open>The digits of an encoding, without padding.\<close>

fun b64_digits :: "nat list \<Rightarrow> nat list" where
  "b64_digits [] = []"
| "b64_digits [a] = [a div 4, a mod 4 * 16]"
| "b64_digits [a, b] = [a div 4, a mod 4 * 16 + b div 16, b mod 16 * 4]"
| "b64_digits (a # b # c # r) =
     a div 4 # (a mod 4 * 16 + b div 16) # (b mod 16 * 4 + c div 64) # c mod 64 # b64_digits r"

fun b64_padding :: "nat list \<Rightarrow> jsstr" where
  "b64_padding [a] = [61, 61]"
| "b64_padding [a, b] = [61]"
| "b64_padding (a # b # c # r) = b64_padding r"
| "b64_padding [] = []"

lemma b64_encode_digits: "b64_encode xs = List.map b64_char (b64_digits xs) @ b64_padding xs"
  by (induction xs rule: b64_encode.induct) simp_all

lemma b64_digits_less: "list_all (\<lambda>x. x < 256) xs \<Longrightarrow> list_all (\<lambda>d. d < 64) (b64_digits xs)"
  by (induction xs rule: b64_digits.induct) auto

lemma b64_groups_digits: "list_all (\<lambda>x. x < 256) xs \<Longrightarrow> b64_groups (b64_digits xs) = xs"
  by (induction xs rule: b64_digits.induct) auto

lemma b64_lengths:
  "length (b64_digits xs) mod 4 \<noteq> 1" "length (b64_digits xs @ List.map unat (b64_padding xs)) mod 4 = 0"
  "b64_padding xs \<in> {[], [61], [61, 61]}" "b64_padding xs = [] \<longleftrightarrow> length (b64_digits xs) mod 4 = 0"
  by (induction xs rule: b64_digits.induct) auto

lemma strip_padding_encode:
  assumes "list_all (\<lambda>x. x < 256) xs"
  shows "strip_padding (b64_encode xs) = List.map b64_char (b64_digits xs)"
proof -
  let ?ds = "List.map b64_char (b64_digits xs)"
  have last: "\<exists>y r. rev ?ds = y # r \<and> y \<noteq> 61" if "?ds \<noteq> []"
  proof -
    from that obtain y r where yr: "rev ?ds = y # r" by (cases "rev ?ds") auto
    then have "y \<in> set ?ds" by (metis list.set_intros(1) set_rev)
    with b64_digits_less [OF assms] have "y \<noteq> 61"
      using b64_char_plain(2) by (auto simp: list_all_iff)
    with yr show ?thesis by blast
  qed
  have len: "length (?ds @ b64_padding xs) mod 4 = 0"
    using b64_lengths(2) [of xs] by simp
  consider "b64_padding xs = []" | "b64_padding xs = [61]" | "b64_padding xs = [61, 61]"
    using b64_lengths(3) [of xs] by blast
  then show ?thesis
  proof cases
    case 1
    show ?thesis
    proof (cases "?ds = []")
      case True
      with 1 show ?thesis by (simp add: strip_padding_def b64_encode_digits)
    next
      case False
      with last obtain y r where "rev ?ds = y # r" "y \<noteq> 61" by blast
      with 1 show ?thesis by (cases r) (simp_all add: strip_padding_def b64_encode_digits)
    qed
  next
    case 2
    have "?ds \<noteq> []" using 2 b64_lengths(4) [of xs] by auto
    with last obtain y r where yr: "rev ?ds = y # r" "y \<noteq> 61" by blast
    have "rev r @ [y] = ?ds" using arg_cong [OF yr(1), of rev] by simp
    with 2 len yr show ?thesis
      by (simp add: strip_padding_def b64_encode_digits del: rev_eq_Cons_iff)
  next
    case 3
    with len show ?thesis by (simp add: strip_padding_def b64_encode_digits)
  qed
qed

lemma atob_encode:
  assumes "list_all (\<lambda>x. x < 256) xs"
  shows "atob (b64_encode xs) = Some (List.map of_nat xs)"
proof -
  have ds: "\<And>d. d \<in> set (b64_digits xs) \<Longrightarrow> d < 64"
    using b64_digits_less [OF assms] by (simp add: list_all_iff)
  have "\<not> ascii_whitespace u" if "u \<in> set (b64_encode xs)" for u
    using that ds b64_char_plain(3) b64_lengths(3) [of xs]
    by (auto simp: b64_encode_digits ascii_whitespace_def)
  then have "filter (\<lambda>u. \<not> ascii_whitespace u) (b64_encode xs) = b64_encode xs"
    by (simp add: filter_id_conv)
  moreover have "List.map b64_value (List.map b64_char (b64_digits xs)) = List.map Some (b64_digits xs)"
    using ds by (simp add: b64_value_char)
  moreover have "None \<notin> set (List.map Some (b64_digits xs))" by auto
  moreover have "List.map the (List.map Some (b64_digits xs)) = b64_digits xs" by (simp add: comp_def)
  ultimately show ?thesis
    using b64_lengths(1) [of xs]
    unfolding atob_def Let_def by (simp only: strip_padding_encode [OF assms] b64_groups_digits [OF assms]
      length_map simp_thms if_False)
qed

lemma foldl_append_map: "foldl (\<lambda>s i. s @ f i) acc is = acc @ concat (List.map f is)"
  by (induction "is" arbitrary: acc) simp_all

lemma byte_less: "unat (b :: byte) < 256"
  using unsigned_less [of b] by simp

lemma unat_byte_unit: "unat (ucast (b :: byte) :: code_unit) = unat b"
  using byte_less [of b] by (simp add: unsigned_ucast_eq take_bit_nat_eq_self)

lemma byte_unit_less: "(ucast (b :: byte) :: code_unit) < 256"
  using byte_less [of b] by (simp add: word_less_nat_alt unat_byte_unit)

lemma bytes_less: "list_all (\<lambda>x. x < 256) (List.map unat (bs :: bytes))"
  by (simp add: list_all_iff byte_less)

lemma ucast_ucast_byte: "(ucast (ucast (b :: byte) :: code_unit) :: byte) = b"
  by (rule bit_word_eqI) (simp add: bit_ucast_iff)

lemma ucast_of_nat_byte: "(ucast (word_of_nat (unat (b :: byte)) :: code_unit) :: byte) = b"
proof -
  have "(word_of_nat (unat b) :: code_unit) = ucast b"
    using byte_less [of b] by (simp add: word_unat_eq_iff unat_unit unat_byte_unit)
  moreover have "(ucast (ucast b :: code_unit) :: byte) = b" by (rule ucast_ucast_byte)
  ultimately show ?thesis by simp
qed

lemma encodeBytesBase64_eq: "encodeBytesBase64 bs = b64_encode (List.map unat bs)"
proof -
  have "foldl (\<lambda>s i. s @ List.map ucast (slice_at 8192 bs i)) [] [0..<slice_count 8192 bs] =
      List.map ucast (concat (List.map (slice_at 8192 bs) [0..<slice_count 8192 bs]))"
    by (simp add: foldl_append_map map_concat comp_def)
  also have "\<dots> = (List.map ucast bs :: jsstr)" by (simp add: concat_slices_all)
  finally show ?thesis
    by (simp add: encodeBytesBase64_def btoa_def list_all_iff byte_unit_less comp_def unat_byte_unit)
qed

lemma base64_roundtrip: "decodeBytesBase64 (encodeBytesBase64 bs) = Some bs"
  by (simp add: decodeBytesBase64_def encodeBytesBase64_eq atob_encode [OF bytes_less] comp_def
      ucast_of_nat_byte ucast_ucast_byte)

lemma encodeBytesBase64_units:
  "u \<in> set (encodeBytesBase64 bs) \<Longrightarrow> u < 0x80 \<and> 32 \<le> u \<and> u \<noteq> 34 \<and> u \<noteq> 92"
proof -
  from b64_digits_less [OF bytes_less, of bs] have ds: "\<And>d. d \<in> set (b64_digits (List.map unat bs)) \<Longrightarrow> d < 64"
    by (simp add: list_all_iff)
  assume "u \<in> set (encodeBytesBase64 bs)"
  then show ?thesis
    using ds b64_char_plain b64_lengths(3) [of "List.map unat bs"]
    by (fastforce simp: encodeBytesBase64_eq b64_encode_digits)
qed

end
