(* ===== verification/JsJson.thy ===== *)
theory JsJson
  imports JsText
begin

text \<open>
  \<open>JSON.stringify\<close> of strings, and \<open>JSON.parse\<close>. The parser is by fuel; \<open>json_parse\<close> gives it
  one more than the length of the text, which is enough because every nested call follows
  the consumption of a bracket, a brace, a comma or a colon.
\<close>

section \<open>Writing\<close>

definition hex4 :: "nat \<Rightarrow> jsstr" where
  "hex4 n = [hex_digit (n div 4096 mod 16), hex_digit (n div 256 mod 16),
             hex_digit (n div 16 mod 16), hex_digit (n mod 16)]"

definition json_escape :: "code_unit \<Rightarrow> jsstr" where
  "json_escape u =
     (if u = 34 then [92, 34] else if u = 92 then [92, 92]
      else if u = 8 then [92, 98] else if u = 12 then [92, 102] else if u = 10 then [92, 110]
      else if u = 13 then [92, 114] else if u = 9 then [92, 116]
      else if u < 32 then 92 # 117 # hex4 (unat u)
      else [u])"

text \<open>A surrogate that is not part of a pair is escaped.\<close>

fun json_chars :: "jsstr \<Rightarrow> jsstr" where
  "json_chars [] = []"
| "json_chars [u] =
     (if high_surrogate u \<or> low_surrogate u then 92 # 117 # hex4 (unat u) else json_escape u)"
| "json_chars (u # v # r) =
     (if high_surrogate u \<and> low_surrogate v then u # v # json_chars r
      else if high_surrogate u \<or> low_surrogate u then 92 # 117 # hex4 (unat u) @ json_chars (v # r)
      else json_escape u @ json_chars (v # r))"

definition json_string :: "jsstr \<Rightarrow> jsstr" where
  "json_string s = 34 # json_chars s @ [34]"

text \<open>An object or an array whose members are rendered already.\<close>

fun json_join :: "jsstr list \<Rightarrow> jsstr" where
  "json_join [] = []"
| "json_join [x] = x"
| "json_join (x # xs) = x @ 44 # json_join xs"

definition json_object :: "(jsstr \<times> jsstr) list \<Rightarrow> jsstr" where
  "json_object ps = 123 # json_join (List.map (\<lambda>(k, v). json_string k @ 58 # v) ps) @ [125]"

definition json_array :: "jsstr list \<Rightarrow> jsstr" where
  "json_array xs = 91 # json_join xs @ [93]"

section \<open>Reading\<close>

definition json_ws :: "code_unit \<Rightarrow> bool" where
  "json_ws u = (u = 32 \<or> u = 9 \<or> u = 10 \<or> u = 13)"

definition skip_ws :: "jsstr \<Rightarrow> jsstr" where
  "skip_ws s = dropWhile json_ws s"

definition hex_unit_value :: "code_unit \<Rightarrow> nat option" where
  "hex_unit_value u =
     (let n = unat u in
      if 48 \<le> n \<and> n \<le> 57 then Some (n - 48)
      else if 97 \<le> n \<and> n \<le> 102 then Some (n - 87)
      else if 65 \<le> n \<and> n \<le> 70 then Some (n - 55) else None)"

definition hex4_value :: "code_unit \<Rightarrow> code_unit \<Rightarrow> code_unit \<Rightarrow> code_unit \<Rightarrow> code_unit option" where
  "hex4_value a b c d =
     (case (hex_unit_value a, hex_unit_value b, hex_unit_value c, hex_unit_value d) of
        (Some w, Some x, Some y, Some z) \<Rightarrow> Some (of_nat (w * 4096 + x * 256 + y * 16 + z))
      | _ \<Rightarrow> None)"

definition unescape :: "code_unit \<Rightarrow> code_unit option" where
  "unescape e =
     (if e = 34 \<or> e = 92 \<or> e = 47 then Some e else if e = 98 then Some 8
      else if e = 102 then Some 12 else if e = 110 then Some 10 else if e = 114 then Some 13
      else if e = 116 then Some 9 else None)"

text \<open>The rest of a string literal after its opening quote.\<close>

fun json_read_chars :: "jsstr \<Rightarrow> (jsstr \<times> jsstr) option" where
  "json_read_chars [] = None"
| "json_read_chars (u # r) =
     (if u = 34 then Some ([], r)
      else if u = 92 then
        (case r of
           [] \<Rightarrow> None
         | e # r1 \<Rightarrow>
             if e = 117 then
               (case r1 of
                  a # b # c # d # r2 \<Rightarrow>
                    (case hex4_value a b c d of
                       None \<Rightarrow> None
                     | Some h \<Rightarrow> map_option (\<lambda>(s, t). (h # s, t)) (json_read_chars r2))
                | _ \<Rightarrow> None)
             else (case unescape e of
                     None \<Rightarrow> None
                   | Some h \<Rightarrow> map_option (\<lambda>(s, t). (h # s, t)) (json_read_chars r1)))
      else if u < 32 then None
      else map_option (\<lambda>(s, t). (u # s, t)) (json_read_chars r))"

definition is_digit_unit :: "code_unit \<Rightarrow> bool" where
  "is_digit_unit u = (48 \<le> u \<and> u \<le> 57)"

definition digits_value :: "jsstr \<Rightarrow> nat" where
  "digits_value ds = foldl (\<lambda>n u. n * 10 + (unat u - 48)) 0 ds"

definition json_exponent :: "jsstr \<Rightarrow> (rat \<times> jsstr) option" where
  "json_exponent s = (case s of
     e # r \<Rightarrow>
       if e = 101 \<or> e = 69 then
         (let neg = (case r of x # _ \<Rightarrow> x = 45 | [] \<Rightarrow> False);
              r1 = (case r of x # r' \<Rightarrow> if x = 45 \<or> x = 43 then r' else r | [] \<Rightarrow> r);
              ds = takeWhile is_digit_unit r1
          in if ds = [] then None
             else Some (if neg then 1 / 10 ^ digits_value ds else 10 ^ digits_value ds,
                        dropWhile is_digit_unit r1))
       else Some (1, s)
   | [] \<Rightarrow> Some (1, s))"

definition json_fraction :: "jsstr \<Rightarrow> (rat \<times> jsstr) option" where
  "json_fraction s = (case s of
     x # r \<Rightarrow>
       if x = 46 then
         (let ds = takeWhile is_digit_unit r in
          if ds = [] then None
          else Some (of_nat (digits_value ds) / 10 ^ length ds, dropWhile is_digit_unit r))
       else Some (0, s)
   | [] \<Rightarrow> Some (0, s))"

definition json_number :: "jsstr \<Rightarrow> (js_value \<times> jsstr) option" where
  "json_number s =
     (let neg = (case s of x # _ \<Rightarrow> x = 45 | [] \<Rightarrow> False);
          s1 = (if neg then tl s else s);
          ds = takeWhile is_digit_unit s1
      in if ds = [] \<or> (1 < length ds \<and> hd ds = 48) then None
         else (case json_fraction (dropWhile is_digit_unit s1) of
             None \<Rightarrow> None
           | Some (f, s2) \<Rightarrow>
               (case json_exponent s2 of
                  None \<Rightarrow> None
                | Some (e, s3) \<Rightarrow>
                    (let q = (of_nat (digits_value ds) + f) * e in
                     Some (JNum (Fin (if neg then - q else q)), s3)))))"

definition expect :: "string \<Rightarrow> js_value \<Rightarrow> jsstr \<Rightarrow> (js_value \<times> jsstr) option" where
  "expect w v s = (if take (length w) s = lit w then Some (v, drop (length w) s) else None)"

text \<open>A property name as the source can name it; other properties are dropped.\<close>

definition ascii_name :: "jsstr \<Rightarrow> string option" where
  "ascii_name k = (if list_all (\<lambda>u. u < 0x80) k then Some (List.map (\<lambda>u. char_of (unat u)) k) else None)"

fun add_prop :: "jsstr \<Rightarrow> js_value \<Rightarrow> (string \<times> js_value) list \<Rightarrow> (string \<times> js_value) list" where
  "add_prop k v ps = (case ascii_name k of Some n \<Rightarrow> AList.update n v ps | None \<Rightarrow> ps)"

fun json_value :: "nat \<Rightarrow> jsstr \<Rightarrow> (js_value \<times> jsstr) option"
  and json_elements :: "nat \<Rightarrow> js_value list \<Rightarrow> jsstr \<Rightarrow> (js_value \<times> jsstr) option"
  and json_members :: "nat \<Rightarrow> (string \<times> js_value) list \<Rightarrow> jsstr \<Rightarrow> (js_value \<times> jsstr) option" where
  "json_value 0 s = None"
| "json_value (Suc n) s =
     (case skip_ws s of
        [] \<Rightarrow> None
      | u # r \<Rightarrow>
          if u = 123 then
            (case skip_ws r of
               x # r' \<Rightarrow> if x = 125 then Some (JObj [], r') else json_members n [] (x # r')
             | [] \<Rightarrow> None)
          else if u = 91 then
            (case skip_ws r of
               x # r' \<Rightarrow> if x = 93 then Some (JArr [], r') else json_elements n [] (x # r')
             | [] \<Rightarrow> None)
          else if u = 34 then map_option (\<lambda>(t, r'). (JStr t, r')) (json_read_chars r)
          else if u = 116 then expect ''true'' (JBool True) (u # r)
          else if u = 102 then expect ''false'' (JBool False) (u # r)
          else if u = 110 then expect ''null'' JNull (u # r)
          else json_number (u # r))"
| "json_elements 0 xs s = None"
| "json_elements (Suc n) xs s =
     (case json_value n s of
        None \<Rightarrow> None
      | Some (v, r) \<Rightarrow>
          (case skip_ws r of
             x # r' \<Rightarrow> if x = 93 then Some (JArr (xs @ [v]), r')
                        else if x = 44 then json_elements n (xs @ [v]) r' else None
           | [] \<Rightarrow> None))"
| "json_members 0 ps s = None"
| "json_members (Suc n) ps s =
     (case skip_ws s of
        u # r \<Rightarrow>
          if u \<noteq> 34 then None
          else (case json_read_chars r of
             None \<Rightarrow> None
           | Some (k, r1) \<Rightarrow>
               (case skip_ws r1 of
                  c # r2 \<Rightarrow>
                    if c \<noteq> 58 then None
                    else (case json_value n r2 of
                       None \<Rightarrow> None
                     | Some (v, r3) \<Rightarrow>
                         (case skip_ws r3 of
                            x # r4 \<Rightarrow>
                              if x = 125 then Some (JObj (add_prop k v ps), r4)
                              else if x = 44 then json_members n (add_prop k v ps) r4 else None
                          | [] \<Rightarrow> None))
                | [] \<Rightarrow> None))
      | [] \<Rightarrow> None)"

text \<open>\<open>JSON.parse\<close>: \<open>None\<close> is the \<open>SyntaxError\<close>.\<close>

definition json_parse :: "jsstr \<Rightarrow> js_value option" where
  "json_parse s = (case json_value (length s + 1) s of
     Some (v, r) \<Rightarrow> if skip_ws r = [] then Some v else None
   | None \<Rightarrow> None)"

section \<open>Reading what was written\<close>

lemma hex_unit_value_digit: "d < 16 \<Longrightarrow> hex_unit_value (hex_digit d) = Some d"
proof -
  assume d: "d < 16"
  then have "unat (hex_digit d) = (if d < 10 then 48 + d else 87 + d)"
    using unat_unit [of "48 + d"] unat_unit [of "87 + d"] by (simp add: hex_digit_def)
  with d show ?thesis by (auto simp: hex_unit_value_def Let_def)
qed

lemma hex4_roundtrip:
  "hex4_value (hex_digit (n div 4096 mod 16)) (hex_digit (n div 256 mod 16))
     (hex_digit (n div 16 mod 16)) (hex_digit (n mod 16)) = Some (of_nat n)" if "n < 65536"
proof -
  have "n div 4096 mod 16 * 4096 + n div 256 mod 16 * 256 + n div 16 mod 16 * 16 + n mod 16 = n"
  proof -
    have digits: "n = a * 16 + r0 \<Longrightarrow> a = b * 16 + r1 \<Longrightarrow> b = k * 16 + r2 \<Longrightarrow>
        k * 4096 + r2 * 256 + r1 * 16 + r0 = n" for a b k r0 r1 r2 by simp
    have "n div 256 = n div 16 div 16" "n div 4096 = n div 16 div 16 div 16"
      by (simp_all add: div_mult2_eq [symmetric])
    moreover have "n div 4096 mod 16 = n div 4096" using that by (simp add: less_mult_imp_div_less)
    moreover note digits [OF div_mult_mod_eq [symmetric] div_mult_mod_eq [symmetric]
      div_mult_mod_eq [symmetric]]
    ultimately show ?thesis by metis
  qed
  from arg_cong [OF this, of "of_nat :: nat \<Rightarrow> code_unit"] show ?thesis
    by (simp add: hex4_value_def hex_unit_value_digit)
qed

lemma unit_less: "unat (u :: code_unit) < 65536"
  using unsigned_less [of u] by simp

lemma read_hex4:
  "json_read_chars (92 # 117 # hex4 (unat u) @ r) =
   map_option (\<lambda>(s, t). (u # s, t)) (json_read_chars r)"
  by (simp add: hex4_def hex4_roundtrip unit_less)

lemma read_escape:
  "json_read_chars (json_escape u @ r) = map_option (\<lambda>(s, t). (u # s, t)) (json_read_chars r)"
  using read_hex4 [of u r] by (auto simp: json_escape_def unescape_def)

lemma read_plain:
  "u \<noteq> 34 \<and> u \<noteq> 92 \<and> \<not> u < 32 \<Longrightarrow>
   json_read_chars (u # r) = map_option (\<lambda>(s, t). (u # s, t)) (json_read_chars r)"
  by simp

lemma read_end: "json_read_chars (34 # r) = Some ([], r)"
  by simp

declare json_read_chars.simps(2) [simp del]

lemma surrogate_plain:
  "high_surrogate u \<or> low_surrogate u \<Longrightarrow> u \<noteq> 34 \<and> u \<noteq> 92 \<and> \<not> u < 32"
  by (auto simp: high_surrogate_def low_surrogate_def word_le_nat_alt word_less_nat_alt)

lemma json_chars_roundtrip: "json_read_chars (json_chars s @ 34 # r) = Some (s, r)"
proof (induction s rule: json_chars.induct)
  case 1
  then show ?case by (simp add: read_end)
next
  case (2 u)
  then show ?case
    using read_hex4 [of u "34 # r"] read_escape [of u "34 # r"] by (simp add: read_end)
next
  case (3 u v s)
  show ?case
  proof (cases "high_surrogate u \<and> low_surrogate v")
    case True
    with 3(1) surrogate_plain [of u] surrogate_plain [of v] show ?thesis by (simp add: read_plain)
  next
    case False
    with 3(2,3) read_hex4 [of u "json_chars (v # s) @ 34 # r"]
      read_escape [of u "json_chars (v # s) @ 34 # r"]
    show ?thesis by (cases "high_surrogate u \<or> low_surrogate u") auto
  qed
qed

text \<open>Two different lists of strings have different JSON arrays.\<close>

lemma json_string_inject:
  assumes "json_string s @ x = json_string t @ y"
  shows "s = t \<and> x = y"
proof -
  from assms have "json_chars s @ 34 # x = json_chars t @ 34 # y"
    by (simp only: json_string_def append_Cons append_Nil append_assoc list.inject simp_thms)
  with json_chars_roundtrip [of s x] json_chars_roundtrip [of t y] show ?thesis
    by (metis option.inject prod.inject)
qed

lemma json_join_strings:
  "json_join (List.map json_string (z # zs)) @ [93] =
   json_string z @ (if zs = [] then [93] else 44 # json_join (List.map json_string zs) @ [93])"
  by (cases zs) simp_all

lemma json_join_inject:
  "json_join (List.map json_string xs) @ [93] = json_join (List.map json_string ys) @ [93] \<Longrightarrow> xs = ys"
proof (induction xs arbitrary: ys)
  case Nil
  show ?case
  proof (cases ys)
    case (Cons y ys')
    with Nil have "[93] = json_string y @ (if ys' = [] then [93] else 44 # json_join (List.map json_string ys') @ [93])"
      unfolding Cons json_join_strings by simp
    then show ?thesis by (simp add: json_string_def)
  qed simp
next
  case (Cons x xs)
  show ?case
  proof (cases ys)
    case Nil
    with Cons.prems have "[93] = json_string x @ (if xs = [] then [93] else 44 # json_join (List.map json_string xs) @ [93])"
      unfolding Nil json_join_strings by simp
    then show ?thesis by (simp add: json_string_def)
  next
    case ys: (Cons y ys')
    from json_string_inject [OF Cons.prems [unfolded ys json_join_strings]] Cons.IH [of ys'] show ?thesis
      by (auto simp: ys split: if_splits)
  qed
qed

lemma json_array_inject:
  "json_array (List.map json_string xs) = json_array (List.map json_string ys) \<longleftrightarrow> xs = ys"
  using json_join_inject [of xs ys] by (auto simp: json_array_def)

end
