(* ===== verification/SvEcho.thy ===== *)
theory SvEcho
  imports JsJson
begin

text \<open>
  State-vector receipts: the server side (\<open>svEcho.ts\<close>), the client side
  (\<open>svEchoMessage.ts\<close>), the dominance test (\<open>stateVectorAck.ts\<close>), the classifier of sync
  frames (\<open>syncMessageClassifier.ts\<close>) and the frame writer (\<open>protocol.ts\<close>). The CRDT library's
  state-vector decoder is the argument \<open>decodeSv\<close> (\<open>None\<close> where it throws; otherwise the map
  from client ids to clocks), the variable-length integers of its encoding library
  are the arguments \<open>readVarUint\<close> and \<open>writeVarUint\<close>.
\<close>

section \<open>Protocol constants\<close>

definition SV_ECHO_TYPE :: jsstr where "SV_ECHO_TYPE = lit ''yaos/sv-echo''"
definition SV_ECHO_SCHEMA :: nat where "SV_ECHO_SCHEMA = 1"
definition MAX_SV_ECHO_BASE64_BYTES :: nat where "MAX_SV_ECHO_BASE64_BYTES = 65536"

text \<open>The message both files write, around an encoded state vector.\<close>

definition sv_echo_json :: "jsstr \<Rightarrow> jsstr" where
  "sv_echo_json encodedSv = json_object
     [(lit ''type'', json_string SV_ECHO_TYPE),
      (lit ''schema'', lit ''1''),
      (lit ''sv'', json_string encodedSv)]"

definition makeSvEchoMessage :: "bytes \<Rightarrow> jsstr" where
  "makeSvEchoMessage sv = sv_echo_json (encodeBytesBase64 sv)"

section \<open>The server\<close>

datatype sv_echo_kind = Baseline | PostApply
datatype sv_send_failure = NotOpen | Oversize | SendFailed

record sv_send_result =
  ssr_failure :: "sv_send_failure option"
  ssr_kind :: sv_echo_kind
  ssr_bytes :: nat

definition Y_PARTYSERVER_CUSTOM_PREFIX :: jsstr where
  "Y_PARTYSERVER_CUSTOM_PREFIX = lit ''__YPS:''"

definition framedByteLength :: "jsstr \<Rightarrow> nat" where
  "framedByteLength payload = utf8_length (Y_PARTYSERVER_CUSTOM_PREFIX @ payload)"

text \<open>A connection: its ready state, if it has one, and whether its \<open>send\<close> throws. The result
  comes with the message that was sent.\<close>

record connection =
  cn_readyState :: "nat option"
  cn_sendThrows :: bool

definition trySendSvEchoStateVector ::
  "connection \<Rightarrow> bytes \<Rightarrow> sv_echo_kind \<Rightarrow> sv_send_result \<times> jsstr option" where
  "trySendSvEchoStateVector conn serverSv kind =
     (if (case cn_readyState conn of None \<Rightarrow> False | Some r \<Rightarrow> r \<noteq> 1)
      then (\<lparr>ssr_failure = Some NotOpen, ssr_kind = kind, ssr_bytes = 0\<rparr>, None)
      else let encodedSv = encodeBytesBase64 serverSv in
      if MAX_SV_ECHO_BASE64_BYTES < length encodedSv
      then (\<lparr>ssr_failure = Some Oversize, ssr_kind = kind,
              ssr_bytes = framedByteLength (sv_echo_json encodedSv)\<rparr>, None)
      else let framedMessage = Y_PARTYSERVER_CUSTOM_PREFIX @ sv_echo_json encodedSv;
               bs = utf8_length framedMessage in
      if cn_sendThrows conn
      then (\<lparr>ssr_failure = Some SendFailed, ssr_kind = kind, ssr_bytes = bs\<rparr>, None)
      else (\<lparr>ssr_failure = None, ssr_kind = kind, ssr_bytes = bs\<rparr>, Some framedMessage))"

definition trySendSvEcho ::
  "('d \<Rightarrow> bytes) \<Rightarrow> connection \<Rightarrow> 'd \<Rightarrow> sv_echo_kind \<Rightarrow> sv_send_result \<times> jsstr option" where
  "trySendSvEcho encodeStateVector conn doc kind =
     trySendSvEchoStateVector conn (encodeStateVector doc) kind"

section \<open>The client\<close>

datatype sv_parse_failure = WrongSchema | MissingSv | OversizeSv | InvalidBase64 | InvalidStateVector

datatype sv_parse_result =
    NotSvEcho nat
  | ValidSvEcho bytes nat
  | InvalidSvEcho sv_parse_failure nat

record sv_counters =
  sc_customMessageSeen :: nat
  sc_svEchoSeen :: nat
  sc_accepted :: nat
  sc_rejected :: nat
  sc_rejectedOversize :: nat
  sc_rejectedInvalid :: nat
  sc_bytesMax :: nat

definition createSvEchoCounters :: sv_counters where
  "createSvEchoCounters = \<lparr>sc_customMessageSeen = 0, sc_svEchoSeen = 0, sc_accepted = 0,
     sc_rejected = 0, sc_rejectedOversize = 0, sc_rejectedInvalid = 0, sc_bytesMax = 0\<rparr>"

definition parseSvEchoMessageDetailed ::
  "(bytes \<Rightarrow> (nat \<times> nat) list option) \<Rightarrow> jsstr \<Rightarrow> sv_parse_result" where
  "parseSvEchoMessageDetailed decodeSv msg =
     (let bs = utf8_length msg in
      case json_parse msg of
        None \<Rightarrow> NotSvEcho bs
      | Some p \<Rightarrow>
          if \<not> is_object_value p then NotSvEcho bs
          else if js_prop p ''type'' \<noteq> JStr SV_ECHO_TYPE then NotSvEcho bs
          else if js_prop p ''schema'' \<noteq> nat_value SV_ECHO_SCHEMA then InvalidSvEcho WrongSchema bs
          else if \<not> is_string_value (js_prop p ''sv'') then InvalidSvEcho MissingSv bs
          else let sv = string_of_value (js_prop p ''sv'') in
          if MAX_SV_ECHO_BASE64_BYTES < length sv then InvalidSvEcho OversizeSv bs
          else (case decodeBytesBase64 sv of
             None \<Rightarrow> InvalidSvEcho InvalidBase64 bs
           | Some decoded \<Rightarrow>
               if decodeSv decoded = None then InvalidSvEcho InvalidStateVector bs
               else ValidSvEcho decoded bs))"

definition parseSvEchoMessage ::
  "(bytes \<Rightarrow> (nat \<times> nat) list option) \<Rightarrow> jsstr \<Rightarrow> bytes option" where
  "parseSvEchoMessage decodeSv msg =
     (case parseSvEchoMessageDetailed decodeSv msg of ValidSvEcho sv _ \<Rightarrow> Some sv | _ \<Rightarrow> None)"

definition recordSvEchoParseResult :: "sv_counters \<Rightarrow> sv_parse_result \<Rightarrow> sv_counters" where
  "recordSvEchoParseResult c result =
     (let c1 = c\<lparr>sc_customMessageSeen := sc_customMessageSeen c + 1\<rparr>;
          seen = (\<lambda>bs. c1\<lparr>sc_svEchoSeen := sc_svEchoSeen c1 + 1,
                         sc_bytesMax := max (sc_bytesMax c1) bs\<rparr>)
      in case result of
        NotSvEcho _ \<Rightarrow> c1
      | ValidSvEcho _ bs \<Rightarrow> (seen bs)\<lparr>sc_accepted := sc_accepted c1 + 1\<rparr>
      | InvalidSvEcho reason bs \<Rightarrow>
          (let c2 = (seen bs)\<lparr>sc_rejected := sc_rejected c1 + 1\<rparr> in
           if reason = OversizeSv
           then c2\<lparr>sc_rejectedOversize := sc_rejectedOversize c2 + 1\<rparr>
           else c2\<lparr>sc_rejectedInvalid := sc_rejectedInvalid c2 + 1\<rparr>))"

text \<open>The handler returns the result, the counters and the state vectors it passed to
  \<open>onAcceptedSvEcho\<close>.\<close>

definition handleSvEchoCustomMessage ::
  "(bytes \<Rightarrow> (nat \<times> nat) list option) \<Rightarrow> jsstr \<Rightarrow> sv_counters \<Rightarrow>
   sv_parse_result \<times> sv_counters \<times> bytes list" where
  "handleSvEchoCustomMessage decodeSv payload counters =
     (let result = parseSvEchoMessageDetailed decodeSv payload in
      (result, recordSvEchoParseResult counters result,
       case result of ValidSvEcho sv _ \<Rightarrow> [sv] | _ \<Rightarrow> []))"

section \<open>Dominance of state vectors\<close>

definition clock_of :: "(nat \<times> nat) list \<Rightarrow> nat \<Rightarrow> nat" where
  "clock_of sv client = (case map_of sv client of Some k \<Rightarrow> k | None \<Rightarrow> 0)"

definition isStateVectorGe :: "(bytes \<Rightarrow> (nat \<times> nat) list option) \<Rightarrow> bytes \<Rightarrow> bytes \<Rightarrow> bool" where
  "isStateVectorGe decodeSv a b =
     (case decodeSv a of
        None \<Rightarrow> False
      | Some svA \<Rightarrow>
          (case decodeSv b of
             None \<Rightarrow> False
           | Some svB \<Rightarrow> list_all (\<lambda>(clientId, clk). \<not> clock_of svA clientId < clk) svB))"

section \<open>Sync frames\<close>

definition asUint8Array :: "js_value \<Rightarrow> bytes option" where
  "asUint8Array message = (case message of
     JUint8 bs \<Rightarrow> Some bs
   | JBuffer bs \<Rightarrow> Some bs
   | JView buffer offset len \<Rightarrow> Some (take len (drop offset buffer))
   | _ \<Rightarrow> None)"

definition isUpdateBearingSyncMessage :: "(bytes \<Rightarrow> (nat \<times> bytes) option) \<Rightarrow> js_value \<Rightarrow> bool" where
  "isUpdateBearingSyncMessage readVarUint message =
     (case asUint8Array message of
        None \<Rightarrow> False
      | Some bs \<Rightarrow>
          (case readVarUint bs of
             None \<Rightarrow> False
           | Some (outerType, rest) \<Rightarrow>
               if outerType \<noteq> 0 then False
               else (case readVarUint rest of
                  None \<Rightarrow> False
                | Some (innerType, _) \<Rightarrow> innerType = 1 \<or> innerType = 2)))"

definition encodeSyncUpdateFrame :: "(nat \<Rightarrow> bytes) \<Rightarrow> (bytes \<Rightarrow> bytes) \<Rightarrow> bytes \<Rightarrow> bytes" where
  "encodeSyncUpdateFrame writeVarUint writeUpdate upd = writeVarUint 0 @ writeUpdate upd"

section \<open>Lemmas\<close>

lemma json_chars_plain:
  "(\<And>u. u \<in> set s \<Longrightarrow> u < 0x80 \<and> 32 \<le> u \<and> u \<noteq> 34 \<and> u \<noteq> 92) \<Longrightarrow> json_chars s = s"
proof (induction s rule: json_chars.induct)
  case 1
  then show ?case by simp
next
  case (2 u)
  then have "u < 0x80 \<and> 32 \<le> u \<and> u \<noteq> 34 \<and> u \<noteq> 92" by simp
  then show ?case
    by (auto simp: high_surrogate_def low_surrogate_def json_escape_def word_le_nat_alt word_less_nat_alt)
next
  case (3 u v r)
  then have "u < 0x80 \<and> 32 \<le> u \<and> u \<noteq> 34 \<and> u \<noteq> 92" by simp
  then have "\<not> high_surrogate u" "\<not> low_surrogate u" "json_escape u = [u]"
    by (auto simp: high_surrogate_def low_surrogate_def json_escape_def word_le_nat_alt word_less_nat_alt)
  with 3 show ?case by simp
qed

lemma skip_ws_Cons: "\<not> json_ws u \<Longrightarrow> skip_ws (u # r) = u # r"
  by (simp add: skip_ws_def)

lemma json_value_string: "json_value (Suc n) (34 # json_chars s @ 34 # r) = Some (JStr s, r)"
  by (simp add: skip_ws_Cons json_ws_def json_chars_roundtrip)

lemma json_members_Cons:
  assumes "json_value n v = Some (x, c # r)" and "c = 44 \<or> c = 125"
  shows "json_members (Suc n) ps (json_string k @ 58 # v) =
    (if c = 125 then Some (JObj (add_prop k x ps), r) else json_members n (add_prop k x ps) r)"
  using assms
  by (auto simp: json_string_def skip_ws_Cons json_ws_def json_chars_roundtrip)

lemma json_value_one: "r \<noteq> [] \<Longrightarrow> hd r \<in> {44, 125} \<Longrightarrow> json_value (Suc n) (49 # r) = Some (nat_value 1, r)"
  by (cases r)
    (auto simp: skip_ws_Cons json_ws_def json_number_def is_digit_unit_def digits_value_def
      json_fraction_def json_exponent_def nat_value_def num_of_nat_def word_le_nat_alt)

lemma unat_of_char: "unat (of_char ch :: code_unit) = of_char ch"
proof -
  have "(of_char ch :: code_unit) = of_nat (of_char ch)" by (rule of_nat_of_char [symmetric])
  moreover have "(of_char ch :: nat) < 65536" using nat_of_char_less_256 [of ch] by linarith
  ultimately show ?thesis using unat_unit by metis
qed

lemma ascii_name_lit:
  "list_all (\<lambda>ch. (of_char ch :: nat) < 128) s \<Longrightarrow> ascii_name (lit s) = Some s"
  by (auto simp: ascii_name_def lit_def list_all_iff word_less_nat_alt unat_of_char comp_def map_idI)

lemma parse_sv_echo_json:
  "json_parse (sv_echo_json sv) = Some (JObj [(''type'', JStr SV_ECHO_TYPE), (''schema'', nat_value 1), (''sv'', JStr sv)])"
proof -
  let ?sv = "json_string sv @ [125]"
  let ?schema = "json_string (lit ''schema'') @ 58 # 49 # 44 # json_string (lit ''sv'') @ 58 # ?sv"
  let ?type = "json_string (lit ''type'') @ 58 # json_string SV_ECHO_TYPE @ 44 # ?schema"
  have msg: "sv_echo_json sv = 123 # ?type"
    by (simp add: sv_echo_json_def json_object_def)
  have "json_members (Suc (Suc n)) ps (json_string (lit ''sv'') @ 58 # ?sv) =
      Some (JObj (add_prop (lit ''sv'') (JStr sv) ps), [])" for n ps
    by (subst json_members_Cons [where x = "JStr sv" and c = 125 and r = "[]"])
      (simp_all add: json_string_def json_value_string del: json_value.simps)
  then have "json_members (Suc (Suc (Suc n))) ps ?schema =
      Some (JObj (add_prop (lit ''sv'') (JStr sv) (add_prop (lit ''schema'') (nat_value 1) ps)), [])" for n ps
    by (subst json_members_Cons [where x = "nat_value 1" and c = 44
          and r = "json_string (lit ''sv'') @ 58 # ?sv"])
      (simp_all add: json_value_one del: json_value.simps json_members.simps lit_simps)
  then have "json_members (Suc (Suc (Suc (Suc n)))) [] ?type =
      Some (JObj (add_prop (lit ''sv'') (JStr sv) (add_prop (lit ''schema'') (nat_value 1)
        (add_prop (lit ''type'') (JStr SV_ECHO_TYPE) []))), [])" for n
    by (subst json_members_Cons [where x = "JStr SV_ECHO_TYPE" and c = 44 and r = ?schema])
      (simp_all add: json_string_def json_value_string del: json_value.simps json_members.simps lit_simps)
  moreover obtain n where "length (sv_echo_json sv) = Suc (Suc (Suc (Suc n)))"
    by (simp add: msg json_string_def)
  moreover have "\<exists>t. ?type = 34 # t" by (simp add: json_string_def)
  ultimately have "json_value (length (sv_echo_json sv) + 1) (sv_echo_json sv) =
      Some (JObj (add_prop (lit ''sv'') (JStr sv) (add_prop (lit ''schema'') (nat_value 1)
        (add_prop (lit ''type'') (JStr SV_ECHO_TYPE) []))), [])"
    by (auto simp: msg skip_ws_Cons json_ws_def simp del: json_members.simps lit_simps)
  moreover have "ascii_name (lit ''type'') = Some ''type''" "ascii_name (lit ''schema'') = Some ''schema''"
    "ascii_name (lit ''sv'') = Some ''sv''"
    by (rule ascii_name_lit, simp)+
  ultimately show ?thesis
    by (simp add: json_parse_def skip_ws_def del: lit_simps json_value.simps)
qed

end
