(* ===== verification/SvEchoProps.thy ===== *)
theory SvEchoProps
  imports SvEcho
begin

text \<open>
  Properties of the receipts: what the server sends the client accepts, the size limit in
  bytes of state vector, the counters, dominance as pointwise comparison, and the
  classification of the frames that carry updates.
\<close>

section \<open>Sizes\<close>

lemma length_b64: "length (b64_encode xs) = 4 * ((length xs + 2) div 3)"
proof (induction xs rule: b64_encode.induct)
  case (4 a b k r)
  have "(5 + length r) div 3 = Suc ((length r + 2) div 3)" by presburger
  with 4 show ?case by simp
qed simp_all

lemma length_encodeBytesBase64: "length (encodeBytesBase64 bs) = 4 * ((length bs + 2) div 3)"
  by (simp add: encodeBytesBase64_eq length_b64)

lemma oversize_vector: "MAX_SV_ECHO_BASE64_BYTES < length (encodeBytesBase64 sv) \<longleftrightarrow> 49152 < length sv"
  by (simp add: MAX_SV_ECHO_BASE64_BYTES_def length_encodeBytesBase64) presburger

lemma parse_sv_echo:
  "parseSvEchoMessageDetailed decodeSv (sv_echo_json (encodeBytesBase64 sv)) =
     (let bs = utf8_length (sv_echo_json (encodeBytesBase64 sv)) in
      if 49152 < length sv then InvalidSvEcho OversizeSv bs
      else if decodeSv sv = None then InvalidSvEcho InvalidStateVector bs
      else ValidSvEcho sv bs)"
  by (simp add: parseSvEchoMessageDetailed_def parse_sv_echo_json Let_def SV_ECHO_SCHEMA_def
      base64_roundtrip oversize_vector del: One_nat_def)

text \<open>The frame is ASCII: its length in bytes is its length in characters.\<close>

lemma json_chars_names:
  "json_chars SV_ECHO_TYPE = SV_ECHO_TYPE" "json_chars (lit ''type'') = lit ''type''"
  "json_chars (lit ''schema'') = lit ''schema''" "json_chars (lit ''sv'') = lit ''sv''"
  by (rule json_chars_plain, force simp: SV_ECHO_TYPE_def)+

lemma sv_echo_json_text:
  assumes "json_chars b = b"
  shows "sv_echo_json b = (123 # 34 # lit ''type'' @ [34, 58, 34]) @ SV_ECHO_TYPE @ [34, 44] @
     (34 # lit ''schema'' @ [34, 58]) @ lit ''1'' @ [44] @ (34 # lit ''sv'' @ [34, 58, 34]) @ b @ [34, 125]"
  unfolding sv_echo_json_def json_object_def json_string_def json_chars_names assms
  by (simp add: json_chars_names del: lit_simps)

lemma frame_length:
  "utf8_length (Y_PARTYSERVER_CUSTOM_PREFIX @ sv_echo_json (encodeBytesBase64 sv)) =
   48 + 4 * ((length sv + 2) div 3)"
proof -
  have chars: "json_chars (encodeBytesBase64 sv) = encodeBytesBase64 sv"
    by (rule json_chars_plain) (rule encodeBytesBase64_units)
  have "list_all (\<lambda>u. u < 0x80) (encodeBytesBase64 sv)"
    using encodeBytesBase64_units [of _ sv] by (simp add: list_all_iff)
  then show ?thesis
    unfolding sv_echo_json_text [OF chars]
    apply (subst utf8_length_ascii)
    subgoal by (simp add: Y_PARTYSERVER_CUSTOM_PREFIX_def SV_ECHO_TYPE_def)
    subgoal by (simp add: Y_PARTYSERVER_CUSTOM_PREFIX_def SV_ECHO_TYPE_def length_encodeBytesBase64)
    done
qed

lemma utf8_length_ascii_Cons: "u < 0x80 \<Longrightarrow> utf8_length (u # s) = Suc (utf8_length s)"
  by (cases s) simp_all

section \<open>Counters\<close>

definition counters_inv :: "nat \<Rightarrow> bytes list \<Rightarrow> sv_counters \<Rightarrow> bool" where
  "counters_inv n accepted c \<longleftrightarrow>
     sc_customMessageSeen c = n \<and> sc_svEchoSeen c \<le> n \<and>
     sc_svEchoSeen c = sc_accepted c + sc_rejected c \<and>
     sc_rejected c = sc_rejectedOversize c + sc_rejectedInvalid c \<and>
     sc_accepted c = length accepted"

lemma counters_inv_step:
  assumes "counters_inv n acc c"
    and "handleSvEchoCustomMessage decodeSv payload c = (r, c', new)"
  shows "counters_inv (Suc n) (acc @ new) c'"
  using assms
  by (cases "parseSvEchoMessageDetailed decodeSv payload")
    (auto simp: handleSvEchoCustomMessage_def recordSvEchoParseResult_def counters_inv_def Let_def)

text \<open>A client that handles a sequence of messages.\<close>

fun handle_all ::
  "(bytes \<Rightarrow> (nat \<times> nat) list option) \<Rightarrow> jsstr list \<Rightarrow> sv_counters \<times> bytes list \<Rightarrow> sv_counters \<times> bytes list" where
  "handle_all decodeSv [] st = st"
| "handle_all decodeSv (m # ms) (c, acc) =
     (case handleSvEchoCustomMessage decodeSv m c of
        (_, c', new) \<Rightarrow> handle_all decodeSv ms (c', acc @ new))"

lemma handle_all_inv:
  "counters_inv n acc c \<Longrightarrow> handle_all decodeSv ms (c, acc) = (c', acc') \<Longrightarrow>
   counters_inv (n + length ms) acc' c'"
proof (induction ms arbitrary: n acc c)
  case Nil
  then show ?case by simp
next
  case (Cons m ms)
  obtain r c1 new where h: "handleSvEchoCustomMessage decodeSv m c = (r, c1, new)"
    by (cases "handleSvEchoCustomMessage decodeSv m c") auto
  from Cons.IH [OF counters_inv_step [OF Cons.prems(1) h]] Cons.prems(2) h show ?case by simp
qed

lemma handle_all_accepted:
  "\<forall>sv\<in>set acc. decodeSv sv \<noteq> None \<Longrightarrow> handle_all decodeSv ms (c, acc) = (c', acc') \<Longrightarrow>
   \<forall>sv\<in>set acc'. decodeSv sv \<noteq> None"
proof (induction ms arbitrary: acc c)
  case Nil
  then show ?case by simp
next
  case (Cons m ms)
  obtain r c1 new where h: "handleSvEchoCustomMessage decodeSv m c = (r, c1, new)"
    by (cases "handleSvEchoCustomMessage decodeSv m c") auto
  then have "\<forall>sv\<in>set new. decodeSv sv \<noteq> None"
    by (auto simp: handleSvEchoCustomMessage_def parseSvEchoMessageDetailed_def Let_def
        split: option.splits if_splits)
  with Cons.IH [of "acc @ new" c1] Cons.prems h show ?case by auto
qed

section \<open>Properties\<close>

text \<open>
  C20. What the server sends is what the client accepts: \<open>trySendSvEchoStateVector\<close> sends one frame exactly
  when the connection is open (or has no ready state), the state vector has at most 49152 bytes (65536 in
  base64) and the connection's \<open>send\<close> does not throw; each other case is reported as its own failure. The
  bytes reported are 0 on a connection that is not open and otherwise the UTF-8 length of the frame, 48
  bytes around the base64 text, whether it was sent, is oversize or failed to go out. The payload of a
  frame that was sent is parsed by the client to the same state vector (an error only if the decoder
  rejects the vector).
\<close>

theorem sv_echo_delivery:
  "case trySendSvEchoStateVector conn sv kind of (r, sent) \<Rightarrow>
     ssr_kind r = kind \<and>
     ssr_failure r =
       (if cn_readyState conn \<notin> {None, Some 1} then Some NotOpen
        else if 49152 < length sv then Some Oversize
        else if cn_sendThrows conn then Some SendFailed else None) \<and>
     ssr_bytes r =
       (if ssr_failure r = Some NotOpen then 0 else 48 + 4 * ((length sv + 2) div 3)) \<and>
     (sent = None \<longleftrightarrow> ssr_failure r \<noteq> None) \<and>
     (case sent of None \<Rightarrow> True
      | Some m \<Rightarrow> \<exists>payload. m = Y_PARTYSERVER_CUSTOM_PREFIX @ payload \<and>
          ssr_bytes r = utf8_length m \<and>
          parseSvEchoMessageDetailed decodeSv payload =
            (if decodeSv sv = None then InvalidSvEcho InvalidStateVector (utf8_length payload)
             else ValidSvEcho sv (utf8_length payload)))"
proof (cases "cn_readyState conn \<in> {None, Some 1}")
  case True
  then show ?thesis
    by (auto simp: trySendSvEchoStateVector_def framedByteLength_def Let_def oversize_vector parse_sv_echo
        frame_length)
next
  case False
  then show ?thesis
    by (auto simp: trySendSvEchoStateVector_def Let_def split: option.split)
qed

theorem sv_echo_delivery_witness:
  "case trySendSvEchoStateVector \<lparr>cn_readyState = Some 1, cn_sendThrows = False\<rparr> [1, 5, 9] PostApply of
     (r, sent) \<Rightarrow> ssr_failure r = None \<and> ssr_bytes r = 52 \<and>
       (\<exists>payload. sent = Some (Y_PARTYSERVER_CUSTOM_PREFIX @ payload) \<and> utf8_length payload = 46 \<and>
          parseSvEchoMessageDetailed (\<lambda>_. Some []) payload = ValidSvEcho [1, 5, 9] 46)"
proof -
  have "utf8_length (Y_PARTYSERVER_CUSTOM_PREFIX @ p) = 6 + utf8_length p" for p
    by (simp add: Y_PARTYSERVER_CUSTOM_PREFIX_def utf8_length_ascii_Cons del: utf8_length.simps)
  with sv_echo_delivery [where conn = "\<lparr>cn_readyState = Some 1, cn_sendThrows = False\<rparr>"
      and sv = "[1, 5, 9]" and kind = PostApply and decodeSv = "\<lambda>_. Some []"]
  show ?thesis by (auto split: option.splits)
qed

text \<open>
  The client's counters add up over any sequence of messages whatever they contain: every
  message is counted as seen, every receipt as accepted or rejected, every rejection as
  oversize or invalid, and exactly the accepted state vectors, each decodable, reach the
  callback.
\<close>

theorem sv_counters_consistent:
  "case handle_all decodeSv ms (createSvEchoCounters, []) of (c, accepted) \<Rightarrow>
     counters_inv (length ms) accepted c \<and> list_all (\<lambda>sv. decodeSv sv \<noteq> None) accepted"
proof -
  obtain c acc where run: "handle_all decodeSv ms (createSvEchoCounters, []) = (c, acc)"
    by fastforce
  have "counters_inv 0 [] createSvEchoCounters"
    by (simp add: counters_inv_def createSvEchoCounters_def)
  from handle_all_inv [OF this run] handle_all_accepted [OF _ run] show ?thesis
    by (simp add: run list_all_iff)
qed

text \<open>
  C21. \<open>isStateVectorGe\<close> is pointwise dominance and fails closed: it holds exactly when both
  arguments decode and every client's clock in the second is at most its clock in the first, a
  client that is missing counting as clock zero.
\<close>

theorem isStateVectorGe_pointwise:
  assumes "\<forall>x m. decodeSv x = Some m \<longrightarrow> distinct (List.map fst m)"
  shows "isStateVectorGe decodeSv a b \<longleftrightarrow>
    (\<exists>svA svB. decodeSv a = Some svA \<and> decodeSv b = Some svB \<and> (\<forall>k. clock_of svB k \<le> clock_of svA k))"
proof -
  have "list_all (\<lambda>(clientId, clk). \<not> clock_of svA clientId < clk) svB \<longleftrightarrow>
      (\<forall>k. clock_of svB k \<le> clock_of svA k)" if "distinct (List.map fst svB)" for svA svB
  proof
    assume l: "list_all (\<lambda>(clientId, clk). \<not> clock_of svA clientId < clk) svB"
    show "\<forall>k. clock_of svB k \<le> clock_of svA k"
    proof
      fix k
      show "clock_of svB k \<le> clock_of svA k"
        using l by (cases "map_of svB k") (auto simp: clock_of_def list_all_iff dest!: map_of_SomeD)
    qed
  next
    assume "\<forall>k. clock_of svB k \<le> clock_of svA k"
    then show "list_all (\<lambda>(clientId, clk). \<not> clock_of svA clientId < clk) svB"
      using map_of_is_SomeI [OF that]
      by (auto simp: list_all_iff clock_of_def not_less) (metis option.simps(5))
  qed
  with assms show ?thesis
    by (auto simp: isStateVectorGe_def split: option.splits)
qed

theorem isStateVectorGe_pointwise_witness:
  "isStateVectorGe (\<lambda>x. if x = [] then None else Some [(1, length x)]) [0, 0] [0]"
  by (subst isStateVectorGe_pointwise) (simp_all add: clock_of_def)

text \<open>
  The frame \<open>encodeSyncUpdateFrame\<close> writes is recognised as carrying an update, in each binary
  form a message can have, by \<open>isUpdateBearingSyncMessage\<close>; a frame of another outer type or a
  first sync step is not.
\<close>

theorem update_frame_recognised:
  assumes "\<forall>n r. readVarUint (writeVarUint n @ r) = Some (n, r)"
    and "\<forall>u. writeUpdate u = writeVarUint 2 @ body u"
  shows "isUpdateBearingSyncMessage readVarUint (JUint8 (encodeSyncUpdateFrame writeVarUint writeUpdate u)) \<and>
    isUpdateBearingSyncMessage readVarUint (JBuffer (encodeSyncUpdateFrame writeVarUint writeUpdate u)) \<and>
    isUpdateBearingSyncMessage readVarUint
      (JView (pre @ encodeSyncUpdateFrame writeVarUint writeUpdate u @ post) (length pre)
         (length (encodeSyncUpdateFrame writeVarUint writeUpdate u))) \<and>
    (isUpdateBearingSyncMessage readVarUint (JUint8 (writeVarUint outer @ writeVarUint inner @ rest))
       \<longleftrightarrow> outer = 0 \<and> inner \<in> {1, 2})"
  using assms by (auto simp: isUpdateBearingSyncMessage_def asUint8Array_def encodeSyncUpdateFrame_def)

definition unary_read :: "bytes \<Rightarrow> (nat \<times> bytes) option" where
  "unary_read bs = (case dropWhile (\<lambda>b. b = 1) bs of
     [] \<Rightarrow> None | _ # r \<Rightarrow> Some (length (takeWhile (\<lambda>b. b = 1) bs), r))"

lemma unary_read_write: "\<forall>n r. unary_read ((replicate n 1 @ [0]) @ r) = Some (n, r)"
proof (intro allI)
  fix n r
  have "takeWhile (\<lambda>b. b = 1) (replicate n (1 :: byte) @ 0 # r) = replicate n 1"
    "dropWhile (\<lambda>b. b = 1) (replicate n (1 :: byte) @ 0 # r) = 0 # r"
    by (induction n) simp_all
  then show "unary_read ((replicate n 1 @ [0]) @ r) = Some (n, r)" by (simp add: unary_read_def)
qed

theorem update_frame_recognised_witness:
  "isUpdateBearingSyncMessage unary_read (JUint8 (encodeSyncUpdateFrame (\<lambda>n. replicate n 1 @ [0])
     (\<lambda>u. (replicate 2 1 @ [0]) @ u) [7]))"
  using update_frame_recognised [where readVarUint = unary_read and writeVarUint = "\<lambda>n. replicate n 1 @ [0]"
      and writeUpdate = "\<lambda>u. (replicate 2 1 @ [0]) @ u" and body = "\<lambda>u. u" and u = "[7]", OF unary_read_write]
  by blast

end
