(* ===== verification/SourcePaths.thy ===== *)
theory SourcePaths
  imports JsText
begin

text \<open>
  The source boundary's descriptors, path policy and scan fingerprint, from the first half of
  \<open>packages/yaos-core/src/sourceBoundary.ts\<close>. Unicode normalisation is the argument \<open>nfc\<close>,
  and the decimal text of a number (\<open>mtimeMs\<close> can be fractional) the argument \<open>num_text\<close>.
\<close>

section \<open>Strings\<close>

fun split_on :: "'a \<Rightarrow> 'a list \<Rightarrow> 'a list list" where
  "split_on c [] = [[]]"
| "split_on c (x # xs) =
     (if x = c then [] # split_on c xs
      else case split_on c xs of p # ps \<Rightarrow> (x # p) # ps | [] \<Rightarrow> [[x]])"

fun join_with :: "'a \<Rightarrow> 'a list list \<Rightarrow> 'a list" where
  "join_with c [] = []"
| "join_with c [p] = p"
| "join_with c (p # ps) = p @ c # join_with c ps"

definition starts_with :: "'a list \<Rightarrow> 'a list \<Rightarrow> bool" where
  "starts_with p s = (take (length p) s = p)"

definition js_space :: "code_unit \<Rightarrow> bool" where
  "js_space u = (9 \<le> u \<and> u \<le> 13 \<or> u = 32 \<or> u = 160 \<or> u = 0x1680 \<or> 0x2000 \<le> u \<and> u \<le> 0x200A \<or>
     u = 0x2028 \<or> u = 0x2029 \<or> u = 0x202F \<or> u = 0x205F \<or> u = 0x3000 \<or> u = 0xFEFF)"

text \<open>\<open>s.trim().length === 0\<close>.\<close>

definition blank :: "jsstr \<Rightarrow> bool" where
  "blank s = list_all js_space s"

section \<open>Errors\<close>

datatype scan_code = InvalidPath | PathCollision | ScanLimit | ReadFailed

datatype folder_code = RootInvalid | PathInvalid | PathOutsideRoot | PermissionDenied | FolderReadFailed
  | WriteFailed | StateInvalid | CredentialScopeMismatch

text \<open>\<open>SourceScanError\<close>, \<open>FolderSourceError\<close>, \<open>TypeError\<close>, \<open>RangeError\<close>, the core's \<open>source_not_running\<close> with the
  status, the failures of a reconciliation, and whatever else a port throws.\<close>

datatype source_error =
    ScanError scan_code string "jsstr option"
  | FolderError folder_code string "jsstr option"
  | TypeError string
  | RangeError string
  | NotRunning jsstr
  | SyncError string "jsstr option"
  | PortError string

section \<open>Source descriptors\<close>

datatype source_kind = Folder | Obsidian
datatype source_capability = Markdown | Attachments | EditorIntegration | Watch

record source_descriptor =
  sd_sourceKind :: source_kind
  sd_label :: jsstr
  sd_capabilities :: "source_capability list"
  sd_clientVersion :: js_value
  sd_syncSchemaVersion :: nat
  sd_provenance :: js_value

text \<open>The input is an unchecked value when it comes from storage, so every field is one here.\<close>

record descriptor_input =
  di_sourceKind :: js_value
  di_label :: js_value
  di_capabilities :: js_value
  di_clientVersion :: js_value
  di_syncSchemaVersion :: js_value
  di_provenance :: js_value

definition capability_of :: "js_value \<Rightarrow> source_capability option" where
  "capability_of v =
     (if v = JStr (lit ''markdown'') then Some Markdown
      else if v = JStr (lit ''attachments'') then Some Attachments
      else if v = JStr (lit ''editor-integration'') then Some EditorIntegration
      else if v = JStr (lit ''watch'') then Some Watch
      else None)"

text \<open>The elements \<open>new Set\<close> finds in a value it can iterate, before it drops the repetitions.\<close>

definition set_elements :: "js_value \<Rightarrow> js_value list option" where
  "set_elements v = (case v of
     JUndefined \<Rightarrow> Some [JStr (lit ''markdown'')]
   | JNull \<Rightarrow> Some [JStr (lit ''markdown'')]
   | JArr vs \<Rightarrow> Some vs
   | JStr s \<Rightarrow> Some (List.map (\<lambda>u. JStr [u]) s)
   | JUint8 bs \<Rightarrow> Some (List.map (\<lambda>b. nat_value (unat b)) bs)
   | _ \<Rightarrow> None)"

definition dedupe :: "'a list \<Rightarrow> 'a list" where
  "dedupe xs = rev (remdups (rev xs))"

definition nullish :: "js_value \<Rightarrow> bool" where
  "nullish v = (v = JUndefined \<or> v = JNull)"

definition or_default :: "js_value \<Rightarrow> js_value \<Rightarrow> js_value" where
  "or_default v d = (if nullish v then d else v)"

definition createSourceDescriptor :: "descriptor_input \<Rightarrow> source_error + source_descriptor" where
  "createSourceDescriptor input =
     (if di_sourceKind input \<noteq> JUndefined \<and> di_sourceKind input \<noteq> JStr (lit ''folder'') \<and>
         di_sourceKind input \<noteq> JStr (lit ''obsidian'')
      then Inl (TypeError ''source_kind_invalid'')
      else if \<not> is_string_value (di_label input)
      then Inl (TypeError ''label.trim is not a function'')
      else if blank (string_of_value (di_label input)) \<or> 0 \<in> set (string_of_value (di_label input))
      then Inl (TypeError ''source_label_invalid'')
      else if \<not> (case di_syncSchemaVersion input of JNum n \<Rightarrow> is_safe_integer_num n \<and> 1 \<le> int_of_num n
                 | _ \<Rightarrow> False)
      then Inl (TypeError ''sync_schema_version_invalid'')
      else if \<not> (case js_prop (di_provenance input) ''pairedAt'' of
                   JNum n \<Rightarrow> is_finite_num n \<and> \<not> num_less n (Fin 0) | _ \<Rightarrow> False)
      then Inl (TypeError ''source_provenance_invalid'')
      else (case set_elements (di_capabilities input) of
          None \<Rightarrow> Inl (TypeError ''capabilities is not iterable'')
        | Some vs \<Rightarrow>
            (let capabilities = List.map capability_of (dedupe vs) in
             if None \<in> set capabilities then Inl (TypeError ''source_capability_invalid'')
             else Inr \<lparr>
               sd_sourceKind = (if di_sourceKind input = JStr (lit ''folder'') then Folder else Obsidian),
               sd_label = string_of_value (di_label input),
               sd_capabilities = List.map the capabilities,
               sd_clientVersion = di_clientVersion input,
               sd_syncSchemaVersion = nat (int_of_value (di_syncSchemaVersion input)),
               sd_provenance = di_provenance input\<rparr>)))"

definition normalizeSourceDescriptor :: "js_value \<Rightarrow> source_error + source_descriptor" where
  "normalizeSourceDescriptor v = createSourceDescriptor \<lparr>
     di_sourceKind = or_default (js_prop v ''sourceKind'') (JStr (lit ''obsidian'')),
     di_label = or_default (js_prop v ''label'') (JStr (lit ''Obsidian vault'')),
     di_capabilities = or_default (js_prop v ''capabilities'')
       (JArr [JStr (lit ''markdown''), JStr (lit ''attachments''), JStr (lit ''editor-integration''),
              JStr (lit ''watch'')]),
     di_clientVersion = or_default (js_prop v ''clientVersion'') (JStr (lit ''legacy'')),
     di_syncSchemaVersion = or_default (js_prop v ''syncSchemaVersion'') (nat_value 1),
     di_provenance = or_default (js_prop v ''provenance'') (JObj [(''pairedAt'', nat_value 0)])\<rparr>"

section \<open>Paths\<close>

datatype entry_kind = KFile | KDirectory | KSymlink

record workspace_entry =
  we_path :: jsstr
  we_kind :: entry_kind
  we_size :: "nat option"
  we_mtimeMs :: "js_num option"

definition EXCLUDED_DIRECTORIES :: "jsstr list" where
  "EXCLUDED_DIRECTORIES = List.map lit
     [''.git'', ''.obsidian'', ''.owd'', ''node_modules'', ''dist'', ''build'', ''coverage'']"

text \<open>Simple case folding, as far as a letter of the patterns can be its result.\<close>

definition fold_unit :: "code_unit \<Rightarrow> code_unit" where
  "fold_unit u = (if 65 \<le> u \<and> u \<le> 90 then u + 32 else if u = 0x17F then 115
     else if u = 0x212A then 107 else u)"

definition folded_prefix :: "string \<Rightarrow> jsstr \<Rightarrow> bool" where
  "folded_prefix w s = starts_with (lit w) (List.map fold_unit s)"

definition line_terminator :: "code_unit \<Rightarrow> bool" where
  "line_terminator u = (u = 10 \<or> u = 13 \<or> u = 0x2028 \<or> u = 0x2029)"

definition secret_words :: "string list" where
  "secret_words = [''secret'', ''credential'', ''token'', ''privatekey'', ''private-key'', ''private_key'']"

text \<open>The two alternatives of the pattern, from a position at the start or after a slash to the
  end of the path; \<open>.\<close> does not match a line terminator.\<close>

definition env_shaped :: "jsstr \<Rightarrow> bool" where
  "env_shaped s = (folded_prefix ''.env'' s \<and>
     (length s = 4 \<or> s ! 4 = 46 \<and> \<not> list_ex line_terminator (drop 5 s)))"

definition word_shaped :: "jsstr \<Rightarrow> bool" where
  "word_shaped s = (\<not> list_ex line_terminator s \<and>
     list_ex (\<lambda>i. list_ex (\<lambda>w. folded_prefix w (drop i s)) secret_words) [0..<length s])"

definition after_slashes :: "jsstr \<Rightarrow> jsstr list" where
  "after_slashes s = s # List.map (\<lambda>i. drop (Suc i) s) (filter (\<lambda>i. s ! i = 47) [0..<length s])"

definition isSecretShaped :: "jsstr \<Rightarrow> bool" where
  "isSecretShaped path = list_ex (\<lambda>s. env_shaped s \<or> word_shaped s) (after_slashes path)"

text \<open>The pattern of a drive prefix, \<open>/^[A-Za-z]:[\\/]/u\<close>.\<close>

definition drive_shaped :: "jsstr \<Rightarrow> bool" where
  "drive_shaped s = (case s of
     a # b # c # _ \<Rightarrow> (65 \<le> a \<and> a \<le> 90 \<or> 97 \<le> a \<and> a \<le> 122) \<and> b = 58 \<and> (c = 92 \<or> c = 47)
   | _ \<Rightarrow> False)"

definition validateRelativePath :: "(jsstr \<Rightarrow> jsstr) \<Rightarrow> jsstr \<Rightarrow> source_error + jsstr" where
  "validateRelativePath nfc path =
     (if path = [] \<or> 0 \<in> set path
      then Inl (ScanError InvalidPath ''path must be a non-empty relative path'' (Some path))
      else if path \<noteq> nfc path
      then Inl (ScanError InvalidPath ''path must use NFC Unicode'' (Some path))
      else if hd path = 47 \<or> drive_shaped path \<or> 92 \<in> set path
      then Inl (ScanError InvalidPath ''path must use portable relative separators'' (Some path))
      else if list_ex (\<lambda>part. part = [] \<or> part = lit ''.'' \<or> part = lit ''..'') (split_on 47 path)
      then Inl (ScanError InvalidPath ''path contains an invalid segment'' (Some path))
      else Inr path)"

definition path_depth :: "jsstr \<Rightarrow> nat" where
  "path_depth path = length (split_on 47 path)"

definition dotted :: "jsstr \<Rightarrow> bool" where
  "dotted part = starts_with (lit ''.'') part"

definition md_leaf :: "jsstr \<Rightarrow> bool" where
  "md_leaf leaf = (3 \<le> length leaf \<and> List.map fold_unit (drop (length leaf - 3) leaf) = lit ''.md'')"

definition shouldExclude :: "jsstr \<Rightarrow> entry_kind \<Rightarrow> bool" where
  "shouldExclude path kind =
     (let parts = split_on 47 path; leaf = last parts in
      if list_ex (\<lambda>part. dotted part \<or> part \<in> set EXCLUDED_DIRECTORIES) (butlast parts) then True
      else if kind = KDirectory then leaf \<in> set EXCLUDED_DIRECTORIES \<or> dotted leaf
      else dotted leaf \<or> isSecretShaped path \<or> \<not> md_leaf leaf)"

definition validateMarkdownPath :: "(jsstr \<Rightarrow> jsstr) \<Rightarrow> jsstr \<Rightarrow> source_error + jsstr" where
  "validateMarkdownPath nfc path =
     (case validateRelativePath nfc path of
        Inl e \<Rightarrow> Inl e
      | Inr validated \<Rightarrow>
          if shouldExclude validated KFile
          then Inl (ScanError InvalidPath ''path is outside the Markdown source boundary'' (Some validated))
          else Inr validated)"

section \<open>The fingerprint of a scan\<close>

record markdown_file =
  mf_path :: jsstr
  mf_size :: nat
  mf_mtimeMs :: "js_num option"
  mf_contents :: bytes

text \<open>FNV-1a over 32 bits: \<open>hash ^= v; hash = Math.imul (hash, 16777619)\<close>.\<close>

definition fnv_step :: "32 word \<Rightarrow> 32 word \<Rightarrow> 32 word" where
  "fnv_step hash v = xor hash v * 16777619"

definition fingerprint_text :: "(js_num \<Rightarrow> jsstr) \<Rightarrow> markdown_file \<Rightarrow> jsstr" where
  "fingerprint_text num_text f =
     mf_path f @ [0] @ lit (decimal (mf_size f)) @ [0] @
     (case mf_mtimeMs f of Some m \<Rightarrow> num_text m | None \<Rightarrow> [])"

definition hex8 :: "32 word \<Rightarrow> jsstr" where
  "hex8 w = List.map (\<lambda>i. hex_digit (unat w div 16 ^ i mod 16)) [7, 6, 5, 4, 3, 2, 1, 0]"

definition scanFingerprint :: "(js_num \<Rightarrow> jsstr) \<Rightarrow> markdown_file list \<Rightarrow> jsstr" where
  "scanFingerprint num_text files =
     hex8 (foldl (\<lambda>hash f.
       foldl (\<lambda>hash b. fnv_step hash (ucast b))
         (foldl (\<lambda>hash u. fnv_step hash (ucast u)) hash (fingerprint_text num_text f))
         (mf_contents f))
       2166136261 files)"

section \<open>Lemmas\<close>

lemma split_on_nonempty [simp]: "split_on c xs \<noteq> []"
  by (induction xs) (auto split: list.split)

lemma join_split_on: "join_with c (split_on c xs) = xs"
proof (induction xs)
  case Nil
  then show ?case by simp
next
  case (Cons x xs)
  then show ?case
    by (cases "split_on c xs" rule: list.exhaust; cases "tl (split_on c xs)") auto
qed

lemma split_on_parts: "p \<in> set (split_on c xs) \<Longrightarrow> c \<notin> set p \<and> set p \<subseteq> set xs"
proof (induction xs arbitrary: p)
  case Nil
  then show ?case by simp
next
  case (Cons x xs)
  obtain q qs where split: "split_on c xs = q # qs" by (cases "split_on c xs") auto
  with Cons show ?case by (force split: if_splits)
qed

lemma length_split_on: "length (split_on c xs) = Suc (length (filter (\<lambda>x. x = c) xs))"
  by (induction xs) (auto split: list.split)

text \<open>What a validated path is: segments that name files, joined by slashes.\<close>

definition portable_path :: "jsstr \<Rightarrow> bool" where
  "portable_path path \<longleftrightarrow> path \<noteq> [] \<and> 0 \<notin> set path \<and> 92 \<notin> set path \<and>
     list_all (\<lambda>part. part \<noteq> [] \<and> part \<noteq> lit ''.'' \<and> part \<noteq> lit ''..'' \<and> 47 \<notin> set part) (split_on 47 path)"

lemma validateRelativePath_Inr:
  "validateRelativePath nfc path = Inr p \<Longrightarrow> p = path \<and> portable_path path \<and> nfc path = path"
  using split_on_parts [of _ 47 path]
  by (auto simp: validateRelativePath_def portable_path_def list_all_iff list_ex_iff split: if_splits)

lemma validateMarkdownPath_Inr:
  "validateMarkdownPath nfc path = Inr p \<longleftrightarrow>
   validateRelativePath nfc path = Inr p \<and> p = path \<and> \<not> shouldExclude path KFile"
  by (auto simp: validateMarkdownPath_def dest: validateRelativePath_Inr split: sum.splits if_splits)

end
