(* ===== verification/SourceScan.thy ===== *)
theory SourceScan
  imports SourcePaths
begin

text \<open>
  Listing and scanning a source, \<open>listMarkdown\<close> and \<open>scanMarkdown\<close> of
  \<open>packages/yaos-core/src/sourceBoundary.ts\<close>. The workspace adapter is the record
  \<open>workspace_port\<close>; Unicode tables are the record \<open>text_env\<close> (normalisation, lower-casing and
  the collation order). The workers of a scan are interleaved by a schedule: entry \<open>k\<close> of it
  picks the read in flight that completes next.
\<close>

section \<open>Ports and options\<close>

record ('s, 'e) workspace_port =
  wp_list :: "jsstr \<Rightarrow> ('s, 'e, workspace_entry list) act"
  wp_stat :: "jsstr \<Rightarrow> ('s, 'e, workspace_entry option) act"
  wp_read :: "jsstr \<Rightarrow> ('s, 'e, bytes) act"
  wp_write :: "jsstr \<Rightarrow> bytes \<Rightarrow> ('s, 'e, unit) act"

record text_env =
  te_nfc :: "jsstr \<Rightarrow> jsstr"
  te_lower :: "jsstr \<Rightarrow> jsstr"
  te_le :: "jsstr \<Rightarrow> jsstr \<Rightarrow> bool"
  te_num :: "js_num \<Rightarrow> jsstr"

record scan_options =
  so_maxEntries :: nat
  so_maxFiles :: nat
  so_maxBytes :: nat
  so_maxFileBytes :: nat
  so_maxDepth :: nat
  so_concurrency :: nat

text \<open>Supplied options, each a number if present.\<close>

record supplied_options =
  sup_maxEntries :: "js_num option"
  sup_maxFiles :: "js_num option"
  sup_maxBytes :: "js_num option"
  sup_maxFileBytes :: "js_num option"
  sup_maxDepth :: "js_num option"
  sup_concurrency :: "js_num option"

definition DEFAULT_SCAN_OPTIONS :: scan_options where
  "DEFAULT_SCAN_OPTIONS = \<lparr>so_maxEntries = 10000, so_maxFiles = 2000, so_maxBytes = 20 * 1024 * 1024,
     so_maxFileBytes = 2 * 1024 * 1024, so_maxDepth = 32, so_concurrency = 8\<rparr>"

definition ceiling_value :: "js_num option \<Rightarrow> nat \<Rightarrow> nat option" where
  "ceiling_value v d = (case v of
     None \<Rightarrow> Some d
   | Some n \<Rightarrow> if is_safe_integer_num n \<and> 1 \<le> int_of_num n then Some (nat (int_of_num n)) else None)"

definition boundedOptions :: "supplied_options \<Rightarrow> source_error + scan_options" where
  "boundedOptions s =
     (case (ceiling_value (sup_maxEntries s) (so_maxEntries DEFAULT_SCAN_OPTIONS),
            ceiling_value (sup_maxFiles s) (so_maxFiles DEFAULT_SCAN_OPTIONS),
            ceiling_value (sup_maxBytes s) (so_maxBytes DEFAULT_SCAN_OPTIONS),
            ceiling_value (sup_maxFileBytes s) (so_maxFileBytes DEFAULT_SCAN_OPTIONS),
            ceiling_value (sup_maxDepth s) (so_maxDepth DEFAULT_SCAN_OPTIONS),
            ceiling_value (sup_concurrency s) (so_concurrency DEFAULT_SCAN_OPTIONS)) of
        (Some me, Some mf, Some mb, Some mfb, Some md, Some co) \<Rightarrow>
          Inr \<lparr>so_maxEntries = me, so_maxFiles = mf, so_maxBytes = mb, so_maxFileBytes = mfb,
               so_maxDepth = md, so_concurrency = co\<rparr>
      | _ \<Rightarrow> Inl (ScanError ScanLimit ''scan ceilings must be positive integers'' None))"

section \<open>Listing\<close>

record list_state =
  ls_directories :: "jsstr list"
  ls_entries :: "workspace_entry list"
  ls_seen :: "(jsstr \<times> jsstr) list"
  ls_count :: nat

definition listEntry ::
  "text_env \<Rightarrow> scan_options \<Rightarrow> workspace_entry \<Rightarrow> list_state \<Rightarrow> source_error + list_state" where
  "listEntry te opts e ls =
     (let count = ls_count ls + 1 in
      if so_maxEntries opts < count
      then Inl (ScanError ScanLimit ''workspace entry count exceeds the scan ceiling'' None)
      else case validateRelativePath (te_nfc te) (we_path e) of
        Inl err \<Rightarrow> Inl err
      | Inr path \<Rightarrow>
        (let canonical = te_lower te path; previous = map_of (ls_seen ls) canonical in
         if previous \<noteq> None \<and> previous \<noteq> Some path
         then Inl (ScanError PathCollision ''paths collide on portable filesystems'' (Some path))
         else if previous \<noteq> None
         then Inl (ScanError PathCollision ''duplicate path'' (Some path))
         else let ls1 = ls\<lparr>ls_count := count, ls_seen := AList.update canonical path (ls_seen ls)\<rparr> in
         if so_maxDepth opts < path_depth path
         then Inl (ScanError ScanLimit ''path exceeds the maximum depth'' (Some path))
         else if we_kind e = KSymlink
         then Inl (ScanError InvalidPath ''symlinks are not supported inside a selected source'' (Some path))
         else if we_kind e = KDirectory
         then Inr (if shouldExclude path KDirectory then ls1
                   else ls1\<lparr>ls_directories := ls_directories ls1 @ [path]\<rparr>)
         else Inr (if shouldExclude path KFile then ls1
                   else ls1\<lparr>ls_entries := ls_entries ls1 @ [e\<lparr>we_path := path\<rparr>]\<rparr>)))"

fun listEntries ::
  "text_env \<Rightarrow> scan_options \<Rightarrow> workspace_entry list \<Rightarrow> list_state \<Rightarrow> source_error + list_state" where
  "listEntries te opts [] ls = Inr ls"
| "listEntries te opts (e # es) ls =
     (case listEntry te opts e ls of Inl err \<Rightarrow> Inl err | Inr ls' \<Rightarrow> listEntries te opts es ls')"

text \<open>The loop over the queue of directories, by fuel: each pass takes a directory, and every
  directory was an entry that counted towards \<open>maxEntries\<close>.\<close>

fun listLoop ::
  "nat \<Rightarrow> text_env \<Rightarrow> ('s, source_error) workspace_port \<Rightarrow> scan_options \<Rightarrow> list_state \<Rightarrow>
   ('s, source_error, list_state) act" where
  "listLoop fuel te ws opts ls =
     (case ls_directories ls of
        [] \<Rightarrow> act_return ls
      | dir # rest \<Rightarrow>
          (case fuel of
             0 \<Rightarrow> act_diverge
           | Suc n \<Rightarrow>
               act_bind (wp_list ws dir) (\<lambda>listed.
               act_bind (act_of (listEntries te opts listed (ls\<lparr>ls_directories := rest\<rparr>))) (\<lambda>ls'.
               listLoop n te ws opts ls'))))"

declare listLoop.simps [simp del]

text \<open>A stable sort by the collation.\<close>

fun insert_by :: "('a \<Rightarrow> 'a \<Rightarrow> bool) \<Rightarrow> 'a \<Rightarrow> 'a list \<Rightarrow> 'a list" where
  "insert_by le x [] = [x]"
| "insert_by le x (y # ys) = (if le x y then x # y # ys else y # insert_by le x ys)"

definition sort_by :: "('a \<Rightarrow> 'a \<Rightarrow> bool) \<Rightarrow> 'a list \<Rightarrow> 'a list" where
  "sort_by le xs = foldr (insert_by le) xs []"

definition listWith ::
  "text_env \<Rightarrow> ('s, source_error) workspace_port \<Rightarrow> scan_options \<Rightarrow>
   ('s, source_error, workspace_entry list) act" where
  "listWith te ws opts =
     act_bind (listLoop (so_maxEntries opts + 1) te ws opts
        \<lparr>ls_directories = [[]], ls_entries = [], ls_seen = [], ls_count = 0\<rparr>) (\<lambda>ls.
     let entries = sort_by (\<lambda>a b. te_le te (we_path a) (we_path b)) (ls_entries ls) in
     if so_maxFiles opts < length entries
     then act_throw (ScanError ScanLimit ''Markdown file count exceeds the scan ceiling'' None)
     else act_return entries)"

definition listMarkdown ::
  "text_env \<Rightarrow> ('s, source_error) workspace_port \<Rightarrow> supplied_options \<Rightarrow>
   ('s, source_error, workspace_entry list) act" where
  "listMarkdown te ws supplied =
     act_bind (act_of (boundedOptions supplied)) (\<lambda>opts. listWith te ws opts)"

section \<open>Scanning\<close>

record scan_state =
  ss_next :: nat
  ss_inflight :: "nat list"
  ss_files :: "markdown_file option list"
  ss_total :: nat

text \<open>A worker takes the next index; it ends when there is none, and throws on an entry whose
  listed size is over the ceiling.\<close>

definition takeNext ::
  "scan_options \<Rightarrow> workspace_entry list \<Rightarrow> scan_state \<Rightarrow> source_error + scan_state" where
  "takeNext opts entries ss =
     (let index = ss_next ss; ss1 = ss\<lparr>ss_next := index + 1\<rparr> in
      if length entries \<le> index then Inr ss1
      else let entry = entries ! index in
      if (case we_size entry of Some n \<Rightarrow> so_maxFileBytes opts < n | None \<Rightarrow> False)
      then Inl (ScanError ScanLimit ''file exceeds the size ceiling'' (Some (we_path entry)))
      else Inr (ss1\<lparr>ss_inflight := ss_inflight ss1 @ [index]\<rparr>))"

fun startWorkers ::
  "nat \<Rightarrow> scan_options \<Rightarrow> workspace_entry list \<Rightarrow> scan_state \<Rightarrow> source_error + scan_state" where
  "startWorkers 0 opts entries ss = Inr ss"
| "startWorkers (Suc n) opts entries ss =
     (case takeNext opts entries ss of Inl e \<Rightarrow> Inl e | Inr ss' \<Rightarrow> startWorkers n opts entries ss')"

definition completeRead ::
  "scan_options \<Rightarrow> workspace_entry list \<Rightarrow> nat \<Rightarrow> bytes \<Rightarrow> scan_state \<Rightarrow> source_error + scan_state" where
  "completeRead opts entries index contents ss =
     (let entry = entries ! index; total = ss_total ss + length contents in
      if so_maxFileBytes opts < length contents
      then Inl (ScanError ScanLimit ''file exceeds the size ceiling'' (Some (we_path entry)))
      else if so_maxBytes opts < total
      then Inl (ScanError ScanLimit ''Markdown bytes exceed the scan ceiling'' None)
      else takeNext opts entries (ss\<lparr>
        ss_total := total,
        ss_inflight := remove1 index (ss_inflight ss),
        ss_files := (ss_files ss)[index := Some \<lparr>mf_path = we_path entry, mf_size = length contents,
           mf_mtimeMs = we_mtimeMs entry, mf_contents = contents\<rparr>]\<rparr>))"

text \<open>The runs of the workers until no read is in flight; the first throw ends the scan. The
  fuel is the number of entries, each of which is read once.\<close>

fun scanLoop ::
  "nat \<Rightarrow> (nat \<Rightarrow> nat) \<Rightarrow> ('s, source_error) workspace_port \<Rightarrow> scan_options \<Rightarrow> workspace_entry list \<Rightarrow>
   scan_state \<Rightarrow> ('s, source_error, scan_state) act" where
  "scanLoop fuel sched ws opts entries ss =
     (if ss_inflight ss = [] then act_return ss
      else case fuel of
        0 \<Rightarrow> act_diverge
      | Suc n \<Rightarrow>
          (let index = ss_inflight ss ! (sched n mod length (ss_inflight ss)) in
           act_bind
             (act_catch (wp_read ws (we_path (entries ! index)))
               (\<lambda>_. act_throw (ScanError ReadFailed ''could not read Markdown file''
                       (Some (we_path (entries ! index))))))
             (\<lambda>contents.
           act_bind (act_of (completeRead opts entries index contents ss)) (\<lambda>ss'.
           scanLoop n sched ws opts entries ss'))))"

declare scanLoop.simps [simp del]

record scan_result =
  sr_files :: "markdown_file list"
  sr_totalBytes :: nat
  sr_scanId :: jsstr

definition scanEntries ::
  "text_env \<Rightarrow> (nat \<Rightarrow> nat) \<Rightarrow> ('s, source_error) workspace_port \<Rightarrow> scan_options \<Rightarrow> workspace_entry list \<Rightarrow>
   ('s, source_error, scan_result) act" where
  "scanEntries te sched ws opts entries =
     act_bind (act_of (startWorkers (min (so_concurrency opts) (max (length entries) 1)) opts entries
        \<lparr>ss_next = 0, ss_inflight = [], ss_files = replicate (length entries) None, ss_total = 0\<rparr>)) (\<lambda>ss0.
     act_bind (scanLoop (length entries) sched ws opts entries ss0) (\<lambda>ss.
     let ordered = List.map the (filter (\<lambda>f. f \<noteq> None) (ss_files ss)) in
     act_return \<lparr>sr_files = ordered, sr_totalBytes = ss_total ss,
       sr_scanId = scanFingerprint (te_num te) ordered\<rparr>))"

definition scanMarkdown ::
  "text_env \<Rightarrow> (nat \<Rightarrow> nat) \<Rightarrow> ('s, source_error) workspace_port \<Rightarrow> supplied_options \<Rightarrow>
   ('s, source_error, scan_result) act" where
  "scanMarkdown te sched ws supplied =
     act_bind (act_of (boundedOptions supplied)) (\<lambda>opts.
     act_bind (listWith te ws opts) (\<lambda>entries.
     scanEntries te sched ws opts entries))"

end
