(* ===== verification/SourceCore.thy ===== *)
theory SourceCore
  imports SourceScan
begin

text \<open>
  The lifecycle of a source, \<open>SourceNeutralSyncCore\<close> of \<open>packages/yaos-core/src/sourceBoundary.ts\<close>.
  The core's two mutable fields, \<open>status\<close> and \<open>state\<close>, are kept beside the world its ports act
  on; a port is an operation on the world, lifted by \<open>on_world\<close>. A method runs to its end before
  the next starts.
\<close>

section \<open>Ports\<close>

datatype credential_status = Active | Revoked

record credential_record =
  cr_sourceId :: jsstr
  cr_fingerprint :: jsstr
  cr_status :: credential_status
  cr_issuedAt :: js_num
  cr_expiresAt :: "js_num option"

record 'w custody_port =
  cp_get :: "('w, source_error, credential_record option) act"
  cp_confirmReplacement :: "credential_record \<Rightarrow> ('w, source_error, unit) act"
  cp_revoke :: "('w, source_error, unit) act"

record 'w local_state_port =
  lsp_read :: "jsstr \<Rightarrow> ('w, source_error, js_value) act"
  lsp_write :: "jsstr \<Rightarrow> js_value \<Rightarrow> ('w, source_error, unit) act"
  lsp_remove :: "jsstr \<Rightarrow> ('w, source_error, unit) act"

datatype core_status = Stopped | Running | Unpaired | RevokedStatus | Expired

datatype interaction_event = StatusEvent core_status

record persisted_core_state =
  pcs_descriptor :: source_descriptor
  pcs_status :: core_status
  pcs_revokedFingerprint :: "jsstr option"
  pcs_lastScanId :: "jsstr option"

record 'w core_options =
  co_descriptor :: "source_descriptor option"
  co_files :: "('w, source_error) workspace_port"
  co_state :: "'w local_state_port"
  co_credentials :: "'w custody_port"
  co_ui :: "(interaction_event \<Rightarrow> ('w, source_error, unit) act) option"
  co_now :: "('w, source_error, js_num) act"
  co_text :: text_env
  co_sched :: "nat \<Rightarrow> nat"

section \<open>Stored state\<close>

definition status_text :: "core_status \<Rightarrow> jsstr" where
  "status_text st = lit (case st of
     Stopped \<Rightarrow> ''stopped'' | Running \<Rightarrow> ''running'' | Unpaired \<Rightarrow> ''unpaired''
   | RevokedStatus \<Rightarrow> ''revoked'' | Expired \<Rightarrow> ''expired'')"

definition status_of :: "js_value \<Rightarrow> core_status option" where
  "status_of v = List.find (\<lambda>st. v = JStr (status_text st)) [Stopped, Running, Unpaired, RevokedStatus, Expired]"

definition optional_string :: "js_value \<Rightarrow> jsstr option" where
  "optional_string v = (case v of JStr s \<Rightarrow> Some s | _ \<Rightarrow> None)"

definition decodePersistedCoreState :: "js_value \<Rightarrow> persisted_core_state option" where
  "decodePersistedCoreState v =
     (if \<not> is_object_value v then None
      else case status_of (js_prop v ''status'') of
        None \<Rightarrow> None
      | Some st \<Rightarrow>
          (case normalizeSourceDescriptor (js_prop v ''descriptor'') of
             Inl _ \<Rightarrow> None
           | Inr d \<Rightarrow> Some \<lparr>pcs_descriptor = d, pcs_status = st,
               pcs_revokedFingerprint = optional_string (js_prop v ''revokedFingerprint''),
               pcs_lastScanId = optional_string (js_prop v ''lastScanId'')\<rparr>))"

text \<open>The objects the core hands to the state port.\<close>

definition kind_text :: "source_kind \<Rightarrow> jsstr" where
  "kind_text k = lit (case k of Folder \<Rightarrow> ''folder'' | Obsidian \<Rightarrow> ''obsidian'')"

definition capability_text :: "source_capability \<Rightarrow> jsstr" where
  "capability_text c = lit (case c of Markdown \<Rightarrow> ''markdown'' | Attachments \<Rightarrow> ''attachments''
     | EditorIntegration \<Rightarrow> ''editor-integration'' | Watch \<Rightarrow> ''watch'')"

definition descriptor_value :: "source_descriptor \<Rightarrow> js_value" where
  "descriptor_value d = JObj
     [(''descriptorVersion'', nat_value 1),
      (''sourceKind'', JStr (kind_text (sd_sourceKind d))),
      (''label'', JStr (sd_label d)),
      (''capabilities'', JArr (List.map (\<lambda>c. JStr (capability_text c)) (sd_capabilities d))),
      (''clientVersion'', sd_clientVersion d),
      (''syncSchemaVersion'', nat_value (sd_syncSchemaVersion d)),
      (''provenance'', sd_provenance d)]"

definition optional_prop :: "string \<Rightarrow> jsstr option \<Rightarrow> (string \<times> js_value) list" where
  "optional_prop k v = (case v of Some s \<Rightarrow> [(k, JStr s)] | None \<Rightarrow> [])"

definition persisted_value :: "persisted_core_state \<Rightarrow> js_value" where
  "persisted_value p = JObj
     ([(''descriptor'', descriptor_value (pcs_descriptor p)),
       (''status'', JStr (status_text (pcs_status p)))] @
      optional_prop ''revokedFingerprint'' (pcs_revokedFingerprint p) @
      optional_prop ''lastScanId'' (pcs_lastScanId p))"

definition CORE_STATE_KEY :: jsstr where
  "CORE_STATE_KEY = lit ''mdevolved/source-core/v1''"

section \<open>The core\<close>

record 'w core =
  core_status :: core_status
  core_state :: "persisted_core_state option"
  core_world :: 'w

type_synonym ('w, 'a) core_act = "('w core, source_error, 'a) act"

definition on_world :: "('w, source_error, 'a) act \<Rightarrow> ('w, 'a) core_act" where
  "on_world m = (\<lambda>c. case m (core_world c) of (r, w) \<Rightarrow> (r, c\<lparr>core_world := w\<rparr>))"

definition get_status :: "('w, core_status) core_act" where
  "get_status = (\<lambda>c. (Return (core_status c), c))"

definition put_status :: "core_status \<Rightarrow> ('w, unit) core_act" where
  "put_status st = (\<lambda>c. (Return (), c\<lparr>core_status := st\<rparr>))"

definition get_state :: "('w, persisted_core_state option) core_act" where
  "get_state = (\<lambda>c. (Return (core_state c), c))"

definition put_state :: "persisted_core_state \<Rightarrow> ('w, unit) core_act" where
  "put_state p = (\<lambda>c. (Return (), c\<lparr>core_state := Some p\<rparr>))"

text \<open>\<open>new SourceNeutralSyncCore(options)\<close> over a world.\<close>

definition new_core :: "'w \<Rightarrow> 'w core" where
  "new_core w = \<lparr>core_status = Stopped, core_state = None, core_world = w\<rparr>"

text \<open>\<open>this.state = p\<close> and the write of it.\<close>

definition save_state :: "'w core_options \<Rightarrow> persisted_core_state \<Rightarrow> ('w, unit) core_act" where
  "save_state opts p =
     act_bind (put_state p) (\<lambda>_. on_world (lsp_write (co_state opts) CORE_STATE_KEY (persisted_value p)))"

definition emit_status :: "'w core_options \<Rightarrow> core_status \<Rightarrow> ('w, unit) core_act" where
  "emit_status opts st = (case co_ui opts of
     None \<Rightarrow> act_return () | Some emit \<Rightarrow> on_world (emit (StatusEvent st)))"

definition setStatus :: "'w core_options \<Rightarrow> core_status \<Rightarrow> ('w, core_status) core_act" where
  "setStatus opts st =
     act_bind (put_status st) (\<lambda>_.
     act_bind get_state (\<lambda>state.
     act_bind (case state of
         Some p \<Rightarrow> if pcs_status p \<noteq> st then save_state opts (p\<lparr>pcs_status := st\<rparr>) else act_return ()
       | None \<Rightarrow> act_return ()) (\<lambda>_.
     act_bind (emit_status opts st) (\<lambda>_. act_return st))))"

definition expired_at :: "credential_record \<Rightarrow> js_num \<Rightarrow> bool" where
  "expired_at cred now = (case cr_expiresAt cred of Some t \<Rightarrow> num_le t now | None \<Rightarrow> False)"

definition not_running :: "core_status \<Rightarrow> ('w, 'a) core_act" where
  "not_running st = act_throw (NotRunning (status_text st))"

definition requireRunning :: "'w core_options \<Rightarrow> ('w, unit) core_act" where
  "requireRunning opts =
     act_bind get_status (\<lambda>st.
     if st \<noteq> Running then not_running st
     else act_bind (on_world (cp_get (co_credentials opts))) (\<lambda>credential.
     case credential of
       None \<Rightarrow> act_bind (setStatus opts Unpaired) (\<lambda>_. not_running Unpaired)
     | Some cred \<Rightarrow>
         if cr_status cred = Revoked
         then act_bind (setStatus opts RevokedStatus) (\<lambda>_. not_running RevokedStatus)
         else if cr_expiresAt cred = None then act_return ()
         else act_bind (on_world (co_now opts)) (\<lambda>now.
           if expired_at cred now
           then act_bind (setStatus opts Expired) (\<lambda>_. not_running Expired)
           else act_return ())))"

section \<open>Files\<close>

abbreviation nfc_of :: "'w core_options \<Rightarrow> jsstr \<Rightarrow> jsstr" where
  "nfc_of opts \<equiv> te_nfc (co_text opts)"

definition core_stat :: "'w core_options \<Rightarrow> jsstr \<Rightarrow> ('w, workspace_entry option) core_act" where
  "core_stat opts relativePath =
     act_bind (requireRunning opts) (\<lambda>_.
     act_bind (act_of (validateRelativePath (nfc_of opts) relativePath)) (\<lambda>path.
     act_bind (on_world (wp_stat (co_files opts) path)) (\<lambda>entry.
     case entry of
       None \<Rightarrow> act_return None
     | Some e \<Rightarrow>
         act_bind (act_of (validateRelativePath (nfc_of opts) (we_path e))) (\<lambda>p.
         if p \<noteq> path \<or> we_kind e = KSymlink
         then act_throw (ScanError InvalidPath ''workspace returned an unsafe path'' (Some (we_path e)))
         else act_return (Some (e\<lparr>we_path := path\<rparr>))))))"

definition core_read :: "'w core_options \<Rightarrow> jsstr \<Rightarrow> ('w, bytes) core_act" where
  "core_read opts relativePath =
     act_bind (act_of (validateRelativePath (nfc_of opts) relativePath)) (\<lambda>path.
     act_bind (core_stat opts path) (\<lambda>entry.
     if (case entry of Some e \<Rightarrow> we_kind e \<noteq> KFile | None \<Rightarrow> True)
     then act_throw (ScanError ReadFailed ''source file not found'' (Some path))
     else on_world (wp_read (co_files opts) path)))"

definition core_write :: "'w core_options \<Rightarrow> jsstr \<Rightarrow> bytes \<Rightarrow> ('w, unit) core_act" where
  "core_write opts relativePath contents =
     act_bind (act_of (validateRelativePath (nfc_of opts) relativePath)) (\<lambda>path.
     act_bind (core_stat opts path) (\<lambda>entry.
     if (case entry of Some e \<Rightarrow> we_kind e \<noteq> KFile | None \<Rightarrow> False)
     then act_throw (ScanError InvalidPath ''source path is not a writable file'' (Some path))
     else on_world (wp_write (co_files opts) path contents)))"

definition core_listMarkdown ::
  "'w core_options \<Rightarrow> supplied_options \<Rightarrow> ('w, workspace_entry list) core_act" where
  "core_listMarkdown opts supplied =
     act_bind (requireRunning opts) (\<lambda>_.
     on_world (listMarkdown (co_text opts) (co_files opts) supplied))"

definition core_rescan :: "'w core_options \<Rightarrow> supplied_options \<Rightarrow> ('w, scan_result) core_act" where
  "core_rescan opts supplied =
     act_bind (requireRunning opts) (\<lambda>_.
     act_bind (on_world (scanMarkdown (co_text opts) (co_sched opts) (co_files opts) supplied)) (\<lambda>result.
     act_bind get_state (\<lambda>state.
     act_bind (case state of
         Some p \<Rightarrow> save_state opts (p\<lparr>pcs_lastScanId := Some (sr_scanId result)\<rparr>)
       | None \<Rightarrow> act_return ()) (\<lambda>_.
     act_return result))))"

section \<open>Lifecycle\<close>

definition default_descriptor :: "'w core_options \<Rightarrow> source_error + source_descriptor" where
  "default_descriptor opts = (case co_descriptor opts of
     Some d \<Rightarrow> Inr d | None \<Rightarrow> normalizeSourceDescriptor JUndefined)"

text \<open>The state of a core that has none in memory.\<close>

definition state_or_default ::
  "'w core_options \<Rightarrow> persisted_core_state option \<Rightarrow> source_error + persisted_core_state" where
  "state_or_default opts state = (case state of
     Some p \<Rightarrow> Inr p
   | None \<Rightarrow> (case default_descriptor opts of
       Inl e \<Rightarrow> Inl e
     | Inr d \<Rightarrow> Inr \<lparr>pcs_descriptor = d, pcs_status = Stopped, pcs_revokedFingerprint = None,
                  pcs_lastScanId = None\<rparr>))"

text \<open>The rest of \<open>start\<close>, once the state \<open>p\<close> is loaded.\<close>

definition start_loaded :: "'w core_options \<Rightarrow> persisted_core_state \<Rightarrow> ('w, core_status) core_act" where
  "start_loaded opts p =
     act_bind (on_world (cp_get (co_credentials opts))) (\<lambda>credential.
     if pcs_revokedFingerprint p \<noteq> None \<and>
        pcs_revokedFingerprint p = map_option cr_fingerprint credential
     then setStatus opts RevokedStatus
     else case credential of
       None \<Rightarrow> setStatus opts Unpaired
     | Some cred \<Rightarrow>
         if cr_status cred = Revoked then setStatus opts RevokedStatus
         else act_bind (if cr_expiresAt cred = None then act_return NaN else on_world (co_now opts)) (\<lambda>now.
           if expired_at cred now then setStatus opts Expired
           else act_bind (save_state opts (p\<lparr>pcs_status := Running\<rparr>)) (\<lambda>_.
                setStatus opts Running)))"

definition core_start :: "'w core_options \<Rightarrow> ('w, core_status) core_act" where
  "core_start opts =
     act_bind get_status (\<lambda>st.
     if st = Running then act_return st
     else act_bind (on_world (lsp_read (co_state opts) CORE_STATE_KEY)) (\<lambda>stored.
     act_bind (act_of (state_or_default opts (decodePersistedCoreState stored))) (\<lambda>p.
     act_bind (put_state p) (\<lambda>_.
     start_loaded opts p))))"

definition core_stop :: "'w core_options \<Rightarrow> ('w, unit) core_act" where
  "core_stop opts =
     act_bind get_status (\<lambda>st.
     if st = Stopped then act_return ()
     else act_bind (put_status Stopped) (\<lambda>_.
     act_bind get_state (\<lambda>state.
     act_bind (case state of
         Some p \<Rightarrow> save_state opts (p\<lparr>pcs_status := Stopped\<rparr>) | None \<Rightarrow> act_return ()) (\<lambda>_.
     emit_status opts Stopped))))"

definition core_revoke :: "'w core_options \<Rightarrow> ('w, unit) core_act" where
  "core_revoke opts =
     act_bind (on_world (cp_get (co_credentials opts))) (\<lambda>credential.
     act_bind (on_world (cp_revoke (co_credentials opts))) (\<lambda>_.
     act_bind get_state (\<lambda>state.
     act_bind (act_of (state_or_default opts state)) (\<lambda>p.
     act_bind (save_state opts (p\<lparr>pcs_status := RevokedStatus,
         pcs_revokedFingerprint := (case credential of
            Some cred \<Rightarrow> Some (cr_fingerprint cred) | None \<Rightarrow> pcs_revokedFingerprint p)\<rparr>)) (\<lambda>_.
     act_bind (setStatus opts RevokedStatus) (\<lambda>_. act_return ()))))))"

definition core_replaceCredentials ::
  "'w core_options \<Rightarrow> credential_record \<Rightarrow> ('w, core_status) core_act" where
  "core_replaceCredentials opts rec =
     (if cr_status rec \<noteq> Active then act_throw (TypeError ''replacement_credential_must_be_active'')
      else act_bind (on_world (cp_confirmReplacement (co_credentials opts) rec)) (\<lambda>_.
      act_bind get_state (\<lambda>state.
      act_bind (act_of (state_or_default opts state)) (\<lambda>p.
      act_bind (save_state opts (p\<lparr>pcs_status := Stopped, pcs_revokedFingerprint := None\<rparr>)) (\<lambda>_.
      core_start opts)))))"

end
