(* ===== verification/FolderFs.thy ===== *)
theory FolderFs
  imports SourceCore
begin

text \<open>
  The file system as the folder adapter uses it through \<open>node:fs\<close>: a table from absolute paths
  (lists of names) to directories, regular files, symbolic links and other entries. Path
  resolution follows links, at most 40 of them. Every call takes the next entry of a list of
  faults, so that any call can fail.
\<close>

type_synonym abs_path = "jsstr list"

datatype fs_node = FsDir js_num | FsFile bytes js_num | FsLink abs_path | FsOther

type_synonym fs_tree = "(abs_path \<times> fs_node) list"

datatype errno = ENOENT | EACCES | EPERM | EEXIST | EOther

text \<open>A state file holds a JSON document, given by the value it parses to, or something else.\<close>

datatype state_doc = Doc js_value | Garbage

text \<open>A fault is an error other than the absence of the file, and how many bytes a failing write
  leaves behind.\<close>

datatype fault = AccessFault | PermissionFault | IOFault

definition errno_of :: "fault \<Rightarrow> errno" where
  "errno_of f = (case f of AccessFault \<Rightarrow> EACCES | PermissionFault \<Rightarrow> EPERM | IOFault \<Rightarrow> EOther)"

record folder_world =
  fw_tree :: fs_tree
  fw_docs :: "(jsstr \<times> state_doc) list"
  fw_faults :: "(fault \<times> nat) option list"
  fw_credential :: "credential_record option"
  fw_uuids :: nat

section \<open>Path resolution\<close>

text \<open>The real path of \<open>rest\<close> from the real directory \<open>acc\<close>, following at most \<open>n\<close> links.\<close>

function canon :: "nat \<Rightarrow> fs_tree \<Rightarrow> abs_path \<Rightarrow> abs_path \<Rightarrow> errno + abs_path" where
  "canon n t acc [] = Inr acc"
| "canon n t acc (s # rest) =
     (case map_of t (acc @ [s]) of
        None \<Rightarrow> Inl ENOENT
      | Some (FsLink target) \<Rightarrow> (case n of 0 \<Rightarrow> Inl EOther | Suc m \<Rightarrow> canon m t [] (target @ rest))
      | Some (FsDir _) \<Rightarrow> canon n t (acc @ [s]) rest
      | Some _ \<Rightarrow> if rest = [] then Inr (acc @ [s]) else Inl EOther)"
  by pat_completeness auto
termination
  by (relation "measures [\<lambda>(n, t, acc, r). n, \<lambda>(n, t, acc, r). length r]") auto

definition realpath_of :: "fs_tree \<Rightarrow> abs_path \<Rightarrow> errno + abs_path" where
  "realpath_of t p = canon 40 t [] p"

text \<open>Where the entry of that name is, its directory resolved but not the entry itself.\<close>

definition entry_of :: "fs_tree \<Rightarrow> abs_path \<Rightarrow> errno + abs_path" where
  "entry_of t p = (if p = [] then Inr []
     else case realpath_of t (butlast p) of Inl e \<Rightarrow> Inl e | Inr d \<Rightarrow> Inr (d @ [last p]))"

definition lstat_of :: "fs_tree \<Rightarrow> abs_path \<Rightarrow> errno + fs_node" where
  "lstat_of t p = (if p = [] then Inr (FsDir (Fin 0))
     else case entry_of t p of
       Inl e \<Rightarrow> Inl e
     | Inr q \<Rightarrow> (case map_of t q of None \<Rightarrow> Inl ENOENT | Some n \<Rightarrow> Inr n))"

definition readdir_of :: "fs_tree \<Rightarrow> abs_path \<Rightarrow> errno + jsstr list" where
  "readdir_of t p = (case realpath_of t p of
     Inl e \<Rightarrow> Inl e
   | Inr d \<Rightarrow> Inr (List.map last (filter (\<lambda>q. q \<noteq> [] \<and> butlast q = d) (List.map fst t))))"

definition readFile_of :: "fs_tree \<Rightarrow> abs_path \<Rightarrow> errno + bytes" where
  "readFile_of t p = (case realpath_of t p of
     Inl e \<Rightarrow> Inl e
   | Inr q \<Rightarrow> (case map_of t q of Some (FsFile bs _) \<Rightarrow> Inr bs | Some _ \<Rightarrow> Inl EOther | None \<Rightarrow> Inl ENOENT))"

section \<open>Calls\<close>

type_synonym 'a fs_act = "(folder_world, errno, 'a) act"

text \<open>A call that fails by the next fault, or does what \<open>f\<close> says to the tree.\<close>

definition fs_call :: "(fs_tree \<Rightarrow> (errno + 'a) \<times> fs_tree) \<Rightarrow> 'a fs_act" where
  "fs_call f = (\<lambda>w.
     let w1 = w\<lparr>fw_faults := tl (fw_faults w)\<rparr> in
     case fw_faults w of
       Some (e, _) # _ \<Rightarrow> (Throw (errno_of e), w1)
     | _ \<Rightarrow> (case f (fw_tree w) of (r, t) \<Rightarrow>
         ((case r of Inl e \<Rightarrow> Throw e | Inr x \<Rightarrow> Return x), w1\<lparr>fw_tree := t\<rparr>)))"

definition fs_lstat :: "abs_path \<Rightarrow> fs_node fs_act" where
  "fs_lstat p = fs_call (\<lambda>t. (lstat_of t p, t))"

definition fs_realpath :: "abs_path \<Rightarrow> abs_path fs_act" where
  "fs_realpath p = fs_call (\<lambda>t. (realpath_of t p, t))"

definition fs_readdir :: "abs_path \<Rightarrow> jsstr list fs_act" where
  "fs_readdir p = fs_call (\<lambda>t. (readdir_of t p, t))"

definition fs_readFile :: "abs_path \<Rightarrow> bytes fs_act" where
  "fs_readFile p = fs_call (\<lambda>t. (readFile_of t p, t))"

text \<open>Making an entry that must not exist: \<open>mkdir\<close>, and \<open>open\<close> with \<open>O_CREAT | O_EXCL\<close>.\<close>

definition create_node :: "abs_path \<Rightarrow> fs_node \<Rightarrow> fs_tree \<Rightarrow> (errno + unit) \<times> fs_tree" where
  "create_node p n t = (case entry_of t p of
     Inl e \<Rightarrow> (Inl e, t)
   | Inr q \<Rightarrow> if q = [] \<or> map_of t q \<noteq> None then (Inl EEXIST, t) else (Inr (), (q, n) # t))"

definition fs_mkdir :: "abs_path \<Rightarrow> unit fs_act" where
  "fs_mkdir p = fs_call (create_node p (FsDir (Fin 0)))"

definition fs_open_excl :: "abs_path \<Rightarrow> unit fs_act" where
  "fs_open_excl p = fs_call (create_node p (FsFile [] (Fin 0)))"

text \<open>\<open>handle.writeFile\<close> on the file just made; one that fails leaves the first bytes.\<close>

definition put_file :: "abs_path \<Rightarrow> bytes \<Rightarrow> fs_tree \<Rightarrow> (errno + unit) \<times> fs_tree" where
  "put_file p bs t = (case entry_of t p of
     Inl e \<Rightarrow> (Inl e, t)
   | Inr q \<Rightarrow> (Inr (), AList.update q (FsFile bs (Fin 0)) t))"

definition fs_writeHandle :: "abs_path \<Rightarrow> bytes \<Rightarrow> unit fs_act" where
  "fs_writeHandle p bs = (\<lambda>w. case fw_faults w of
     Some (e, n) # r \<Rightarrow>
       (Throw (errno_of e), w\<lparr>fw_faults := r, fw_tree := snd (put_file p (take n bs) (fw_tree w))\<rparr>)
   | _ \<Rightarrow> fs_call (put_file p bs) w)"

text \<open>\<open>handle.sync\<close> and \<open>handle.close\<close>, which change no entry.\<close>

definition fs_sync :: "unit fs_act" where
  "fs_sync = fs_call (\<lambda>t. (Inr (), t))"

definition fs_close :: "unit fs_act" where
  "fs_close = fs_call (\<lambda>t. (Inr (), t))"

definition rename_node :: "abs_path \<Rightarrow> abs_path \<Rightarrow> fs_tree \<Rightarrow> (errno + unit) \<times> fs_tree" where
  "rename_node p p' t = (case (entry_of t p, entry_of t p') of
     (Inr q, Inr q') \<Rightarrow>
       (case map_of t q of
          None \<Rightarrow> (Inl ENOENT, t)
        | Some n \<Rightarrow> (case map_of t q' of
            Some (FsDir _) \<Rightarrow> (Inl EOther, t)
          | _ \<Rightarrow> (Inr (), AList.update q' n (AList.delete q t))))
   | (Inl e, _) \<Rightarrow> (Inl e, t)
   | (_, Inl e) \<Rightarrow> (Inl e, t))"

definition fs_rename :: "abs_path \<Rightarrow> abs_path \<Rightarrow> unit fs_act" where
  "fs_rename p p' = fs_call (rename_node p p')"

definition remove_node :: "abs_path \<Rightarrow> fs_tree \<Rightarrow> (errno + unit) \<times> fs_tree" where
  "remove_node p t = (case entry_of t p of
     Inl e \<Rightarrow> (Inl e, t)
   | Inr q \<Rightarrow> (case map_of t q of
       None \<Rightarrow> (Inl ENOENT, t) | Some (FsDir _) \<Rightarrow> (Inl EOther, t) | Some _ \<Rightarrow> (Inr (), AList.delete q t)))"

definition fs_rm :: "abs_path \<Rightarrow> unit fs_act" where
  "fs_rm p = fs_call (remove_node p)"

definition randomUUID :: "(nat \<Rightarrow> jsstr) \<Rightarrow> (folder_world, 'e, jsstr) act" where
  "randomUUID uuid = (\<lambda>w. (Return (uuid (fw_uuids w)), w\<lparr>fw_uuids := fw_uuids w + 1\<rparr>))"

text \<open>The same act with its errors translated.\<close>

definition map_error :: "('e \<Rightarrow> 'f) \<Rightarrow> ('s, 'e, 'a) act \<Rightarrow> ('s, 'f, 'a) act" where
  "map_error f m = (\<lambda>s. case m s of
     (Return x, s') \<Rightarrow> (Return x, s') | (Throw e, s') \<Rightarrow> (Throw (f e), s') | (Diverge, s') \<Rightarrow> (Diverge, s'))"

lemma wp_map_error [wp_simps]: "wp (map_error f m) Q R s = wp m Q (\<lambda>e. R (map_option f e)) s"
  by (simp add: wp_def map_error_def split: prod.split outcome.split)

lemma wp_fs_call [wp_simps]:
  "wp (fs_call f) Q R w =
     (case fw_faults w of
        Some (e, _) # r \<Rightarrow> R (Some (errno_of e)) (w\<lparr>fw_faults := r\<rparr>)
      | _ \<Rightarrow> (case f (fw_tree w) of
          (Inl e, t) \<Rightarrow> R (Some e) (w\<lparr>fw_faults := tl (fw_faults w), fw_tree := t\<rparr>)
        | (Inr x, t) \<Rightarrow> Q x (w\<lparr>fw_faults := tl (fw_faults w), fw_tree := t\<rparr>)))"
  by (auto simp: wp_def fs_call_def Let_def split: list.splits option.splits prod.splits sum.splits)

end
