(* ===== verification/FolderAdapter.thy ===== *)
theory FolderAdapter
  imports FolderFs
begin

text \<open>
  The folder adapter, \<open>packages/folder-adapter/src/index.ts\<close>: the workspace of a folder on disk,
  the store of local state, the credential custody scoped to the folder, and the source made of
  them. Paths are those of a POSIX system (the separator is a slash).
\<close>

section \<open>Paths\<close>

definition MAX_FILE_BYTES :: nat where
  "MAX_FILE_BYTES = 2 * 1024 * 1024"

definition common_prefix_length :: "abs_path \<Rightarrow> abs_path \<Rightarrow> nat" where
  "common_prefix_length a b = length (takeWhile (\<lambda>(x, y). x = y) (zip a b))"

text \<open>\<open>path.relative\<close> of two absolute paths, as its segments.\<close>

definition relative_path :: "abs_path \<Rightarrow> abs_path \<Rightarrow> jsstr list" where
  "relative_path base candidate =
     (let n = common_prefix_length base candidate in
      replicate (length base - n) (lit ''..'') @ drop n candidate)"

definition isPathInside :: "abs_path \<Rightarrow> abs_path \<Rightarrow> bool" where
  "isPathInside base candidate =
     (let v = relative_path base candidate in v = [] \<or> hd v \<noteq> lit ''..'')"

definition abs_text :: "abs_path \<Rightarrow> jsstr" where
  "abs_text p = 47 # join_with 47 p"

definition hasExcludedComponent :: "jsstr \<Rightarrow> bool" where
  "hasExcludedComponent path =
     list_ex (\<lambda>part. part \<in> set EXCLUDED_DIRECTORIES \<or> dotted part) (split_on 47 path)"

definition as_folder_error :: "jsstr \<Rightarrow> source_error \<Rightarrow> source_error" where
  "as_folder_error path e = (case e of
     ScanError _ m _ \<Rightarrow> FolderError PathInvalid m (Some path) | _ \<Rightarrow> e)"

definition assertPortablePath :: "(jsstr \<Rightarrow> jsstr) \<Rightarrow> bool \<Rightarrow> jsstr \<Rightarrow> source_error + jsstr" where
  "assertPortablePath nfc allowRoot path =
     (if allowRoot \<and> path = [] then Inr path
      else case validateRelativePath nfc path of
        Inl e \<Rightarrow> Inl (as_folder_error path e) | Inr p \<Rightarrow> Inr p)"

definition assertAllowedPath :: "(jsstr \<Rightarrow> jsstr) \<Rightarrow> jsstr \<Rightarrow> source_error + unit" where
  "assertAllowedPath nfc path = (case assertPortablePath nfc False path of
     Inl e \<Rightarrow> Inl e
   | Inr _ \<Rightarrow>
       if hasExcludedComponent path \<or> isSecretShaped path
       then Inl (FolderError PathInvalid ''hidden, generated, dependency, or secret-shaped paths are outside the source boundary'' (Some path))
       else Inr ())"

definition assertMarkdownPath :: "(jsstr \<Rightarrow> jsstr) \<Rightarrow> jsstr \<Rightarrow> source_error + jsstr" where
  "assertMarkdownPath nfc path = (case validateMarkdownPath nfc path of
     Inl e \<Rightarrow> Inl (as_folder_error path e) | Inr p \<Rightarrow> Inr p)"

definition errorCode :: "errno \<Rightarrow> folder_code" where
  "errorCode e = (if e = EACCES \<or> e = EPERM then PermissionDenied else FolderReadFailed)"

definition asPortablePath :: "abs_path \<Rightarrow> abs_path \<Rightarrow> source_error + jsstr" where
  "asPortablePath base candidate =
     (let v = relative_path base candidate in
      if v = [] \<or> hd v = lit ''..''
      then Inl (FolderError PathOutsideRoot ''path resolves outside the selected folder'' (Some (abs_text candidate)))
      else Inr (join_with 47 v))"

section \<open>Inspecting the disk\<close>

type_synonym 'a folder_act = "(folder_world, source_error, 'a) act"

definition with_code :: "string \<Rightarrow> jsstr \<Rightarrow> 'a fs_act \<Rightarrow> 'a folder_act" where
  "with_code msg path m = map_error (\<lambda>e. FolderError (errorCode e) msg (Some path)) m"

text \<open>A file-system error that leaves the adapter as it is.\<close>

definition raw_fs :: "'a fs_act \<Rightarrow> 'a folder_act" where
  "raw_fs m = map_error (\<lambda>_. PortError ''file system error'') m"

definition assertRealPathInside :: "abs_path \<Rightarrow> abs_path \<Rightarrow> unit folder_act" where
  "assertRealPathInside base p =
     act_bind (with_code ''could not resolve source path'' (abs_text p) (fs_realpath p)) (\<lambda>canonical.
     if isPathInside base canonical then act_return ()
     else act_throw (FolderError PathOutsideRoot ''path resolves outside the selected folder'' (Some (abs_text p))))"

definition lstatSafe :: "abs_path \<Rightarrow> fs_node option fs_act" where
  "lstatSafe p =
     act_catch (act_bind (fs_lstat p) (\<lambda>n. act_return (Some n)))
       (\<lambda>e. if e = ENOENT then act_return None else act_throw e)"

definition lstatWorkspace :: "abs_path \<Rightarrow> string \<Rightarrow> fs_node option folder_act" where
  "lstatWorkspace p message = with_code message (abs_text p) (lstatSafe p)"

definition canonicalizeFolderRoot :: "abs_path \<Rightarrow> abs_path folder_act" where
  "canonicalizeFolderRoot requested =
     act_bind (raw_fs (lstatSafe requested)) (\<lambda>st.
     case st of
       Some (FsDir _) \<Rightarrow>
         act_bind (raw_fs (fs_realpath requested)) (\<lambda>canonical.
         if canonical = []
         then act_throw (FolderError RootInvalid ''the filesystem root is not a bounded source'' (Some (abs_text canonical)))
         else act_return canonical)
     | _ \<Rightarrow> act_throw (FolderError RootInvalid ''the selected path must be a real directory'' (Some (abs_text requested))))"

definition sourceIdentityForCanonicalRoot :: "(jsstr \<Rightarrow> jsstr) \<Rightarrow> abs_path \<Rightarrow> jsstr" where
  "sourceIdentityForCanonicalRoot sha256_text base = lit ''folder-'' @ take 32 (sha256_text (abs_text base))"

section \<open>\<open>NodeFolderFiles\<close>\<close>

record folder_files =
  nf_root :: abs_path
  nf_maxFileBytes :: nat
  nf_text :: text_env
  nf_uuid :: "nat \<Rightarrow> jsstr"

definition absolute :: "folder_files \<Rightarrow> bool \<Rightarrow> jsstr \<Rightarrow> source_error + abs_path" where
  "absolute nf allowRoot relativePath =
     (case assertPortablePath (te_nfc (nf_text nf)) allowRoot relativePath of
        Inl e \<Rightarrow> Inl e
      | Inr path \<Rightarrow>
          (case (if \<not> allowRoot \<or> path \<noteq> [] then assertAllowedPath (te_nfc (nf_text nf)) path else Inr ()) of
             Inl e \<Rightarrow> Inl e
           | Inr _ \<Rightarrow>
               (let a = nf_root nf @ (if path = [] then [] else split_on 47 path) in
                if isPathInside (nf_root nf) a then Inr a
                else Inl (FolderError PathOutsideRoot ''path resolves outside the selected folder'' (Some relativePath)))))"

text \<open>The entry an \<open>lstat\<close> result stands for; a link has no size and no time.\<close>

definition entry_for :: "jsstr \<Rightarrow> fs_node \<Rightarrow> workspace_entry option" where
  "entry_for path n = (case n of
     FsDir m \<Rightarrow> Some \<lparr>we_path = path, we_kind = KDirectory, we_size = None, we_mtimeMs = Some m\<rparr>
   | FsFile bs m \<Rightarrow> Some \<lparr>we_path = path, we_kind = KFile, we_size = Some (length bs), we_mtimeMs = Some m\<rparr>
   | FsLink _ \<Rightarrow> Some \<lparr>we_path = path, we_kind = KSymlink, we_size = None, we_mtimeMs = None\<rparr>
   | FsOther \<Rightarrow> None)"

definition entry_or_throw :: "jsstr \<Rightarrow> fs_node \<Rightarrow> workspace_entry folder_act" where
  "entry_or_throw path n = (case entry_for path n of
     Some e \<Rightarrow> act_return e
   | None \<Rightarrow> act_throw (FolderError FolderReadFailed ''unsupported filesystem entry'' (Some path)))"

definition is_link :: "fs_node \<Rightarrow> bool" where
  "is_link n = (case n of FsLink _ \<Rightarrow> True | _ \<Rightarrow> False)"

definition is_dir :: "fs_node \<Rightarrow> bool" where
  "is_dir n = (case n of FsDir _ \<Rightarrow> True | _ \<Rightarrow> False)"

definition is_file :: "fs_node \<Rightarrow> bool" where
  "is_file n = (case n of FsFile _ _ \<Rightarrow> True | _ \<Rightarrow> False)"

text \<open>The loop over the names of a directory.\<close>

fun list_names ::
  "folder_files \<Rightarrow> abs_path \<Rightarrow> jsstr list \<Rightarrow> workspace_entry list \<Rightarrow> workspace_entry list folder_act" where
  "list_names nf directory [] result = act_return result"
| "list_names nf directory (name # names) result =
     act_bind (act_of (asPortablePath (nf_root nf) (directory @ [name]))) (\<lambda>path.
     act_bind (lstatWorkspace (directory @ [name]) ''could not inspect source entry'') (\<lambda>stats.
     case stats of
       None \<Rightarrow> list_names nf directory names result
     | Some n \<Rightarrow>
         act_bind (if is_link n then act_return () else assertRealPathInside (nf_root nf) (directory @ [name])) (\<lambda>_.
         act_bind (entry_or_throw path n) (\<lambda>e.
         list_names nf directory names (result @ [e])))))"

definition files_list :: "folder_files \<Rightarrow> jsstr \<Rightarrow> workspace_entry list folder_act" where
  "files_list nf relativeDirectory =
     act_bind (act_of (absolute nf True relativeDirectory)) (\<lambda>directory.
     act_bind (lstatWorkspace directory ''could not inspect source directory'') (\<lambda>st.
     if (case st of Some n \<Rightarrow> \<not> is_dir n | None \<Rightarrow> True)
     then act_throw (FolderError FolderReadFailed ''source directory is unavailable'' (Some relativeDirectory))
     else act_bind (assertRealPathInside (nf_root nf) directory) (\<lambda>_.
     act_bind (with_code ''could not enumerate source directory'' relativeDirectory (fs_readdir directory)) (\<lambda>names.
     list_names nf directory (sort_by (te_le (nf_text nf)) names) []))))"

definition files_stat :: "folder_files \<Rightarrow> jsstr \<Rightarrow> workspace_entry option folder_act" where
  "files_stat nf relativePath =
     act_bind (act_of (assertPortablePath (te_nfc (nf_text nf)) False relativePath)) (\<lambda>path.
     act_bind (act_of (assertAllowedPath (te_nfc (nf_text nf)) path)) (\<lambda>_.
     act_bind (act_of (absolute nf False path)) (\<lambda>a.
     act_bind (lstatWorkspace a ''could not inspect source file'') (\<lambda>stats.
     case stats of
       None \<Rightarrow> act_return None
     | Some n \<Rightarrow>
         act_bind (if is_link n then act_return () else assertRealPathInside (nf_root nf) a) (\<lambda>_.
         act_bind (entry_or_throw path n) (\<lambda>e. act_return (Some e)))))))"

definition files_read :: "folder_files \<Rightarrow> jsstr \<Rightarrow> bytes folder_act" where
  "files_read nf relativePath =
     act_bind (act_of (assertMarkdownPath (te_nfc (nf_text nf)) relativePath)) (\<lambda>path.
     act_bind (act_of (absolute nf False path)) (\<lambda>a.
     act_bind (lstatWorkspace a ''could not inspect source file'') (\<lambda>stats.
     case stats of
       Some (FsFile bs _) \<Rightarrow>
         if nf_maxFileBytes nf < length bs
         then act_throw (ScanError ScanLimit ''file exceeds the size ceiling'' (Some path))
         else act_bind (assertRealPathInside (nf_root nf) a) (\<lambda>_.
              with_code ''could not read source file'' path (fs_readFile a))
     | _ \<Rightarrow> act_throw (FolderError FolderReadFailed ''source file is unavailable'' (Some path)))))"

text \<open>\<open>try { m } finally { f }\<close>.\<close>

definition act_finally :: "('s, 'e, 'a) act \<Rightarrow> ('s, 'e, unit) act \<Rightarrow> ('s, 'e, 'a) act" where
  "act_finally m f = (\<lambda>s. case m s of
     (Return x, s') \<Rightarrow> act_bind f (\<lambda>_. act_return x) s'
   | (Throw e, s') \<Rightarrow> act_bind f (\<lambda>_. act_throw e) s'
   | (Diverge, s') \<Rightarrow> (Diverge, s'))"

definition parent_unavailable :: "jsstr \<Rightarrow> 'a folder_act" where
  "parent_unavailable path =
     act_throw (FolderError WriteFailed ''source parent directory is unavailable'' (Some path))"

text \<open>The loop over the parent directories of a file about to be written.\<close>

fun ensure_parents :: "folder_files \<Rightarrow> jsstr \<Rightarrow> abs_path \<Rightarrow> jsstr list \<Rightarrow> unit folder_act" where
  "ensure_parents nf path cursor [] = act_return ()"
| "ensure_parents nf path cursor (segment # segments) =
     act_bind (raw_fs (lstatSafe (cursor @ [segment]))) (\<lambda>current.
     act_bind (if current = None then raw_fs (fs_mkdir (cursor @ [segment])) else act_return ()) (\<lambda>_.
     act_bind (lstatWorkspace (cursor @ [segment]) ''could not inspect source parent directory'') (\<lambda>created.
     if (case created of Some n \<Rightarrow> \<not> is_dir n | None \<Rightarrow> True) then parent_unavailable path
     else act_bind (assertRealPathInside (nf_root nf) (cursor @ [segment])) (\<lambda>_.
          ensure_parents nf path (cursor @ [segment]) segments))))"

text \<open>The block that writes the temporary file and renames it; its errors are those of the file
  system or of the adapter.\<close>

definition write_temp ::
  "folder_files \<Rightarrow> abs_path \<Rightarrow> abs_path \<Rightarrow> abs_path \<Rightarrow> bytes \<Rightarrow> (folder_world, errno + source_error, unit) act" where
  "write_temp nf parent temp a contents =
     act_bind (map_error Inl (fs_open_excl temp)) (\<lambda>_.
     act_bind (map_error Inl (act_finally
        (act_bind (fs_writeHandle temp contents) (\<lambda>_. fs_sync)) fs_close)) (\<lambda>_.
     act_bind (map_error Inr (assertRealPathInside (nf_root nf) parent)) (\<lambda>_.
     map_error Inl (fs_rename temp a))))"

definition ignore_errors :: "('s, 'e, unit) act \<Rightarrow> ('s, 'f, unit) act" where
  "ignore_errors m = (\<lambda>s. case m s of
     (Diverge, s') \<Rightarrow> (Diverge, s') | (_, s') \<Rightarrow> (Return (), s'))"

definition write_error :: "jsstr \<Rightarrow> errno + source_error \<Rightarrow> source_error" where
  "write_error path e = (case e of
     Inr err \<Rightarrow> err | Inl code \<Rightarrow> FolderError (errorCode code) ''could not write source file'' (Some path))"

definition commit_write :: "folder_files \<Rightarrow> jsstr \<Rightarrow> abs_path \<Rightarrow> bytes \<Rightarrow> unit folder_act" where
  "commit_write nf path a contents =
     act_bind (randomUUID (nf_uuid nf)) (\<lambda>uuid.
     let temp = butlast a @ [lit ''.'' @ last a @ lit ''.'' @ uuid @ lit ''.tmp''] in
     map_error (write_error path)
       (act_catch (write_temp nf (butlast a) temp a contents)
         (\<lambda>e. act_bind (ignore_errors (fs_rm temp)) (\<lambda>_. act_throw e))))"

definition files_write :: "folder_files \<Rightarrow> jsstr \<Rightarrow> bytes \<Rightarrow> unit folder_act" where
  "files_write nf relativePath contents =
     act_bind (act_of (assertMarkdownPath (te_nfc (nf_text nf)) relativePath)) (\<lambda>path.
     if nf_maxFileBytes nf < length contents
     then act_throw (ScanError ScanLimit ''file exceeds the size ceiling'' (Some path))
     else act_bind (act_of (absolute nf False path)) (\<lambda>a.
     let parent = butlast a in
     act_bind (ensure_parents nf path (nf_root nf) (relative_path (nf_root nf) parent)) (\<lambda>_.
     act_bind (lstatWorkspace parent ''could not inspect source parent directory'') (\<lambda>parentStat.
     if (case parentStat of Some n \<Rightarrow> \<not> is_dir n | None \<Rightarrow> True) then parent_unavailable path
     else act_bind (assertRealPathInside (nf_root nf) parent) (\<lambda>_.
     act_bind (lstatWorkspace a ''could not inspect source file'') (\<lambda>current.
     if (case current of Some n \<Rightarrow> \<not> is_file n | None \<Rightarrow> False)
     then act_throw (FolderError PathInvalid ''source path is not a regular file'' (Some path))
     else act_bind (if current = None then act_return () else assertRealPathInside (nf_root nf) a) (\<lambda>_.
     commit_write nf path a contents)))))))"

definition NodeFolderFiles :: "folder_files \<Rightarrow> (folder_world, source_error) workspace_port" where
  "NodeFolderFiles nf = \<lparr>wp_list = files_list nf, wp_stat = files_stat nf, wp_read = files_read nf,
     wp_write = files_write nf\<rparr>"

section \<open>\<open>FileStateStore\<close>\<close>

text \<open>
  The file of a key is \<open>encodeURIComponent(key).json\<close>, one for each key, so the store is kept by
  key. Making the directory and the temporary file changes no state file; the rename does.
\<close>

definition key_ok :: "jsstr \<Rightarrow> bool" where
  "key_ok key = (key \<noteq> [] \<and> 0 \<notin> set key \<and> \<not> list_ex (\<lambda>i. take 2 (drop i key) = lit ''..'') [0..<length key])"

definition state_error :: "string \<Rightarrow> 'a fs_act \<Rightarrow> 'a folder_act" where
  "state_error msg m = map_error (\<lambda>e. FolderError (errorCode e) msg None) m"

definition docs_step :: "unit fs_act" where
  "docs_step = fs_call (\<lambda>t. (Inr (), t))"

definition docs_lookup :: "jsstr \<Rightarrow> state_doc option fs_act" where
  "docs_lookup key = (\<lambda>w. (Return (map_of (fw_docs w) key), w))"

definition store_read :: "jsstr \<Rightarrow> js_value folder_act" where
  "store_read key =
     (if \<not> key_ok key then act_throw (FolderError FolderReadFailed ''could not read local state'' None)
      else act_bind (state_error ''could not read local state''
             (act_catch (act_bind docs_step (\<lambda>_. docs_lookup key))
               (\<lambda>e. if e = ENOENT then act_return None else act_throw e))) (\<lambda>doc.
      case doc of
        None \<Rightarrow> act_return JUndefined
      | Some (Doc v) \<Rightarrow> act_return v
      | Some Garbage \<Rightarrow> act_throw (FolderError StateInvalid ''state file is not valid JSON'' None)))"

definition store_commit :: "jsstr \<Rightarrow> js_value \<Rightarrow> unit fs_act" where
  "store_commit key v =
     act_bind docs_step (\<lambda>_.
     act_bind docs_step (\<lambda>_.
     act_bind (act_finally (act_bind docs_step (\<lambda>_. fs_sync)) fs_close) (\<lambda>_.
     act_bind docs_step (\<lambda>_.
     (\<lambda>w. (Return (), w\<lparr>fw_docs := AList.update key (Doc (json_copy v)) (fw_docs w)\<rparr>))))))"

definition store_write :: "jsstr \<Rightarrow> js_value \<Rightarrow> unit folder_act" where
  "store_write key v =
     (if \<not> key_ok key then act_throw (FolderError StateInvalid ''state key is invalid'' None)
      else state_error ''could not write local state''
        (act_catch (store_commit key v) (\<lambda>e. act_bind (ignore_errors docs_step) (\<lambda>_. act_throw e))))"

definition store_remove :: "jsstr \<Rightarrow> unit folder_act" where
  "store_remove key =
     (if \<not> key_ok key then act_throw (FolderError FolderReadFailed ''could not remove local state'' None)
      else state_error ''could not remove local state''
        (act_catch (act_bind docs_step (\<lambda>_. (\<lambda>w. (Return (), w\<lparr>fw_docs := AList.delete key (fw_docs w)\<rparr>))))
          (\<lambda>e. if e = ENOENT then act_return () else act_throw e)))"

definition FileStateStore :: "folder_world local_state_port" where
  "FileStateStore = \<lparr>lsp_read = store_read, lsp_write = store_write, lsp_remove = store_remove\<rparr>"

section \<open>Credentials\<close>

definition createMemoryCredentialCustody :: "folder_world custody_port" where
  "createMemoryCredentialCustody = \<lparr>
     cp_get = (\<lambda>w. (Return (fw_credential w), w)),
     cp_confirmReplacement = (\<lambda>r w. (Return (), w\<lparr>fw_credential := Some (r\<lparr>cr_status := Active\<rparr>)\<rparr>)),
     cp_revoke = (\<lambda>w. (Return (),
        w\<lparr>fw_credential := map_option (\<lambda>r. r\<lparr>cr_status := Revoked\<rparr>) (fw_credential w)\<rparr>))\<rparr>"

text \<open>The custody the source hands to the core: only records of its own folder.\<close>

definition scope_error :: "string \<Rightarrow> 'a folder_act" where
  "scope_error msg = act_throw (FolderError CredentialScopeMismatch msg None)"

definition scoped_custody :: "jsstr \<Rightarrow> folder_world custody_port \<Rightarrow> folder_world custody_port" where
  "scoped_custody sourceId inner = \<lparr>
     cp_get = act_bind (cp_get inner) (\<lambda>rec.
       case rec of
         Some r \<Rightarrow> if cr_sourceId r \<noteq> sourceId
           then scope_error ''protected credentials belong to a different selected folder''
           else act_return rec
       | None \<Rightarrow> act_return None),
     cp_confirmReplacement = (\<lambda>r.
       if cr_sourceId r \<noteq> sourceId
       then scope_error ''replacement credentials belong to a different selected folder''
       else cp_confirmReplacement inner r),
     cp_revoke = cp_revoke inner\<rparr>"

section \<open>The source\<close>

text \<open>What \<open>createFolderSource\<close> composes for a canonical root and a state directory that are in
  place: the descriptor, and the options of the core.\<close>

record folder_options =
  fo_credentials :: "folder_world custody_port"
  fo_clientVersion :: "jsstr option"
  fo_syncSchemaVersion :: "js_num option"
  fo_pairedAt :: js_num
  fo_ui :: "(interaction_event \<Rightarrow> unit folder_act) option"
  fo_now :: "js_num folder_act"
  fo_sched :: "nat \<Rightarrow> nat"

definition folder_descriptor :: "abs_path \<Rightarrow> folder_options \<Rightarrow> source_error + source_descriptor" where
  "folder_descriptor base options = createSourceDescriptor \<lparr>
     di_sourceKind = JStr (lit ''folder''),
     di_label = JStr (last base),
     di_capabilities = JArr [JStr (lit ''markdown''), JStr (lit ''watch'')],
     di_clientVersion = JStr (case fo_clientVersion options of Some v \<Rightarrow> v | None \<Rightarrow> lit ''mdevolved-folder-alpha''),
     di_syncSchemaVersion = JNum (case fo_syncSchemaVersion options of Some v \<Rightarrow> v | None \<Rightarrow> Fin 1),
     di_provenance = JObj [(''pairedAt'', JNum (fo_pairedAt options))]\<rparr>"

definition folder_core_options ::
  "(jsstr \<Rightarrow> jsstr) \<Rightarrow> folder_files \<Rightarrow> folder_options \<Rightarrow> source_descriptor \<Rightarrow> folder_world core_options" where
  "folder_core_options sha256_text nf options descriptor = \<lparr>
     co_descriptor = Some descriptor,
     co_files = NodeFolderFiles nf,
     co_state = FileStateStore,
     co_credentials = scoped_custody (sourceIdentityForCanonicalRoot sha256_text (nf_root nf)) (fo_credentials options),
     co_ui = fo_ui options, co_now = fo_now options, co_text = nf_text nf, co_sched = fo_sched options\<rparr>"

definition createFolderSource ::
  "(jsstr \<Rightarrow> jsstr) \<Rightarrow> folder_files \<Rightarrow> folder_options \<Rightarrow> folder_world core_options folder_act" where
  "createFolderSource sha256_text nf options =
     act_bind (cp_get (fo_credentials options)) (\<lambda>credential.
     if (case credential of
           Some r \<Rightarrow> cr_sourceId r \<noteq> sourceIdentityForCanonicalRoot sha256_text (nf_root nf) | None \<Rightarrow> False)
     then scope_error ''protected credentials belong to a different selected folder''
     else act_bind (act_of (folder_descriptor (nf_root nf) options)) (\<lambda>d.
          act_return (folder_core_options sha256_text nf options d)))"

end
