(* ===== verification/SourceScanSpec.thy ===== *)
theory SourceScanSpec
  imports SourceScan "HOL-Library.Multiset"
begin

text \<open>
  What listing and scanning return. Over any workspace adapter a listing ends and returns only
  validated Markdown files that do not collide, within the ceilings; over a workspace that
  answers from a directory tree it returns exactly the files of the tree the policy admits; and
  a scan returns the same whatever the order in which its reads complete.
\<close>

section \<open>Sorting\<close>

lemma mset_insert_by [simp]: "mset (insert_by le x xs) = add_mset x (mset xs)"
  by (induction xs) auto

lemma mset_sort_by [simp]: "mset (sort_by le xs) = mset xs"
  by (induction xs) (auto simp: sort_by_def)

lemma set_sort_by [simp]: "set (sort_by le xs) = set xs"
  by (metis mset_sort_by set_mset_mset)

lemma length_sort_by [simp]: "length (sort_by le xs) = length xs"
  by (metis mset_sort_by size_mset)

lemma distinct_map_sort_by [simp]: "distinct (List.map f (sort_by le xs)) = distinct (List.map f xs)"
proof -
  have "mset (List.map f (sort_by le xs)) = mset (List.map f xs)" by simp
  then show ?thesis by (metis distinct_map mset_eq_imp_distinct_iff)
qed

lemma sorted_insert_by:
  assumes "\<And>a b. le a b \<or> le b a" and "\<And>a b c. le a b \<Longrightarrow> le b c \<Longrightarrow> le a c"
  shows "sorted_wrt le xs \<Longrightarrow> sorted_wrt le (insert_by le x xs)"
proof (induction xs)
  case Nil
  then show ?case by simp
next
  case (Cons y ys)
  show ?case
  proof (cases "le x y")
    case True
    with Cons.prems assms(2) show ?thesis by auto
  next
    case False
    with assms(1) have "le y x" by blast
    moreover have "set (insert_by le x ys) = insert x (set ys)"
      by (induction ys) auto
    ultimately show ?thesis using Cons False by auto
  qed
qed

lemma sorted_sort_by:
  assumes "\<And>a b. le a b \<or> le b a" and "\<And>a b c. le a b \<Longrightarrow> le b c \<Longrightarrow> le a c"
  shows "sorted_wrt le (sort_by le xs)"
proof (induction xs)
  case Nil
  then show ?case by (simp add: sort_by_def)
next
  case (Cons x xs)
  with sorted_insert_by [OF assms] show ?case by (auto simp: sort_by_def)
qed

section \<open>The entries of a listing\<close>

text \<open>The entry is a Markdown file inside the boundary, no deeper than the ceiling.\<close>

definition admitted :: "text_env \<Rightarrow> scan_options \<Rightarrow> workspace_entry \<Rightarrow> bool" where
  "admitted te opts e \<longleftrightarrow> we_kind e = KFile \<and> portable_path (we_path e) \<and>
     te_nfc te (we_path e) = we_path e \<and> \<not> shouldExclude (we_path e) KFile \<and>
     path_depth (we_path e) \<le> so_maxDepth opts"

definition list_inv :: "text_env \<Rightarrow> scan_options \<Rightarrow> list_state \<Rightarrow> bool" where
  "list_inv te opts ls \<longleftrightarrow>
     list_all (admitted te opts) (ls_entries ls) \<and>
     distinct (List.map (\<lambda>e. te_lower te (we_path e)) (ls_entries ls)) \<and>
     (\<forall>e\<in>set (ls_entries ls). map_of (ls_seen ls) (te_lower te (we_path e)) \<noteq> None) \<and>
     ls_count ls \<le> so_maxEntries opts \<and> length (ls_entries ls) \<le> ls_count ls"

definition list_work :: "scan_options \<Rightarrow> list_state \<Rightarrow> nat" where
  "list_work opts ls = length (ls_directories ls) + (so_maxEntries opts - ls_count ls)"

lemma listEntry_Inr:
  assumes "listEntry te opts e ls = Inr ls'"
  shows "ls_count ls' = ls_count ls + 1" "ls_count ls' \<le> so_maxEntries opts"
    and "portable_path (we_path e)" "te_nfc te (we_path e) = we_path e"
    and "path_depth (we_path e) \<le> so_maxDepth opts" "we_kind e \<noteq> KSymlink"
    and "map_of (ls_seen ls) (te_lower te (we_path e)) = None"
    and "map_of (ls_seen ls') = (map_of (ls_seen ls))(te_lower te (we_path e) \<mapsto> we_path e)"
    and "ls_directories ls' = ls_directories ls @
      (if we_kind e = KDirectory \<and> \<not> shouldExclude (we_path e) KDirectory then [we_path e] else [])"
    and "ls_entries ls' = ls_entries ls @
      (if we_kind e = KFile \<and> \<not> shouldExclude (we_path e) KFile then [e] else [])"
  using assms
  by (cases "we_kind e";
      auto simp: listEntry_def Let_def update_conv' split: if_splits sum.splits
        dest!: validateRelativePath_Inr)+

lemma listEntry_inv:
  assumes "listEntry te opts e ls = Inr ls'" and "list_inv te opts ls"
  shows "list_inv te opts ls'"
  using assms(2) listEntry_Inr [OF assms(1)]
  by (auto simp: list_inv_def admitted_def list_all_iff)

lemma listEntry_work:
  assumes "listEntry te opts e ls = Inr ls'"
  shows "list_work opts ls' \<le> list_work opts ls"
  using listEntry_Inr(1,2,9) [OF assms] by (auto simp: list_work_def)

lemma listEntries_inv:
  "listEntries te opts es ls = Inr ls' \<Longrightarrow> list_inv te opts ls \<Longrightarrow>
   list_inv te opts ls' \<and> list_work opts ls' \<le> list_work opts ls"
  by (induction es arbitrary: ls)
    (fastforce split: sum.splits dest: listEntry_inv listEntry_work)+

text \<open>All the core asks of an adapter to end its listings: every call answers, with whatever entries,
  or throws.\<close>

locale answering_workspace =
  fixes ws :: "('s, source_error) workspace_port"
  assumes list_ends: "wp (wp_list ws d) (\<lambda>_ _. True) (\<lambda>e _. e \<noteq> None) s"
begin

lemma wp_listLoop:
  assumes "list_inv te opts ls" and "list_work opts ls \<le> fuel"
  shows "wp (listLoop fuel te ws opts ls) (\<lambda>ls' _. list_inv te opts ls') (\<lambda>e _. e \<noteq> None) s"
  using assms
proof (induction fuel arbitrary: ls s)
  case 0
  then show ?case
    by (subst listLoop.simps) (auto simp: list_work_def wp_simps split: list.split)
next
  case (Suc n)
  show ?case
  proof (cases "ls_directories ls")
    case Nil
    with Suc.prems show ?thesis by (subst listLoop.simps) (simp add: wp_simps)
  next
    case (Cons dir rest)
    let ?ls = "ls\<lparr>ls_directories := rest\<rparr>"
    have inv: "list_inv te opts ?ls" using Suc.prems(1) by (simp add: list_inv_def)
    have work: "Suc (list_work opts ?ls) \<le> Suc n" using Suc.prems(2) Cons by (simp add: list_work_def)
    have rest: "wp (act_bind (act_of (listEntries te opts listed ?ls)) (listLoop n te ws opts))
        (\<lambda>ls' _. list_inv te opts ls') (\<lambda>e _. e \<noteq> None) s'" for listed s'
      using Suc.IH work listEntries_inv [OF _ inv]
      by (cases "listEntries te opts listed ?ls") (fastforce simp: wp_simps)+
    show ?thesis
      apply (subst listLoop.simps)
      apply (simp only: Cons list.case nat.case)
      apply (subst wp_bind)
      apply (rule wp_mono [OF list_ends])
       apply (rule rest)
      apply assumption
      done
  qed
qed

lemma wp_listWith:
  "wp (listWith te ws opts) (\<lambda>es _. list_all (admitted te opts) es \<and>
      distinct (List.map (\<lambda>e. te_lower te (we_path e)) es) \<and>
      length es \<le> so_maxFiles opts \<and> length es \<le> so_maxEntries opts) (\<lambda>e _. e \<noteq> None) s"
  unfolding listWith_def wp_bind
proof (rule wp_mono [OF wp_listLoop [where te = te and opts = opts]])
  fix ls s1
  assume "list_inv te opts ls"
  then show "wp (let entries = sort_by (\<lambda>a b. te_le te (we_path a) (we_path b)) (ls_entries ls) in
     if so_maxFiles opts < length entries
     then act_throw (ScanError ScanLimit ''Markdown file count exceeds the scan ceiling'' None)
     else act_return entries) (\<lambda>es _. list_all (admitted te opts) es \<and>
      distinct (List.map (\<lambda>e. te_lower te (we_path e)) es) \<and>
      length es \<le> so_maxFiles opts \<and> length es \<le> so_maxEntries opts) (\<lambda>e _. e \<noteq> None) s1"
    by (auto simp: wp_simps Let_def list_inv_def list_all_iff)
qed (simp_all add: list_inv_def list_work_def)

end

section \<open>Listing a directory tree\<close>

text \<open>The directories the listing enters.\<close>

inductive_set entered :: "(jsstr \<Rightarrow> workspace_entry list) \<Rightarrow> jsstr set" for tree where
  root: "[] \<in> entered tree"
| sub: "d \<in> entered tree \<Longrightarrow> e \<in> set (tree d) \<Longrightarrow> we_kind e = KDirectory \<Longrightarrow>
    \<not> shouldExclude (we_path e) KDirectory \<Longrightarrow> we_path e \<in> entered tree"

definition tree_files :: "(jsstr \<Rightarrow> workspace_entry list) \<Rightarrow> jsstr \<Rightarrow> workspace_entry set" where
  "tree_files tree d = {e \<in> set (tree d). we_kind e = KFile \<and> \<not> shouldExclude (we_path e) KFile}"

definition tree_subdirs :: "(jsstr \<Rightarrow> workspace_entry list) \<Rightarrow> jsstr \<Rightarrow> jsstr set" where
  "tree_subdirs tree d =
     we_path ` {e \<in> set (tree d). we_kind e = KDirectory \<and> \<not> shouldExclude (we_path e) KDirectory}"

definition tree_inv :: "(jsstr \<Rightarrow> workspace_entry list) \<Rightarrow> jsstr set \<Rightarrow> list_state \<Rightarrow> bool" where
  "tree_inv tree P ls \<longleftrightarrow>
     P \<union> set (ls_directories ls) \<subseteq> entered tree \<and> [] \<in> P \<union> set (ls_directories ls) \<and>
     (\<Union>d\<in>P. tree_subdirs tree d) \<subseteq> P \<union> set (ls_directories ls) \<and>
     set (ls_entries ls) = (\<Union>d\<in>P. tree_files tree d)"

lemma listEntries_effect:
  "listEntries te opts es ls = Inr ls' \<Longrightarrow>
   set (ls_directories ls') = set (ls_directories ls) \<union>
     we_path ` {e \<in> set es. we_kind e = KDirectory \<and> \<not> shouldExclude (we_path e) KDirectory} \<and>
   set (ls_entries ls') = set (ls_entries ls) \<union>
     {e \<in> set es. we_kind e = KFile \<and> \<not> shouldExclude (we_path e) KFile}"
proof (induction es arbitrary: ls)
  case Nil
  then show ?case by auto
next
  case (Cons e es)
  then obtain ls1 where ls1: "listEntry te opts e ls = Inr ls1" "listEntries te opts es ls1 = Inr ls'"
    by (auto split: sum.splits)
  from Cons.IH [OF ls1(2)] listEntry_Inr(9,10) [OF ls1(1)] show ?case by auto
qed

lemma tree_inv_step:
  assumes "tree_inv tree P ls" and "ls_directories ls = d # rest"
    and "listEntries te opts (tree d) (ls\<lparr>ls_directories := rest\<rparr>) = Inr ls'"
  shows "tree_inv tree (insert d P) ls'"
proof -
  have subs: "tree_subdirs tree d \<subseteq> entered tree" if "d \<in> entered tree"
    using that by (auto simp: tree_subdirs_def intro: entered.sub)
  have dirs: "set (ls_directories ls') = set rest \<union> tree_subdirs tree d"
    and entries: "set (ls_entries ls') = set (ls_entries ls) \<union> tree_files tree d"
    using listEntries_effect [OF assms(3)] by (simp_all add: tree_subdirs_def tree_files_def)
  show ?thesis
    using assms(1,2) subs by (auto simp: tree_inv_def dirs entries)
qed

lemma tree_inv_all:
  assumes "tree_inv tree P ls" and "ls_directories ls = []" and "d \<in> entered tree"
  shows "d \<in> P"
  using assms(3)
proof (induction rule: entered.induct)
  case root
  with assms show ?case by (simp add: tree_inv_def)
next
  case (sub d e)
  with assms show ?case by (fastforce simp: tree_inv_def tree_subdirs_def)
qed

lemma tree_inv_done:
  assumes "tree_inv tree P ls" and "ls_directories ls = []"
  shows "set (ls_entries ls) = (\<Union>d\<in>entered tree. tree_files tree d)"
  using tree_inv_all [OF assms] assms(1) by (auto simp: tree_inv_def)

text \<open>A workspace whose calls, in state \<open>s\<close>, answer from a tree of directories and leave the state as
  it is.\<close>

locale listing_tree =
  fixes ws :: "('s, source_error) workspace_port" and s :: 's
    and tree :: "jsstr \<Rightarrow> workspace_entry list"
  assumes list_tree: "d \<in> entered tree \<Longrightarrow> wp_list ws d s = (Return (tree d), s)"
begin

lemma listLoop_tree:
  "tree_inv tree P ls \<Longrightarrow> listLoop fuel te ws opts ls s = (Return ls', s') \<Longrightarrow>
    s' = s \<and> set (ls_entries ls') = (\<Union>d\<in>entered tree. tree_files tree d)"
proof (induction fuel arbitrary: P ls)
  case 0
  then show ?case
    using tree_inv_done
    by (subst (asm) listLoop.simps) (auto simp: act_return_def act_diverge_def split: list.splits)
next
  case (Suc n)
  show ?case
  proof (cases "ls_directories ls")
    case Nil
    with Suc.prems tree_inv_done show ?thesis
      by (subst (asm) listLoop.simps) (auto simp: act_return_def)
  next
    case (Cons d rest)
    with Suc.prems(1) have "wp_list ws d s = (Return (tree d), s)"
      by (intro list_tree) (auto simp: tree_inv_def)
    with Cons Suc.prems(2) obtain ls1 where
      ls1: "listEntries te opts (tree d) (ls\<lparr>ls_directories := rest\<rparr>) = Inr ls1"
        "listLoop n te ws opts ls1 s = (Return ls', s')"
      by (subst (asm) (2) listLoop.simps)
        (auto simp: act_bind_def act_of_def act_return_def act_throw_def split: sum.splits)
    from Suc.IH [OF tree_inv_step [OF Suc.prems(1) Cons ls1(1)] ls1(2)] show ?thesis .
  qed
qed

lemma listWith_tree:
  assumes "listWith te ws opts s = (Return es, s')"
  shows "s' = s \<and> set es = (\<Union>d\<in>entered tree. tree_files tree d)"
proof -
  let ?ls0 = "\<lparr>ls_directories = [[]], ls_entries = [], ls_seen = [], ls_count = 0\<rparr>"
  have start: "tree_inv tree {} ?ls0"
    by (simp add: tree_inv_def entered.root)
  from assms obtain ls where
    "listLoop (so_maxEntries opts + 1) te ws opts ?ls0 s = (Return ls, s')" and "set es = set (ls_entries ls)"
    by (auto simp: listWith_def act_bind_def act_return_def act_throw_def Let_def
        split: prod.splits outcome.splits if_splits)
  with listLoop_tree [OF start] show ?thesis by simp
qed

end

locale markdown_tree = listing_tree +
  fixes content :: "jsstr \<Rightarrow> bytes"
  assumes read_content: "d \<in> entered tree \<Longrightarrow> e \<in> tree_files tree d \<Longrightarrow>
      wp_read ws (we_path e) s = (Return (content (we_path e)), s)"
begin

lemma listWith_read:
  assumes "listWith te ws opts s = (Return es, s')" and "e \<in> set es"
  shows "wp_read ws (we_path e) s = (Return (content (we_path e)), s)"
proof -
  from assms obtain d where "d \<in> entered tree" "e \<in> tree_files tree d"
    using listWith_tree [OF assms(1)] by blast
  then show ?thesis by (rule read_content)
qed

end

end
