(* ===== verification/FolderSpec.thy ===== *)
theory FolderSpec
  imports FolderAdapter SourceScanSpec
begin

text \<open>
  Facts about the folder adapter: which paths lie inside the selected folder, what path
  resolution returns, and what each call of \<open>NodeFolderFiles\<close> reads and changes.
\<close>

section \<open>Paths inside the folder\<close>

lemma takeWhile_zip_prefix: "take (length (takeWhile (\<lambda>(x, y). x = y) (zip a b))) b =
    take (length (takeWhile (\<lambda>(x, y). x = y) (zip a b))) a"
proof (induction a arbitrary: b)
  case (Cons x a)
  then show ?case by (cases b) auto
qed simp

lemma common_prefix_append [simp]: "common_prefix_length p (p @ r) = length p"
  by (induction p) (auto simp: common_prefix_length_def)

lemma common_prefix_le: "common_prefix_length a b \<le> length a"
  unfolding common_prefix_length_def
  by (metis length_takeWhile_le length_zip min.boundedE)

lemma relative_append [simp]: "relative_path p (p @ r) = r"
  by (simp add: relative_path_def)

lemma relative_self [simp]: "relative_path p p = []"
  using relative_append [of p "[]"] by simp

lemma isPathInside_prefix: "isPathInside p q \<Longrightarrow> \<exists>r. q = p @ r"
proof -
  assume inside: "isPathInside p q"
  have "common_prefix_length p q = length p"
  proof (rule ccontr)
    assume "common_prefix_length p q \<noteq> length p"
    then have "length p - common_prefix_length p q \<noteq> 0" using common_prefix_le [of p q] by simp
    then obtain k where "length p - common_prefix_length p q = Suc k" by (cases "length p - common_prefix_length p q") auto
    with inside show False by (simp add: isPathInside_def relative_path_def Let_def)
  qed
  then have "take (length p) q = p"
    using takeWhile_zip_prefix [of p q] by (simp add: common_prefix_length_def)
  then show ?thesis by (metis append_take_drop_id)
qed

lemma isPathInside_append: "lit ''..'' \<notin> set r \<Longrightarrow> isPathInside p (p @ r)"
  by (cases r) (auto simp: isPathInside_def Let_def)

section \<open>Path resolution\<close>

text \<open>A real path: its directories are directories and its last entry is no link.\<close>

definition real_path :: "fs_tree \<Rightarrow> abs_path \<Rightarrow> bool" where
  "real_path t q \<longleftrightarrow> (\<forall>i<length q. case map_of t (take (Suc i) q) of
      Some (FsDir _) \<Rightarrow> True | Some (FsLink _) \<Rightarrow> False | Some _ \<Rightarrow> Suc i = length q | None \<Rightarrow> False)"

definition real_dir :: "fs_tree \<Rightarrow> abs_path \<Rightarrow> bool" where
  "real_dir t q \<longleftrightarrow> (\<forall>i<length q. \<exists>m. map_of t (take (Suc i) q) = Some (FsDir m))"

lemma real_dir_Nil [simp]: "real_dir t []"
  by (simp add: real_dir_def)

lemma real_path_Nil [simp]: "real_path t []"
  by (simp add: real_path_def)

lemma real_dir_snoc [simp]:
  "real_dir t (p @ [s]) \<longleftrightarrow> real_dir t p \<and> (\<exists>m. map_of t (p @ [s]) = Some (FsDir m))"
  by (auto simp: real_dir_def less_Suc_eq all_conj_distrib)

lemma real_dir_path: "real_dir t p \<Longrightarrow> real_path t p"
  by (force simp: real_dir_def real_path_def)

lemma real_path_snoc:
  "real_path t (p @ [s]) \<longleftrightarrow> real_dir t p \<and> (\<exists>n. map_of t (p @ [s]) = Some n \<and> \<not> is_link n)"
proof -
  have "(case map_of t (take (Suc i) (p @ [s])) of Some (FsDir _) \<Rightarrow> True | Some (FsLink _) \<Rightarrow> False
      | Some _ \<Rightarrow> Suc i = length (p @ [s]) | None \<Rightarrow> False) \<longleftrightarrow>
      (\<exists>m. map_of t (take (Suc i) p) = Some (FsDir m))" if "i < length p" for i
    using that by (auto split: option.splits fs_node.splits)
  moreover have "(case map_of t (take (Suc (length p)) (p @ [s])) of Some (FsDir _) \<Rightarrow> True | Some (FsLink _) \<Rightarrow> False
      | Some _ \<Rightarrow> Suc (length p) = length (p @ [s]) | None \<Rightarrow> False) \<longleftrightarrow>
      (\<exists>n. map_of t (p @ [s]) = Some n \<and> \<not> is_link n)"
    by (auto simp: is_link_def split: option.splits fs_node.splits)
  ultimately show ?thesis
    unfolding real_path_def real_dir_def
    by (auto simp: less_Suc_eq)
qed

lemma canon_real:
  "canon n t acc p = Inr q \<Longrightarrow> real_dir t acc \<Longrightarrow> real_path t q"
proof (induction n t acc p rule: canon.induct)
  case (1 n t acc)
  then show ?case by (simp add: real_dir_path)
next
  case (2 n t acc s rest)
  then show ?case
    by (auto split: option.splits fs_node.splits nat.splits if_splits
        simp: real_path_snoc is_link_def)
qed

lemma canon_of_real:
  "real_dir t acc \<Longrightarrow> real_path t (acc @ p) \<Longrightarrow> canon n t acc p = Inr (acc @ p)"
proof (induction p arbitrary: acc)
  case (Cons s rest)
  have step: "case map_of t (acc @ [s]) of Some (FsDir _) \<Rightarrow> True | Some (FsLink _) \<Rightarrow> False
      | Some _ \<Rightarrow> Suc (length acc) = length (acc @ s # rest) | None \<Rightarrow> False"
    using Cons.prems(2) [unfolded real_path_def, rule_format, of "length acc"] by simp
  with Cons show ?case by (auto split: option.splits fs_node.splits)
qed simp

lemma realpath_real: "realpath_of t p = Inr q \<Longrightarrow> real_path t q"
  unfolding realpath_of_def by (erule canon_real) simp

lemma realpath_of_real: "real_path t p \<Longrightarrow> realpath_of t p = Inr p"
  using canon_of_real [of t "[]" p] by (simp add: realpath_of_def)

text \<open>Resolution only looks at entries that are there, so more entries do not change it.\<close>

lemma canon_mono:
  "canon n t acc p = Inr q \<Longrightarrow> (\<And>k v. map_of t k = Some v \<Longrightarrow> map_of t' k = Some v) \<Longrightarrow>
   canon n t' acc p = Inr q"
  by (induction n t acc p rule: canon.induct)
    (auto split: option.splits fs_node.splits nat.splits if_splits)

lemma entry_of_real: "real_dir t d \<Longrightarrow> entry_of t (d @ [s]) = Inr (d @ [s])"
  by (simp add: entry_of_def realpath_of_real real_dir_path)

lemma lstat_of_real:
  "real_dir t d \<Longrightarrow> lstat_of t (d @ [s]) = (case map_of t (d @ [s]) of None \<Rightarrow> Inl ENOENT | Some n \<Rightarrow> Inr n)"
  by (simp add: lstat_of_def entry_of_real)

lemma real_dir_mono:
  "real_dir t p \<Longrightarrow> (\<And>k v. map_of t k = Some v \<Longrightarrow> map_of t' k = Some v) \<Longrightarrow> real_dir t' p"
  unfolding real_dir_def by blast

section \<open>Calls that only look\<close>

definition same_disk :: "folder_world \<Rightarrow> folder_world \<Rightarrow> bool" where
  "same_disk w w' \<longleftrightarrow> fw_tree w' = fw_tree w \<and> fw_docs w' = fw_docs w \<and> fw_credential w' = fw_credential w \<and>
     fw_uuids w' = fw_uuids w"

lemma same_disk_refl [simp]: "same_disk w w"
  by (simp add: same_disk_def)

lemma same_disk_trans: "same_disk w w1 \<Longrightarrow> same_disk w1 w2 \<Longrightarrow> same_disk w w2"
  by (simp add: same_disk_def)

lemma wp_look:
  "wp (fs_call (\<lambda>t. (r t, t))) (\<lambda>x w'. same_disk w w' \<and> r (fw_tree w) = Inr x) (\<lambda>_. same_disk w) w"
  by (auto simp: wp_simps same_disk_def split: list.split option.split sum.split)

lemma wp_lstatSafe:
  "wp (lstatSafe p) (\<lambda>n w'. same_disk w w' \<and> (\<forall>x. n = Some x \<longrightarrow> lstat_of (fw_tree w) p = Inr x))
     (\<lambda>_. same_disk w) w"
  unfolding lstatSafe_def fs_lstat_def
  by (auto simp: wp_simps same_disk_def split: list.split option.split sum.split)

lemma wp_raw_lstatSafe:
  "wp (raw_fs (lstatSafe p)) (\<lambda>n w'. same_disk w w' \<and> (\<forall>x. n = Some x \<longrightarrow> lstat_of (fw_tree w) p = Inr x))
     (\<lambda>_. same_disk w) w"
  unfolding raw_fs_def wp_map_error by (rule wp_mono [OF wp_lstatSafe]) auto

lemma wp_lstatWorkspace:
  "wp (lstatWorkspace p msg) (\<lambda>n w'. same_disk w w' \<and> (\<forall>x. n = Some x \<longrightarrow> lstat_of (fw_tree w) p = Inr x))
     (\<lambda>_. same_disk w) w"
  unfolding lstatWorkspace_def with_code_def wp_map_error by (rule wp_mono [OF wp_lstatSafe]) auto

lemma wp_assertRealPathInside:
  "wp (assertRealPathInside base p)
     (\<lambda>_ w'. same_disk w w' \<and> (\<exists>r. realpath_of (fw_tree w) p = Inr (base @ r))) (\<lambda>_. same_disk w) w"
  unfolding assertRealPathInside_def with_code_def fs_realpath_def wp_bind wp_map_error
  by (rule wp_mono [OF wp_look])
    (auto simp: wp_simps dest: isPathInside_prefix)

lemma absolute_Inr:
  assumes "absolute nf allowRoot p = Inr a"
  shows "a = nf_root nf @ (if p = [] then [] else split_on 47 p)"
    and "p \<noteq> [] \<Longrightarrow> portable_path p \<and> te_nfc (nf_text nf) p = p \<and> \<not> hasExcludedComponent p \<and> \<not> isSecretShaped p"
  using assms validateRelativePath_Inr [of "te_nfc (nf_text nf)" p]
  by (auto simp: absolute_def assertPortablePath_def assertAllowedPath_def Let_def as_folder_error_def
      split: if_splits sum.splits)

section \<open>Reading\<close>

text \<open>A read returns the bytes of a regular file whose real path is inside the folder, and that was
  no larger than the ceiling when inspected.\<close>

definition read_from :: "folder_files \<Rightarrow> fs_tree \<Rightarrow> jsstr \<Rightarrow> bytes \<Rightarrow> bool" where
  "read_from nf t p bs \<longleftrightarrow> \<not> shouldExclude p KFile \<and> portable_path p \<and>
     (\<exists>r m. realpath_of t (nf_root nf @ split_on 47 p) = Inr (nf_root nf @ r) \<and>
        real_path t (nf_root nf @ r) \<and> map_of t (nf_root nf @ r) = Some (FsFile bs m))"

lemma assertMarkdownPath_Inr:
  "assertMarkdownPath nfc p = Inr path \<Longrightarrow> path = p \<and> \<not> shouldExclude p KFile \<and> portable_path p"
  using validateRelativePath_Inr [of nfc p path]
  by (auto simp: assertMarkdownPath_def validateMarkdownPath_Inr split: sum.splits)

lemma wp_read_bytes:
  assumes "same_disk w w1" and "\<not> shouldExclude p KFile" "portable_path p"
  shows "wp (act_bind (assertRealPathInside (nf_root nf) (nf_root nf @ split_on 47 p)) (\<lambda>_.
      with_code msg p (fs_readFile (nf_root nf @ split_on 47 p))))
    (\<lambda>bs w'. same_disk w w' \<and> read_from nf (fw_tree w) p bs) (\<lambda>_. same_disk w) w1"
  unfolding wp_bind
proof (rule wp_mono [OF wp_assertRealPathInside])
  fix x w2
  assume inside: "same_disk w1 w2 \<and> (\<exists>r. realpath_of (fw_tree w1) (nf_root nf @ split_on 47 p) = Inr (nf_root nf @ r))"
  show "wp (with_code msg p (fs_readFile (nf_root nf @ split_on 47 p)))
      (\<lambda>bs w'. same_disk w w' \<and> read_from nf (fw_tree w) p bs) (\<lambda>_. same_disk w) w2"
    unfolding with_code_def fs_readFile_def wp_map_error
    by (rule wp_mono [OF wp_look])
      (use inside assms realpath_real [of "fw_tree w" "nf_root nf @ split_on 47 p"] in
        \<open>auto simp: same_disk_def read_from_def readFile_of_def split: option.splits fs_node.splits\<close>)
qed (use assms in \<open>auto intro: same_disk_trans\<close>)

lemma wp_files_read:
  "wp (files_read nf p) (\<lambda>bs w'. same_disk w w' \<and> read_from nf (fw_tree w) p bs) (\<lambda>_. same_disk w) w"
proof -
  let ?k = "\<lambda>path a stats. case stats of
       Some (FsFile bs _) \<Rightarrow>
         if nf_maxFileBytes nf < length bs
         then act_throw (ScanError ScanLimit ''file exceeds the size ceiling'' (Some path))
         else act_bind (assertRealPathInside (nf_root nf) a) (\<lambda>_.
              with_code ''could not read source file'' path (fs_readFile a))
     | _ \<Rightarrow> act_throw (FolderError FolderReadFailed ''source file is unavailable'' (Some path))"
  let ?G = "\<lambda>bs w'. same_disk w w' \<and> read_from nf (fw_tree w) p bs"
  have body: "wp (act_bind (lstatWorkspace a ''could not inspect source file'') (?k path a)) ?G (\<lambda>_. same_disk w) w"
    if path: "assertMarkdownPath (te_nfc (nf_text nf)) p = Inr path" and a: "absolute nf False path = Inr a" for path a
    unfolding wp_bind
  proof (rule wp_mono [OF wp_lstatWorkspace])
    note md = assertMarkdownPath_Inr [OF path]
    have a_eq: "a = nf_root nf @ split_on 47 p"
      using absolute_Inr(1) [OF a] md by (auto simp: portable_path_def)
    fix stats w1
    assume "same_disk w w1 \<and> (\<forall>x. stats = Some x \<longrightarrow> lstat_of (fw_tree w) a = Inr x)"
    with md wp_read_bytes [of w w1 p nf] show "wp (?k path a stats) ?G (\<lambda>_. same_disk w) w1"
      by (auto simp: wp_throw a_eq split: option.split fs_node.split)
  qed auto
  then show ?thesis
    unfolding files_read_def
    by (subst wp_bind, subst wp_of) (auto simp: wp_bind [of "act_of _"] wp_of split: sum.split)
qed

section \<open>Writing\<close>

text \<open>The tree grew only by directories along the path \<open>p\<close>, below its first \<open>k\<close> names.\<close>

definition grown :: "nat \<Rightarrow> abs_path \<Rightarrow> fs_tree \<Rightarrow> fs_tree \<Rightarrow> bool" where
  "grown k p t t' \<longleftrightarrow> (\<forall>q. map_of t' q = map_of t q \<or>
     (map_of t q = None \<and> (\<exists>i>k. i \<le> length p \<and> q = take i p) \<and> (\<exists>m. map_of t' q = Some (FsDir m))))"

definition same_rest :: "folder_world \<Rightarrow> folder_world \<Rightarrow> bool" where
  "same_rest w w' \<longleftrightarrow> fw_docs w' = fw_docs w \<and> fw_credential w' = fw_credential w"

lemma grown_refl [simp]: "grown k p t t"
  by (simp add: grown_def)

lemma grown_trans: "grown k p t t1 \<Longrightarrow> grown k p t1 t2 \<Longrightarrow> grown k p t t2"
  unfolding grown_def by metis

lemma grown_keeps: "grown k p t t' \<Longrightarrow> map_of t q = Some v \<Longrightarrow> map_of t' q = Some v"
  unfolding grown_def by (metis option.distinct(1))

lemma same_disk_rest: "same_disk w w' \<Longrightarrow> same_rest w w'"
  by (simp add: same_disk_def same_rest_def)

lemma same_rest_refl [simp]: "same_rest w w"
  by (simp add: same_rest_def)

lemma same_rest_trans: "same_rest w w1 \<Longrightarrow> same_rest w1 w2 \<Longrightarrow> same_rest w w2"
  by (simp add: same_rest_def)

text \<open>A call that changes the tree by \<open>f\<close>.\<close>

lemma wp_change:
  "wp (fs_call f)
     (\<lambda>x w'. same_rest w w' \<and> fw_uuids w' = fw_uuids w \<and> fst (f (fw_tree w)) = Inr x \<and>
        fw_tree w' = snd (f (fw_tree w)))
     (\<lambda>_ w'. same_rest w w' \<and> fw_uuids w' = fw_uuids w \<and>
        (fw_tree w' = fw_tree w \<or> (\<exists>e. fst (f (fw_tree w)) = Inl e) \<and> fw_tree w' = snd (f (fw_tree w)))) w"
  by (auto simp: wp_simps same_rest_def split: list.split option.split sum.split prod.split)

definition grown_world :: "nat \<Rightarrow> abs_path \<Rightarrow> folder_world \<Rightarrow> folder_world \<Rightarrow> bool" where
  "grown_world k p w w' \<longleftrightarrow> grown k p (fw_tree w) (fw_tree w') \<and> same_rest w w' \<and> fw_uuids w' = fw_uuids w"

lemma grown_world_refl [simp]: "grown_world k p w w"
  by (simp add: grown_world_def)

lemma grown_world_trans: "grown_world k p w w1 \<Longrightarrow> grown_world k p w1 w2 \<Longrightarrow> grown_world k p w w2"
  by (auto simp: grown_world_def intro: grown_trans same_rest_trans)

lemma same_disk_grown: "same_disk w w' \<Longrightarrow> grown_world k p w w'"
  by (simp add: grown_world_def same_disk_rest) (simp add: same_disk_def)

lemma grown_world_same: "grown_world k p w w1 \<Longrightarrow> same_disk w1 w2 \<Longrightarrow> grown_world k p w w2"
  by (blast intro: grown_world_trans same_disk_grown)

lemma same_disk_tree: "same_disk w w' \<Longrightarrow> fw_tree w' = fw_tree w"
  by (simp add: same_disk_def)

lemma wp_mkdir:
  assumes "real_dir (fw_tree w) d" and "k \<le> length d"
  shows "wp (raw_fs (fs_mkdir (d @ [s]))) (\<lambda>_. grown_world k (d @ s # r) w) (\<lambda>_. grown_world k (d @ s # r) w) w"
proof -
  have new: "grown k (d @ s # r) t t'" if t': "t' = (d @ [s], FsDir (Fin 0)) # t" and "map_of t (d @ [s]) = None" for t t'
    unfolding grown_def t'
  proof (rule allI, cases)
    fix q
    assume "q = d @ [s]"
    moreover have "take (Suc (length d)) (d @ s # r) = d @ [s]" by simp
    ultimately show "map_of ((d @ [s], FsDir (Fin 0)) # t) q = map_of t q \<or>
        (map_of t q = None \<and> (\<exists>i>k. i \<le> length (d @ s # r) \<and> q = take i (d @ s # r)) \<and>
         (\<exists>m. map_of ((d @ [s], FsDir (Fin 0)) # t) q = Some (FsDir m)))"
      using that(2) assms(2) by (auto intro!: exI [of _ "Suc (length d)"])
  qed auto
  show ?thesis
    unfolding raw_fs_def fs_mkdir_def wp_map_error
    by (rule wp_mono [OF wp_change])
      (use assms in \<open>auto simp: grown_world_def create_node_def entry_of_real intro: new split: if_splits\<close>)
qed

lemma wp_ensure_parents:
  assumes "real_dir (fw_tree w) cursor" and "k \<le> length cursor"
  shows "wp (ensure_parents nf path cursor segs)
     (\<lambda>_ w'. grown_world k (cursor @ segs) w w' \<and> real_dir (fw_tree w') (cursor @ segs))
     (\<lambda>_. grown_world k (cursor @ segs) w) w"
  using assms
proof (induction segs arbitrary: cursor w)
  case Nil
  then show ?case by (simp add: wp_simps)
next
  case (Cons s segs)
  let ?G = "grown_world k (cursor @ s # segs)"
  let ?Q = "\<lambda>w' :: folder_world. ?G w w' \<and> real_dir (fw_tree w') (cursor @ s # segs)"
  have keeps_real: "real_dir (fw_tree w') cursor" if "?G w w'" for w'
    using Cons.prems(1) that real_dir_mono grown_keeps unfolding grown_world_def by blast
  have rest: "wp (ensure_parents nf path (cursor @ [s]) segs) (\<lambda>_. ?Q) (\<lambda>_. ?G w) w3"
    if "?G w w3" and "lstat_of (fw_tree w3) (cursor @ [s]) = Inr n" and "is_dir n" for w3 n
  proof -
    have "real_dir (fw_tree w3) (cursor @ [s])"
      using that keeps_real [OF that(1)]
      by (cases n) (auto simp: lstat_of_real is_dir_def split: option.splits)
    from Cons.IH [OF this] Cons.prems(2) show ?thesis
      by (auto elim!: wp_mono intro: grown_world_trans [OF that(1)])
  qed
  have check: "wp (act_bind (assertRealPathInside (nf_root nf) (cursor @ [s])) (\<lambda>_.
      ensure_parents nf path (cursor @ [s]) segs)) (\<lambda>_. ?Q) (\<lambda>_. ?G w) w2"
    if "?G w w2" and "lstat_of (fw_tree w2) (cursor @ [s]) = Inr n" and "is_dir n" for w2 n
    unfolding wp_bind
    by (rule wp_mono [OF wp_assertRealPathInside])
      (use that in \<open>auto intro!: rest intro: grown_world_same dest: same_disk_tree\<close>)
  have inspect: "wp (act_bind (lstatWorkspace (cursor @ [s]) msg) (\<lambda>created.
      if (case created of Some n \<Rightarrow> \<not> is_dir n | None \<Rightarrow> True) then parent_unavailable path
      else act_bind (assertRealPathInside (nf_root nf) (cursor @ [s])) (\<lambda>_.
           ensure_parents nf path (cursor @ [s]) segs))) (\<lambda>_. ?Q) (\<lambda>_. ?G w) w1"
    if "?G w w1" for w1 msg
    unfolding wp_bind [of "lstatWorkspace _ _"]
  proof (rule wp_mono [OF wp_lstatWorkspace])
    fix created w2
    assume got: "same_disk w1 w2 \<and> (\<forall>x. created = Some x \<longrightarrow> lstat_of (fw_tree w1) (cursor @ [s]) = Inr x)"
    then have "?G w w2" using that by (blast intro: grown_world_same)
    then show "wp (if (case created of Some n \<Rightarrow> \<not> is_dir n | None \<Rightarrow> True) then parent_unavailable path
      else act_bind (assertRealPathInside (nf_root nf) (cursor @ [s])) (\<lambda>_.
           ensure_parents nf path (cursor @ [s]) segs)) (\<lambda>_. ?Q) (\<lambda>_. ?G w) w2"
      using got
      by (cases created) (auto simp: parent_unavailable_def wp_throw intro!: check dest: same_disk_tree)
  qed (use that in \<open>blast intro: grown_world_same\<close>)
  have make: "wp (if current = None then raw_fs (fs_mkdir (cursor @ [s])) else act_return ())
      (\<lambda>_. ?G w) (\<lambda>_. ?G w) w1" if "?G w w1" for w1 and current :: "fs_node option"
    using wp_mkdir [OF keeps_real [OF that] Cons.prems(2), of s segs] that
    by (auto simp: wp_return elim!: wp_mono intro: grown_world_trans)
  show ?case
    unfolding ensure_parents.simps wp_bind [of "raw_fs (lstatSafe _)"]
  proof (rule wp_mono [OF wp_raw_lstatSafe])
    fix current w1
    assume "same_disk w w1 \<and> (\<forall>x. current = Some x \<longrightarrow> lstat_of (fw_tree w) (cursor @ [s]) = Inr x)"
    then have "?G w w1" by (blast intro: same_disk_grown)
    then show "wp (act_bind (if current = None then raw_fs (fs_mkdir (cursor @ [s])) else act_return ()) (\<lambda>_.
     act_bind (lstatWorkspace (cursor @ [s]) ''could not inspect source parent directory'') (\<lambda>created.
     if (case created of Some n \<Rightarrow> \<not> is_dir n | None \<Rightarrow> True) then parent_unavailable path
     else act_bind (assertRealPathInside (nf_root nf) (cursor @ [s])) (\<lambda>_.
          ensure_parents nf path (cursor @ [s]) segs)))) (\<lambda>_. ?Q) (\<lambda>_. ?G w) w1"
      by (subst wp_bind) (rule wp_mono [OF make]; simp add: inspect)
  qed (auto intro: same_disk_grown)
qed

text \<open>The tree differs at most at the temporary file.\<close>

definition temp_only :: "abs_path \<Rightarrow> fs_tree \<Rightarrow> fs_tree \<Rightarrow> bool" where
  "temp_only temp t t' \<longleftrightarrow> (\<forall>q. q \<noteq> temp \<longrightarrow> map_of t' q = map_of t q) \<and>
     (case map_of t' temp of Some n \<Rightarrow> is_file n | None \<Rightarrow> True)"

definition temp_ok :: "abs_path \<Rightarrow> folder_world \<Rightarrow> folder_world \<Rightarrow> bool" where
  "temp_ok temp w w' \<longleftrightarrow> temp_only temp (fw_tree w) (fw_tree w') \<and> same_rest w w'"

lemma temp_ok_same: "temp_ok temp w w1 \<Longrightarrow> same_disk w1 w2 \<Longrightarrow> temp_ok temp w w2"
  by (auto simp: temp_ok_def same_disk_tree intro: same_rest_trans same_disk_rest)

lemma temp_ok_real:
  assumes "temp_ok (d @ [x]) w w1" and "real_dir (fw_tree w) d"
  shows "real_dir (fw_tree w1) d"
proof -
  have "take i d \<noteq> d @ [x]" for i
    by (metis append_eq_conv_conj length_append_singleton length_take min.cobounded1 not_less_eq_eq order_refl)
  with assms show ?thesis by (simp add: temp_ok_def temp_only_def real_dir_def)
qed

lemma wp_temp_change:
  assumes "temp_ok temp w w1" and "temp_only temp (fw_tree w) (snd (f (fw_tree w1)))"
  shows "wp (fs_call f) (\<lambda>_ w2. temp_ok temp w w2 \<and> fw_tree w2 = snd (f (fw_tree w1))) (\<lambda>_. temp_ok temp w) w1"
  by (rule wp_mono [OF wp_change])
    (use assms in \<open>auto simp: temp_ok_def intro: same_rest_trans\<close>)

lemma wp_open_temp:
  assumes "temp_ok (d @ [tmp]) w w1" and "real_dir (fw_tree w) d"
  shows "wp (fs_open_excl (d @ [tmp])) (\<lambda>_. temp_ok (d @ [tmp]) w) (\<lambda>_. temp_ok (d @ [tmp]) w) w1"
proof -
  have "temp_only (d @ [tmp]) (fw_tree w) (snd (create_node (d @ [tmp]) (FsFile [] (Fin 0)) (fw_tree w1)))"
    using assms(1)
    by (auto simp: create_node_def entry_of_real temp_ok_real [OF assms] temp_ok_def temp_only_def is_file_def)
  from wp_temp_change [where f = "create_node (d @ [tmp]) (FsFile [] (Fin 0))", OF assms(1) this] show ?thesis
    unfolding fs_open_excl_def by (rule wp_mono) auto
qed

lemma put_temp:
  assumes "temp_ok (d @ [tmp]) w w1" and "real_dir (fw_tree w) d"
  shows "temp_only (d @ [tmp]) (fw_tree w) (snd (put_file (d @ [tmp]) bs (fw_tree w1)))"
    and "map_of (snd (put_file (d @ [tmp]) bs (fw_tree w1))) (d @ [tmp]) = Some (FsFile bs (Fin 0))"
  using assms(1)
  by (auto simp: put_file_def entry_of_real temp_ok_real [OF assms] temp_ok_def temp_only_def is_file_def update_conv')

lemma wp_write_handle:
  assumes "temp_ok (d @ [tmp]) w w1" and "real_dir (fw_tree w) d"
  shows "wp (fs_writeHandle (d @ [tmp]) bs)
    (\<lambda>_ w2. temp_ok (d @ [tmp]) w w2 \<and> map_of (fw_tree w2) (d @ [tmp]) = Some (FsFile bs (Fin 0)))
    (\<lambda>_. temp_ok (d @ [tmp]) w) w1"
proof -
  have call: "wp (fs_call (put_file (d @ [tmp]) bs))
    (\<lambda>_ w2. temp_ok (d @ [tmp]) w w2 \<and> map_of (fw_tree w2) (d @ [tmp]) = Some (FsFile bs (Fin 0)))
    (\<lambda>_. temp_ok (d @ [tmp]) w) w1"
    by (rule wp_mono [OF wp_temp_change [where f = "put_file (d @ [tmp]) bs", OF assms(1) put_temp(1) [OF assms]]])
      (auto simp: put_temp(2) [OF assms])
  have part: "temp_ok (d @ [tmp]) w (w1\<lparr>fw_faults := r, fw_tree := snd (put_file (d @ [tmp]) (take n bs) (fw_tree w1))\<rparr>)" for r n
    using put_temp(1) [OF assms, of "take n bs"] assms(1) by (simp add: temp_ok_def same_rest_def)
  show ?thesis
    using call part unfolding fs_writeHandle_def
    by (auto simp: wp_def split: list.split option.split)
qed

definition committed :: "abs_path \<Rightarrow> bytes \<Rightarrow> folder_world \<Rightarrow> folder_world \<Rightarrow> bool" where
  "committed a bs w w' \<longleftrightarrow>
     (\<forall>q. map_of (fw_tree w') q = (if q = a then Some (FsFile bs (Fin 0)) else map_of (fw_tree w) q)) \<and>
     same_rest w w'"

lemma wp_rename_temp:
  assumes "temp_ok (d @ [tmp]) w w1" and "real_dir (fw_tree w) d"
    and fresh: "map_of (fw_tree w) (d @ [tmp]) = None" and "x \<noteq> tmp"
    and full: "map_of (fw_tree w1) (d @ [tmp]) = Some (FsFile bs (Fin 0))"
  shows "wp (fs_rename (d @ [tmp]) (d @ [x])) (\<lambda>_. committed (d @ [x]) bs w) (\<lambda>_. temp_ok (d @ [tmp]) w) w1"
  unfolding fs_rename_def
proof (rule wp_mono [OF wp_change])
  fix u w2
  assume "same_rest w1 w2 \<and> fw_uuids w2 = fw_uuids w1 \<and>
     fst (rename_node (d @ [tmp]) (d @ [x]) (fw_tree w1)) = Inr u \<and>
     fw_tree w2 = snd (rename_node (d @ [tmp]) (d @ [x]) (fw_tree w1))"
  then show "committed (d @ [x]) bs w w2"
    using assms
    by (auto simp: rename_node_def entry_of_real temp_ok_real [OF assms(1,2)] committed_def temp_ok_def
        temp_only_def update_conv' delete_conv' intro: same_rest_trans split: option.splits fs_node.splits)
next
  fix e w2
  assume "same_rest w1 w2 \<and> fw_uuids w2 = fw_uuids w1 \<and>
     (fw_tree w2 = fw_tree w1 \<or> (\<exists>e. fst (rename_node (d @ [tmp]) (d @ [x]) (fw_tree w1)) = Inl e) \<and>
        fw_tree w2 = snd (rename_node (d @ [tmp]) (d @ [x]) (fw_tree w1)))"
  then show "temp_ok (d @ [tmp]) w w2"
    using assms
    by (auto simp: rename_node_def entry_of_real temp_ok_real [OF assms(1,2)] temp_ok_def
        intro: same_rest_trans split: option.splits fs_node.splits)
qed

lemma wp_finally:
  assumes "wp m (\<lambda>x. wp f (\<lambda>_. Q x) R) (\<lambda>e. case e of Some e' \<Rightarrow> wp f (\<lambda>_. R (Some e')) R | None \<Rightarrow> R None) s"
  shows "wp (act_finally m f) Q R s"
  using assms
  by (auto simp: wp_def act_finally_def act_bind_def act_return_def act_throw_def split: prod.splits outcome.splits)

lemma wp_noop:
  "wp (fs_call (\<lambda>t. (Inr (), t))) (\<lambda>_. same_disk w) (\<lambda>_. same_disk w) w"
  using wp_look [of "\<lambda>_. Inr ()" w] by (auto elim: wp_mono)

lemma wp_write_temp:
  assumes "real_dir (fw_tree w) d" and "map_of (fw_tree w) (d @ [tmp]) = None" and "x \<noteq> tmp"
  shows "wp (write_temp nf d (d @ [tmp]) (d @ [x]) bs) (\<lambda>_. committed (d @ [x]) bs w) (\<lambda>_. temp_ok (d @ [tmp]) w) w"
proof -
  let ?T = "temp_ok (d @ [tmp]) w"
  let ?F = "\<lambda>w2 :: folder_world. ?T w2 \<and> map_of (fw_tree w2) (d @ [tmp]) = Some (FsFile bs (Fin 0))"
  have start: "?T w" using assms(2) by (simp add: temp_ok_def temp_only_def)
  have look: "wp (fs_call (\<lambda>t. (Inr (), t))) (\<lambda>_. ?F) (\<lambda>_. ?F) w2" if "?F w2" for w2
    by (rule wp_mono [OF wp_noop]) (use that in \<open>auto intro: temp_ok_same dest: same_disk_tree\<close>)
  have look': "wp (fs_call (\<lambda>t. (Inr (), t))) (\<lambda>_. ?T) (\<lambda>_. ?T) w2" if "?T w2" for w2
    by (rule wp_mono [OF wp_noop]) (use that in \<open>auto intro: temp_ok_same\<close>)
  have close: "wp fs_close (\<lambda>_. ?T) (\<lambda>_. ?T) w2" if "?T w2" for w2
    unfolding fs_close_def by (rule look' [OF that])
  have written: "wp (act_finally (act_bind (fs_writeHandle (d @ [tmp]) bs) (\<lambda>_. fs_sync)) fs_close)
      (\<lambda>_. ?F) (\<lambda>_. ?T) w1" if "?T w1" for w1
  proof (rule wp_finally, unfold wp_bind, rule wp_mono [OF wp_write_handle [OF that assms(1)]])
    show "wp fs_sync (\<lambda>_. wp fs_close (\<lambda>_. ?F) (\<lambda>_. ?T))
        (\<lambda>e. case e of Some e' \<Rightarrow> wp fs_close (\<lambda>_. ?T) (\<lambda>_. ?T) | None \<Rightarrow> ?T) w2" if "?F w2" for w2
      unfolding fs_sync_def
      by (rule wp_mono [OF look [OF that]])
        (auto intro!: close split: option.split intro: wp_mono [OF look] simp: fs_close_def)
  qed (auto intro: close split: option.split)
  have rest: "wp (act_bind (map_error Inr (assertRealPathInside (nf_root nf) d)) (\<lambda>_.
      map_error Inl (fs_rename (d @ [tmp]) (d @ [x])))) (\<lambda>_. committed (d @ [x]) bs w) (\<lambda>_. ?T) w2" if "?F w2" for w2
    unfolding wp_bind wp_map_error
    by (rule wp_mono [OF wp_assertRealPathInside])
      (use that assms in \<open>auto intro!: wp_rename_temp intro: temp_ok_same dest: same_disk_tree\<close>)
  show ?thesis
    unfolding write_temp_def
    apply (subst wp_bind, subst wp_map_error)
    apply (rule wp_mono [OF wp_open_temp [OF start assms(1)]])
     apply (subst wp_bind, subst wp_map_error)
     apply (rule wp_mono [OF written])
       apply (auto intro: rest)
    done
qed

lemma wp_ignore_errors:
  assumes "wp m (\<lambda>_. Q ()) (\<lambda>e. if e = None then R None else Q ()) s"
  shows "wp (ignore_errors m) Q R s"
  using assms by (auto simp: wp_def ignore_errors_def split: prod.splits outcome.splits)

lemma wp_rm_temp:
  assumes "temp_ok (d @ [tmp]) w w1" and "real_dir (fw_tree w) d"
  shows "wp (fs_rm (d @ [tmp])) (\<lambda>_. temp_ok (d @ [tmp]) w) (\<lambda>_. temp_ok (d @ [tmp]) w) w1"
proof -
  have "temp_only (d @ [tmp]) (fw_tree w) (snd (remove_node (d @ [tmp]) (fw_tree w1)))"
    using assms(1)
    by (auto simp: remove_node_def entry_of_real temp_ok_real [OF assms] temp_ok_def temp_only_def delete_conv'
        split: option.splits fs_node.splits)
  from wp_temp_change [where f = "remove_node (d @ [tmp])", OF assms(1) this] show ?thesis
    unfolding fs_rm_def by (rule wp_mono) auto
qed

definition temp_name :: "folder_files \<Rightarrow> jsstr \<Rightarrow> nat \<Rightarrow> jsstr" where
  "temp_name nf x n = lit ''.'' @ x @ lit ''.'' @ nf_uuid nf n @ lit ''.tmp''"

lemma wp_randomUUID: "wp (randomUUID u) Q R w = Q (u (fw_uuids w)) (w\<lparr>fw_uuids := fw_uuids w + 1\<rparr>)"
  by (simp add: wp_def randomUUID_def)

lemma wp_commit_write:
  assumes "real_dir (fw_tree w) d" and "map_of (fw_tree w) (d @ [temp_name nf x (fw_uuids w)]) = None"
    and "hd x \<noteq> 46"
  shows "wp (commit_write nf path (d @ [x]) bs) (\<lambda>_. committed (d @ [x]) bs w)
    (\<lambda>_. temp_ok (d @ [temp_name nf x (fw_uuids w)]) w) w"
proof -
  let ?w = "w\<lparr>fw_uuids := fw_uuids w + 1\<rparr>"
  let ?tmp = "temp_name nf x (fw_uuids w)"
  have other: "x \<noteq> ?tmp" using assms(3) by (auto simp: temp_name_def)
  have "wp (act_catch (write_temp nf d (d @ [?tmp]) (d @ [x]) bs)
      (\<lambda>e. act_bind (ignore_errors (fs_rm (d @ [?tmp]))) (\<lambda>_. act_throw e)))
      (\<lambda>_. committed (d @ [x]) bs ?w) (\<lambda>_. temp_ok (d @ [?tmp]) ?w) ?w"
    unfolding wp_catch
    by (rule wp_mono [OF wp_write_temp])
      (use assms other in \<open>auto simp: wp_bind wp_throw intro!: wp_ignore_errors wp_mono [OF wp_rm_temp]
         split: option.split\<close>)
  then show ?thesis
    by (auto simp: commit_write_def wp_bind wp_randomUUID Let_def
        temp_name_def wp_map_error committed_def temp_ok_def same_rest_def elim!: wp_mono)
qed

text \<open>
  The whole of \<open>write\<close>: on success the file holds the new contents, and apart from directories made
  along its path nothing else differs; on failure the file is as it was, and besides
  those directories at most the temporary file is left.
\<close>

definition write_done :: "nat \<Rightarrow> abs_path \<Rightarrow> bytes \<Rightarrow> folder_world \<Rightarrow> folder_world \<Rightarrow> bool" where
  "write_done k a bs w w' \<longleftrightarrow> (\<exists>w1. grown_world k (butlast a) w w1 \<and> real_dir (fw_tree w1) (butlast a) \<and>
     committed a bs w1 w')"

definition write_failed :: "nat \<Rightarrow> abs_path \<Rightarrow> abs_path \<Rightarrow> folder_world \<Rightarrow> folder_world \<Rightarrow> bool" where
  "write_failed k a temp w w' \<longleftrightarrow> (\<exists>w1. grown_world k (butlast a) w w1 \<and>
     (fw_tree w' = fw_tree w1 \<or> temp_only temp (fw_tree w1) (fw_tree w')) \<and> same_rest w1 w')"

lemma write_failed_grown: "grown_world k (butlast a) w w' \<Longrightarrow> write_failed k a temp w w'"
  by (auto simp: write_failed_def)

lemma split_path_parts:
  assumes "portable_path p" and "\<not> hasExcludedComponent p"
  obtains c x where "split_on 47 p = c @ [x]" and "hd x \<noteq> 46"
proof -
  obtain c x where cx: "split_on 47 p = c @ [x]"
    by (metis append_butlast_last_id split_on_nonempty)
  with assms have "x \<noteq> []" "\<not> dotted x"
    by (auto simp: portable_path_def hasExcludedComponent_def list_ex_iff list_all_iff)
  then have "hd x \<noteq> 46"
    by (cases x) (auto simp: dotted_def starts_with_def lit_def)
  with cx show thesis by (rule that)
qed

lemma wp_files_write:
  assumes base: "real_dir (fw_tree w) (nf_root nf)"
    and a: "a = nf_root nf @ split_on 47 p"
    and temp: "temp = butlast a @ [temp_name nf (last a) (fw_uuids w)]"
    and fresh: "map_of (fw_tree w) temp = None"
  shows "wp (files_write nf p bs) (\<lambda>_ w'. write_done (length (nf_root nf)) a bs w w')
    (\<lambda>_ w'. write_failed (length (nf_root nf)) a temp w w') w"
proof -
  let ?k = "length (nf_root nf)"
  let ?Q = "\<lambda>_ w'. write_done ?k a bs w w'" and ?R = "\<lambda>_ w'. write_failed ?k a temp w w'"
  let ?G = "\<lambda>w1 :: folder_world. grown_world ?k (butlast a) w w1 \<and> real_dir (fw_tree w1) (butlast a)"
  have commit: "wp (commit_write nf p a bs) ?Q ?R w1" if "?G w1" and "hd (last a) \<noteq> 46" for w1
  proof -
    have "a \<noteq> []" by (simp add: a)
    then have ax: "butlast a @ [last a] = a" by simp
    have unew: "fw_uuids w1 = fw_uuids w" using that(1) by (simp add: grown_world_def)
    have "butlast a @ [y] \<noteq> take i (butlast a)" for i y
      by (metis append_eq_conv_conj length_append_singleton length_take min.cobounded1 not_less_eq_eq order_refl)
    then have "map_of (fw_tree w1) temp = None"
      using that(1) fresh unfolding grown_world_def grown_def temp by metis
    then have "wp (commit_write nf p (butlast a @ [last a]) bs) (\<lambda>_. committed (butlast a @ [last a]) bs w1)
        (\<lambda>_. temp_ok temp w1) w1"
      using that unfolding temp unew [symmetric] by (intro wp_commit_write) auto
    then show ?thesis
      unfolding ax
      by (rule wp_mono) (use that(1) in \<open>auto simp: write_done_def write_failed_def temp_ok_def\<close>)
  qed
  have same: "?G w2" if "?G w1" "same_disk w1 w2" for w1 w2
    using that by (auto intro: grown_world_same simp: same_disk_tree)
  have failed: "?R e w2" if "?G w1" "same_disk w1 w2" for w1 w2 and e :: "source_error option"
    using same [OF that] by (auto intro: write_failed_grown)
  have step4: "wp (act_bind (if current = None then act_return () else assertRealPathInside (nf_root nf) a)
      (\<lambda>_. commit_write nf p a bs)) ?Q ?R w1" if "?G w1" "hd (last a) \<noteq> 46" for w1 and current :: "fs_node option"
  proof (cases "current = None")
    case True
    with commit [OF that] show ?thesis by (simp add: wp_simps)
  next
    case False
    have "wp (act_bind (assertRealPathInside (nf_root nf) a) (\<lambda>_. commit_write nf p a bs)) ?Q ?R w1"
      unfolding wp_bind
      by (rule wp_mono [OF wp_assertRealPathInside])
        (use that same failed commit in blast)+
    with False show ?thesis by auto
  qed
  have step3: "wp (act_bind (lstatWorkspace a msg) (\<lambda>current.
     if (case current of Some n \<Rightarrow> \<not> is_file n | None \<Rightarrow> False)
     then act_throw err
     else act_bind (if current = None then act_return () else assertRealPathInside (nf_root nf) a) (\<lambda>_.
     commit_write nf p a bs))) ?Q ?R w1" if "?G w1" "hd (last a) \<noteq> 46" for w1 msg err
    unfolding wp_bind [of "lstatWorkspace _ _"]
  proof (rule wp_mono [OF wp_lstatWorkspace])
    fix current w2
    assume "same_disk w1 w2 \<and> (\<forall>x. current = Some x \<longrightarrow> lstat_of (fw_tree w1) a = Inr x)"
    then have d: "same_disk w1 w2" by simp
    show "wp (if (case current of Some n \<Rightarrow> \<not> is_file n | None \<Rightarrow> False)
     then act_throw err
     else act_bind (if current = None then act_return () else assertRealPathInside (nf_root nf) a) (\<lambda>_.
     commit_write nf p a bs)) ?Q ?R w2"
      by (rule if_wp) (rule failed [OF that(1) d] step4 [OF same [OF that(1) d] that(2)])+
  qed (rule failed [OF that(1)])
  have step2: "wp (act_bind (lstatWorkspace (butlast a) msg) (\<lambda>parentStat.
     if (case parentStat of Some n \<Rightarrow> \<not> is_dir n | None \<Rightarrow> True) then parent_unavailable p
     else act_bind (assertRealPathInside (nf_root nf) (butlast a)) (\<lambda>_. m))) ?Q ?R w1"
    if "?G w1" and m: "\<And>w2. ?G w2 \<Longrightarrow> wp m ?Q ?R w2" for w1 msg m
  proof -
    have inner: "wp (act_bind (assertRealPathInside (nf_root nf) (butlast a)) (\<lambda>_. m)) ?Q ?R w2" if "?G w2" for w2
      unfolding wp_bind
      by (rule wp_mono [OF wp_assertRealPathInside]) (use that same failed m in blast)+
    show ?thesis
      unfolding wp_bind [of "lstatWorkspace _ _"] parent_unavailable_def
    proof (rule wp_mono [OF wp_lstatWorkspace])
      fix parentStat w2
      assume "same_disk w1 w2 \<and> (\<forall>x. parentStat = Some x \<longrightarrow> lstat_of (fw_tree w1) (butlast a) = Inr x)"
      then have d: "same_disk w1 w2" by simp
      show "wp (if (case parentStat of Some n \<Rightarrow> \<not> is_dir n | None \<Rightarrow> True)
         then act_throw (FolderError WriteFailed ''source parent directory is unavailable'' (Some p))
         else act_bind (assertRealPathInside (nf_root nf) (butlast a)) (\<lambda>_. m)) ?Q ?R w2"
        by (rule if_wp) (rule failed [OF that(1) d] inner [OF same [OF that(1) d]])+
    qed (rule failed [OF that(1)])
  qed
  have whole: "wp (act_bind (ensure_parents nf p (nf_root nf) (relative_path (nf_root nf) (butlast a))) (\<lambda>_. m)) ?Q ?R w"
    if m: "\<And>w2. ?G w2 \<Longrightarrow> wp m ?Q ?R w2" for m
  proof -
    have "relative_path (nf_root nf) (butlast a) = butlast (split_on 47 p)"
      by (simp add: a butlast_append)
    moreover have "butlast a = nf_root nf @ butlast (split_on 47 p)"
      by (simp add: a butlast_append)
    ultimately show ?thesis
      unfolding wp_bind
      by (intro wp_mono [OF wp_ensure_parents [OF base order_refl]]) (auto intro!: m write_failed_grown)
  qed
  have refuse: "?R e w" for e :: "source_error option"
    by (intro write_failed_grown) simp
  have cases_ok: "?R (Some e) w \<Longrightarrow> (\<And>x. r = Inr x \<Longrightarrow> wp (k x) ?Q ?R w) \<Longrightarrow>
      wp (act_bind (act_of r) k) ?Q ?R w" for r :: "source_error + 'x" and k e
    using refuse by (cases r) (simp_all add: wp_bind wp_of wp_throw)
  show ?thesis
    unfolding files_write_def
  proof (rule cases_ok [OF refuse], rule if_wp, rule refuse, rule cases_ok [OF refuse], unfold Let_def)
    fix path a'
    assume "assertMarkdownPath (te_nfc (nf_text nf)) p = Inr path" and "absolute nf False path = Inr a'"
    then have path: "path = p" and a': "a' = a" and "portable_path p" "\<not> hasExcludedComponent p"
      using assertMarkdownPath_Inr [of "te_nfc (nf_text nf)" p path] absolute_Inr [of nf False p a']
      by (auto simp: a portable_path_def)
    obtain c x where "split_on 47 p = c @ [x]" "hd x \<noteq> 46"
      by (rule split_path_parts [OF \<open>portable_path p\<close> \<open>\<not> hasExcludedComponent p\<close>])
    then have dot: "hd (last a) \<noteq> 46" by (simp add: a)
    show "wp (act_bind (ensure_parents nf path (nf_root nf) (relative_path (nf_root nf) (butlast a'))) (\<lambda>_.
       act_bind (lstatWorkspace (butlast a') ''could not inspect source parent directory'') (\<lambda>parentStat.
       if (case parentStat of Some n \<Rightarrow> \<not> is_dir n | None \<Rightarrow> True) then parent_unavailable path
       else act_bind (assertRealPathInside (nf_root nf) (butlast a')) (\<lambda>_.
       act_bind (lstatWorkspace a' ''could not inspect source file'') (\<lambda>current.
       if (case current of Some n \<Rightarrow> \<not> is_file n | None \<Rightarrow> False)
       then act_throw (FolderError PathInvalid ''source path is not a regular file'' (Some path))
       else act_bind (if current = None then act_return () else assertRealPathInside (nf_root nf) a') (\<lambda>_.
       commit_write nf path a' bs)))))) ?Q ?R w"
      unfolding path a' by (rule whole, rule step2, assumption, rule step3 [OF _ dot])
  qed
qed

end
