(* ===== verification/SourceCoreSpec.thy ===== *)
theory SourceCoreSpec
  imports SourceCore
begin

text \<open>
  Facts about the source core: descriptors and stored state survive storage, a method that
  \<open>requireRunning\<close> refuses touches no file, and a revoked fingerprint stays in force.
\<close>

section \<open>Descriptors\<close>

definition valid_descriptor :: "source_descriptor \<Rightarrow> bool" where
  "valid_descriptor d \<longleftrightarrow> \<not> blank (sd_label d) \<and> 0 \<notin> set (sd_label d) \<and>
     1 \<le> sd_syncSchemaVersion d \<and> sd_syncSchemaVersion d \<le> 9007199254740991 \<and>
     (\<exists>q\<ge>0. js_prop (sd_provenance d) ''pairedAt'' = JNum (Fin q)) \<and> distinct (sd_capabilities d)"

lemma dedupe_props [simp]: "set (dedupe xs) = set xs" "distinct (dedupe xs)"
  by (simp_all add: dedupe_def)

lemma dedupe_distinct [simp]: "distinct xs \<Longrightarrow> dedupe xs = xs"
  by (simp add: dedupe_def distinct_remdups_id)

lemma capability_of_text [simp]: "capability_of (JStr (capability_text c)) = Some c"
  by (cases c) (simp_all add: capability_of_def capability_text_def lit_def)

lemma capability_of_Some: "capability_of v = Some c \<Longrightarrow> v = JStr (capability_text c)"
  by (auto simp: capability_of_def capability_text_def split: if_splits)

lemma capabilities_distinct:
  assumes "distinct vs" and "None \<notin> capability_of ` set vs"
  shows "distinct (List.map (\<lambda>v. the (capability_of v)) vs)"
proof -
  have "inj_on (\<lambda>v. the (capability_of v)) (set vs)"
  proof (rule inj_onI)
    fix a b
    assume "a \<in> set vs" "b \<in> set vs" and eq: "the (capability_of a) = the (capability_of b)"
    with assms(2) obtain c where "capability_of a = Some c" "capability_of b = Some c"
      by (metis image_eqI not_None_eq option.sel)
    then show "a = b" by (auto dest!: capability_of_Some)
  qed
  with assms(1) show ?thesis by (simp add: distinct_map)
qed

lemma createSourceDescriptor_valid:
  assumes "createSourceDescriptor i = Inr d"
  shows "valid_descriptor d"
proof -
  from assms obtain vs n where vs: "set_elements (di_capabilities i) = Some vs"
    and label: "\<not> blank (sd_label d)" "0 \<notin> set (sd_label d)"
    and ver: "di_syncSchemaVersion i = JNum n" "is_safe_integer_num n" "1 \<le> int_of_num n"
      "sd_syncSchemaVersion d = nat (int_of_num n)"
    and prov: "case js_prop (sd_provenance d) ''pairedAt'' of
        JNum n \<Rightarrow> is_finite_num n \<and> \<not> num_less n (Fin 0) | _ \<Rightarrow> False"
    and caps: "None \<notin> capability_of ` set vs"
      "sd_capabilities d = List.map (\<lambda>v. the (capability_of v)) (dedupe vs)"
    by (auto simp: createSourceDescriptor_def Let_def int_of_value_def comp_def
        split: if_splits option.splits js_value.splits)
  have "sd_syncSchemaVersion d \<le> 9007199254740991"
    using ver by (cases n) (auto simp: is_safe_integer_num_def int_of_num_def abs_le_iff nat_le_iff floor_le_iff)
  moreover have "\<exists>q\<ge>0. js_prop (sd_provenance d) ''pairedAt'' = JNum (Fin q)"
    using prov by (cases "js_prop (sd_provenance d) ''pairedAt''")
      (auto simp: is_finite_num_def not_less split: js_num.splits)
  moreover have "distinct (sd_capabilities d)"
    unfolding caps(2) by (rule capabilities_distinct) (use caps(1) in auto)
  ultimately show ?thesis
    using label ver by (simp add: valid_descriptor_def nat_le_iff le_nat_iff)
qed

text \<open>What a descriptor becomes in storage.\<close>

definition stored_descriptor :: "source_descriptor \<Rightarrow> source_descriptor" where
  "stored_descriptor d = d\<lparr>sd_clientVersion := or_default (json_copy (sd_clientVersion d)) (JStr (lit ''legacy'')),
     sd_provenance := json_copy (sd_provenance d)\<rparr>"

lemma copy_first_prop:
  assumes "js_prop v k = x" and "x \<noteq> JUndefined"
  shows "js_prop (json_copy v) k = json_copy x"
proof -
  have first: "map_of ps j = Some x \<Longrightarrow>
      map_of (filter (\<lambda>(k, v). v \<noteq> JUndefined) (List.map (\<lambda>(k, v). (k, json_copy v)) ps)) j = Some (json_copy x)"
    for ps :: "('k \<times> js_value) list" and j
    using assms(2) by (induction ps) (auto split: if_splits)
  from assms consider ps where "v = JObj ps" "map_of ps k = Some x"
    | ps where "v = JDict ps" "map_of ps (lit k) = Some x"
    by (cases v) (auto split: option.splits)
  then show ?thesis by cases (simp_all add: first)
qed

lemma dedupe_texts:
  assumes "distinct cs"
  shows "dedupe (List.map (\<lambda>c. JStr (capability_text c)) cs) = List.map (\<lambda>c. JStr (capability_text c)) cs"
proof (rule dedupe_distinct)
  have "inj (\<lambda>c. JStr (capability_text c))"
    by (metis (mono_tags, lifting) capability_of_text injI option.inject)
  with assms show "distinct (List.map (\<lambda>c. JStr (capability_text c)) cs)"
    by (simp add: distinct_map inj_on_def)
qed

lemma descriptor_roundtrip:
  assumes "valid_descriptor d"
  shows "normalizeSourceDescriptor (json_copy (descriptor_value d)) = Inr (stored_descriptor d)"
    and "valid_descriptor (stored_descriptor d)"
proof -
  from assms obtain q where q: "0 \<le> q" "js_prop (sd_provenance d) ''pairedAt'' = JNum (Fin q)"
    by (auto simp: valid_descriptor_def)
  then have prov: "js_prop (json_copy (sd_provenance d)) ''pairedAt'' = JNum (Fin q)"
    and prov_set: "sd_provenance d \<noteq> JUndefined" "sd_provenance d \<noteq> JNull"
    by (auto simp: copy_first_prop is_finite_num_def)
  then have prov_obj: "json_copy (sd_provenance d) \<noteq> JNull" "json_copy (sd_provenance d) \<noteq> JUndefined"
    by auto
  show "normalizeSourceDescriptor (json_copy (descriptor_value d)) = Inr (stored_descriptor d)"
  proof -
    let ?v = "json_copy (descriptor_value d)"
    have copied: "js_prop ?v k = json_copy (js_prop (descriptor_value d) k)" for k
      unfolding descriptor_value_def by (rule json_copy_prop) simp
    have props: "js_prop ?v ''sourceKind'' = JStr (kind_text (sd_sourceKind d))"
      "js_prop ?v ''label'' = JStr (sd_label d)"
      "js_prop ?v ''capabilities'' = JArr (List.map (\<lambda>c. JStr (capability_text c)) (sd_capabilities d))"
      "js_prop ?v ''clientVersion'' = json_copy (sd_clientVersion d)"
      "js_prop ?v ''syncSchemaVersion'' = nat_value (sd_syncSchemaVersion d)"
      "js_prop ?v ''provenance'' = json_copy (sd_provenance d)"
      unfolding copied by (simp_all add: descriptor_value_def nat_value_def num_of_nat_def is_finite_num_def)
    have version: "is_safe_integer_num (num_of_nat (sd_syncSchemaVersion d))"
      using assms by (simp add: valid_descriptor_def is_safe_integer_num_def num_of_nat_def)
    show ?thesis
      unfolding normalizeSourceDescriptor_def props
      using assms prov_obj prov q version
      by (cases d; cases "sd_sourceKind d")
        (auto simp: createSourceDescriptor_def or_default_def nullish_def valid_descriptor_def kind_text_def dedupe_texts
          nat_value_def int_of_value_def stored_descriptor_def set_elements_def comp_def is_finite_num_def Let_def)
  qed
  show "valid_descriptor (stored_descriptor d)"
    using assms prov q by (simp add: valid_descriptor_def stored_descriptor_def)
qed

section \<open>Stored state\<close>

lemma status_of_text [simp]: "status_of (JStr (status_text st)) = Some st"
  by (cases st) (simp_all add: status_of_def status_text_def)

lemma persisted_roundtrip:
  assumes "valid_descriptor (pcs_descriptor p)"
  shows "decodePersistedCoreState (json_copy (persisted_value p)) =
    Some (p\<lparr>pcs_descriptor := stored_descriptor (pcs_descriptor p)\<rparr>)"
proof -
  let ?v = "json_copy (persisted_value p)"
  have copied: "js_prop ?v k = json_copy (js_prop (persisted_value p) k)" for k
    unfolding persisted_value_def
    by (rule json_copy_prop) (auto simp: optional_prop_def split: option.split)
  have props: "js_prop ?v ''status'' = JStr (status_text (pcs_status p))"
    "js_prop ?v ''descriptor'' = json_copy (descriptor_value (pcs_descriptor p))"
    "optional_string (js_prop ?v ''revokedFingerprint'') = pcs_revokedFingerprint p"
    "optional_string (js_prop ?v ''lastScanId'') = pcs_lastScanId p"
    unfolding copied
    by (simp_all add: persisted_value_def optional_prop_def optional_string_def split: option.split)
  have "is_object_value ?v" by (simp add: persisted_value_def)
  with descriptor_roundtrip(1) [OF assms] show ?thesis
    unfolding decodePersistedCoreState_def props by simp
qed

lemma decoded_valid: "decodePersistedCoreState v = Some p \<Longrightarrow> valid_descriptor (pcs_descriptor p)"
  by (auto simp: decodePersistedCoreState_def normalizeSourceDescriptor_def
      intro: createSourceDescriptor_valid split: if_splits option.splits sum.splits)

lemma default_descriptor_valid:
  assumes "pred_option valid_descriptor (co_descriptor opts)" and "default_descriptor opts = Inr d"
  shows "valid_descriptor d"
  using assms by (auto simp: default_descriptor_def normalizeSourceDescriptor_def
      intro: createSourceDescriptor_valid split: option.splits)

lemma state_or_default_valid:
  assumes "pred_option valid_descriptor (co_descriptor opts)" and "state_or_default opts st = Inr p"
    and "pred_option (\<lambda>p. valid_descriptor (pcs_descriptor p)) st"
  shows "valid_descriptor (pcs_descriptor p)"
  using assms default_descriptor_valid [OF assms(1)]
  by (auto simp: state_or_default_def split: option.splits sum.splits)

section \<open>Weakest preconditions of the core's steps\<close>

lemma wp_on_world [wp_simps]:
  "wp (on_world m) Q R c =
   wp m (\<lambda>x w. Q x (c\<lparr>core_world := w\<rparr>)) (\<lambda>e w. R e (c\<lparr>core_world := w\<rparr>)) (core_world c)"
  by (simp add: wp_def on_world_def split: prod.split outcome.split)

lemma wp_get_status [wp_simps]: "wp get_status Q R c = Q (core_status c) c"
  by (simp add: wp_def get_status_def)

lemma wp_get_state [wp_simps]: "wp get_state Q R c = Q (core_state c) c"
  by (simp add: wp_def get_state_def)

lemma wp_put_status [wp_simps]: "wp (put_status st) Q R c = Q () (c\<lparr>core_status := st\<rparr>)"
  by (simp add: wp_def put_status_def)

lemma wp_put_state [wp_simps]: "wp (put_state p) Q R c = Q () (c\<lparr>core_state := Some p\<rparr>)"
  by (simp add: wp_def put_state_def)

lemma wp_not_running [wp_simps]: "wp (not_running st) Q R c = R (Some (NotRunning (status_text st))) c"
  by (simp add: not_running_def wp_simps)

text \<open>What the core holds in memory came from a valid descriptor.\<close>

definition core_ok :: "'w core \<Rightarrow> bool" where
  "core_ok c \<longleftrightarrow> pred_option (\<lambda>p. valid_descriptor (pcs_descriptor p)) (core_state c)"

lemma core_ok_fields [simp]:
  "core_ok (c\<lparr>core_world := w\<rparr>) = core_ok c"
  "core_ok (c\<lparr>core_status := st\<rparr>) = core_ok c"
  "core_ok (c\<lparr>core_state := Some p\<rparr>) = valid_descriptor (pcs_descriptor p)"
  by (simp_all add: core_ok_def)

section \<open>The ports a core relies on\<close>

text \<open>
  \<open>stored w\<close> is the value under the core's key and \<open>holder w\<close> the credential in custody. Reads
  answer them; a write that succeeds stores a copy of the value, one that fails stores it or
  not; a revocation keeps the fingerprint; no other port changes either.
\<close>

definition same_store :: "('w \<Rightarrow> js_value) \<Rightarrow> ('w \<Rightarrow> credential_record option) \<Rightarrow> 'w \<Rightarrow> 'w \<Rightarrow> bool" where
  "same_store stored holder w w' \<longleftrightarrow> stored w' = stored w \<and> holder w' = holder w"

abbreviation keeps ::
  "('w \<Rightarrow> js_value) \<Rightarrow> ('w \<Rightarrow> credential_record option) \<Rightarrow> ('w, source_error, 'a) act \<Rightarrow> 'w \<Rightarrow> bool" where
  "keeps stored holder m w \<equiv> wp m (\<lambda>_. same_store stored holder w) (\<lambda>_. same_store stored holder w) w"

locale core_ports =
  fixes opts :: "'w core_options" and stored :: "'w \<Rightarrow> js_value" and holder :: "'w \<Rightarrow> credential_record option"
  assumes state_read: "wp (lsp_read (co_state opts) CORE_STATE_KEY)
      (\<lambda>v w'. v = stored w \<and> same_store stored holder w w') (\<lambda>_. same_store stored holder w) w"
    and state_write: "wp (lsp_write (co_state opts) CORE_STATE_KEY v)
      (\<lambda>_ w'. stored w' = json_copy v \<and> holder w' = holder w)
      (\<lambda>_ w'. (stored w' = stored w \<or> stored w' = json_copy v) \<and> holder w' = holder w) w"
    and custody_get: "wp (cp_get (co_credentials opts))
      (\<lambda>r w'. r = holder w \<and> same_store stored holder w w') (\<lambda>_. same_store stored holder w) w"
    and custody_revoke: "wp (cp_revoke (co_credentials opts))
      (\<lambda>_ w'. stored w' = stored w \<and>
         map_option cr_fingerprint (holder w') = map_option cr_fingerprint (holder w))
      (\<lambda>_ w'. stored w' = stored w \<and>
         map_option cr_fingerprint (holder w') = map_option cr_fingerprint (holder w)) w"
    and now_keeps: "keeps stored holder (co_now opts) w"
    and ui_keeps: "co_ui opts = Some emit \<Longrightarrow> keeps stored holder (emit ev) w"
    and descriptor_valid: "pred_option valid_descriptor (co_descriptor opts)"
begin

text \<open>The fingerprint \<open>f\<close> is revoked: in memory if there is a state there, and in storage.\<close>

definition held :: "jsstr \<Rightarrow> 'w core \<Rightarrow> bool" where
  "held f c \<longleftrightarrow> core_status c \<noteq> Running \<and> core_ok c \<and>
     pred_option (\<lambda>p. pcs_revokedFingerprint p = Some f) (core_state c) \<and>
     (\<exists>p. decodePersistedCoreState (stored (core_world c)) = Some p \<and> pcs_revokedFingerprint p = Some f) \<and>
     map_option cr_fingerprint (holder (core_world c)) = Some f"

lemma held_world:
  "held f c \<Longrightarrow> same_store stored holder (core_world c) w \<Longrightarrow> held f (c\<lparr>core_world := w\<rparr>)"
  by (simp add: held_def same_store_def)

lemma held_status: "held f c \<Longrightarrow> st \<noteq> Running \<Longrightarrow> held f (c\<lparr>core_status := st\<rparr>)"
  by (simp add: held_def)

lemma held_save:
  assumes "held f c" and "valid_descriptor (pcs_descriptor p)" and "pcs_revokedFingerprint p = Some f"
    and "stored w = stored (core_world c) \<or> stored w = json_copy (persisted_value p)"
    and "holder w = holder (core_world c)"
  shows "held f (c\<lparr>core_state := Some p, core_world := w\<rparr>)"
  using assms persisted_roundtrip [OF assms(2)] by (auto simp: held_def)

lemma wp_save_state:
  assumes "held f c" and "valid_descriptor (pcs_descriptor p)" and "pcs_revokedFingerprint p = Some f"
  shows "wp (save_state opts p) (\<lambda>_. held f) (\<lambda>_. held f) c"
  unfolding save_state_def
  by (auto simp: wp_simps intro!: wp_mono [OF state_write] held_save [OF assms])

lemma wp_emit_status:
  assumes "held f c"
  shows "wp (emit_status opts st) (\<lambda>_. held f) (\<lambda>_. held f) c"
  using assms
  by (auto simp: emit_status_def wp_simps held_world intro: wp_mono [OF ui_keeps] split: option.split)

lemma wp_setStatus_from:
  assumes c: "held f (c\<lparr>core_status := st\<rparr>)"
  shows "wp (setStatus opts st) (\<lambda>_. held f) (\<lambda>_. held f) c"
proof -
  let ?c = "c\<lparr>core_status := st\<rparr>"
  have emit: "wp (act_bind (emit_status opts st) (\<lambda>_. act_return st)) (\<lambda>_. held f) (\<lambda>_. held f) c'"
    if "held f c'" for c'
    using wp_emit_status [OF that] by (simp add: wp_simps wp_return_fun)
  show ?thesis
  proof (cases "core_state c")
    case None
    with emit [OF c] show ?thesis by (simp add: setStatus_def wp_simps)
  next
    case (Some p)
    show ?thesis
    proof (cases "pcs_status p = st")
      case True
      with Some emit [OF c] show ?thesis by (simp add: setStatus_def wp_simps)
    next
      case False
      have "wp (save_state opts (p\<lparr>pcs_status := st\<rparr>)) (\<lambda>_. held f) (\<lambda>_. held f) ?c"
        using c Some by (intro wp_save_state) (simp_all add: held_def core_ok_def)
      then have "wp (save_state opts (p\<lparr>pcs_status := st\<rparr>))
          (\<lambda>_. wp (act_bind (emit_status opts st) (\<lambda>_. act_return st)) (\<lambda>_. held f) (\<lambda>_. held f))
          (\<lambda>_. held f) ?c"
        by (rule wp_mono) (simp_all add: emit)
      with Some False show ?thesis by (simp add: setStatus_def wp_bind wp_get_state wp_put_status)
    qed
  qed
qed

lemma wp_setStatus:
  assumes "held f c" and "st \<noteq> Running"
  shows "wp (setStatus opts st) (\<lambda>_. held f) (\<lambda>_. held f) c"
  using assms by (intro wp_setStatus_from held_status)

lemma wp_held_bind:
  assumes "wp m (\<lambda>_. held f) (\<lambda>_. held f) c" and "\<And>x c'. held f c' \<Longrightarrow> wp (k x) (\<lambda>_. held f) (\<lambda>_. held f) c'"
  shows "wp (act_bind m k) (\<lambda>_. held f) (\<lambda>_. held f) c"
  unfolding wp_bind by (rule wp_mono [OF assms(1)]) (use assms(2) in auto)

text \<open>A core that is not running refuses every access to files before anything else happens.\<close>

lemma refused:
  assumes "core_status c \<noteq> Running"
  shows "requireRunning opts c = (Throw (NotRunning (status_text (core_status c))), c)"
  using assms by (simp add: requireRunning_def act_bind_def get_status_def not_running_def act_throw_def)

lemma held_refused:
  assumes "held f c"
  shows "act_bind (requireRunning opts) k c = (Throw (NotRunning (status_text (core_status c))), c)"
  using assms by (intro act_bind_throw refused) (simp add: held_def)

lemma held_stat:
  assumes "held f c"
  shows "core_stat opts p c = (Throw (NotRunning (status_text (core_status c))), c)"
  unfolding core_stat_def by (rule held_refused [OF assms])

lemma held_list:
  assumes "held f c"
  shows "core_listMarkdown opts supplied c = (Throw (NotRunning (status_text (core_status c))), c)"
    and "core_rescan opts supplied c = (Throw (NotRunning (status_text (core_status c))), c)"
  unfolding core_listMarkdown_def core_rescan_def by (rule held_refused [OF assms])+

lemma act_of_throws:
  assumes "\<And>x. k x c = (Throw e, c)"
  shows "\<exists>e. act_bind (act_of r) k c = (Throw e, c)"
  using assms by (cases r) (auto simp: act_bind_def act_throw_def act_return_def)

lemma held_access:
  assumes "held f c"
  shows "\<exists>e. core_read opts p c = (Throw e, c)" and "\<exists>e. core_write opts p bs c = (Throw e, c)"
  unfolding core_read_def core_write_def
  by (rule act_of_throws, rule act_bind_throw, rule held_stat [OF assms])+

lemma start_loaded_revoked:
  assumes "held f c" and "core_state c = Some p"
  shows "wp (start_loaded opts p) (\<lambda>_. held f) (\<lambda>_. held f) c"
  unfolding start_loaded_def wp_bind wp_on_world
proof (rule wp_mono [OF custody_get])
  fix credential w
  assume got: "credential = holder (core_world c) \<and> same_store stored holder (core_world c) w"
  with assms(1) have now: "held f (c\<lparr>core_world := w\<rparr>)" by (blast intro: held_world)
  have cond: "pcs_revokedFingerprint p \<noteq> None \<and> pcs_revokedFingerprint p = map_option cr_fingerprint credential"
    using assms got by (auto simp: held_def)
  show "wp (if pcs_revokedFingerprint p \<noteq> None \<and> pcs_revokedFingerprint p = map_option cr_fingerprint credential
       then setStatus opts RevokedStatus else k credential) (\<lambda>_. held f) (\<lambda>_. held f) (c\<lparr>core_world := w\<rparr>)" for k
    by (subst if_P [OF cond]) (simp add: wp_setStatus [OF now])
qed (use assms(1) held_world in blast)

lemma start_revoked:
  assumes "held f c"
  shows "wp (core_start opts) (\<lambda>_. held f) (\<lambda>_. held f) c"
proof -
  from assms obtain p where p: "decodePersistedCoreState (stored (core_world c)) = Some p"
    "pcs_revokedFingerprint p = Some f" and running: "core_status c \<noteq> Running"
    by (auto simp: held_def)
  have loaded: "held f (c\<lparr>core_world := w, core_state := Some p\<rparr>)"
    if "same_store stored holder (core_world c) w" for w
    using assms p that decoded_valid [OF p(1)] by (simp add: held_def same_store_def)
  let ?k = "\<lambda>v. act_bind (act_of (state_or_default opts (decodePersistedCoreState v))) (\<lambda>p.
     act_bind (put_state p) (\<lambda>_. start_loaded opts p))"
  have "wp (?k v) (\<lambda>_. held f) (\<lambda>_. held f) (c\<lparr>core_world := w\<rparr>)"
    if "v = stored (core_world c) \<and> same_store stored holder (core_world c) w" for v w
    using start_loaded_revoked [OF loaded] that p(1)
    by (simp add: wp_simps state_or_default_def)
  then have "wp (act_bind (on_world (lsp_read (co_state opts) CORE_STATE_KEY)) ?k)
      (\<lambda>_. held f) (\<lambda>_. held f) c"
    unfolding wp_bind wp_on_world
    by (intro wp_mono [OF state_read]) (auto intro: held_world [OF assms] simp: wp_bind)
  with running show ?thesis
    by (simp add: core_start_def wp_bind [of get_status] wp_get_status)
qed

lemma stop_revoked:
  assumes "held f c"
  shows "wp (core_stop opts) (\<lambda>_. held f) (\<lambda>_. held f) c"
proof (cases "core_status c = Stopped")
  case True
  with assms show ?thesis by (simp add: core_stop_def wp_simps)
next
  case False
  let ?c = "c\<lparr>core_status := Stopped\<rparr>"
  have c: "held f ?c" using assms by (rule held_status) simp
  have "wp (case core_state ?c of Some p \<Rightarrow> save_state opts (p\<lparr>pcs_status := Stopped\<rparr>) | None \<Rightarrow> act_return ())
      (\<lambda>_. held f) (\<lambda>_. held f) ?c"
  proof (cases "core_state ?c")
    case None
    with c show ?thesis by (simp add: wp_simps)
  next
    case (Some p)
    with c have "wp (save_state opts (p\<lparr>pcs_status := Stopped\<rparr>)) (\<lambda>_. held f) (\<lambda>_. held f) ?c"
      by (intro wp_save_state) (simp_all add: held_def core_ok_def)
    with Some show ?thesis by simp
  qed
  then have "wp (act_bind (case core_state ?c of Some p \<Rightarrow> save_state opts (p\<lparr>pcs_status := Stopped\<rparr>)
        | None \<Rightarrow> act_return ()) (\<lambda>_. emit_status opts Stopped)) (\<lambda>_. held f) (\<lambda>_. held f) ?c"
    by (rule wp_held_bind) (rule wp_emit_status)
  with False show ?thesis
    by (simp add: core_stop_def wp_bind [of get_status] wp_bind [of get_state] wp_bind [of "put_status _"]
        wp_get_status wp_get_state wp_put_status)
qed

text \<open>The part of \<open>revoke\<close> after the custody port's.\<close>

definition revoke_rest :: "credential_record option \<Rightarrow> ('w, unit) core_act" where
  "revoke_rest credential =
     act_bind get_state (\<lambda>state.
     act_bind (act_of (state_or_default opts state)) (\<lambda>p.
     act_bind (save_state opts (p\<lparr>pcs_status := RevokedStatus,
         pcs_revokedFingerprint := (case credential of
            Some cred \<Rightarrow> Some (cr_fingerprint cred) | None \<Rightarrow> pcs_revokedFingerprint p)\<rparr>)) (\<lambda>_.
     act_bind (setStatus opts RevokedStatus) (\<lambda>_. act_return ()))))"

lemma wp_set_revoked:
  assumes "held f (c\<lparr>core_status := RevokedStatus\<rparr>)"
  shows "wp (act_bind (setStatus opts RevokedStatus) (\<lambda>_. act_return ())) (\<lambda>_. held f) (\<lambda>_. held f) c"
  using wp_setStatus_from [OF assms] by (simp add: wp_simps wp_return_fun)

lemma revoke_rest_held:
  assumes "core_ok c" and cred: "credential = holder w0" "map_option cr_fingerprint (holder w0) = Some f"
    and holder: "map_option cr_fingerprint (holder (core_world c)) = Some f"
  shows "wp (revoke_rest credential) (\<lambda>_. held f) (\<lambda>_ c'. held f c \<longrightarrow> held f c') c"
proof (cases "state_or_default opts (core_state c)")
  case (Inl e)
  then show ?thesis by (simp add: revoke_rest_def wp_simps)
next
  case (Inr p)
  let ?p = "p\<lparr>pcs_status := RevokedStatus, pcs_revokedFingerprint := Some f\<rparr>"
  have valid: "valid_descriptor (pcs_descriptor ?p)"
    using state_or_default_valid [OF descriptor_valid Inr] assms(1) by (simp add: core_ok_def)
  have mark: "(case credential of Some cred \<Rightarrow> Some (cr_fingerprint cred)
      | None \<Rightarrow> pcs_revokedFingerprint p) = Some f"
    using cred by auto
  have set_held: "wp (act_bind (setStatus opts RevokedStatus) (\<lambda>_. act_return ()))
      (\<lambda>_. held f) (\<lambda>_ c'. held f c \<longrightarrow> held f c') (c\<lparr>core_state := Some ?p, core_world := w\<rparr>)"
    if "stored w = json_copy (persisted_value ?p)" "holder w = holder (core_world c)" for w
  proof (rule wp_mono [OF wp_set_revoked])
    show "held f (c\<lparr>core_state := Some ?p, core_world := w, core_status := RevokedStatus\<rparr>)"
      using that valid persisted_roundtrip [OF valid] holder by (simp add: held_def)
  qed auto
  have "wp (on_world (lsp_write (co_state opts) CORE_STATE_KEY (persisted_value ?p)))
      (\<lambda>_. wp (act_bind (setStatus opts RevokedStatus) (\<lambda>_. act_return ()))
         (\<lambda>_. held f) (\<lambda>_ c'. held f c \<longrightarrow> held f c')) (\<lambda>_ c'. held f c \<longrightarrow> held f c')
      (c\<lparr>core_state := Some ?p\<rparr>)"
    unfolding wp_on_world
  proof (rule wp_mono [OF state_write])
    fix e w
    assume "(stored w = stored (core_world (c\<lparr>core_state := Some ?p\<rparr>)) \<or> stored w = json_copy (persisted_value ?p)) \<and>
       holder w = holder (core_world (c\<lparr>core_state := Some ?p\<rparr>))"
    then show "held f c \<longrightarrow> held f (c\<lparr>core_state := Some ?p, core_world := w\<rparr>)"
      using held_save [of f c ?p w] valid by auto
  qed (auto intro!: set_held)
  then show ?thesis
    unfolding revoke_rest_def
    by (simp add: wp_of save_state_def wp_bind wp_get_state Inr mark wp_put_state wp_return)
qed

lemma core_revoke_split:
  "core_revoke opts = act_bind (on_world (cp_get (co_credentials opts))) (\<lambda>credential.
     act_bind (on_world (cp_revoke (co_credentials opts))) (\<lambda>_. revoke_rest credential))"
  by (simp add: core_revoke_def revoke_rest_def)

lemma revoke_holds:
  assumes "core_ok c" and "map_option cr_fingerprint (holder (core_world c)) = Some f"
  shows "wp (core_revoke opts) (\<lambda>_. held f) (\<lambda>_ c'. held f c \<longrightarrow> held f c') c"
  unfolding core_revoke_split wp_bind wp_on_world
proof (rule wp_mono [OF custody_get])
  fix credential w
  assume got: "credential = holder (core_world c) \<and> same_store stored holder (core_world c) w"
  show "wp (cp_revoke (co_credentials opts))
      (\<lambda>_ w'. wp (revoke_rest credential) (\<lambda>_. held f) (\<lambda>_ c'. held f c \<longrightarrow> held f c')
         (c\<lparr>core_world := w, core_world := w'\<rparr>))
      (\<lambda>_ w'. held f c \<longrightarrow> held f (c\<lparr>core_world := w, core_world := w'\<rparr>)) (core_world (c\<lparr>core_world := w\<rparr>))"
  proof (rule wp_mono [OF custody_revoke])
    fix x w'
    assume "stored w' = stored (core_world (c\<lparr>core_world := w\<rparr>)) \<and>
       map_option cr_fingerprint (holder w') = map_option cr_fingerprint (holder (core_world (c\<lparr>core_world := w\<rparr>)))"
    with got assms(2) have w': "stored w' = stored (core_world c)"
      "map_option cr_fingerprint (holder w') = Some f"
      by (simp_all add: same_store_def)
    have keep: "held f c \<Longrightarrow> held f (c\<lparr>core_world := w'\<rparr>)"
      using w' by (simp add: held_def)
    have twice: "c\<lparr>core_world := w, core_world := w'\<rparr> = c\<lparr>core_world := w'\<rparr>" by simp
    have run: "wp (revoke_rest credential) (\<lambda>_. held f)
        (\<lambda>_ c'. held f (c\<lparr>core_world := w'\<rparr>) \<longrightarrow> held f c') (c\<lparr>core_world := w'\<rparr>)"
      by (rule revoke_rest_held) (use got assms w' in simp_all)
    show "wp (revoke_rest credential) (\<lambda>_. held f) (\<lambda>_ c'. held f c \<longrightarrow> held f c')
         (c\<lparr>core_world := w, core_world := w'\<rparr>)"
      unfolding twice by (rule wp_mono [OF run]) (use keep in auto)
  next
    fix e w'
    assume "stored w' = stored (core_world (c\<lparr>core_world := w\<rparr>)) \<and>
       map_option cr_fingerprint (holder w') = map_option cr_fingerprint (holder (core_world (c\<lparr>core_world := w\<rparr>)))"
    with got assms(2) show "held f c \<longrightarrow> held f (c\<lparr>core_world := w, core_world := w'\<rparr>)"
      by (auto simp: held_def same_store_def)
  qed
qed (auto intro: held_world)

end

section \<open>Runs of a core\<close>

text \<open>The methods as one type, with the start of a new process on the same world.\<close>

datatype core_op =
    OpStart | OpStop | OpStat jsstr | OpRead jsstr | OpWrite jsstr bytes | OpList supplied_options
  | OpRescan supplied_options | OpRevoke | OpReplace credential_record | OpRestart

definition core_run :: "'w core_options \<Rightarrow> core_op \<Rightarrow> 'w core \<Rightarrow> 'w core" where
  "core_run opts op c = (case op of
     OpStart \<Rightarrow> snd (core_start opts c) | OpStop \<Rightarrow> snd (core_stop opts c)
   | OpStat p \<Rightarrow> snd (core_stat opts p c) | OpRead p \<Rightarrow> snd (core_read opts p c)
   | OpWrite p bs \<Rightarrow> snd (core_write opts p bs c) | OpList so \<Rightarrow> snd (core_listMarkdown opts so c)
   | OpRescan so \<Rightarrow> snd (core_rescan opts so c) | OpRevoke \<Rightarrow> snd (core_revoke opts c)
   | OpReplace r \<Rightarrow> snd (core_replaceCredentials opts r c) | OpRestart \<Rightarrow> new_core (core_world c))"

definition replaces :: "core_op \<Rightarrow> bool" where
  "replaces op = (case op of OpReplace _ \<Rightarrow> True | _ \<Rightarrow> False)"

lemma wp_snd:
  assumes "wp m (\<lambda>_. P) (\<lambda>_. P) c"
  shows "P (snd (m c))"
  using assms by (auto simp: wp_def split: prod.splits outcome.splits)

context core_ports
begin

lemma held_run:
  assumes "held f c" and "\<not> replaces op"
  shows "held f (core_run opts op c)"
proof -
  have idle: "snd (r, c) = c" for r :: "'r" by simp
  have "wp (core_revoke opts) (\<lambda>_. held f) (\<lambda>_ c'. held f c \<longrightarrow> held f c') c"
    using assms(1) by (intro revoke_holds) (simp_all add: held_def)
  then have revoke: "wp (core_revoke opts) (\<lambda>_. held f) (\<lambda>_. held f) c"
    using assms(1) by simp
  have restart: "held f (new_core (core_world c))"
    using assms(1) by (simp add: held_def new_core_def core_ok_def)
  have files: "held f (snd (core_read opts p c))" "held f (snd (core_write opts p bs c))" for p bs
    using held_access [OF assms(1)] assms(1) by (metis snd_conv)+
  show ?thesis
    using assms(2) wp_snd [OF start_revoked [OF assms(1)]] wp_snd [OF stop_revoked [OF assms(1)]]
      wp_snd [OF revoke] restart files assms(1)
    by (cases op) (simp_all add: core_run_def replaces_def held_stat [OF assms(1)] held_list [OF assms(1)])
qed

lemma held_runs:
  "held f c \<Longrightarrow> list_all (\<lambda>op. \<not> replaces op) ops \<Longrightarrow> held f (fold (core_run opts) ops c)"
  by (induction ops arbitrary: c) (simp_all add: held_run)

end

end
