(* ===== verification/FolderProps.thy ===== *)
theory FolderProps
  imports FolderSpec SourceCoreSpec
begin

text \<open>
  The properties of the folder adapter, and the folder source as a provider of the interfaces the
  core relies on.
\<close>

section \<open>A disk without faults\<close>

lemma quiet_look:
  "fw_faults w = [] \<Longrightarrow> fs_call (\<lambda>t. (r t, t)) w =
    (case r (fw_tree w) of Inl e \<Rightarrow> (Throw e, w) | Inr x \<Rightarrow> (Return x, w))"
  by (cases w) (auto simp: fs_call_def Let_def split: sum.split)

lemma quiet_lstat:
  assumes "fw_faults w = []" and "lstat_of (fw_tree w) p = Inr n"
  shows "lstatWorkspace p msg w = (Return (Some n), w)"
  using assms by (simp add: lstatWorkspace_def with_code_def map_error_def lstatSafe_def act_catch_def
      act_bind_def act_return_def fs_lstat_def quiet_look)

lemma quiet_inside:
  assumes "fw_faults w = []" and "realpath_of (fw_tree w) p = Inr (base @ r)" and "lit ''..'' \<notin> set r"
  shows "assertRealPathInside base p w = (Return (), w)"
  using assms isPathInside_append [of r base]
  by (simp add: assertRealPathInside_def with_code_def map_error_def act_bind_def act_return_def
      fs_realpath_def quiet_look)

lemma portable_no_dots: "portable_path p \<Longrightarrow> lit ''..'' \<notin> set (split_on 47 p)"
  by (auto simp: portable_path_def list_all_iff)

lemma quiet_read:
  assumes quiet: "fw_faults w = []"
    and path: "assertMarkdownPath (te_nfc (nf_text nf)) p = Inr p"
    and a: "absolute nf False p = Inr (nf_root nf @ split_on 47 p)"
    and node: "real_path (fw_tree w) (nf_root nf @ split_on 47 p)"
      "map_of (fw_tree w) (nf_root nf @ split_on 47 p) = Some (FsFile bs m)"
    and small: "length bs \<le> nf_maxFileBytes nf"
  shows "files_read nf p w = (Return bs, w)"
proof -
  let ?a = "nf_root nf @ split_on 47 p"
  have portable: "portable_path p" using assertMarkdownPath_Inr [OF path] by simp
  have real: "realpath_of (fw_tree w) ?a = Inr ?a" by (rule realpath_of_real [OF node(1)])
  obtain d x where ax: "?a = d @ [x]" by (metis append_butlast_last_id append_is_Nil_conv split_on_nonempty)
  have lstat: "lstat_of (fw_tree w) ?a = Inr (FsFile bs m)"
    using node unfolding ax by (simp add: real_path_snoc lstat_of_real)
  have bytes: "with_code msg p (fs_readFile ?a) w = (Return bs, w)" for msg
    using real node(2) quiet
    by (simp add: with_code_def map_error_def fs_readFile_def quiet_look readFile_of_def)
  show ?thesis
    using path a small quiet_lstat [OF quiet lstat] quiet_inside [OF quiet real portable_no_dots [OF portable]] bytes
    by (simp add: files_read_def act_bind_run [of "lstatWorkspace _ _"] act_bind_run [of "assertRealPathInside _ _"])
qed

lemma act_of_returned:
  "act_bind (act_of r) k s = (Return x, s') \<Longrightarrow> \<exists>y. r = Inr y \<and> k y s = (Return x, s')"
  by (cases r) (simp_all add: act_bind_def act_return_def act_throw_def)

lemma guarded_returned: "(if b then act_throw e else m) s = (Return x, s') \<Longrightarrow> \<not> b \<and> m s = (Return x, s')"
  by (simp add: act_throw_def split: if_splits)

lemma write_returned:
  assumes "files_write nf p bs w = (Return (), w')"
  shows "assertMarkdownPath (te_nfc (nf_text nf)) p = Inr p" "length bs \<le> nf_maxFileBytes nf"
    "absolute nf False p = Inr (nf_root nf @ split_on 47 p)"
proof -
  from act_of_returned [OF assms [unfolded files_write_def]] obtain path where
    path: "assertMarkdownPath (te_nfc (nf_text nf)) p = Inr path" and
    rest: "(if nf_maxFileBytes nf < length bs
        then act_throw (ScanError ScanLimit ''file exceeds the size ceiling'' (Some path))
        else act_bind (act_of (absolute nf False path)) (\<lambda>a.
     let parent = butlast a in
     act_bind (ensure_parents nf path (nf_root nf) (relative_path (nf_root nf) parent)) (\<lambda>_.
     act_bind (lstatWorkspace parent ''could not inspect source parent directory'') (\<lambda>parentStat.
     if (case parentStat of Some n \<Rightarrow> \<not> is_dir n | None \<Rightarrow> True) then parent_unavailable path
     else act_bind (assertRealPathInside (nf_root nf) parent) (\<lambda>_.
     act_bind (lstatWorkspace a ''could not inspect source file'') (\<lambda>current.
     if (case current of Some n \<Rightarrow> \<not> is_file n | None \<Rightarrow> False)
     then act_throw (FolderError PathInvalid ''source path is not a regular file'' (Some path))
     else act_bind (if current = None then act_return () else assertRealPathInside (nf_root nf) a) (\<lambda>_.
     commit_write nf path a bs))))))) w = (Return (), w')"
    by blast
  note path_p = assertMarkdownPath_Inr [OF path]
  with path show "assertMarkdownPath (te_nfc (nf_text nf)) p = Inr p" by simp
  note rest' = guarded_returned [OF rest]
  then show "length bs \<le> nf_maxFileBytes nf" by simp
  from act_of_returned [OF conjunct2 [OF rest']] obtain a where "absolute nf False path = Inr a" by blast
  with absolute_Inr(1) [OF this] path_p show "absolute nf False p = Inr (nf_root nf @ split_on 47 p)"
    by (auto simp: portable_path_def)
qed

section \<open>Properties of the folder's files\<close>

text \<open>
  C27. Whatever fails, \<open>read\<close> changes nothing on the disk; and the bytes it returns are those of a
  regular file whose real path, every link followed, lies inside the selected folder, for a
  path inside the Markdown boundary.
\<close>

theorem read_contained:
  "wp (files_read nf p)
     (\<lambda>bs w'. same_disk w w' \<and> portable_path p \<and> \<not> shouldExclude p KFile \<and>
        (\<exists>r m. realpath_of (fw_tree w) (nf_root nf @ split_on 47 p) = Inr (nf_root nf @ r) \<and>
           map_of (fw_tree w) (nf_root nf @ r) = Some (FsFile bs m)))
     (\<lambda>_ w'. same_disk w w') w"
  by (rule wp_mono [OF wp_files_read]) (auto simp: read_from_def)

text \<open>
  C8. \<open>write\<close> is atomic and stays inside the folder. Whichever of its calls fails: on success the
  file has exactly the new contents, on failure it is as it was; and nothing else that
  existed is changed, so that only new directories along the path and, after a failure, the
  temporary file can have been added.
\<close>

theorem write_atomic:
  assumes "real_dir (fw_tree w) (nf_root nf)"
    and "a = nf_root nf @ split_on 47 p"
    and "temp = butlast a @ [temp_name nf (last a) (fw_uuids w)]"
    and "map_of (fw_tree w) temp = None"
  shows "wp (files_write nf p bs)
     (\<lambda>_ w'. map_of (fw_tree w') a = Some (FsFile bs (Fin 0)) \<and>
        (\<forall>q. q \<noteq> a \<longrightarrow> map_of (fw_tree w') q = map_of (fw_tree w) q \<or>
           (map_of (fw_tree w) q = None \<and> (\<exists>i. length (nf_root nf) < i \<and> i < length a \<and> q = take i a) \<and>
            (\<exists>m. map_of (fw_tree w') q = Some (FsDir m)))) \<and>
        fw_docs w' = fw_docs w \<and> fw_credential w' = fw_credential w)
     (\<lambda>_ w'. (\<forall>q. map_of (fw_tree w') q = map_of (fw_tree w) q \<or>
           (map_of (fw_tree w) q = None \<and>
            ((\<exists>i. length (nf_root nf) < i \<and> i < length a \<and> q = take i a) \<and> (\<exists>m. map_of (fw_tree w') q = Some (FsDir m))
             \<or> q = temp))) \<and>
        fw_docs w' = fw_docs w \<and> fw_credential w' = fw_credential w) w"
proof -
  have ne: "a \<noteq> []" by (simp add: assms(2))
  have along: "q = take i a \<and> i < length a" if "q = take i (butlast a)" "i \<le> length (butlast a)" for q i
  proof -
    have "0 < length a" using ne by simp
    with that(2) have "i < length a" unfolding length_butlast by linarith
    with that(1) show ?thesis by (simp add: take_butlast)
  qed
  show ?thesis
  proof (rule wp_mono [OF wp_files_write [OF assms]])
    fix u w'
    assume "write_done (length (nf_root nf)) a bs w w'"
    then obtain w1 where g: "grown_world (length (nf_root nf)) (butlast a) w w1" and c: "committed a bs w1 w'"
      by (auto simp: write_done_def)
    have "map_of (fw_tree w') q = map_of (fw_tree w) q \<or>
           (map_of (fw_tree w) q = None \<and> (\<exists>i. length (nf_root nf) < i \<and> i < length a \<and> q = take i a) \<and>
            (\<exists>m. map_of (fw_tree w') q = Some (FsDir m)))" if "q \<noteq> a" for q
      using g c that along unfolding grown_world_def grown_def committed_def by metis
    with g c show "map_of (fw_tree w') a = Some (FsFile bs (Fin 0)) \<and>
        (\<forall>q. q \<noteq> a \<longrightarrow> map_of (fw_tree w') q = map_of (fw_tree w) q \<or>
           (map_of (fw_tree w) q = None \<and> (\<exists>i. length (nf_root nf) < i \<and> i < length a \<and> q = take i a) \<and>
            (\<exists>m. map_of (fw_tree w') q = Some (FsDir m)))) \<and>
        fw_docs w' = fw_docs w \<and> fw_credential w' = fw_credential w"
      by (simp add: committed_def grown_world_def same_rest_def)
  next
    fix e w'
    assume "write_failed (length (nf_root nf)) a temp w w'"
    then obtain w1 where g: "grown_world (length (nf_root nf)) (butlast a) w w1"
      and t: "fw_tree w' = fw_tree w1 \<or> temp_only temp (fw_tree w1) (fw_tree w')" and r: "same_rest w1 w'"
      by (auto simp: write_failed_def)
    have "map_of (fw_tree w') q = map_of (fw_tree w) q \<or>
           (map_of (fw_tree w) q = None \<and>
            ((\<exists>i. length (nf_root nf) < i \<and> i < length a \<and> q = take i a) \<and> (\<exists>m. map_of (fw_tree w') q = Some (FsDir m))
             \<or> q = temp))" for q
      using g t along assms(4) unfolding grown_world_def grown_def temp_only_def by metis
    with g r show "(\<forall>q. map_of (fw_tree w') q = map_of (fw_tree w) q \<or>
           (map_of (fw_tree w) q = None \<and>
            ((\<exists>i. length (nf_root nf) < i \<and> i < length a \<and> q = take i a) \<and> (\<exists>m. map_of (fw_tree w') q = Some (FsDir m))
             \<or> q = temp))) \<and>
        fw_docs w' = fw_docs w \<and> fw_credential w' = fw_credential w"
      by (simp add: grown_world_def same_rest_def)
  qed
qed

text \<open>
  What \<open>write\<close> stored, a later \<open>read\<close> of the same path returns.
\<close>

theorem write_then_read:
  assumes "real_dir (fw_tree w) (nf_root nf)"
    and "a = nf_root nf @ split_on 47 p"
    and "map_of (fw_tree w) (butlast a @ [temp_name nf (last a) (fw_uuids w)]) = None"
    and "files_write nf p bs w = (Return (), w')" and "fw_faults w' = []"
  shows "files_read nf p w' = (Return bs, w')"
proof -
  from wp_returned [OF wp_files_write [OF assms(1,2) refl assms(3)] assms(4)]
  obtain w1 where real: "real_dir (fw_tree w1) (butlast a)" and c: "committed a bs w1 w'"
    by (auto simp: write_done_def)
  have ne: "a \<noteq> []" by (simp add: assms(2))
  then have "take i (butlast a) \<noteq> a" for i
    by (metis length_butlast length_take diff_less length_greater_0_conv min.cobounded1 not_less zero_less_one)
  with real c have "real_dir (fw_tree w') (butlast a)" by (simp add: real_dir_def committed_def)
  moreover have stored: "map_of (fw_tree w') a = Some (FsFile bs (Fin 0))" using c by (simp add: committed_def)
  ultimately have "real_path (fw_tree w') (butlast a @ [last a])"
    unfolding real_path_snoc using ne by (simp add: is_link_def)
  with ne have "real_path (fw_tree w') a" by simp
  then have "real_path (fw_tree w') (nf_root nf @ split_on 47 p)" by (simp only: assms(2))
  with stored show ?thesis
    using write_returned [OF assms(4)] by (intro quiet_read [OF assms(5)]) (simp_all add: assms(2))
qed

section \<open>Witnesses\<close>

definition plain_env :: text_env where
  "plain_env = \<lparr>te_nfc = id, te_lower = id, te_le = (\<lambda>_ _. True), te_num = (\<lambda>_. [])\<rparr>"

definition plain_folder :: folder_files where
  "plain_folder = \<lparr>nf_root = [lit ''v''], nf_maxFileBytes = 4, nf_text = plain_env, nf_uuid = (\<lambda>_. lit ''u'')\<rparr>"

definition plain_disk :: "(fault \<times> nat) option list \<Rightarrow> folder_world" where
  "plain_disk faults = \<lparr>fw_tree = [([lit ''v''], FsDir (Fin 0)), ([lit ''v'', lit ''a.md''], FsFile [104, 105] (Fin 0))],
     fw_docs = [], fw_faults = faults, fw_credential = None, fw_uuids = 0\<rparr>"

lemma plain_root: "real_dir (fw_tree (plain_disk faults)) (nf_root plain_folder)"
  by (simp add: plain_disk_def plain_folder_def real_dir_def)

lemma plain_fresh:
  "map_of (fw_tree (plain_disk faults)) (butlast (nf_root plain_folder @ split_on 47 (lit ''a.md'')) @
     [temp_name plain_folder (last (nf_root plain_folder @ split_on 47 (lit ''a.md''))) (fw_uuids (plain_disk faults))]) = None"
  by (simp add: plain_disk_def plain_folder_def temp_name_def)

text \<open>A write that is cut short: the sixth call fails after one byte.\<close>

theorem write_atomic_witness:
  "wp (files_write plain_folder (lit ''a.md'') [1, 2, 3])
     (\<lambda>_ _. True)
     (\<lambda>_ w'. map_of (fw_tree w') [lit ''v'', lit ''a.md''] = Some (FsFile [104, 105] (Fin 0)))
     (plain_disk [None, None, None, None, None, Some (IOFault, 1)])"
  by (rule wp_mono [OF write_atomic [OF plain_root refl refl plain_fresh]])
    (auto simp: plain_disk_def plain_folder_def dest!: spec [of _ "[lit ''v'', lit ''a.md'']"])

theorem write_then_read_witness:
  "\<exists>w'. files_read plain_folder (lit ''a.md'') w' = (Return [1, 2, 3], w')"
proof -
  have "case files_write plain_folder (lit ''a.md'') [1, 2, 3] (plain_disk []) of
      (Return _, w') \<Rightarrow> fw_faults w' = [] | _ \<Rightarrow> False"
    by code_simp
  then obtain w' where "files_write plain_folder (lit ''a.md'') [1, 2, 3] (plain_disk []) = (Return (), w')"
    "fw_faults w' = []"
    by (auto split: prod.splits outcome.splits)
  from write_then_read [OF plain_root refl plain_fresh this] show ?thesis by blast
qed

end
