(* ===== verification/SourceCoreProps.thy ===== *)
theory SourceCoreProps
  imports FolderProps
begin

text \<open>
  The properties of the source core, over any ports and over the folder source's own.
\<close>

section \<open>Permission\<close>

text \<open>The core is running and custody holds an active credential that is not expired.\<close>

definition permitted :: "'w core_options \<Rightarrow> 'w core \<Rightarrow> bool" where
  "permitted opts c \<longleftrightarrow> core_status c = Running \<and>
     (case cp_get (co_credentials opts) (core_world c) of
        (Return (Some cred), w) \<Rightarrow> cr_status cred = Active \<and>
          (cr_expiresAt cred = None \<or>
           (case co_now opts w of (Return now, _) \<Rightarrow> \<not> expired_at cred now | _ \<Rightarrow> False))
      | _ \<Rightarrow> False)"

definition returns :: "('s, 'e, 'a) act \<Rightarrow> 's \<Rightarrow> bool" where
  "returns m s \<longleftrightarrow> (case m s of (Return _, _) \<Rightarrow> True | _ \<Rightarrow> False)"

lemma returns_bind: "returns (act_bind m k) s \<longleftrightarrow> (case m s of (Return x, s') \<Rightarrow> returns (k x) s' | _ \<Rightarrow> False)"
  by (auto simp: returns_def act_bind_def split: prod.splits outcome.splits)

lemma not_returned_bind:
  "m s = m' s \<Longrightarrow> \<not> returns m' s \<Longrightarrow> act_bind m k s = act_bind m' k' s \<and> \<not> returns (act_bind m' k'') s"
  by (auto simp: returns_def act_bind_def split: prod.splits outcome.splits)

lemma not_returned_after: "(\<And>x s'. \<not> returns (k x) s') \<Longrightarrow> \<not> returns (act_bind m k) s"
  by (simp add: returns_bind split: prod.split outcome.split)

lemma returns_simps [simp]: "returns (act_return x) s" "\<not> returns (act_throw e) s" "\<not> returns (not_running st) s"
  by (simp_all add: returns_def act_return_def act_throw_def not_running_def)

lemma returns_get: "returns (act_bind get_status k) c = returns (k (core_status c)) c"
  by (simp add: returns_bind get_status_def)

lemma returns_world:
  "returns (act_bind (on_world m) k) c =
     (case m (core_world c) of (Return x, w) \<Rightarrow> returns (k x) (c\<lparr>core_world := w\<rparr>) | _ \<Rightarrow> False)"
  by (simp add: returns_bind on_world_def split: prod.split outcome.split)

lemma requireRunning_permitted: "returns (requireRunning opts) c \<longleftrightarrow> permitted opts c"
proof (cases "core_status c = Running")
  case False
  then show ?thesis by (simp add: requireRunning_def returns_get permitted_def)
next
  case True
  have late: "\<not> returns (act_bind m (\<lambda>_. not_running st)) s" for m :: "('a, core_status) core_act" and st and s
    by (rule not_returned_after) simp
  obtain r w where got: "cp_get (co_credentials opts) (core_world c) = (r, w)" by fastforce
  have go: "returns (requireRunning opts) c = (case r of Return credential \<Rightarrow> returns (case credential of
       None \<Rightarrow> act_bind (setStatus opts Unpaired) (\<lambda>_. not_running Unpaired)
     | Some cred \<Rightarrow>
         if cr_status cred = Revoked
         then act_bind (setStatus opts RevokedStatus) (\<lambda>_. not_running RevokedStatus)
         else if cr_expiresAt cred = None then act_return ()
         else act_bind (on_world (co_now opts)) (\<lambda>now.
           if expired_at cred now
           then act_bind (setStatus opts Expired) (\<lambda>_. not_running Expired)
           else act_return ())) (c\<lparr>core_world := w\<rparr>) | _ \<Rightarrow> False)"
    using True by (simp only: requireRunning_def returns_get returns_world got prod.case simp_thms if_False)
  show ?thesis
  proof (cases r)
    case (Return credential)
    show ?thesis
    proof (cases credential)
      case None
      then show ?thesis by (simp add: go Return late permitted_def True got)
    next
      case (Some cred)
      obtain rn wn where now: "co_now opts w = (rn, wn)" by fastforce
      show ?thesis
        using Some now Return
        by (cases "cr_status cred"; cases "cr_expiresAt cred"; cases rn)
          (simp_all add: go late permitted_def True got returns_world)
    qed
  qed (simp_all add: go permitted_def got)
qed

lemma requireRunning_files [simp]: "requireRunning (opts\<lparr>co_files := f\<rparr>) = requireRunning opts"
proof -
  have "save_state (opts\<lparr>co_files := f\<rparr>) = save_state opts" by (intro ext) (simp add: save_state_def)
  moreover have "emit_status (opts\<lparr>co_files := f\<rparr>) = emit_status opts" by (intro ext) (simp add: emit_status_def)
  ultimately have "setStatus (opts\<lparr>co_files := f\<rparr>) = setStatus opts" by (intro ext) (simp only: setStatus_def)
  moreover have "co_credentials (opts\<lparr>co_files := f\<rparr>) = co_credentials opts"
    "co_now (opts\<lparr>co_files := f\<rparr>) = co_now opts" by simp_all
  ultimately show ?thesis by (simp only: requireRunning_def)
qed

text \<open>
  C9. Every operation on files is guarded: \<open>requireRunning\<close> passes exactly when the core is running
  with an active credential that is not expired, and otherwise \<open>stat\<close>, \<open>read\<close>, \<open>write\<close>,
  \<open>listMarkdown\<close> and \<open>rescan\<close> do not return, and do the same over any other workspace, so that they
  never touched this one.
\<close>

theorem files_guarded:
  "returns (requireRunning opts) c = permitted opts c \<and>
   (permitted opts c \<or>
    (\<forall>f p bs supplied.
      core_stat (opts\<lparr>co_files := f\<rparr>) p c = core_stat opts p c \<and> \<not> returns (core_stat opts p) c \<and>
      core_read (opts\<lparr>co_files := f\<rparr>) p c = core_read opts p c \<and> \<not> returns (core_read opts p) c \<and>
      core_write (opts\<lparr>co_files := f\<rparr>) p bs c = core_write opts p bs c \<and> \<not> returns (core_write opts p bs) c \<and>
      core_listMarkdown (opts\<lparr>co_files := f\<rparr>) supplied c = core_listMarkdown opts supplied c \<and>
      \<not> returns (core_listMarkdown opts supplied) c \<and>
      core_rescan (opts\<lparr>co_files := f\<rparr>) supplied c = core_rescan opts supplied c \<and>
      \<not> returns (core_rescan opts supplied) c))"
proof (cases "permitted opts c")
  case True
  then show ?thesis by (simp add: requireRunning_permitted)
next
  case False
  then have no: "\<not> returns (requireRunning opts) c" by (simp add: requireRunning_permitted)
  have stat: "core_stat (opts\<lparr>co_files := f\<rparr>) p c = core_stat opts p c \<and> \<not> returns (core_stat opts p) c" for f p
    unfolding core_stat_def requireRunning_files by (rule not_returned_bind, rule refl, rule no)
  have texts: "nfc_of (opts\<lparr>co_files := f\<rparr>) = nfc_of opts" for f by simp
  have path: "act_bind (act_of r) k c = act_bind (act_of r) k' c \<and> \<not> returns (act_bind (act_of r) k') c"
    if "\<And>x. k x c = k' x c \<and> \<not> returns (k' x) c" for r :: "source_error + jsstr" and k k' :: "jsstr \<Rightarrow> ('a, 'z) core_act"
    using that by (cases r) (simp_all add: returns_bind, simp add: act_bind_def act_throw_def)
  have "core_read (opts\<lparr>co_files := f\<rparr>) p c = core_read opts p c \<and> \<not> returns (core_read opts p) c" for f p
    unfolding core_read_def texts
    by (rule path, rule not_returned_bind) (simp_all add: stat)
  moreover have "core_write (opts\<lparr>co_files := f\<rparr>) p bs c = core_write opts p bs c \<and> \<not> returns (core_write opts p bs) c" for f p bs
    unfolding core_write_def texts
    by (rule path, rule not_returned_bind) (simp_all add: stat)
  moreover have "core_listMarkdown (opts\<lparr>co_files := f\<rparr>) supplied c = core_listMarkdown opts supplied c \<and>
      \<not> returns (core_listMarkdown opts supplied) c" for f supplied
    unfolding core_listMarkdown_def requireRunning_files by (rule not_returned_bind, rule refl, rule no)
  moreover have "core_rescan (opts\<lparr>co_files := f\<rparr>) supplied c = core_rescan opts supplied c \<and>
      \<not> returns (core_rescan opts supplied) c" for f supplied
    unfolding core_rescan_def requireRunning_files by (rule not_returned_bind, rule refl, rule no)
  ultimately show ?thesis using no False stat by blast
qed

section \<open>The descriptor in memory\<close>

text \<open>Steps that keep \<open>core_ok\<close>, however they end.\<close>

definition keeps_ok :: "('w, 'a) core_act \<Rightarrow> bool" where
  "keeps_ok m \<longleftrightarrow> (\<forall>c. core_ok c \<longrightarrow> wp m (\<lambda>_. core_ok) (\<lambda>_. core_ok) c)"

named_theorems keeps_ok_intros \<open>steps that keep the descriptor valid\<close>

lemma keeps_ok_bind [keeps_ok_intros]: "keeps_ok m \<Longrightarrow> (\<And>x. keeps_ok (k x)) \<Longrightarrow> keeps_ok (act_bind m k)"
  unfolding keeps_ok_def wp_bind by (blast intro: wp_mono)

lemma keeps_ok_get_state:
  "(\<And>st. pred_option (\<lambda>p. valid_descriptor (pcs_descriptor p)) st \<Longrightarrow> keeps_ok (k st)) \<Longrightarrow>
   keeps_ok (act_bind get_state k)"
  by (simp add: keeps_ok_def wp_bind wp_get_state core_ok_def)

lemma wp_any: "wp m (\<lambda>_ _. True) (\<lambda>_ _. True) s"
  by (simp add: wp_def split: prod.split outcome.split)

lemma keeps_ok_world [keeps_ok_intros]: "keeps_ok (on_world m)"
  unfolding keeps_ok_def wp_on_world by (auto intro: wp_mono [OF wp_any])

lemma keeps_ok_simple [keeps_ok_intros]:
  "keeps_ok (act_return x)" "keeps_ok (act_throw e)" "keeps_ok (not_running st)"
  "keeps_ok (put_status st)" "keeps_ok get_status"
  by (simp_all add: keeps_ok_def wp_simps)

lemma keeps_ok_emit [keeps_ok_intros]: "keeps_ok (emit_status opts st)"
  by (simp add: emit_status_def keeps_ok_simple keeps_ok_world split: option.split)

lemma keeps_ok_of:
  "(\<And>x. r = Inr x \<Longrightarrow> keeps_ok (k x)) \<Longrightarrow> keeps_ok (act_bind (act_of r) k)"
  by (cases r) (simp_all add: keeps_ok_def wp_simps)

lemma keeps_ok_if [keeps_ok_intros]: "keeps_ok m \<Longrightarrow> keeps_ok n \<Longrightarrow> keeps_ok (if b then m else n)"
  by simp

lemma keeps_ok_case [keeps_ok_intros]:
  "(credential = None \<Longrightarrow> keeps_ok m) \<Longrightarrow> (\<And>x. credential = Some x \<Longrightarrow> keeps_ok (k x)) \<Longrightarrow>
   keeps_ok (case credential of None \<Rightarrow> m | Some x \<Rightarrow> k x)"
  by (cases credential) simp_all

lemma keeps_ok_put [keeps_ok_intros]: "valid_descriptor (pcs_descriptor p) \<Longrightarrow> keeps_ok (put_state p)"
  by (simp add: keeps_ok_def wp_put_state)

lemma keeps_ok_save [keeps_ok_intros]: "valid_descriptor (pcs_descriptor p) \<Longrightarrow> keeps_ok (save_state opts p)"
  unfolding save_state_def by (intro keeps_ok_intros)

lemma keeps_ok_setStatus [keeps_ok_intros]: "keeps_ok (setStatus opts st)"
  unfolding setStatus_def by (intro keeps_ok_intros keeps_ok_get_state) simp_all

lemma keeps_ok_requireRunning [keeps_ok_intros]: "keeps_ok (requireRunning opts)"
  unfolding requireRunning_def by (intro keeps_ok_intros)

lemma keeps_ok_stat [keeps_ok_intros]: "keeps_ok (core_stat opts p)"
  unfolding core_stat_def by (intro keeps_ok_intros keeps_ok_of)

lemma keeps_ok_files:
  "keeps_ok (core_read opts p)" "keeps_ok (core_write opts p bs)" "keeps_ok (core_listMarkdown opts supplied)"
  "keeps_ok (core_rescan opts supplied)"
  unfolding core_read_def core_write_def core_listMarkdown_def core_rescan_def
  by (intro keeps_ok_intros keeps_ok_of keeps_ok_get_state; simp)+

lemma keeps_ok_start_loaded: "valid_descriptor (pcs_descriptor p) \<Longrightarrow> keeps_ok (start_loaded opts p)"
  unfolding start_loaded_def by (intro keeps_ok_intros) simp_all

lemma keeps_ok_snd: "keeps_ok m \<Longrightarrow> core_ok c \<Longrightarrow> core_ok (snd (m c))"
  unfolding keeps_ok_def by (blast intro: wp_snd)

lemma core_ok_new [simp]: "core_ok (new_core w)"
  by (simp add: new_core_def core_ok_def)

context core_ports
begin

lemma loaded_valid:
  assumes "state_or_default opts (decodePersistedCoreState v) = Inr p"
  shows "valid_descriptor (pcs_descriptor p)"
proof -
  have "pred_option (\<lambda>p. valid_descriptor (pcs_descriptor p)) (decodePersistedCoreState v)"
    using decoded_valid [of v] by (cases "decodePersistedCoreState v") auto
  from state_or_default_valid [OF descriptor_valid assms this] show ?thesis .
qed

lemma keeps_ok_start: "keeps_ok (core_start opts)"
  unfolding core_start_def
  by (intro keeps_ok_intros keeps_ok_of keeps_ok_start_loaded; erule loaded_valid)

lemma keeps_ok_lifecycle:
  "keeps_ok (core_stop opts)" "keeps_ok (core_revoke opts)" "keeps_ok (core_replaceCredentials opts r)"
  unfolding core_stop_def core_revoke_def core_replaceCredentials_def
  by (intro keeps_ok_intros keeps_ok_of keeps_ok_get_state keeps_ok_start;
      simp add: state_or_default_valid [OF descriptor_valid])+

lemma core_ok_run: "core_ok c \<Longrightarrow> core_ok (core_run opts op c)"
  by (cases op) (simp_all add: core_run_def keeps_ok_snd keeps_ok_start keeps_ok_lifecycle keeps_ok_files keeps_ok_stat)

lemma core_ok_runs: "core_ok c \<Longrightarrow> core_ok (fold (core_run opts) ops c)"
  by (induction ops arbitrary: c) (simp_all add: core_ok_run)

end

section \<open>The folder source as provider\<close>

definition folder_stored :: "folder_world \<Rightarrow> js_value" where
  "folder_stored w = (case map_of (fw_docs w) CORE_STATE_KEY of Some (Doc v) \<Rightarrow> v | _ \<Rightarrow> JUndefined)"

lemma core_key_ok: "key_ok CORE_STATE_KEY"
  by code_simp

lemma wp_docs_step:
  "wp docs_step (\<lambda>_. same_disk w) (\<lambda>e w'. same_disk w w' \<and> e \<noteq> Some ENOENT) w"
  by (auto simp: docs_step_def wp_simps same_disk_def errno_of_def split: list.split option.split fault.split)

lemma same_disk_store: "same_disk w w' \<Longrightarrow> same_store folder_stored fw_credential w w'"
  by (simp add: same_disk_def same_store_def folder_stored_def)

text \<open>The value stored under a key.\<close>

definition doc_at :: "jsstr \<Rightarrow> folder_world \<Rightarrow> js_value" where
  "doc_at key w = (case map_of (fw_docs w) key of Some (Doc v) \<Rightarrow> v | _ \<Rightarrow> JUndefined)"

lemma folder_stored_at: "folder_stored = doc_at CORE_STATE_KEY"
  by (simp add: fun_eq_iff folder_stored_def doc_at_def)

lemma wp_store_read_key:
  assumes "key_ok key"
  shows "wp (store_read key) (\<lambda>v w'. v = doc_at key w \<and> same_disk w w') (\<lambda>_. same_disk w) w"
proof -
  have look: "wp (docs_lookup k) Q R w' = Q (map_of (fw_docs w') k) w'" for k Q R w'
    by (simp add: wp_def docs_lookup_def)
  show ?thesis
    unfolding store_read_def state_error_def
    by (simp add: assms wp_bind wp_map_error wp_catch look, rule wp_mono [OF wp_docs_step])
      (auto simp: wp_simps look doc_at_def same_disk_def split: option.split state_doc.split)
qed

lemma wp_store_write_key:
  assumes "key_ok key"
  shows "wp (store_write key v)
     (\<lambda>_ w'. fw_docs w' = AList.update key (Doc (json_copy v)) (fw_docs w) \<and> fw_tree w' = fw_tree w \<and>
        fw_credential w' = fw_credential w \<and> fw_uuids w' = fw_uuids w)
     (\<lambda>_. same_disk w) w"
proof -
  let ?S = "same_disk w"
  have step: "wp docs_step (\<lambda>_. ?S) (\<lambda>_. ?S) w'" if "?S w'" for w'
    by (rule wp_mono [OF wp_docs_step]) (use that same_disk_trans in blast)+
  have noop: "wp (fs_call (\<lambda>t. (Inr (), t))) (\<lambda>_. ?S) (\<lambda>_. ?S) w'" if "?S w'" for w'
    by (rule wp_mono [OF wp_noop]) (use that same_disk_trans in blast)+
  have closed: "wp (act_finally (act_bind docs_step (\<lambda>_. fs_sync)) fs_close) (\<lambda>_. ?S) (\<lambda>_. ?S) w'" if "?S w'" for w'
  proof -
    have close: "wp fs_close (\<lambda>_. ?S) (\<lambda>_. ?S) w1" if "?S w1" for w1
      unfolding fs_close_def by (rule noop [OF that])
    show ?thesis
    proof (rule wp_finally, unfold wp_bind, rule wp_mono [OF step [OF that]])
      show "wp fs_sync (\<lambda>_. wp fs_close (\<lambda>_. ?S) (\<lambda>_. ?S))
          (\<lambda>e. case e of Some e' \<Rightarrow> wp fs_close (\<lambda>_. ?S) (\<lambda>_. ?S) | None \<Rightarrow> ?S) w1" if "?S w1" for w1
        unfolding fs_sync_def by (rule wp_mono [OF noop [OF that]]) (auto intro: close split: option.split)
    qed (auto intro: close split: option.split)
  qed
  have bind: "wp (act_bind m k) Q (\<lambda>_. ?S) w'" if "wp m (\<lambda>_. ?S) (\<lambda>_. ?S) w'" "\<And>x w'. ?S w' \<Longrightarrow> wp (k x) Q (\<lambda>_. ?S) w'"
    for m :: "unit fs_act" and k Q w'
    unfolding wp_bind by (rule wp_mono [OF that(1)]) (use that(2) in auto)
  have commit: "wp (store_commit key v)
      (\<lambda>_ w'. fw_docs w' = AList.update key (Doc (json_copy v)) (fw_docs w) \<and> fw_tree w' = fw_tree w \<and>
        fw_credential w' = fw_credential w \<and> fw_uuids w' = fw_uuids w) (\<lambda>_. ?S) w"
    unfolding store_commit_def
    by (intro bind step closed) (simp_all add: wp_def same_disk_def)
  show ?thesis
    unfolding store_write_def state_error_def
    apply (simp add: assms wp_map_error wp_catch)
    apply (rule wp_mono [OF commit])
     apply simp
    apply (auto simp: wp_bind wp_throw same_disk_def
        intro!: wp_ignore_errors wp_mono [OF wp_docs_step] split: option.split)
    done
qed

lemma wp_store_read:
  "wp (store_read CORE_STATE_KEY) (\<lambda>v w'. v = folder_stored w \<and> same_store folder_stored fw_credential w w')
     (\<lambda>_. same_store folder_stored fw_credential w) w"
  by (rule wp_mono [OF wp_store_read_key [OF core_key_ok]]) (auto simp: folder_stored_at intro: same_disk_store [unfolded folder_stored_at])

lemma wp_store_write:
  "wp (store_write CORE_STATE_KEY v)
     (\<lambda>_ w'. folder_stored w' = json_copy v \<and> fw_credential w' = fw_credential w)
     (\<lambda>_ w'. (folder_stored w' = folder_stored w \<or> folder_stored w' = json_copy v) \<and> fw_credential w' = fw_credential w) w"
  by (rule wp_mono [OF wp_store_write_key [OF core_key_ok]])
    (auto simp: folder_stored_def update_conv' same_disk_def)

text \<open>A folder source over the in-memory custody, with a clock and an interface that touch neither the
  stored state nor the credential.\<close>

locale folder_source =
  fixes sha256_text :: "jsstr \<Rightarrow> jsstr" and nf :: folder_files and options :: folder_options
    and d :: source_descriptor
  assumes described: "folder_descriptor (nf_root nf) options = Inr d"
    and custody: "fo_credentials options = createMemoryCredentialCustody"
    and now_quiet: "keeps folder_stored fw_credential (fo_now options) w"
    and ui_quiet: "fo_ui options = Some emit \<Longrightarrow> keeps folder_stored fw_credential (emit ev) w"

sublocale folder_source \<subseteq> core_ports "folder_core_options sha256_text nf options d" folder_stored fw_credential
proof
  let ?opts = "folder_core_options sha256_text nf options d"
  fix w v emit ev
  show "wp (lsp_read (co_state ?opts) CORE_STATE_KEY) (\<lambda>v w'. v = folder_stored w \<and> same_store folder_stored fw_credential w w')
     (\<lambda>_. same_store folder_stored fw_credential w) w"
    using wp_store_read by (simp add: folder_core_options_def FileStateStore_def)
  show "wp (lsp_write (co_state ?opts) CORE_STATE_KEY v)
     (\<lambda>_ w'. folder_stored w' = json_copy v \<and> fw_credential w' = fw_credential w)
     (\<lambda>_ w'. (folder_stored w' = folder_stored w \<or> folder_stored w' = json_copy v) \<and> fw_credential w' = fw_credential w) w"
    using wp_store_write by (simp add: folder_core_options_def FileStateStore_def)
  show "wp (cp_get (co_credentials ?opts)) (\<lambda>r w'. r = fw_credential w \<and> same_store folder_stored fw_credential w w')
     (\<lambda>_. same_store folder_stored fw_credential w) w"
    by (auto simp: folder_core_options_def scoped_custody_def custody createMemoryCredentialCustody_def wp_def
        act_bind_def act_return_def act_throw_def scope_error_def same_store_def split: option.split)
  show "wp (cp_revoke (co_credentials ?opts))
     (\<lambda>_ w'. folder_stored w' = folder_stored w \<and>
        map_option cr_fingerprint (fw_credential w') = map_option cr_fingerprint (fw_credential w))
     (\<lambda>_ w'. folder_stored w' = folder_stored w \<and>
        map_option cr_fingerprint (fw_credential w') = map_option cr_fingerprint (fw_credential w)) w"
    by (cases "fw_credential w")
      (simp_all add: folder_core_options_def scoped_custody_def custody createMemoryCredentialCustody_def wp_def folder_stored_def)
  show "keeps folder_stored fw_credential (co_now ?opts) w"
    using now_quiet by (simp add: folder_core_options_def)
  show "co_ui ?opts = Some emit \<Longrightarrow> keeps folder_stored fw_credential (emit ev) w"
    using ui_quiet by (simp add: folder_core_options_def)
  show "pred_option valid_descriptor (co_descriptor ?opts)"
    using described by (simp add: folder_core_options_def folder_descriptor_def createSourceDescriptor_valid)
qed

end
