(* ===== verification/SourceLifecycle.thy ===== *)
theory SourceLifecycle
  imports SourceCoreProps
begin

text \<open>
  The lifecycle of a folder source: revocation is final until the credentials are replaced, an
  active credential starts the source, and a replacement leaves a running source as it is.
\<close>

section \<open>Revocation\<close>

context folder_source
begin

lemma revoked_for_good:
  assumes "c = fold (core_run (folder_core_options sha256_text nf options d)) before (new_core w)"
    and "fw_credential (core_world c) = Some cred"
    and "core_revoke (folder_core_options sha256_text nf options d) c = (Return (), c1)"
    and "list_all (\<lambda>op. \<not> replaces op) after"
  shows "held (cr_fingerprint cred) (fold (core_run (folder_core_options sha256_text nf options d)) after c1)"
proof (rule held_runs [OF _ assms(4)])
  have "core_ok c" unfolding assms(1) by (rule core_ok_runs) simp
  then have "wp (core_revoke (folder_core_options sha256_text nf options d)) (\<lambda>_. held (cr_fingerprint cred))
      (\<lambda>_ c'. held (cr_fingerprint cred) c \<longrightarrow> held (cr_fingerprint cred) c') c"
    using assms(2) by (intro revoke_holds) simp_all
  with assms(3) show "held (cr_fingerprint cred) c1" by (simp add: wp_def)
qed

lemma held_refuses:
  assumes "held f c"
  shows "core_status c \<noteq> Running \<and>
     (\<exists>e. core_stat (folder_core_options sha256_text nf options d) p c = (Throw e, c)) \<and>
     (\<exists>e. core_read (folder_core_options sha256_text nf options d) p c = (Throw e, c)) \<and>
     (\<exists>e. core_write (folder_core_options sha256_text nf options d) p bs c = (Throw e, c)) \<and>
     (\<exists>e. core_listMarkdown (folder_core_options sha256_text nf options d) supplied c = (Throw e, c)) \<and>
     (\<exists>e. core_rescan (folder_core_options sha256_text nf options d) supplied c = (Throw e, c))"
  using assms held_stat [OF assms] held_list [OF assms] held_access [OF assms]
  by (auto simp: held_def)

end

text \<open>
  C10. Revocation is final. A folder source that has revoked its credential is not running and refuses
  every operation on files, without touching the world, after any later sequence of starts, stops,
  file operations, revocations and restarts of the process, as long as nobody replaces the
  credentials; and this whatever faults the disk has, those of the state file included.
\<close>

theorem revocation_is_final:
  assumes "folder_descriptor (nf_root nf) options = Inr d"
    and "fo_credentials options = createMemoryCredentialCustody"
    and "\<And>w. keeps folder_stored fw_credential (fo_now options) w"
    and "\<And>emit ev w. fo_ui options = Some emit \<Longrightarrow> keeps folder_stored fw_credential (emit ev) w"
    and "opts = folder_core_options sha256_text nf options d"
    and "c = fold (core_run opts) before (new_core w)"
    and "fw_credential (core_world c) = Some cred"
    and "core_revoke opts c = (Return (), c1)"
    and "list_all (\<lambda>op. \<not> replaces op) after"
    and "c2 = fold (core_run opts) after c1"
  shows "core_status c2 \<noteq> Running \<and>
     (\<exists>e. core_stat opts p c2 = (Throw e, c2)) \<and>
     (\<exists>e. core_read opts p c2 = (Throw e, c2)) \<and>
     (\<exists>e. core_write opts p bs c2 = (Throw e, c2)) \<and>
     (\<exists>e. core_listMarkdown opts supplied c2 = (Throw e, c2)) \<and>
     (\<exists>e. core_rescan opts supplied c2 = (Throw e, c2))"
proof -
  have source: "folder_source nf options d"
    using assms(1-4) by (intro folder_source.intro)
  show ?thesis
    unfolding assms(5,10)
    by (rule folder_source.held_refuses [OF source folder_source.revoked_for_good [OF source]])
      (use assms(5-9) in auto)
qed

section \<open>Starting\<close>

text \<open>Without faults the calls on the state file succeed and leave no fault behind.\<close>

lemma calm_docs_step [simp]: "fw_faults w = [] \<Longrightarrow> docs_step w = (Return (), w)"
  by (simp add: docs_step_def fs_call_def)

lemma calm_sync [simp]: "fw_faults w = [] \<Longrightarrow> fs_sync w = (Return (), w)" "fw_faults w = [] \<Longrightarrow> fs_close w = (Return (), w)"
  by (simp_all add: fs_sync_def fs_close_def fs_call_def)

definition intact :: "folder_world \<Rightarrow> bool" where
  "intact w \<longleftrightarrow> fw_faults w = [] \<and> map_of (fw_docs w) CORE_STATE_KEY \<noteq> Some Garbage"

lemma calm_store_read:
  assumes "intact w"
  shows "store_read CORE_STATE_KEY w = (Return (folder_stored w), w)"
  using assms
  by (auto simp: intact_def store_read_def core_key_ok act_bind_def act_catch_def state_error_def map_error_def
      docs_lookup_def folder_stored_def act_return_def split: option.split state_doc.split)

definition with_state :: "js_value \<Rightarrow> folder_world \<Rightarrow> folder_world" where
  "with_state v w = w\<lparr>fw_docs := AList.update CORE_STATE_KEY (Doc v) (fw_docs w)\<rparr>"

lemma with_state_simps [simp]:
  "intact w \<Longrightarrow> intact (with_state v w)" "folder_stored (with_state v w) = v"
  "fw_credential (with_state v w) = fw_credential w"
  by (simp_all add: with_state_def intact_def folder_stored_def update_conv')

lemma calm_store_write:
  assumes "intact w"
  shows "store_write CORE_STATE_KEY v w = (Return (), with_state (json_copy v) w)"
  using assms
  by (simp add: intact_def store_write_def store_commit_def core_key_ok act_bind_def act_catch_def
      act_finally_def state_error_def map_error_def with_state_def act_return_def)

lemma calm_save:
  assumes "intact (core_world c)"
  shows "save_state (folder_core_options h nf options d) p c =
    (Return (), c\<lparr>core_state := Some p, core_world := with_state (json_copy (persisted_value p)) (core_world c)\<rparr>)"
  by (simp add: save_state_def act_bind_def put_state_def on_world_def folder_core_options_def
      FileStateStore_def calm_store_write [OF assms])

definition usable :: "(jsstr \<Rightarrow> jsstr) \<Rightarrow> folder_files \<Rightarrow> credential_record \<Rightarrow> js_num \<Rightarrow> bool" where
  "usable h nf cred now \<longleftrightarrow>
     cr_sourceId cred = sourceIdentityForCanonicalRoot h (nf_root nf) \<and> cr_status cred = Active \<and>
     \<not> expired_at cred now"

lemma calm_custody:
  assumes "fo_credentials options = createMemoryCredentialCustody" and "fw_credential w = Some cred"
    and "usable h nf cred now"
  shows "cp_get (co_credentials (folder_core_options h nf options d)) w = (Return (Some cred), w)"
  using assms
  by (simp add: folder_core_options_def scoped_custody_def createMemoryCredentialCustody_def usable_def
      act_bind_def act_return_def)

lemma calm_setStatus:
  assumes "intact (core_world c)" and "core_state c = Some p" and "pcs_status p = st" and "fo_ui options = None"
  shows "setStatus (folder_core_options h nf options d) st c = (Return st, c\<lparr>core_status := st\<rparr>)"
  using assms
  by (simp add: setStatus_def act_bind_def put_status_def get_state_def emit_status_def
      folder_core_options_def act_return_def)

lemma calm_start_loaded:
  assumes "intact (core_world c)" and "fo_credentials options = createMemoryCredentialCustody"
    and "fo_ui options = None" and "fo_now options = act_return now"
    and "fw_credential (core_world c) = Some cred" and "usable h nf cred now"
    and "pcs_revokedFingerprint p \<noteq> Some (cr_fingerprint cred)"
  shows "start_loaded (folder_core_options h nf options d) p c =
    (Return Running, c\<lparr>core_status := Running, core_state := Some (p\<lparr>pcs_status := Running\<rparr>),
       core_world := with_state (json_copy (persisted_value (p\<lparr>pcs_status := Running\<rparr>))) (core_world c)\<rparr>)"
proof -
  let ?opts = "folder_core_options h nf options d"
  have get: "on_world (cp_get (co_credentials ?opts)) c = (Return (Some cred), c)"
    using calm_custody [OF assms(2) assms(5,6)] by (simp add: on_world_def)
  have clock: "co_now ?opts = act_return now" using assms(4) by (simp add: folder_core_options_def)
  have active: "cr_status cred = Active" "\<not> expired_at cred now" using assms(6) by (simp_all add: usable_def)
  have never: "\<not> expired_at cred NaN" if "cr_expiresAt cred = None" using that by (simp add: expired_at_def)
  let ?c = "c\<lparr>core_state := Some (p\<lparr>pcs_status := Running\<rparr>),
      core_world := with_state (json_copy (persisted_value (p\<lparr>pcs_status := Running\<rparr>))) (core_world c)\<rparr>"
  have set: "setStatus ?opts Running ?c = (Return Running, ?c\<lparr>core_status := Running\<rparr>)"
    by (rule calm_setStatus [where p = "p\<lparr>pcs_status := Running\<rparr>"]) (use assms in simp_all)
  show ?thesis
    unfolding start_loaded_def act_bind_run [of "on_world _", OF get]
    using assms(7) active never set calm_save [OF assms(1)]
    by (simp add: clock act_bind_def act_return_def on_world_def)
qed

text \<open>
  C25. An active credential starts the source. On a disk without faults whose state file is absent or
  valid, a new process over a folder whose custody holds an active, unexpired credential of this
  folder, other than one the stored state names as revoked, starts: \<open>start\<close> returns \<open>running\<close>, the
  core is running, and the state written back decodes to the one that was stored, with \<open>running\<close>.
\<close>

theorem start_runs:
  assumes "folder_descriptor (nf_root nf) options = Inr d"
    and "fo_credentials options = createMemoryCredentialCustody"
    and "fo_ui options = None" and "fo_now options = act_return now"
    and "intact w" and "fw_credential w = Some cred" and "usable h nf cred now"
    and "state_or_default (folder_core_options h nf options d) (decodePersistedCoreState (folder_stored w)) = Inr p"
    and "pcs_revokedFingerprint p \<noteq> Some (cr_fingerprint cred)"
  shows "\<exists>c'. core_start (folder_core_options h nf options d) (new_core w) = (Return Running, c') \<and>
    core_status c' = Running \<and> permitted (folder_core_options h nf options d) c' \<and>
    decodePersistedCoreState (folder_stored (core_world c')) =
      Some (p\<lparr>pcs_descriptor := stored_descriptor (pcs_descriptor p), pcs_status := Running\<rparr>)"
proof -
  let ?opts = "folder_core_options h nf options d" and ?p = "p\<lparr>pcs_status := Running\<rparr>"
  let ?c = "(new_core w)\<lparr>core_state := Some p\<rparr>"
  let ?fin = "?c\<lparr>core_status := Running, core_state := Some ?p, core_world := with_state (json_copy (persisted_value ?p)) w\<rparr>"
  have opt_valid: "pred_option valid_descriptor (co_descriptor ?opts)"
    using assms(1) by (simp add: folder_core_options_def folder_descriptor_def createSourceDescriptor_valid)
  have "pred_option (\<lambda>p. valid_descriptor (pcs_descriptor p)) (decodePersistedCoreState (folder_stored w))"
    using decoded_valid by (cases "decodePersistedCoreState (folder_stored w)") auto
  from state_or_default_valid [OF opt_valid assms(8) this] have "valid_descriptor (pcs_descriptor ?p)" by simp
  note stored = persisted_roundtrip [OF this]
  have read: "on_world (lsp_read (co_state ?opts) CORE_STATE_KEY) (new_core w) = (Return (folder_stored w), new_core w)"
    using calm_store_read [OF assms(5)]
    by (simp add: on_world_def new_core_def folder_core_options_def FileStateStore_def)
  have loaded: "start_loaded ?opts p ?c = (Return Running, ?fin)"
    using calm_start_loaded [OF _ assms(2-4) _ assms(7,9), of ?c] assms(5,6) by (simp add: new_core_def)
  have "core_start ?opts (new_core w) = (Return Running, ?fin)"
    unfolding core_start_def
    using read assms(8) loaded
    by (simp add: act_bind_def get_status_def act_return_def put_state_def) (simp add: new_core_def)
  moreover have "permitted ?opts ?fin"
    using calm_custody [OF assms(2) _ assms(7), of "core_world ?fin"] assms(4,6,7)
    by (auto simp: permitted_def usable_def folder_core_options_def act_return_def)
  ultimately show ?thesis using stored by auto
qed

section \<open>Replacing the credentials\<close>

text \<open>
  C26. \<open>replaceCredentials\<close> on a running source. On a calm disk it returns \<open>running\<close> and the core goes
  on running with the replacement, whatever its expiry, while the state it has just written says
  \<open>stopped\<close> and names no revoked fingerprint; it checks neither the clock nor the stored state again.
\<close>

theorem replace_while_running:
  assumes "folder_descriptor (nf_root nf) options = Inr d"
    and "fo_credentials options = createMemoryCredentialCustody"
    and "opts = folder_core_options h nf options d"
    and "intact (core_world c)" and "core_ok c" and "core_state c = Some p" and "core_status c = Running"
    and "cr_status r = Active" and "cr_sourceId r = sourceIdentityForCanonicalRoot h (nf_root nf)"
  shows "\<exists>c'. core_replaceCredentials opts r c = (Return Running, c') \<and> core_status c' = Running \<and>
    fw_credential (core_world c') = Some r \<and>
    decodePersistedCoreState (folder_stored (core_world c')) =
      Some (p\<lparr>pcs_descriptor := stored_descriptor (pcs_descriptor p), pcs_status := Stopped,
        pcs_revokedFingerprint := None\<rparr>)"
proof -
  let ?p = "p\<lparr>pcs_status := Stopped, pcs_revokedFingerprint := None\<rparr>"
  let ?w = "(core_world c)\<lparr>fw_credential := Some r\<rparr>"
  let ?c = "c\<lparr>core_world := ?w\<rparr>"
  let ?fin = "?c\<lparr>core_state := Some ?p, core_world := with_state (json_copy (persisted_value ?p)) ?w\<rparr>"
  have confirm: "on_world (cp_confirmReplacement (co_credentials opts) r) c = (Return (), ?c)"
    using assms(2,3,8,9)
    by (simp add: on_world_def folder_core_options_def scoped_custody_def createMemoryCredentialCustody_def)
  have save: "save_state opts ?p ?c = (Return (), ?fin)"
    using calm_save [of ?c h nf options d ?p] assms(3,4) by (simp add: intact_def)
  have "core_replaceCredentials opts r c = (Return Running, ?fin)"
    using assms(6-8) confirm save
    by (simp add: core_replaceCredentials_def core_start_def act_bind_def get_state_def get_status_def
        state_or_default_def act_return_def)
  moreover have "valid_descriptor (pcs_descriptor ?p)" using assms(5,6) by (simp add: core_ok_def)
  ultimately show ?thesis
    using persisted_roundtrip [of ?p] assms(7) by (intro exI [of _ ?fin]) simp
qed

section \<open>A source\<close>

definition plain_options :: folder_options where
  "plain_options = \<lparr>fo_credentials = createMemoryCredentialCustody, fo_clientVersion = None,
     fo_syncSchemaVersion = None, fo_pairedAt = Fin 1, fo_ui = None, fo_now = act_return (Fin 5), fo_sched = id\<rparr>"

definition plain_descriptor :: source_descriptor where
  "plain_descriptor = (case folder_descriptor (nf_root plain_folder) plain_options of
     Inr d \<Rightarrow> d | Inl _ \<Rightarrow> undefined)"

lemma plain_described: "folder_descriptor (nf_root plain_folder) plain_options = Inr plain_descriptor"
proof -
  have "\<not> isl (folder_descriptor (nf_root plain_folder) plain_options)" by code_simp
  then show ?thesis
    unfolding plain_descriptor_def by (cases "folder_descriptor (nf_root plain_folder) plain_options") simp_all
qed

lemma plain_custody: "fo_credentials plain_options = createMemoryCredentialCustody"
  and plain_ui: "fo_ui plain_options = None" and plain_now: "fo_now plain_options = act_return (Fin 5)"
  by (simp_all add: plain_options_def)

lemma plain_quiet: "keeps folder_stored fw_credential (fo_now plain_options) w"
  by (simp add: plain_now wp_return same_store_def)

interpretation plain_source: folder_source id plain_folder plain_options plain_descriptor
  by unfold_locales (simp_all add: plain_described plain_custody plain_quiet plain_ui)

definition plain_cred :: credential_record where
  "plain_cred = \<lparr>cr_sourceId = sourceIdentityForCanonicalRoot id (nf_root plain_folder), cr_fingerprint = lit ''f'',
     cr_status = Active, cr_issuedAt = Fin 1, cr_expiresAt = Some (Fin 9)\<rparr>"

definition paired_disk :: folder_world where
  "paired_disk = (plain_disk [])\<lparr>fw_credential := Some plain_cred\<rparr>"

definition plain_opts :: "folder_world core_options" where
  "plain_opts = folder_core_options id plain_folder plain_options plain_descriptor"

lemma paired_intact: "intact paired_disk" "fw_credential paired_disk = Some plain_cred" "folder_stored paired_disk = JUndefined"
  by (simp_all add: intact_def paired_disk_def plain_disk_def folder_stored_def)

lemma plain_usable: "usable id plain_folder plain_cred (Fin 5)"
  by code_simp

definition plain_state :: persisted_core_state where
  "plain_state = \<lparr>pcs_descriptor = plain_descriptor, pcs_status = Stopped, pcs_revokedFingerprint = None,
     pcs_lastScanId = None\<rparr>"

lemma plain_loaded: "state_or_default plain_opts (decodePersistedCoreState (folder_stored paired_disk)) = Inr plain_state"
  by (simp add: paired_intact decodePersistedCoreState_def state_or_default_def default_descriptor_def
      plain_opts_def folder_core_options_def plain_state_def)

theorem start_runs_witness:
  "\<exists>c'. core_start plain_opts (new_core paired_disk) = (Return Running, c')"
  using start_runs [OF plain_described plain_custody plain_ui plain_now paired_intact(1,2) plain_usable
      plain_loaded [unfolded plain_opts_def]]
  by (auto simp: plain_opts_def plain_state_def)

definition running_core :: "folder_world core" where
  "running_core = \<lparr>core_status = Running, core_state = Some (plain_state\<lparr>pcs_status := Running\<rparr>), core_world = paired_disk\<rparr>"

text \<open>The replacement has been expired since 3; the clock is at 5.\<close>

theorem replace_while_running_witness:
  "\<exists>c'. core_replaceCredentials plain_opts (plain_cred\<lparr>cr_expiresAt := Some (Fin 3)\<rparr>) running_core = (Return Running, c')"
proof -
  have ok: "core_ok running_core"
    using plain_described
    by (auto simp: core_ok_def running_core_def plain_state_def folder_descriptor_def dest!: createSourceDescriptor_valid)
  have "\<exists>c'. core_replaceCredentials plain_opts (plain_cred\<lparr>cr_expiresAt := Some (Fin 3)\<rparr>) running_core = (Return Running, c') \<and>
     core_status c' = Running \<and> fw_credential (core_world c') = Some (plain_cred\<lparr>cr_expiresAt := Some (Fin 3)\<rparr>) \<and>
     decodePersistedCoreState (folder_stored (core_world c')) =
      Some (plain_state\<lparr>pcs_status := Running, pcs_descriptor := stored_descriptor plain_descriptor, pcs_status := Stopped,
        pcs_revokedFingerprint := None\<rparr>)"
    using replace_while_running [OF plain_described plain_custody plain_opts_def _ ok, of "plain_state\<lparr>pcs_status := Running\<rparr>"
        "plain_cred\<lparr>cr_expiresAt := Some (Fin 3)\<rparr>"]
    by (simp add: running_core_def paired_intact plain_cred_def plain_state_def)
  then show ?thesis by blast
qed

text \<open>A source that is revoked, restarted and started again.\<close>

theorem revocation_is_final_witness:
  "core_status (fold (core_run plain_opts) [OpRestart, OpStart]
     (snd (core_revoke plain_opts (fold (core_run plain_opts) [OpStart] (new_core paired_disk))))) \<noteq> Running"
proof -
  let ?c = "fold (core_run plain_opts) [OpStart] (new_core paired_disk)"
  have revoked: "fst (core_revoke plain_opts ?c) = Return ()" by code_simp
  have result: "core_revoke plain_opts ?c = (Return (), snd (core_revoke plain_opts ?c))"
    by (rule prod_eqI) (simp_all only: fst_conv snd_conv revoked)
  have paired: "fw_credential (core_world ?c) = Some plain_cred" by code_simp
  show ?thesis
    using revocation_is_final [OF plain_described plain_custody plain_quiet _ plain_opts_def refl paired
        result _ refl,
        of "[OpRestart, OpStart]"]
    by (simp add: plain_ui replaces_def)
qed

end
