(* ===== verification/VaultPath.thy ===== *)
theory VaultPath
  imports SourcePaths
begin

text \<open>
  Paths of notes, \<open>packages/contracts/src/vault-path.ts\<close>: the strict validator that the worker, the
  web client and the pairing code share, and the conversion of what an owner types. Unicode tables are
  the record \<open>path_env\<close>: normalisation, lower-casing and the code points of the classes Cc and Cf.
\<close>

section \<open>Failures\<close>

datatype path_failure = PathAbsolute | PathBackslash | ControlOrFormat | PathEmpty | EmptySegment | NotMarkdown
  | NotNfc | InObsidian | PathTooLong | ReservedCharacter | ReservedName | SegmentTooLong | TrailingPeriod
  | TrailingSeparator | TrailingSpace | UnsafeSegment

record path_env =
  pe_nfc :: "jsstr \<Rightarrow> jsstr"
  pe_lower :: "jsstr \<Rightarrow> jsstr"
  pe_control :: "nat \<Rightarrow> bool"

record vault_path =
  vp_path :: jsstr
  vp_pathKey :: jsstr
  vp_title :: jsstr

definition MAX_VAULT_PATH_BYTES :: nat where
  "MAX_VAULT_PATH_BYTES = 1024"

definition MAX_VAULT_PATH_SEGMENT_BYTES :: nat where
  "MAX_VAULT_PATH_SEGMENT_BYTES = 255"

section \<open>Patterns\<close>

text \<open>The code points that iteration over a string visits; a lone surrogate is one.\<close>

fun characters :: "jsstr \<Rightarrow> nat list" where
  "characters [] = []"
| "characters [u] = [unat u]"
| "characters (u # v # r) =
     (if high_surrogate u \<and> low_surrogate v
      then (0x10000 + (unat u - 0xD800) * 0x400 + (unat v - 0xDC00)) # characters r
      else unat u # characters (v # r))"

definition utf8ByteLength :: "jsstr \<Rightarrow> nat" where
  "utf8ByteLength s = sum_list (List.map (\<lambda>c.
     if c \<le> 0x7F then 1 else if c \<le> 0x7FF then 2 else if c \<le> 0xFFFF then 3 else 4) (characters s))"

definition reserved_stems :: "string list" where
  "reserved_stems = [''con'', ''prn'', ''aux'', ''nul''] @
     List.map (\<lambda>d. ''com'' @ [digit_char d]) [1..<10] @ List.map (\<lambda>d. ''lpt'' @ [digit_char d]) [1..<10]"

definition windows_reserved_name :: "jsstr \<Rightarrow> bool" where
  "windows_reserved_name s = list_ex (\<lambda>w. folded_prefix w s \<and>
     (length s = length w \<or> s ! length w = 46 \<and> \<not> list_ex line_terminator (drop (length w + 1) s))) reserved_stems"

definition windows_reserved_character :: "jsstr \<Rightarrow> bool" where
  "windows_reserved_character s = list_ex (\<lambda>u. u \<in> {60, 62, 58, 34, 124, 63, 42}) s"

definition drive_root :: "jsstr \<Rightarrow> bool" where
  "drive_root s = (case s of a # b # _ \<Rightarrow> (65 \<le> a \<and> a \<le> 90 \<or> 97 \<le> a \<and> a \<le> 122) \<and> b = 58 | _ \<Rightarrow> False)"

definition ends_with :: "'a list \<Rightarrow> 'a list \<Rightarrow> bool" where
  "ends_with p s = starts_with (rev p) (rev s)"

fun double_slash :: "jsstr \<Rightarrow> bool" where
  "double_slash (u # v # r) = (u = 47 \<and> v = 47 \<or> double_slash (v # r))"
| "double_slash _ = False"

section \<open>The validator\<close>

definition segment_failure :: "jsstr \<Rightarrow> path_failure option" where
  "segment_failure seg =
     (if seg = [] then Some EmptySegment
      else if seg = lit ''.'' \<or> seg = lit ''..'' then Some UnsafeSegment
      else if ends_with (lit ''.'') seg then Some TrailingPeriod
      else if ends_with (lit '' '') seg then Some TrailingSpace
      else if MAX_VAULT_PATH_SEGMENT_BYTES < utf8ByteLength seg then Some SegmentTooLong
      else if windows_reserved_name seg then Some ReservedName
      else None)"

fun segments_failure :: "jsstr list \<Rightarrow> path_failure option" where
  "segments_failure [] = None"
| "segments_failure (seg # segs) = (case segment_failure seg of Some f \<Rightarrow> Some f | None \<Rightarrow> segments_failure segs)"

definition validateMarkdownVaultPath :: "path_env \<Rightarrow> jsstr \<Rightarrow> path_failure + vault_path" where
  "validateMarkdownVaultPath pe s =
     (if s = [] then Inl PathEmpty
      else if s \<noteq> pe_nfc pe s then Inl NotNfc
      else if MAX_VAULT_PATH_BYTES < utf8ByteLength s then Inl PathTooLong
      else if list_ex (pe_control pe) (characters s) then Inl ControlOrFormat
      else if windows_reserved_character s then Inl ReservedCharacter
      else if 92 \<in> set s then Inl PathBackslash
      else if hd s = 47 \<or> drive_root s then Inl PathAbsolute
      else if double_slash s then Inl EmptySegment
      else if ends_with (lit ''/'') s then Inl TrailingSeparator
      else (case segments_failure (split_on 47 s) of
          Some f \<Rightarrow> Inl f
        | None \<Rightarrow>
            if pe_lower pe (hd (split_on 47 s)) = lit ''.obsidian'' then Inl InObsidian
            else if \<not> ends_with (lit ''.md'') (pe_lower pe s) then Inl NotMarkdown
            else (let filename = last (split_on 47 s) in
              Inr \<lparr>vp_path = s, vp_pathKey = pe_lower pe s, vp_title = take (length filename - 3) filename\<rparr>)))"

section \<open>What an owner types\<close>

fun friendlyPathError :: "path_failure \<Rightarrow> string" where
  "friendlyPathError PathEmpty = ''Enter a note name.''"
| "friendlyPathError PathAbsolute = ''Choose a location inside this vault, such as Projects/Ideas.''"
| "friendlyPathError PathBackslash = ''Use / between folder names instead of a backslash.''"
| "friendlyPathError ControlOrFormat = ''Remove invisible or unsupported characters from the note name.''"
| "friendlyPathError NotNfc = ''Remove invisible or unsupported characters from the note name.''"
| "friendlyPathError EmptySegment = ''Remove repeated slashes or empty folder names.''"
| "friendlyPathError NotMarkdown = ''Use a Markdown note name ending in .md, or omit the extension.''"
| "friendlyPathError InObsidian =
     ''MDevolved cannot create notes inside the vault'' @ [CHR 0x27] @ ''s .obsidian folder.''"
| "friendlyPathError PathTooLong = ''Shorten the note name or folder location.''"
| "friendlyPathError ReservedCharacter =
     ''Remove any of these reserved characters: < > : '' @ [CHR 0x22] @ '' | ? *''"
| "friendlyPathError ReservedName =
     ''Choose a different note or folder name; that name is reserved by the operating system.''"
| "friendlyPathError SegmentTooLong = ''Shorten one of the folder or note names.''"
| "friendlyPathError TrailingPeriod = ''Remove the period or space at the end of a folder or note name.''"
| "friendlyPathError TrailingSpace = ''Remove the period or space at the end of a folder or note name.''"
| "friendlyPathError TrailingSeparator = ''Add a note name after the final folder.''"
| "friendlyPathError UnsafeSegment = ''Do not use . or .. as a folder name.''"

datatype prepared_path = PathPrepared bool jsstr | PathRefused string

definition js_trim :: "jsstr \<Rightarrow> jsstr" where
  "js_trim s = rev (dropWhile js_space (rev (dropWhile js_space s)))"

definition prepareMarkdownNotePath :: "path_env \<Rightarrow> jsstr \<Rightarrow> prepared_path" where
  "prepareMarkdownNotePath pe s =
     (let normalized = pe_nfc pe (js_trim s) in
      if normalized = [] then PathRefused (friendlyPathError PathEmpty)
      else if ends_with (lit ''/'') normalized then PathRefused (friendlyPathError TrailingSeparator)
      else (let candidate = (if ends_with (lit ''.md'') (pe_lower pe normalized) then normalized
                             else normalized @ lit ''.md'') in
        case validateMarkdownVaultPath pe candidate of
          Inl f \<Rightarrow> PathRefused (friendlyPathError f)
        | Inr v \<Rightarrow> PathPrepared (candidate \<noteq> s) (vp_path v)))"

section \<open>What an accepted path is\<close>

lemma validated_fields:
  assumes "validateMarkdownVaultPath pe s = Inr v"
  shows "vp_path v = s" "vp_pathKey v = pe_lower pe s"
  using assms by (auto simp: validateMarkdownVaultPath_def Let_def split: if_splits option.splits)

lemma segments_failure_None: "segments_failure segs = None \<longleftrightarrow> list_all (\<lambda>seg. segment_failure seg = None) segs"
  by (induction segs) (auto split: option.split)

lemma accepted_segment:
  "segment_failure seg = None \<Longrightarrow> seg \<noteq> [] \<and> seg \<noteq> lit ''.'' \<and> seg \<noteq> lit ''..'' \<and> \<not> windows_reserved_name seg \<and>
     utf8ByteLength seg \<le> 255"
  by (auto simp: segment_failure_def MAX_VAULT_PATH_SEGMENT_BYTES_def split: if_splits)

lemma character_in: "0 \<in> set s \<Longrightarrow> 0 \<in> set (characters s)"
  by (induction s rule: characters.induct) (auto simp: high_surrogate_def low_surrogate_def)

text \<open>Every accepted path is a portable one in the sense of the source boundary.\<close>

lemma accepted_portable:
  assumes "validateMarkdownVaultPath pe s = Inr v" and "pe_control pe 0"
  shows "portable_path s"
proof -
  have segs: "segment_failure seg = None" if "seg \<in> set (split_on 47 s)" for seg
    using assms(1) that
    by (auto simp: validateMarkdownVaultPath_def Let_def segments_failure_None list_all_iff split: if_splits option.splits)
  have "0 \<notin> set (characters s)"
    using assms by (auto simp: validateMarkdownVaultPath_def list_ex_iff split: if_splits)
  then have "0 \<notin> set s" using character_in by blast
  moreover have "s \<noteq> []" "92 \<notin> set s" using assms(1) by (auto simp: validateMarkdownVaultPath_def split: if_splits)
  ultimately show ?thesis
    using accepted_segment [OF segs] split_on_parts [of _ 47 s] by (fastforce simp: portable_path_def list_all_iff)
qed

end
