(* ===== verification/FolderState.thy ===== *)
theory FolderState
  imports FolderSpec VaultPath
begin

text \<open>
  Opening a folder as a source, \<open>createFolderSource\<close> of \<open>packages/folder-adapter/src/index.ts\<close> from the folder the
  owner selects to the options of the core: where local state is kept, and that its directory is made outside
  the folder. Paths of the environment are given as \<open>path.resolve\<close> makes them.
\<close>

section \<open>Making directories\<close>

definition dir_at :: "fs_tree \<Rightarrow> abs_path \<Rightarrow> bool" where
  "dir_at t q = (q = [] \<or> (case map_of t q of Some (FsDir _) \<Rightarrow> True | _ \<Rightarrow> False))"

text \<open>\<open>mkdir\<close> with \<open>recursive\<close>: the directories of the path that are missing, from the first one on.\<close>

fun make_dirs :: "abs_path \<Rightarrow> jsstr list \<Rightarrow> fs_tree \<Rightarrow> (errno + unit) \<times> fs_tree" where
  "make_dirs acc [] t = (Inr (), t)"
| "make_dirs acc (s # rest) t = (case realpath_of t (acc @ [s]) of
     Inr q \<Rightarrow> if dir_at t q then make_dirs (acc @ [s]) rest t else (Inl EEXIST, t)
   | Inl e \<Rightarrow>
       if e \<noteq> ENOENT then (Inl e, t)
       else (case create_node (acc @ [s]) (FsDir (Fin 0)) t of
           (Inl e, t') \<Rightarrow> (Inl e, t')
         | (Inr _, t') \<Rightarrow> make_dirs (acc @ [s]) rest t'))"

definition fs_mkdirs :: "abs_path \<Rightarrow> unit fs_act" where
  "fs_mkdirs p = fs_call (make_dirs [] p)"

definition state_invalid :: "string \<Rightarrow> abs_path \<Rightarrow> 'a folder_act" where
  "state_invalid msg p = act_throw (FolderError StateInvalid msg (Some (abs_text p)))"

definition ensureDirectory :: "abs_path \<Rightarrow> abs_path \<Rightarrow> unit folder_act" where
  "ensureDirectory path selectedRoot =
     act_bind (raw_fs (lstatSafe path)) (\<lambda>existing.
     case existing of
       Some (FsLink _) \<Rightarrow> state_invalid ''state directory cannot be a symlink'' path
     | _ \<Rightarrow>
       if (case existing of Some n \<Rightarrow> \<not> is_dir n | None \<Rightarrow> False)
       then state_invalid ''state path is not a directory'' path
       else
         act_bind (if existing = None then raw_fs (fs_mkdirs path) else act_return ()) (\<lambda>_.
         act_bind (raw_fs (fs_realpath path)) (\<lambda>canonical.
         if isPathInside selectedRoot canonical
         then state_invalid ''local state must remain outside the selected folder'' path
         else if canonical \<noteq> path
         then act_bind (raw_fs (lstatSafe path)) (\<lambda>again.
           if (case again of Some n \<Rightarrow> is_link n | None \<Rightarrow> False)
           then state_invalid ''state directory cannot be a symlink'' path else act_return ())
         else act_return ())))"

section \<open>Where local state is kept\<close>

datatype os_platform = Win32 | Darwin | OtherPlatform

record host_env =
  he_platform :: os_platform
  he_home :: abs_path
  he_localAppData :: "abs_path option"
  he_xdgStateHome :: "abs_path option"

definition DEFAULT_STATE_DIRECTORY :: jsstr where
  "DEFAULT_STATE_DIRECTORY = lit ''mdevolved''"

definition defaultStateDirectory :: "host_env \<Rightarrow> abs_path" where
  "defaultStateDirectory he = (case he_platform he of
     Win32 \<Rightarrow> (case he_localAppData he of Some d \<Rightarrow> d
       | None \<Rightarrow> he_home he @ [lit ''AppData'', lit ''Local'']) @ [lit ''MDevolved'']
   | Darwin \<Rightarrow> he_home he @ [lit ''Library'', lit ''Application Support'', lit ''MDevolved'']
   | OtherPlatform \<Rightarrow> (case he_xdgStateHome he of Some d \<Rightarrow> d
       | None \<Rightarrow> he_home he @ [lit ''.local'', lit ''state'']) @ [lit ''mdevolved''])"

definition stateDirectoryFor :: "(jsstr \<Rightarrow> jsstr) \<Rightarrow> host_env \<Rightarrow> abs_path \<Rightarrow> abs_path option \<Rightarrow> abs_path folder_act" where
  "stateDirectoryFor sha256_text he base requested =
     (let ident = sourceIdentityForCanonicalRoot sha256_text base;
          raw = (case requested of Some r \<Rightarrow> r | None \<Rightarrow> defaultStateDirectory he @ [ident]) in
      act_bind (act_catch (raw_fs (fs_realpath (butlast raw))) (\<lambda>_. act_return (butlast raw))) (\<lambda>parent.
      let selected = parent @ (if raw = [] then [] else [last raw]) in
      if \<not> isPathInside base selected then act_return selected
      else (let sibling = butlast base @
              [lit ''.'' @ DEFAULT_STATE_DIRECTORY @ lit ''-state-'' @ drop (length ident - 12) ident] in
        if isPathInside base sibling
        then state_invalid ''could not place local state outside the selected folder'' sibling
        else act_return sibling)))"

section \<open>The source\<close>

definition selectFolderRoot :: "(jsstr \<Rightarrow> abs_path) \<Rightarrow> jsstr \<Rightarrow> abs_path folder_act" where
  "selectFolderRoot resolve selected =
     (if js_trim selected = [] \<or> 0 \<in> set selected
      then act_throw (FolderError RootInvalid ''a folder path is required'' None)
      else canonicalizeFolderRoot (resolve selected))"

definition folderSourceIdentity :: "(jsstr \<Rightarrow> jsstr) \<Rightarrow> (jsstr \<Rightarrow> abs_path) \<Rightarrow> jsstr \<Rightarrow> jsstr folder_act" where
  "folderSourceIdentity sha256_text resolve selected =
     act_bind (selectFolderRoot resolve selected) (\<lambda>canonical.
     act_return (sourceIdentityForCanonicalRoot sha256_text canonical))"

record opened_source =
  os_root :: abs_path
  os_stateDirectory :: abs_path
  os_options :: "folder_world core_options"

record open_env =
  oe_sha256 :: "jsstr \<Rightarrow> jsstr"
  oe_resolve :: "jsstr \<Rightarrow> abs_path"
  oe_host :: host_env
  oe_text :: text_env
  oe_uuid :: "nat \<Rightarrow> jsstr"

definition openFolderSource :: "open_env \<Rightarrow> folder_options \<Rightarrow> jsstr \<Rightarrow> abs_path option \<Rightarrow> opened_source folder_act" where
  "openFolderSource env options selected requestedState =
     act_bind (selectFolderRoot (oe_resolve env) selected) (\<lambda>base.
     act_bind (cp_get (fo_credentials options)) (\<lambda>credential.
     if (case credential of Some r \<Rightarrow> cr_sourceId r \<noteq> sourceIdentityForCanonicalRoot (oe_sha256 env) base | None \<Rightarrow> False)
     then scope_error ''protected credentials belong to a different selected folder''
     else
     act_bind (stateDirectoryFor (oe_sha256 env) (oe_host env) base requestedState) (\<lambda>stateDirectory.
     if isPathInside base stateDirectory
     then state_invalid ''local state must remain outside the selected folder'' stateDirectory
     else
     act_bind (act_catch (raw_fs (fs_mkdirs stateDirectory))
       (\<lambda>_. state_invalid ''could not create local state directory'' stateDirectory)) (\<lambda>_.
     act_bind (ensureDirectory stateDirectory base) (\<lambda>_.
     act_bind (act_of (folder_descriptor base options)) (\<lambda>descriptor.
       act_return \<lparr>os_root = base, os_stateDirectory = stateDirectory,
         os_options = folder_core_options (oe_sha256 env) \<lparr>nf_root = base, nf_maxFileBytes = MAX_FILE_BYTES,
           nf_text = oe_text env, nf_uuid = oe_uuid env\<rparr> options descriptor\<rparr>))))))"

section \<open>What making directories changes\<close>

text \<open>Every entry is in a directory.\<close>

definition rooted :: "fs_tree \<Rightarrow> bool" where
  "rooted t \<longleftrightarrow> (\<forall>q s. map_of t (q @ [s]) \<noteq> None \<longrightarrow> real_dir t q)"

lemma canon_snoc:
  "canon n t acc xs = Inr d \<Longrightarrow> real_dir t acc \<Longrightarrow> real_dir t d \<Longrightarrow>
     (map_of t (d @ [s]) = None \<longrightarrow> canon n t acc (xs @ [s]) = Inl ENOENT) \<and>
     (\<forall>m. map_of t (d @ [s]) = Some (FsDir m) \<longrightarrow> canon n t acc (xs @ [s]) = Inr (d @ [s]))"
proof (induction n t acc xs rule: canon.induct)
  case (2 n t acc x rest)
  have no_file: "real_dir t (acc @ [x]) \<Longrightarrow> \<exists>m. map_of t (acc @ [x]) = Some (FsDir m)"
    unfolding real_dir_def by (auto dest: spec [of _ "length acc"])
  from 2 no_file show ?case
    by (auto simp: real_dir_snoc split: option.splits fs_node.splits nat.splits if_splits)
qed auto

lemma realpath_snoc:
  assumes "realpath_of t acc = Inr d" and "real_dir t d"
  shows "map_of t (d @ [s]) = None \<Longrightarrow> realpath_of t (acc @ [s]) = Inl ENOENT"
    and "map_of t (d @ [s]) = Some (FsDir m) \<Longrightarrow> realpath_of t (acc @ [s]) = Inr (d @ [s])"
  using canon_snoc [of 40 t "[]" acc d s] assms by (simp_all add: realpath_of_def)

lemma realpath_dir:
  assumes "realpath_of t p = Inr q" and "dir_at t q"
  shows "real_dir t q"
proof (cases q rule: rev_cases)
  case (snoc d s)
  with assms realpath_real [OF assms(1)] show ?thesis
    by (auto simp: dir_at_def real_path_snoc real_dir_snoc split: option.splits fs_node.splits)
qed simp

lemma made_node:
  fixes m
  assumes "real_dir t d" and "map_of t (d @ [s]) = None" and "rooted t"
  defines "t' \<equiv> (d @ [s], FsDir m) # t"
  shows "rooted t'" "real_dir t' (d @ [s])" "\<And>k v. map_of t k = Some v \<Longrightarrow> map_of t' k = Some v"
proof -
  show mono: "map_of t' k = Some v" if "map_of t k = Some v" for k v using that assms(2) by (auto simp: t'_def)
  have d: "real_dir t' d" by (rule real_dir_mono [OF assms(1) mono])
  then show "real_dir t' (d @ [s])" by (simp add: real_dir_snoc t'_def)
  show "rooted t'"
    unfolding rooted_def
  proof (intro allI impI)
    fix q x assume "map_of t' (q @ [x]) \<noteq> None"
    then have "q @ [x] = d @ [s] \<or> map_of t (q @ [x]) \<noteq> None" by (auto simp: t'_def split: if_splits)
    then show "real_dir t' q" using d assms(3) real_dir_mono [OF _ mono] by (auto simp: rooted_def)
  qed
qed

lemma create_in_dir:
  assumes "realpath_of t acc = Inr d"
  shows "create_node (acc @ [s]) n t = (if map_of t (d @ [s]) \<noteq> None then (Inl EEXIST, t) else (Inr (), (d @ [s], n) # t))"
  using assms by (simp add: create_node_def entry_of_def)

lemma created_step:
  assumes "realpath_of t acc = Inr d" and "real_dir t d" and "rooted t" and "map_of t (d @ [s]) = None"
  obtains t1 where "t1 = (d @ [s], FsDir (Fin 0)) # t" "make_dirs acc (s # rest) t = make_dirs (acc @ [s]) rest t1"
    "realpath_of t1 (acc @ [s]) = Inr (d @ [s])" "real_dir t1 (d @ [s])" "rooted t1" "\<forall>x. map_of t1 ((d @ [s]) @ [x]) = None"
proof
  let ?t = "(d @ [s], FsDir (Fin 0)) # t"
  note made = made_node [OF assms(2,4,3), where m = "Fin 0"]
  show "make_dirs acc (s # rest) t = make_dirs (acc @ [s]) rest ?t"
    using realpath_snoc(1) [OF assms(1,2,4)] create_in_dir [OF assms(1), of s "FsDir (Fin 0)"] assms(4) by simp
  have "realpath_of ?t acc = Inr d"
    using assms(1) canon_mono [of 40 t "[]" acc d ?t] made(3) by (simp add: realpath_of_def)
  moreover have "map_of ?t (d @ [s]) = Some (FsDir (Fin 0))" by simp
  ultimately show "realpath_of ?t (acc @ [s]) = Inr (d @ [s])"
    using realpath_snoc(2) real_dir_mono [OF assms(2) made(3)] by blast
  show "real_dir ?t (d @ [s])" "rooted ?t" by (rule made)+
  have "map_of t ((d @ [s]) @ [x]) = None" for x
  proof (rule ccontr)
    assume "map_of t ((d @ [s]) @ [x]) \<noteq> None"
    with assms(3) have "real_dir t (d @ [s])" unfolding rooted_def by blast
    with assms(4) show False by (simp add: real_dir_snoc)
  qed
  then show "\<forall>x. map_of ?t ((d @ [s]) @ [x]) = None" by simp
qed simp

text \<open>The entries of \<open>t'\<close> that \<open>t\<close> does not have lie on the way to \<open>c\<close>, and all others are the same.\<close>

definition grown_to :: "fs_tree \<Rightarrow> fs_tree \<Rightarrow> abs_path \<Rightarrow> bool" where
  "grown_to t t' c \<longleftrightarrow> (\<forall>q. map_of t' q \<noteq> map_of t q \<longrightarrow> map_of t q = None \<and> (\<exists>x. c = q @ x))"

lemma grown_to_step: "grown_to ((q, n) # t) t' (q @ x) \<Longrightarrow> map_of t q = None \<Longrightarrow> grown_to t t' (q @ x)"
  unfolding grown_to_def by (metis map_of_Cons_code(2))

text \<open>Below a directory without entries everything is new.\<close>

lemma make_dirs_fresh:
  assumes "realpath_of t acc = Inr d" and "real_dir t d" and "rooted t" and "\<forall>s. map_of t (d @ [s]) = None"
    and "make_dirs acc rest t = (r, t')"
  shows "grown_to t t' (d @ rest) \<and> realpath_of t' (acc @ rest) = Inr (d @ rest)"
  using assms
proof (induction rest arbitrary: acc d t)
  case (Cons s rest)
  have none: "map_of t (d @ [s]) = None" using Cons.prems(4) by blast
  obtain t1 where t1: "t1 = (d @ [s], FsDir (Fin 0)) # t" "make_dirs acc (s # rest) t = make_dirs (acc @ [s]) rest t1"
    "realpath_of t1 (acc @ [s]) = Inr (d @ [s])" "real_dir t1 (d @ [s])" "rooted t1" "\<forall>x. map_of t1 ((d @ [s]) @ [x]) = None"
    by (rule created_step [OF Cons.prems(1-3) none])
  from Cons.IH [OF t1(3-6) trans [OF t1(2) [symmetric] Cons.prems(5)]]
  have IH: "grown_to t1 t' ((d @ [s]) @ rest)" "realpath_of t' ((acc @ [s]) @ rest) = Inr ((d @ [s]) @ rest)" by simp_all
  from grown_to_step [OF IH(1) [unfolded t1(1)] none] IH(2) show ?case by simp
qed (simp add: grown_to_def)

text \<open>A path that could be made has a real path, and what was made lies on it.\<close>

lemma make_dirs_effect:
  assumes "realpath_of t acc = Inr d" and "real_dir t d" and "rooted t" and "make_dirs acc rest t = (Inr (), t')"
  shows "\<exists>c. realpath_of t' (acc @ rest) = Inr c \<and> grown_to t t' c"
  using assms
proof (induction rest arbitrary: acc d)
  case (Cons s rest)
  show ?case
  proof (cases "realpath_of t (acc @ [s])")
    case (Inr q)
    with Cons.prems(4) have q: "dir_at t q" "make_dirs (acc @ [s]) rest t = (Inr (), t')" by (auto split: if_splits)
    from Cons.IH [OF Inr realpath_dir [OF Inr q(1)] Cons.prems(3) q(2)] show ?thesis by simp
  next
    case (Inl e)
    with Cons.prems(4) create_in_dir [OF Cons.prems(1), of s "FsDir (Fin 0)"]
    have none: "map_of t (d @ [s]) = None" by (auto split: if_splits)
    obtain t1 where t1: "t1 = (d @ [s], FsDir (Fin 0)) # t" "make_dirs acc (s # rest) t = make_dirs (acc @ [s]) rest t1"
      "realpath_of t1 (acc @ [s]) = Inr (d @ [s])" "real_dir t1 (d @ [s])" "rooted t1" "\<forall>x. map_of t1 ((d @ [s]) @ [x]) = None"
      by (rule created_step [OF Cons.prems(1-3) none])
    from make_dirs_fresh [OF t1(3-6) trans [OF t1(2) [symmetric] Cons.prems(4)]]
    have fresh: "grown_to t1 t' ((d @ [s]) @ rest)" "realpath_of t' ((acc @ [s]) @ rest) = Inr ((d @ [s]) @ rest)" by simp_all
    from grown_to_step [OF fresh(1) [unfolded t1(1)] none] fresh(2) show ?thesis by auto
  qed
qed (auto simp: grown_to_def)

section \<open>State stays outside\<close>

lemma inside_iff: "isPathInside p q \<longleftrightarrow> (\<exists>r. q = p @ r \<and> (r = [] \<or> hd r \<noteq> lit ''..''))"
proof
  assume "isPathInside p q"
  moreover from isPathInside_prefix [OF this] obtain r where "q = p @ r" by blast
  ultimately show "\<exists>r. q = p @ r \<and> (r = [] \<or> hd r \<noteq> lit ''..'')" by (auto simp: isPathInside_def)
next
  assume "\<exists>r. q = p @ r \<and> (r = [] \<or> hd r \<noteq> lit ''..'')"
  then show "isPathInside p q" by (auto simp: isPathInside_def)
qed

lemma grown_outside:
  assumes "grown_to t t' c" and "\<not> isPathInside base c" and "map_of t base \<noteq> None" and "isPathInside base q"
  shows "map_of t' q = map_of t q"
proof (rule ccontr)
  assume "map_of t' q \<noteq> map_of t q"
  with assms(1) obtain x where new: "map_of t q = None" "c = q @ x" by (auto simp: grown_to_def)
  from assms(4) obtain r where r: "q = base @ r" "r = [] \<or> hd r \<noteq> lit ''..''" unfolding inside_iff by blast
  show False
  proof (cases r)
    case Nil
    with assms(2-4) new r show False by (auto simp: isPathInside_def)
  next
    case (Cons y ys)
    with r new have "c = base @ (y # ys @ x)" "hd (y # ys @ x) \<noteq> lit ''..''" by simp_all
    with assms(2) show False unfolding inside_iff by blast
  qed
qed

lemma canon_parent:
  "canon n t acc (xs @ [s]) = Inr c \<Longrightarrow> \<exists>d. canon n t acc xs = Inr d \<and> map_of t (d @ [s]) \<noteq> None"
  by (induction n t acc xs rule: canon.induct) (auto split: option.splits fs_node.splits nat.splits if_splits)

lemma lstat_of_existing:
  assumes "realpath_of t p = Inr c"
  shows "lstat_of t p \<noteq> Inl ENOENT"
proof (cases p rule: rev_cases)
  case (snoc xs s)
  with canon_parent [of 40 t "[]" xs s c] assms show ?thesis
    by (auto simp: lstat_of_def entry_of_def realpath_of_def)
qed (simp add: lstat_of_def)

lemma wp_raw_lstat_known:
  assumes "realpath_of (fw_tree w) p = Inr c"
  shows "wp (raw_fs (lstatSafe p)) (\<lambda>n w'. fw_tree w' = fw_tree w \<and> n \<noteq> None) (\<lambda>_ _. True) w"
  using lstat_of_existing [OF assms] unfolding raw_fs_def lstatSafe_def fs_lstat_def
  by (auto simp: wp_simps errno_of_def split: list.split option.split sum.split fault.split)

lemma wp_raw_realpath:
  "wp (raw_fs (fs_realpath p)) (\<lambda>c w'. fw_tree w' = fw_tree w \<and> realpath_of (fw_tree w) p = Inr c) (\<lambda>_ w'. fw_tree w' = fw_tree w) w"
  unfolding raw_fs_def fs_realpath_def by (auto simp: wp_simps split: list.split option.split sum.split)

lemma wp_mkdirs:
  assumes "rooted (fw_tree w)"
  shows "wp (raw_fs (fs_mkdirs p)) (\<lambda>_ w'. \<exists>c. realpath_of (fw_tree w') p = Inr c \<and> grown_to (fw_tree w) (fw_tree w') c) (\<lambda>_ _. True) w"
proof -
  have "realpath_of (fw_tree w) [] = Inr []" by (simp add: realpath_of_def)
  from make_dirs_effect [OF this _ assms, of p] show ?thesis
    unfolding raw_fs_def fs_mkdirs_def by (auto simp: wp_simps split: list.split option.split sum.split)
qed

lemma wp_ensureDirectory:
  assumes "realpath_of (fw_tree w) p = Inr c"
  shows "wp (ensureDirectory p base) (\<lambda>_ w'. fw_tree w' = fw_tree w \<and> \<not> isPathInside base c) (\<lambda>_ _. True) w"
  unfolding ensureDirectory_def wp_bind [of "raw_fs (lstatSafe p)"]
proof (rule wp_mono [OF wp_raw_lstat_known [OF assms]])
  fix n :: "fs_node option" and w1 :: folder_world assume n: "fw_tree w1 = fw_tree w \<and> n \<noteq> None"
  then obtain m where m: "n = Some m" by auto
  have tail: "wp (act_bind (raw_fs (fs_realpath p)) (\<lambda>canonical.
         if isPathInside base canonical
         then state_invalid ''local state must remain outside the selected folder'' p
         else if canonical \<noteq> p
         then act_bind (raw_fs (lstatSafe p)) (\<lambda>again.
           if (case again of Some n \<Rightarrow> is_link n | None \<Rightarrow> False)
           then state_invalid ''state directory cannot be a symlink'' p else act_return ())
         else act_return ())) (\<lambda>_ w'. fw_tree w' = fw_tree w \<and> \<not> isPathInside base c) (\<lambda>_ _. True) w1"
    unfolding wp_bind [of "raw_fs (fs_realpath p)"]
  proof (rule wp_mono [OF wp_raw_realpath])
    fix d and w2 :: folder_world assume d: "fw_tree w2 = fw_tree w1 \<and> realpath_of (fw_tree w1) p = Inr d"
    then have known: "fw_tree w2 = fw_tree w" "d = c" using n assms by simp_all
    with assms have real: "realpath_of (fw_tree w2) p = Inr c" by simp
    have "wp (act_bind (raw_fs (lstatSafe p)) (\<lambda>again.
           if (case again of Some n \<Rightarrow> is_link n | None \<Rightarrow> False)
           then state_invalid ''state directory cannot be a symlink'' p else act_return ()))
         (\<lambda>_ w'. fw_tree w' = fw_tree w \<and> \<not> isPathInside base c) (\<lambda>_ _. True) w2" if "\<not> isPathInside base c"
      unfolding wp_bind [of "raw_fs (lstatSafe p)"]
      by (rule wp_mono [OF wp_raw_lstat_known [OF real]]) (use known that in \<open>auto simp: state_invalid_def wp_simps\<close>)
    with known show "wp (if isPathInside base d
         then state_invalid ''local state must remain outside the selected folder'' p
         else if d \<noteq> p
         then act_bind (raw_fs (lstatSafe p)) (\<lambda>again.
           if (case again of Some n \<Rightarrow> is_link n | None \<Rightarrow> False)
           then state_invalid ''state directory cannot be a symlink'' p else act_return ())
         else act_return ()) (\<lambda>_ w'. fw_tree w' = fw_tree w \<and> \<not> isPathInside base c) (\<lambda>_ _. True) w2"
      by (simp add: state_invalid_def wp_throw wp_return)
  qed simp
  show "wp (case n of
       Some (FsLink _) \<Rightarrow> state_invalid ''state directory cannot be a symlink'' p
     | _ \<Rightarrow>
       if (case n of Some n \<Rightarrow> \<not> is_dir n | None \<Rightarrow> False)
       then state_invalid ''state path is not a directory'' p
       else
         act_bind (if n = None then raw_fs (fs_mkdirs p) else act_return ()) (\<lambda>_.
         act_bind (raw_fs (fs_realpath p)) (\<lambda>canonical.
         if isPathInside base canonical
         then state_invalid ''local state must remain outside the selected folder'' p
         else if canonical \<noteq> p
         then act_bind (raw_fs (lstatSafe p)) (\<lambda>again.
           if (case again of Some n \<Rightarrow> is_link n | None \<Rightarrow> False)
           then state_invalid ''state directory cannot be a symlink'' p else act_return ())
         else act_return ()))) (\<lambda>_ w'. fw_tree w' = fw_tree w \<and> \<not> isPathInside base c) (\<lambda>_ _. True) w1"
    using tail by (cases m) (simp_all add: m state_invalid_def wp_throw is_dir_def)
qed simp

lemma wp_stateDirectoryFor:
  "wp (stateDirectoryFor sha he base requested) (\<lambda>d w'. fw_tree w' = fw_tree w) (\<lambda>_ w'. fw_tree w' = fw_tree w) w"
  unfolding stateDirectoryFor_def Let_def wp_bind [of "act_catch m h" for m h] wp_catch
  by (rule wp_mono [OF wp_raw_realpath]) (auto simp: wp_simps state_invalid_def split: option.split)

lemma wp_selectFolderRoot:
  "wp (selectFolderRoot resolve selected) (\<lambda>base w'. fw_tree w' = fw_tree w \<and> realpath_of (fw_tree w) (resolve selected) = Inr base \<and> base \<noteq> [])
     (\<lambda>_ _. True) w"
proof -
  have "wp (canonicalizeFolderRoot p) (\<lambda>base w'. fw_tree w' = fw_tree w \<and> realpath_of (fw_tree w) p = Inr base \<and> base \<noteq> []) (\<lambda>_ _. True) w" for p
    unfolding canonicalizeFolderRoot_def wp_bind [of "raw_fs (lstatSafe p)"]
  proof (rule wp_mono [OF wp_raw_lstatSafe])
    fix n :: "fs_node option" and w1 :: folder_world assume "same_disk w w1 \<and> (\<forall>x. n = Some x \<longrightarrow> lstat_of (fw_tree w) p = Inr x)"
    then have tree: "fw_tree w1 = fw_tree w" by (simp add: same_disk_def)
    have "wp (act_bind (raw_fs (fs_realpath p)) (\<lambda>canonical. if canonical = []
         then act_throw (FolderError RootInvalid ''the filesystem root is not a bounded source'' (Some (abs_text canonical)))
         else act_return canonical)) (\<lambda>base w'. fw_tree w' = fw_tree w \<and> realpath_of (fw_tree w) p = Inr base \<and> base \<noteq> []) (\<lambda>_ _. True) w1"
      unfolding wp_bind by (rule wp_mono [OF wp_raw_realpath]) (use tree in \<open>auto simp: wp_simps\<close>)
    then show "wp (case n of
       Some (FsDir _) \<Rightarrow>
         act_bind (raw_fs (fs_realpath p)) (\<lambda>canonical.
         if canonical = []
         then act_throw (FolderError RootInvalid ''the filesystem root is not a bounded source'' (Some (abs_text canonical)))
         else act_return canonical)
     | _ \<Rightarrow> act_throw (FolderError RootInvalid ''the selected path must be a real directory'' (Some (abs_text p))))
      (\<lambda>base w'. fw_tree w' = fw_tree w \<and> realpath_of (fw_tree w) p = Inr base \<and> base \<noteq> []) (\<lambda>_ _. True) w1"
      by (auto simp: wp_throw split: option.split fs_node.split)
  qed simp
  then show ?thesis by (simp add: selectFolderRoot_def wp_simps)
qed

text \<open>
  C30. Where opening a folder succeeds, its root is the real path of what was selected and not the root of the
  file system, the directory for local state exists and its real path lies outside the folder, and nothing in
  the folder has been changed; whichever calls failed on the way.
\<close>

theorem state_stays_outside:
  assumes "rooted (fw_tree w)" and "openFolderSource env options selected requestedState w = (Return src, w')"
    and "\<forall>v. fw_tree (snd (cp_get (fo_credentials options) v)) = fw_tree v"
  shows "realpath_of (fw_tree w) (oe_resolve env selected) = Inr (os_root src) \<and> os_root src \<noteq> [] \<and>
    (\<exists>c. realpath_of (fw_tree w') (os_stateDirectory src) = Inr c \<and> \<not> isPathInside (os_root src) c) \<and>
    (\<forall>p. isPathInside (os_root src) p \<longrightarrow> map_of (fw_tree w') p = map_of (fw_tree w) p)"
proof -
  let ?Q = "\<lambda>src w'. realpath_of (fw_tree w) (oe_resolve env selected) = Inr (os_root src) \<and> os_root src \<noteq> [] \<and>
    (\<exists>c. realpath_of (fw_tree w') (os_stateDirectory src) = Inr c \<and> \<not> isPathInside (os_root src) c \<and>
      grown_to (fw_tree w) (fw_tree w') c)"
  have "wp (openFolderSource env options selected requestedState) ?Q (\<lambda>_ _. True) w"
    unfolding openFolderSource_def wp_bind [of "selectFolderRoot (oe_resolve env) selected"]
  proof (rule wp_mono [OF wp_selectFolderRoot])
    fix base and w1 :: folder_world
    assume base: "fw_tree w1 = fw_tree w \<and> realpath_of (fw_tree w) (oe_resolve env selected) = Inr base \<and> base \<noteq> []"
    let ?src = "\<lambda>d desc. \<lparr>os_root = base, os_stateDirectory = d,
         os_options = folder_core_options (oe_sha256 env) \<lparr>nf_root = base, nf_maxFileBytes = MAX_FILE_BYTES,
           nf_text = oe_text env, nf_uuid = oe_uuid env\<rparr> options desc\<rparr>"
    have made: "wp (act_bind (ensureDirectory d base) (\<lambda>_. act_bind (act_of (folder_descriptor base options)) (\<lambda>descriptor.
        act_return (?src d descriptor)))) ?Q (\<lambda>_ _. True) w4"
      if "realpath_of (fw_tree w4) d = Inr c" "grown_to (fw_tree w) (fw_tree w4) c" for d c and w4 :: folder_world
      unfolding wp_bind [of "ensureDirectory d base"]
      by (rule wp_mono [OF wp_ensureDirectory [OF that(1)]]) (use that base in \<open>auto simp: wp_simps split: sum.split\<close>)
    have placed: "wp (act_bind (act_catch (raw_fs (fs_mkdirs d)) (\<lambda>_. state_invalid ''could not create local state directory'' d)) (\<lambda>_.
        act_bind (ensureDirectory d base) (\<lambda>_. act_bind (act_of (folder_descriptor base options)) (\<lambda>descriptor.
        act_return (?src d descriptor))))) ?Q (\<lambda>_ _. True) w3" if "fw_tree w3 = fw_tree w" for d and w3 :: folder_world
    proof -
      have rooted: "rooted (fw_tree w3)" using assms(1) that by simp
      show ?thesis
        unfolding wp_bind [of "act_catch m h" for m h] wp_catch
        by (rule wp_mono [OF wp_mkdirs [OF rooted]])
          (use made that in \<open>auto simp: state_invalid_def wp_throw split: option.split\<close>)
    qed
    have chosen: "wp (act_bind (stateDirectoryFor (oe_sha256 env) (oe_host env) base requestedState) (\<lambda>d.
        if isPathInside base d then state_invalid ''local state must remain outside the selected folder'' d
        else act_bind (act_catch (raw_fs (fs_mkdirs d)) (\<lambda>_. state_invalid ''could not create local state directory'' d)) (\<lambda>_.
        act_bind (ensureDirectory d base) (\<lambda>_. act_bind (act_of (folder_descriptor base options)) (\<lambda>descriptor.
        act_return (?src d descriptor)))))) ?Q (\<lambda>_ _. True) w2" if "fw_tree w2 = fw_tree w" for w2 :: folder_world
      unfolding wp_bind [of "stateDirectoryFor sha he b r" for sha he b r]
    proof (rule wp_mono [OF wp_stateDirectoryFor])
      fix d and w3 :: folder_world assume "fw_tree w3 = fw_tree w2"
      with that have "fw_tree w3 = fw_tree w" by simp
      from placed [OF this, of d] show "wp (if isPathInside base d then state_invalid ''local state must remain outside the selected folder'' d
        else act_bind (act_catch (raw_fs (fs_mkdirs d)) (\<lambda>_. state_invalid ''could not create local state directory'' d)) (\<lambda>_.
        act_bind (ensureDirectory d base) (\<lambda>_. act_bind (act_of (folder_descriptor base options)) (\<lambda>descriptor.
        act_return (?src d descriptor))))) ?Q (\<lambda>_ _. True) w3" by (simp add: state_invalid_def wp_throw)
    qed simp
    have "fw_tree (snd (cp_get (fo_credentials options) w1)) = fw_tree w" using assms(3) base by simp
    with chosen show "wp (act_bind (cp_get (fo_credentials options)) (\<lambda>credential.
     if (case credential of Some r \<Rightarrow> cr_sourceId r \<noteq> sourceIdentityForCanonicalRoot (oe_sha256 env) base | None \<Rightarrow> False)
     then scope_error ''protected credentials belong to a different selected folder''
     else
     act_bind (stateDirectoryFor (oe_sha256 env) (oe_host env) base requestedState) (\<lambda>stateDirectory.
     if isPathInside base stateDirectory
     then state_invalid ''local state must remain outside the selected folder'' stateDirectory
     else
     act_bind (act_catch (raw_fs (fs_mkdirs stateDirectory))
       (\<lambda>_. state_invalid ''could not create local state directory'' stateDirectory)) (\<lambda>_.
     act_bind (ensureDirectory stateDirectory base) (\<lambda>_.
     act_bind (act_of (folder_descriptor base options)) (\<lambda>descriptor.
       act_return (?src stateDirectory descriptor))))))) ?Q (\<lambda>_ _. True) w1"
      unfolding wp_bind [of "cp_get (fo_credentials options)"] wp_def [of "cp_get (fo_credentials options)"]
      by (auto simp: scope_error_def wp_throw split: prod.split outcome.split option.split)
  qed simp
  from wp_returned [OF this assms(2)] obtain c where c:
    "realpath_of (fw_tree w) (oe_resolve env selected) = Inr (os_root src)" "os_root src \<noteq> []"
    "realpath_of (fw_tree w') (os_stateDirectory src) = Inr c" "\<not> isPathInside (os_root src) c" "grown_to (fw_tree w) (fw_tree w') c"
    by blast
  have "map_of (fw_tree w) (os_root src) \<noteq> None"
    using realpath_real [OF c(1)] c(2) by (cases "os_root src" rule: rev_cases) (auto simp: real_path_snoc split: option.splits)
  with c grown_outside [OF c(5,4)] show ?thesis by blast
qed

end
