(* ===== verification/FolderWatch.thy ===== *)
theory FolderWatch
  imports FolderAdapter
begin

text \<open>
  The watcher of a folder, \<open>watchFolder\<close> of \<open>packages/folder-adapter/src/index.ts\<close>, and the watchers a source
  keeps until it is closed. The operating system's watcher is the source of the notifications; timers fire at
  some moment not before they are due, in any order. Times are in milliseconds.
\<close>

section \<open>One watcher\<close>

text \<open>\<open>wa_timer\<close> is the time at which the pending call is due, \<open>wa_rescan\<close> that of the next periodic one;
  \<open>wa_calls\<close> are the calls of the listener with their times.\<close>

record folder_watch =
  wa_closed :: bool
  wa_pending :: jsstr
  wa_timer :: "nat option"
  wa_rescan :: "nat option"
  wa_now :: nat
  wa_calls :: "(nat \<times> jsstr) list"

definition DEFAULT_DEBOUNCE_MS :: nat where
  "DEFAULT_DEBOUNCE_MS = 100"

definition rescan_interval :: "nat \<Rightarrow> nat" where
  "rescan_interval debounceMs = max 500 debounceMs"

definition watchFolder :: "nat \<Rightarrow> nat \<Rightarrow> folder_watch" where
  "watchFolder debounceMs now = \<lparr>wa_closed = False, wa_pending = [], wa_timer = None,
     wa_rescan = Some (now + rescan_interval debounceMs), wa_now = now, wa_calls = []\<rparr>"

definition watch_candidate :: "(jsstr \<Rightarrow> jsstr) \<Rightarrow> jsstr option \<Rightarrow> jsstr \<Rightarrow> jsstr" where
  "watch_candidate nfc filename pending = (case filename of
     Some candidate \<Rightarrow>
       if candidate = [] then pending
       else (case assertPortablePath nfc False candidate of Inr _ \<Rightarrow> candidate | Inl _ \<Rightarrow> [])
   | None \<Rightarrow> pending)"

definition watch_notify :: "(jsstr \<Rightarrow> jsstr) \<Rightarrow> nat \<Rightarrow> jsstr option \<Rightarrow> folder_watch \<Rightarrow> folder_watch" where
  "watch_notify nfc debounceMs filename w =
     (if wa_closed w then w
      else w\<lparr>wa_pending := watch_candidate nfc filename (wa_pending w), wa_timer := Some (wa_now w + debounceMs)\<rparr>)"

definition call_listener :: "jsstr \<Rightarrow> folder_watch \<Rightarrow> folder_watch" where
  "call_listener path w = (if wa_closed w then w else w\<lparr>wa_calls := wa_calls w @ [(wa_now w, path)]\<rparr>)"

definition watch_fire :: "folder_watch \<Rightarrow> folder_watch" where
  "watch_fire w = call_listener (wa_pending w) (w\<lparr>wa_timer := None\<rparr>)"

definition watch_rescan :: "nat \<Rightarrow> folder_watch \<Rightarrow> folder_watch" where
  "watch_rescan debounceMs w = (call_listener [] w)\<lparr>wa_rescan := Some (wa_now w + rescan_interval debounceMs)\<rparr>"

definition watch_stop :: "folder_watch \<Rightarrow> folder_watch" where
  "watch_stop w = (if wa_closed w then w else w\<lparr>wa_closed := True, wa_timer := None, wa_rescan := None\<rparr>)"

section \<open>Its runs\<close>

definition due :: "nat option \<Rightarrow> nat \<Rightarrow> bool" where
  "due t now = (case t of Some d \<Rightarrow> d \<le> now | None \<Rightarrow> False)"

text \<open>Steps that need no notification: time passes, or a timer fires.\<close>

inductive timer_step :: "nat \<Rightarrow> folder_watch \<Rightarrow> folder_watch \<Rightarrow> bool" for debounceMs where
  elapse: "timer_step debounceMs w (w\<lparr>wa_now := wa_now w + d\<rparr>)"
| fire: "due (wa_timer w) (wa_now w) \<Longrightarrow> timer_step debounceMs w (watch_fire w)"
| rescan: "due (wa_rescan w) (wa_now w) \<Longrightarrow> timer_step debounceMs w (watch_rescan debounceMs w)"

inductive watch_step :: "(jsstr \<Rightarrow> jsstr) \<Rightarrow> nat \<Rightarrow> folder_watch \<Rightarrow> folder_watch \<Rightarrow> bool" for nfc debounceMs where
  timers: "timer_step debounceMs w w' \<Longrightarrow> watch_step nfc debounceMs w w'"
| notified: "watch_step nfc debounceMs w (watch_notify nfc debounceMs filename w)"
| stopped: "watch_step nfc debounceMs w (watch_stop w)"

section \<open>The watchers of a source\<close>

record watched_source =
  ws_core :: "folder_world core"
  ws_watchers :: "folder_watch list"
  ws_active :: "nat list"

definition source_debounce :: "nat option \<Rightarrow> nat" where
  "source_debounce debounceMs = max 1 (min (case debounceMs of Some d \<Rightarrow> d | None \<Rightarrow> DEFAULT_DEBOUNCE_MS) 5000)"

definition source_watch :: "nat option \<Rightarrow> nat \<Rightarrow> watched_source \<Rightarrow> nat \<times> watched_source" where
  "source_watch debounceMs now s =
     (let i = length (ws_watchers s) in
      (i, s\<lparr>ws_watchers := ws_watchers s @ [watchFolder (source_debounce debounceMs) now], ws_active := ws_active s @ [i]\<rparr>))"

definition trackedStop :: "nat \<Rightarrow> watched_source \<Rightarrow> watched_source" where
  "trackedStop i s =
     (if i \<notin> set (ws_active s) then s
      else s\<lparr>ws_active := filter (\<lambda>j. j \<noteq> i) (ws_active s),
             ws_watchers := (ws_watchers s)[i := watch_stop (ws_watchers s ! i)]\<rparr>)"

definition source_close :: "folder_world core_options \<Rightarrow> (watched_source, source_error, unit) act" where
  "source_close opts s =
     (let s' = fold trackedStop (ws_active s) s in
      case core_stop opts (ws_core s') of (r, c) \<Rightarrow> (r, s'\<lparr>ws_core := c\<rparr>))"

section \<open>Silence after stopping\<close>

definition watch_ok :: "(jsstr \<Rightarrow> jsstr) \<Rightarrow> folder_watch \<Rightarrow> bool" where
  "watch_ok nfc w \<longleftrightarrow> (wa_closed w \<longrightarrow> wa_timer w = None \<and> wa_rescan w = None) \<and>
     (\<forall>p\<in>insert (wa_pending w) (snd ` set (wa_calls w)). p = [] \<or> portable_path p \<and> nfc p = p)"

lemma candidate_ok:
  assumes "pending = [] \<or> portable_path pending \<and> nfc pending = pending"
  shows "watch_candidate nfc filename pending = [] \<or>
    portable_path (watch_candidate nfc filename pending) \<and> nfc (watch_candidate nfc filename pending) = watch_candidate nfc filename pending"
  using assms by (auto simp: watch_candidate_def assertPortablePath_def dest: validateRelativePath_Inr split: option.splits sum.splits)

lemma watch_ok_step:
  assumes "watch_step nfc debounceMs w w'" and "watch_ok nfc w"
  shows "watch_ok nfc w' \<and> (wa_closed w \<longrightarrow> wa_closed w' \<and> wa_calls w' = wa_calls w)"
  using assms(1)
proof (cases rule: watch_step.cases)
  case timers
  then show ?thesis
    using assms(2) by (cases rule: timer_step.cases)
      (auto simp: watch_ok_def watch_fire_def watch_rescan_def call_listener_def due_def)
next
  case (notified filename)
  then show ?thesis
    using assms(2) candidate_ok [of "wa_pending w" nfc filename] by (auto simp: watch_ok_def watch_notify_def)
next
  case stopped
  then show ?thesis using assms(2) by (auto simp: watch_ok_def watch_stop_def)
qed

lemma watch_ok_runs:
  assumes "(watch_step nfc debounceMs)\<^sup>*\<^sup>* w w'" and "watch_ok nfc w"
  shows "watch_ok nfc w' \<and> (wa_closed w \<longrightarrow> wa_closed w' \<and> wa_calls w' = wa_calls w)"
  using assms by (induction rule: rtranclp_induct) (auto dest: watch_ok_step)

lemma watch_ok_new: "watch_ok nfc (watchFolder debounceMs now)"
  by (simp add: watch_ok_def watchFolder_def)

text \<open>
  C32. A watcher calls its listener with portable paths or with the empty one, and once it has been stopped,
  at whatever moment and whatever was pending, it never calls it again.
\<close>

theorem watch_silent_after_stop:
  assumes "(watch_step nfc debounceMs)\<^sup>*\<^sup>* (watchFolder debounceMs now) w"
    and "(watch_step nfc debounceMs)\<^sup>*\<^sup>* (watch_stop w) w'"
  shows "wa_calls w' = wa_calls w \<and> (\<forall>(t, p)\<in>set (wa_calls w'). p = [] \<or> portable_path p \<and> nfc p = p)"
proof -
  have w: "watch_ok nfc w" using watch_ok_runs [OF assms(1) watch_ok_new] by blast
  have "watch_step nfc debounceMs w (watch_stop w)" by (rule watch_step.stopped)
  then have stop: "watch_ok nfc (watch_stop w)" using watch_ok_step w by blast
  have "wa_closed (watch_stop w)" "wa_calls (watch_stop w) = wa_calls w" by (simp_all add: watch_stop_def)
  with watch_ok_runs [OF assms(2) stop] show ?thesis by (force simp: watch_ok_def)
qed

section \<open>A change is reported\<close>

lemma timer_step_pending:
  assumes "timer_step debounceMs w w'" and "\<not> wa_closed w"
  shows "\<not> wa_closed w' \<and> wa_pending w' = wa_pending w \<and> (\<exists>cs. wa_calls w' = wa_calls w @ cs) \<and>
    (\<forall>d. wa_timer w = Some d \<longrightarrow> wa_timer w' = Some d \<or> (\<exists>t\<ge>d. (t, wa_pending w) \<in> set (drop (length (wa_calls w)) (wa_calls w'))))"
  using assms(1)
proof (cases rule: timer_step.cases)
  case fire
  then show ?thesis using assms(2) by (auto simp: watch_fire_def call_listener_def due_def split: option.splits)
qed (use assms(2) in \<open>auto simp: watch_rescan_def call_listener_def\<close>)

lemma pending_runs:
  assumes "(timer_step debounceMs)\<^sup>*\<^sup>* w w'" and "\<not> wa_closed w" and "wa_timer w = Some d"
  shows "\<not> wa_closed w' \<and> wa_pending w' = wa_pending w \<and> (\<exists>cs. wa_calls w' = wa_calls w @ cs) \<and>
    (wa_timer w' = Some d \<or> (\<exists>t\<ge>d. (t, wa_pending w) \<in> set (drop (length (wa_calls w)) (wa_calls w'))))"
  using assms(1)
proof (induction rule: rtranclp_induct)
  case base
  then show ?case using assms(2,3) by simp
next
  case (step y z)
  from timer_step_pending [OF step.hyps(2)] step.IH obtain cs cs' where
    cs: "wa_calls y = wa_calls w @ cs" "wa_calls z = wa_calls y @ cs'" by blast
  show ?case
  proof (cases "wa_timer y = Some d")
    case True
    with timer_step_pending [OF step.hyps(2)] step.IH cs show ?thesis by auto
  next
    case False
    with timer_step_pending [OF step.hyps(2)] step.IH cs show ?thesis by auto
  qed
qed

text \<open>
  C31. A change of a portable path reported to an open watcher reaches the listener: as long as no other
  notification and no stop comes in between, either the listener has been called with the path, not earlier
  than the debounce time after the change, or the call is due and the timer step makes it.
\<close>

theorem change_is_reported:
  assumes "\<not> wa_closed w" and "path \<noteq> []" and "assertPortablePath nfc False path = Inr p"
    and "(timer_step debounceMs)\<^sup>*\<^sup>* (watch_notify nfc debounceMs (Some path) w) w'"
    and "wa_now w + debounceMs \<le> wa_now w'"
  shows "(\<exists>t\<ge>wa_now w + debounceMs. (t, path) \<in> set (drop (length (wa_calls w)) (wa_calls w'))) \<or>
    (timer_step debounceMs w' (watch_fire w') \<and> wa_calls (watch_fire w') = wa_calls w' @ [(wa_now w', path)])"
proof -
  let ?w = "watch_notify nfc debounceMs (Some path) w"
  have start: "\<not> wa_closed ?w" "wa_timer ?w = Some (wa_now w + debounceMs)" "wa_pending ?w = path" "wa_calls ?w = wa_calls w"
    using assms(1-3) by (simp_all add: watch_notify_def watch_candidate_def)
  note run = pending_runs [OF assms(4) start(1,2), unfolded start(3,4)]
  have "timer_step debounceMs w' (watch_fire w')" if "wa_timer w' = Some (wa_now w + debounceMs)"
    using that assms(5) by (intro timer_step.fire) (simp add: due_def)
  with run show ?thesis by (auto simp: watch_fire_def call_listener_def)
qed

text \<open>A notification without a name reports the path of an earlier change, which is never forgotten.\<close>

lemma nameless_is_stale:
  "\<not> wa_closed w \<Longrightarrow> wa_pending (watch_notify nfc debounceMs None (watch_fire w)) = wa_pending w"
  by (simp add: watch_notify_def watch_candidate_def watch_fire_def call_listener_def)

section \<open>Closing a source\<close>

text \<open>Every watcher of the source is active or closed.\<close>

definition watchers_ok :: "watched_source \<Rightarrow> bool" where
  "watchers_ok s \<longleftrightarrow> (\<forall>i<length (ws_watchers s). i \<in> set (ws_active s) \<or> wa_closed (ws_watchers s ! i)) \<and>
     (\<forall>i\<in>set (ws_active s). i < length (ws_watchers s))"

lemma watchers_ok_watch: "watchers_ok s \<Longrightarrow> watchers_ok (snd (source_watch debounceMs now s))"
  by (auto simp: watchers_ok_def source_watch_def Let_def nth_append less_Suc_eq)

lemma watchers_ok_stop:
  assumes "watchers_ok s"
  shows "watchers_ok (trackedStop i s)" "set (ws_active (trackedStop i s)) = set (ws_active s) - {i}"
  using assms by (cases "i \<in> set (ws_active s)"; auto simp: watchers_ok_def trackedStop_def watch_stop_def nth_list_update)+

lemma stop_all:
  assumes "watchers_ok s"
  shows "watchers_ok (fold trackedStop is s) \<and> set (ws_active (fold trackedStop is s)) = set (ws_active s) - set is"
  using assms
proof (induction "is" arbitrary: s)
  case (Cons i "is")
  from Cons.IH [OF watchers_ok_stop(1) [OF Cons.prems]] watchers_ok_stop(2) [OF Cons.prems] show ?case by auto
qed simp

text \<open>
  Closing a source silences every watcher it was asked for, also where stopping the core fails.
\<close>

theorem close_silences:
  assumes "watchers_ok s" and "source_close opts s = (r, s')"
  shows "\<forall>w\<in>set (ws_watchers s'). wa_closed w"
proof -
  from stop_all [OF assms(1), of "ws_active s"]
  have "\<forall>i<length (ws_watchers (fold trackedStop (ws_active s) s)). wa_closed (ws_watchers (fold trackedStop (ws_active s) s) ! i)"
    by (auto simp: watchers_ok_def)
  moreover have "ws_watchers s' = ws_watchers (fold trackedStop (ws_active s) s)"
    using assms(2) by (auto simp: source_close_def Let_def split: prod.splits)
  ultimately show ?thesis by (auto simp: in_set_conv_nth)
qed

end
