(* ===== verification/FolderSamples.thy ===== *)
theory FolderSamples
  imports SourceLifecycle FolderState FolderWatch
begin

text \<open>
  Opening and watching a small folder: the properties at a concrete disk and a concrete watcher, and a state
  directory that is refused only after it has been made inside the folder.
\<close>

section \<open>Opening\<close>

definition sample_host :: host_env where
  "sample_host = \<lparr>he_platform = OtherPlatform, he_home = [lit ''h''], he_localAppData = None, he_xdgStateHome = None\<rparr>"

definition sample_open :: open_env where
  "sample_open = \<lparr>oe_sha256 = (\<lambda>s. s), oe_resolve = (\<lambda>s. split_on 47 (drop 1 s)), oe_host = sample_host,
     oe_text = plain_env, oe_uuid = (\<lambda>_. lit ''u'')\<rparr>"

text \<open>A folder, a home directory, and a link to the folder.\<close>

definition linked_disk :: folder_world where
  "linked_disk = (plain_disk [])\<lparr>fw_tree := [([lit ''v''], FsDir (Fin 0)), ([lit ''h''], FsDir (Fin 0)),
     ([lit ''h'', lit ''l''], FsLink [lit ''v''])]\<rparr>"

lemma linked_rooted: "rooted (fw_tree linked_disk)"
  by (auto simp: rooted_def linked_disk_def real_dir_def append_eq_Cons_conv split: if_splits)

definition linked_tree :: fs_tree where
  "linked_tree = fw_tree linked_disk"

definition sample_state :: abs_path where
  "sample_state = [lit ''h'', lit ''s'', lit ''x'']"

definition linked_state :: abs_path where
  "linked_state = [lit ''h'', lit ''l'', lit ''s'', lit ''x'']"

definition made_outside :: fs_tree where
  "made_outside = (sample_state, FsDir (Fin 0)) # ([lit ''h'', lit ''s''], FsDir (Fin 0)) # linked_tree"

definition made_inside :: fs_tree where
  "made_inside = ([lit ''v'', lit ''s'', lit ''x''], FsDir (Fin 0)) # ([lit ''v'', lit ''s''], FsDir (Fin 0)) # linked_tree"

lemma linked_root: "lstat_of linked_tree [lit ''v''] = Inr (FsDir (Fin 0))" "realpath_of linked_tree [lit ''v''] = Inr [lit ''v'']"
  by code_simp+

lemma linked_parents: "realpath_of linked_tree (butlast sample_state) = Inl ENOENT" "realpath_of linked_tree (butlast linked_state) = Inl ENOENT"
  by code_simp+

lemma linked_made: "make_dirs [] sample_state linked_tree = (Inr (), made_outside)" "make_dirs [] linked_state linked_tree = (Inr (), made_inside)"
  by code_simp+

lemma made_exists: "lstat_of made_outside sample_state = Inr (FsDir (Fin 0))" "realpath_of made_outside sample_state = Inr sample_state"
  "lstat_of made_inside linked_state = Inr (FsDir (Fin 0))" "realpath_of made_inside linked_state = Inr [lit ''v'', lit ''s'', lit ''x'']"
  by code_simp+

lemma linked_inside: "\<not> isPathInside [lit ''v''] sample_state" "\<not> isPathInside [lit ''v''] linked_state"
  "isPathInside [lit ''v''] [lit ''v'', lit ''s'', lit ''x'']"
  by code_simp+

lemma sample_selected: "js_trim (lit ''/v'') \<noteq> []" "0 \<notin> set (lit ''/v'')" "split_on 47 (drop 1 (lit ''/v'')) = [lit ''v'']"
  by code_simp+

lemma sample_paths_split: "butlast sample_state @ [last sample_state] = sample_state" "butlast linked_state @ [last linked_state] = linked_state"
  "sample_state \<noteq> []" "linked_state \<noteq> []"
  by (simp_all add: sample_state_def linked_state_def)

lemma linked_fields: "fw_tree linked_disk = linked_tree" "fw_faults linked_disk = []" "fw_credential linked_disk = None"
  by (simp_all add: linked_tree_def) (simp_all add: linked_disk_def plain_disk_def)

lemmas calm_calls = fs_call_def fs_lstat_def fs_realpath_def fs_mkdirs_def raw_fs_def map_error_def lstatSafe_def

lemma linked_described: "folder_descriptor [lit ''v''] plain_options = Inr plain_descriptor"
  using plain_described by (simp add: plain_folder_def del: lit_simps)

lemma sample_open_fields: "oe_resolve sample_open s = split_on 47 (drop 1 s)" by (simp add: sample_open_def)

lemmas open_defs = openFolderSource_def selectFolderRoot_def canonicalizeFolderRoot_def stateDirectoryFor_def ensureDirectory_def
  state_invalid_def

lemma linked_selected: "selectFolderRoot (oe_resolve sample_open) (lit ''/v'') linked_disk = (Return [lit ''v''], linked_disk)"
  using sample_selected
  by (simp add: selectFolderRoot_def canonicalizeFolderRoot_def sample_open_fields calm_calls act_bind_def act_catch_def act_return_def
      linked_fields linked_root del: lit_simps)

lemma linked_placed:
  "stateDirectoryFor sha he [lit ''v''] (Some sample_state) linked_disk = (Return sample_state, linked_disk)"
  "stateDirectoryFor sha he [lit ''v''] (Some linked_state) linked_disk = (Return linked_state, linked_disk)"
  using linked_parents linked_inside sample_paths_split
  by (simp_all add: stateDirectoryFor_def Let_def calm_calls act_bind_def act_catch_def act_return_def linked_fields del: lit_simps)

lemma linked_dirs:
  "raw_fs (fs_mkdirs sample_state) linked_disk = (Return (), linked_disk\<lparr>fw_tree := made_outside\<rparr>)"
  "raw_fs (fs_mkdirs linked_state) linked_disk = (Return (), linked_disk\<lparr>fw_tree := made_inside\<rparr>)"
  by (simp_all add: calm_calls linked_fields linked_made)

lemma linked_ensured:
  "ensureDirectory sample_state [lit ''v''] (linked_disk\<lparr>fw_tree := made_outside\<rparr>) = (Return (), linked_disk\<lparr>fw_tree := made_outside\<rparr>)"
  "ensureDirectory linked_state [lit ''v''] (linked_disk\<lparr>fw_tree := made_inside\<rparr>) =
     (Throw (FolderError StateInvalid ''local state must remain outside the selected folder'' (Some (abs_text linked_state))),
      linked_disk\<lparr>fw_tree := made_inside\<rparr>)"
  using made_exists linked_inside
  by (simp_all add: ensureDirectory_def calm_calls act_bind_def act_catch_def act_return_def act_throw_def state_invalid_def
      linked_fields is_dir_def del: lit_simps)

lemma memory_get: "cp_get (fo_credentials plain_options) w = (Return (fw_credential w), w)"
  by (simp add: plain_custody createMemoryCredentialCustody_def)

lemma linked_opens:
  "\<exists>src. openFolderSource sample_open plain_options (lit ''/v'') (Some sample_state) linked_disk =
      (Return src, linked_disk\<lparr>fw_tree := made_outside\<rparr>) \<and> os_root src = [lit ''v''] \<and> os_stateDirectory src = sample_state"
  using linked_inside
  by (simp add: openFolderSource_def act_bind_def act_catch_def linked_selected memory_get linked_fields linked_placed linked_dirs
      linked_ensured linked_described act_return_def del: lit_simps)

theorem state_stays_outside_witness:
  "\<exists>src w c. openFolderSource sample_open plain_options (lit ''/v'') (Some sample_state) linked_disk = (Return src, w) \<and>
     os_root src = [lit ''v''] \<and> realpath_of (fw_tree w) sample_state = Inr c \<and> \<not> isPathInside [lit ''v''] c"
proof -
  obtain src where run: "openFolderSource sample_open plain_options (lit ''/v'') (Some sample_state) linked_disk =
      (Return src, linked_disk\<lparr>fw_tree := made_outside\<rparr>)" "os_root src = [lit ''v'']" "os_stateDirectory src = sample_state"
    using linked_opens by blast
  have "\<forall>v. fw_tree (snd (cp_get (fo_credentials plain_options) v)) = fw_tree v" by (simp add: memory_get)
  from state_stays_outside [OF linked_rooted run(1) this] run show ?thesis by metis
qed

text \<open>
  A directory for local state below a link into the folder, where some directory on the way is missing, is
  refused only after it has been made in the folder.
\<close>

theorem refused_state_is_made:
  "openFolderSource sample_open plain_options (lit ''/v'') (Some linked_state) linked_disk =
     (Throw (FolderError StateInvalid ''local state must remain outside the selected folder'' (Some (abs_text linked_state))),
      linked_disk\<lparr>fw_tree := made_inside\<rparr>) \<and>
   map_of (fw_tree linked_disk) [lit ''v'', lit ''s''] = None \<and> map_of made_inside [lit ''v'', lit ''s''] = Some (FsDir (Fin 0))"
proof -
  have "map_of linked_tree [lit ''v'', lit ''s''] = None" "map_of made_inside [lit ''v'', lit ''s''] = Some (FsDir (Fin 0))"
    by code_simp+
  then show ?thesis
    using linked_inside
    by (simp add: openFolderSource_def act_bind_def act_catch_def linked_selected memory_get linked_fields linked_placed linked_dirs
        linked_ensured del: lit_simps)
qed

section \<open>Watching\<close>

definition changed_note :: jsstr where
  "changed_note = lit ''a.md''"

lemma changed_portable: "assertPortablePath id False changed_note = Inr changed_note"
  by code_simp

lemma portable_changed: "portable_path changed_note"
  using changed_portable by (auto simp: assertPortablePath_def dest: validateRelativePath_Inr split: if_splits sum.splits)

definition notified_watch :: folder_watch where
  "notified_watch = watch_notify id 100 (Some changed_note) (watchFolder 100 0)"

lemma notified_runs: "(watch_step id 100)\<^sup>*\<^sup>* (watchFolder 100 0) (watch_fire (notified_watch\<lparr>wa_now := 100\<rparr>))"
proof -
  have "watch_step id 100 (watchFolder 100 0) notified_watch" unfolding notified_watch_def by (rule watch_step.notified)
  moreover have "timer_step 100 notified_watch (notified_watch\<lparr>wa_now := wa_now notified_watch + 100\<rparr>)" by (rule timer_step.elapse)
  then have "watch_step id 100 notified_watch (notified_watch\<lparr>wa_now := 100\<rparr>)"
    by (simp add: notified_watch_def watch_notify_def watchFolder_def watch_step.timers)
  moreover have "timer_step 100 (notified_watch\<lparr>wa_now := 100\<rparr>) (watch_fire (notified_watch\<lparr>wa_now := 100\<rparr>))"
    by (rule timer_step.fire) (simp add: due_def notified_watch_def watch_notify_def watchFolder_def)
  then have "watch_step id 100 (notified_watch\<lparr>wa_now := 100\<rparr>) (watch_fire (notified_watch\<lparr>wa_now := 100\<rparr>))"
    by (rule watch_step.timers)
  ultimately show ?thesis by (meson converse_rtranclp_into_rtranclp rtranclp.rtrancl_refl)
qed

lemma notified_calls: "wa_calls (watch_fire (notified_watch\<lparr>wa_now := 100\<rparr>)) = [(100, changed_note)]"
  using changed_portable
  by (simp add: watch_fire_def call_listener_def notified_watch_def watch_notify_def watch_candidate_def watchFolder_def
      changed_note_def)

theorem watch_silent_after_stop_witness:
  "wa_calls (watch_notify id 100 None (watch_stop (watch_fire (notified_watch\<lparr>wa_now := 100\<rparr>)))) = [(100, changed_note)] \<and>
   portable_path changed_note"
proof -
  let ?w = "watch_fire (notified_watch\<lparr>wa_now := 100\<rparr>)"
  have "watch_step id 100 (watch_stop ?w) (watch_notify id 100 None (watch_stop ?w))" by (rule watch_step.notified)
  then have "(watch_step id 100)\<^sup>*\<^sup>* (watch_stop ?w) (watch_notify id 100 None (watch_stop ?w))" by blast
  from watch_silent_after_stop [OF notified_runs this] show ?thesis
    unfolding notified_calls using portable_changed by simp
qed

theorem change_is_reported_witness:
  "wa_calls (watch_fire (notified_watch\<lparr>wa_now := 100\<rparr>)) = [(100, changed_note)] \<and>
   timer_step 100 (notified_watch\<lparr>wa_now := 100\<rparr>) (watch_fire (notified_watch\<lparr>wa_now := 100\<rparr>))"
proof -
  let ?w = "watchFolder 100 0"
  have open_watch: "\<not> wa_closed ?w" "changed_note \<noteq> []" "wa_now ?w + 100 \<le> wa_now (notified_watch\<lparr>wa_now := 100\<rparr>)"
    by (simp_all add: watchFolder_def changed_note_def)
  have "timer_step 100 notified_watch (notified_watch\<lparr>wa_now := wa_now notified_watch + 100\<rparr>)" by (rule timer_step.elapse)
  then have "(timer_step 100)\<^sup>*\<^sup>* (watch_notify id 100 (Some changed_note) ?w) (notified_watch\<lparr>wa_now := 100\<rparr>)"
    by (simp add: notified_watch_def watch_notify_def watchFolder_def)
  from change_is_reported [OF open_watch(1,2) changed_portable this open_watch(3)] notified_calls show ?thesis
    by (simp add: notified_watch_def watch_notify_def watchFolder_def)
qed

definition watched :: watched_source where
  "watched = snd (source_watch None 0 \<lparr>ws_core = \<lparr>core_status = Stopped, core_state = None, core_world = linked_disk\<rparr>,
     ws_watchers = [], ws_active = []\<rparr>)"

theorem close_silences_witness:
  "\<exists>r s. source_close plain_opts watched = (r, s) \<and> (\<forall>w\<in>set (ws_watchers s). wa_closed w)"
proof -
  have "watchers_ok watched"
    unfolding watched_def by (rule watchers_ok_watch) (simp add: watchers_ok_def)
  with close_silences show ?thesis by (metis surj_pair)
qed

end
