(* ===== verification/SourceScanProps.thy ===== *)
theory SourceScanProps
  imports SourceScanSpec "HOL-Library.List_Lexorder"
begin

text \<open>
  The reads of a scan in any order, and the properties of paths, listings and scans.
\<close>

section \<open>Interleaved reads\<close>

definition file_of :: "(jsstr \<Rightarrow> bytes) \<Rightarrow> workspace_entry \<Rightarrow> markdown_file" where
  "file_of content e = \<lparr>mf_path = we_path e, mf_size = length (content (we_path e)),
     mf_mtimeMs = we_mtimeMs e, mf_contents = content (we_path e)\<rparr>"

definition listed_ok :: "scan_options \<Rightarrow> workspace_entry \<Rightarrow> bool" where
  "listed_ok opts e \<longleftrightarrow> (case we_size e of Some n \<Rightarrow> n \<le> so_maxFileBytes opts | None \<Rightarrow> True)"

text \<open>The files are within the ceilings, by the listed sizes and by what is read.\<close>

definition scan_within :: "scan_options \<Rightarrow> (jsstr \<Rightarrow> bytes) \<Rightarrow> workspace_entry list \<Rightarrow> bool" where
  "scan_within opts content es \<longleftrightarrow>
     list_all (\<lambda>e. listed_ok opts e \<and> length (content (we_path e)) \<le> so_maxFileBytes opts) es \<and>
     sum_list (List.map (\<lambda>e. length (content (we_path e))) es) \<le> so_maxBytes opts"

definition finished :: "workspace_entry list \<Rightarrow> scan_state \<Rightarrow> nat set" where
  "finished es ss = {i. i < length es \<and> i < ss_next ss \<and> i \<notin> set (ss_inflight ss)}"

definition scan_inv ::
  "scan_options \<Rightarrow> (jsstr \<Rightarrow> bytes) \<Rightarrow> workspace_entry list \<Rightarrow> scan_state \<Rightarrow> bool" where
  "scan_inv opts content es ss \<longleftrightarrow>
     length (ss_files ss) = length es \<and> distinct (ss_inflight ss) \<and>
     (\<forall>i\<in>set (ss_inflight ss). i < length es \<and> i < ss_next ss) \<and>
     (\<forall>i<length es. ss_files ss ! i = (if i \<in> finished es ss then Some (file_of content (es ! i)) else None)) \<and>
     ss_total ss = (\<Sum>i\<in>finished es ss. length (content (we_path (es ! i)))) \<and>
     ss_total ss \<le> so_maxBytes opts \<and>
     (\<forall>i<length es. i < ss_next ss \<longrightarrow> listed_ok opts (es ! i)) \<and>
     (\<forall>i\<in>finished es ss. length (content (we_path (es ! i))) \<le> so_maxFileBytes opts)"

definition scan_work :: "workspace_entry list \<Rightarrow> scan_state \<Rightarrow> nat" where
  "scan_work es ss = length (ss_inflight ss) + (length es - ss_next ss)"

lemma finished_finite [simp]: "finite (finished es ss)"
  by (simp add: finished_def)

lemma takeNext_finished:
  assumes "takeNext opts es ss = Inr ss'" and "\<forall>i\<in>set (ss_inflight ss). i < ss_next ss"
  shows "finished es ss' = finished es ss"
  using assms by (auto simp: takeNext_def finished_def Let_def less_Suc_eq split: if_splits)

lemma takeNext_inv:
  assumes "takeNext opts es ss = Inr ss'" and "scan_inv opts content es ss"
  shows "scan_inv opts content es ss'" "scan_work es ss' = scan_work es ss"
    and "ss_inflight ss' = [] \<Longrightarrow> length es \<le> ss_next ss'"
    and "length es \<le> ss_next ss \<Longrightarrow> length es \<le> ss_next ss'"
    and "ss_inflight ss \<noteq> [] \<Longrightarrow> ss_inflight ss' \<noteq> []"
proof -
  have fin: "finished es ss' = finished es ss"
    using takeNext_finished [OF assms(1)] assms(2) by (auto simp: scan_inv_def)
  have keep: "ss_files ss' = ss_files ss" "ss_total ss' = ss_total ss" "ss_next ss' = ss_next ss + 1"
    using assms(1) by (auto simp: takeNext_def Let_def split: if_splits)
  have flight: "ss_inflight ss' = (if length es \<le> ss_next ss then ss_inflight ss
      else ss_inflight ss @ [ss_next ss])"
    and listed: "ss_next ss < length es \<Longrightarrow> listed_ok opts (es ! ss_next ss)"
    using assms(1) by (auto simp: takeNext_def Let_def listed_ok_def split: if_splits option.splits)
  show "scan_inv opts content es ss'"
    using assms(2) listed by (auto simp: scan_inv_def fin keep flight less_Suc_eq)
  show "scan_work es ss' = scan_work es ss"
    by (auto simp: scan_work_def keep flight)
  show "ss_inflight ss' = [] \<Longrightarrow> length es \<le> ss_next ss'"
    "length es \<le> ss_next ss \<Longrightarrow> length es \<le> ss_next ss'"
    "ss_inflight ss \<noteq> [] \<Longrightarrow> ss_inflight ss' \<noteq> []"
    by (auto simp: keep flight split: if_splits)
qed

lemma takeNext_Inl:
  assumes "takeNext opts es ss = Inl e"
  shows "\<not> scan_within opts content es \<and> (\<exists>m p. e = ScanError ScanLimit m p)"
proof -
  from assms have "ss_next ss < length es" "\<not> listed_ok opts (es ! ss_next ss)"
    "\<exists>m p. e = ScanError ScanLimit m p"
    by (auto simp: takeNext_def Let_def listed_ok_def split: if_splits option.splits)
  then show ?thesis by (auto simp: scan_within_def list_all_iff)
qed

lemma startWorkers_inv:
  "startWorkers w opts es ss = Inr ss' \<Longrightarrow> scan_inv opts content es ss \<Longrightarrow>
   scan_inv opts content es ss' \<and> scan_work es ss' = scan_work es ss \<and>
   (0 < w \<longrightarrow> ss_inflight ss' = [] \<longrightarrow> length es \<le> ss_next ss')"
proof (induction w arbitrary: ss)
  case 0
  then show ?case by simp
next
  case (Suc w)
  then obtain ss1 where ss1: "takeNext opts es ss = Inr ss1" "startWorkers w opts es ss1 = Inr ss'"
    by (auto split: sum.splits)
  note inv = takeNext_inv [OF ss1(1) Suc.prems(2)]
  from Suc.IH [OF ss1(2) inv(1)] inv ss1(2) show ?case
    by (cases w) auto
qed

lemma startWorkers_Inl:
  "startWorkers w opts es ss = Inl e \<Longrightarrow>
   \<not> scan_within opts content es \<and> (\<exists>m p. e = ScanError ScanLimit m p)"
proof (induction w arbitrary: ss)
  case 0
  then show ?case by simp
next
  case (Suc w)
  then show ?case by (auto split: sum.splits dest: takeNext_Inl)
qed

lemma sum_finished_le:
  fixes f :: "workspace_entry \<Rightarrow> nat"
  assumes "A \<subseteq> {i. i < length es}"
  shows "(\<Sum>i\<in>A. f (es ! i)) \<le> sum_list (List.map f es)"
proof -
  have "(\<Sum>i\<in>A. f (es ! i)) \<le> (\<Sum>i<length es. f (es ! i))"
    by (rule sum_mono2) (use assms in auto)
  also have "\<dots> = sum_list (List.map f es)"
    by (simp add: sum_list_sum_nth atLeast0LessThan)
  finally show ?thesis .
qed

lemma scan_inv_read:
  assumes inv: "scan_inv opts content es ss" and i: "i \<in> set (ss_inflight ss)"
    and next2: "ss_next ss2 = ss_next ss" and flight: "ss_inflight ss2 = remove1 i (ss_inflight ss)"
    and total: "ss_total ss2 = ss_total ss + length (content (we_path (es ! i)))"
    and files: "ss_files ss2 = (ss_files ss)[i := Some (file_of content (es ! i))]"
  shows "finished es ss2 = insert i (finished es ss)"
    and "ss_total ss2 = (\<Sum>j\<in>finished es ss2. length (content (we_path (es ! j))))"
    and "length (content (we_path (es ! i))) \<le> so_maxFileBytes opts \<Longrightarrow>
      ss_total ss2 \<le> so_maxBytes opts \<Longrightarrow> scan_inv opts content es ss2"
    and "Suc (scan_work es ss2) = scan_work es ss"
proof -
  have i': "i < length es" "i < ss_next ss" "i \<notin> finished es ss" and dist: "distinct (ss_inflight ss)"
    using inv i by (auto simp: scan_inv_def finished_def)
  show fin: "finished es ss2 = insert i (finished es ss)"
    using i' dist by (auto simp: finished_def next2 flight)
  show sum: "ss_total ss2 = (\<Sum>j\<in>finished es ss2. length (content (we_path (es ! j))))"
    unfolding fin total using inv i'(3) by (simp add: scan_inv_def)
  show "scan_inv opts content es ss2" if "length (content (we_path (es ! i))) \<le> so_maxFileBytes opts"
    "ss_total ss2 \<le> so_maxBytes opts"
    unfolding scan_inv_def
  proof (intro conjI)
    show "\<forall>j<length es. ss_files ss2 ! j =
        (if j \<in> finished es ss2 then Some (file_of content (es ! j)) else None)"
      using inv i' by (auto simp: scan_inv_def fin files nth_list_update)
  qed (use inv that sum i' dist in \<open>auto simp: scan_inv_def fin files flight next2\<close>)
  show "Suc (scan_work es ss2) = scan_work es ss"
    using i length_pos_if_in_set [OF i] by (simp add: scan_work_def next2 flight length_remove1)
qed

lemma completeRead_step:
  assumes inv: "scan_inv opts content es ss" and i: "i \<in> set (ss_inflight ss)"
  defines "res \<equiv> completeRead opts es i (content (we_path (es ! i))) ss"
  shows "res = Inl e \<Longrightarrow> \<not> scan_within opts content es \<and> (\<exists>m p. e = ScanError ScanLimit m p)"
    and "res = Inr ss' \<Longrightarrow> scan_inv opts content es ss' \<and> Suc (scan_work es ss') = scan_work es ss \<and>
      (ss_inflight ss' = [] \<longrightarrow> length es \<le> ss_next ss')"
proof -
  let ?len = "\<lambda>i. length (content (we_path (es ! i)))"
  let ?file = "\<lparr>mf_path = we_path (es ! i), mf_size = ?len i,
           mf_mtimeMs = we_mtimeMs (es ! i), mf_contents = content (we_path (es ! i))\<rparr>"
  let ?ss = "ss\<lparr>ss_total := ss_total ss + ?len i, ss_inflight := remove1 i (ss_inflight ss),
        ss_files := (ss_files ss)[i := Some ?file]\<rparr>"
  have i': "i < length es" using inv i by (auto simp: scan_inv_def)
  note read = scan_inv_read [OF inv i, of ?ss, simplified, unfolded file_of_def, OF refl]
  note total = read(2)
  have subset: "finished es ?ss \<subseteq> {j. j < length es}" by (auto simp: finished_def)
  show "res = Inl e \<Longrightarrow> \<not> scan_within opts content es \<and> (\<exists>m p. e = ScanError ScanLimit m p)"
  proof -
    assume r: "res = Inl e"
    consider "so_maxFileBytes opts < ?len i" | "so_maxBytes opts < ss_total ss + ?len i"
      | "takeNext opts es ?ss = Inl e"
      using r by (auto simp: res_def completeRead_def Let_def split: if_splits)
    then show ?thesis
    proof cases
      case 1
      with i' have "\<not> scan_within opts content es"
        by (auto simp: scan_within_def list_all_length not_le)
      moreover have "\<exists>m p. e = ScanError ScanLimit m p"
        using r 1 by (auto simp: res_def completeRead_def Let_def)
      ultimately show ?thesis by blast
    next
      case 2
      then have "so_maxBytes opts < sum_list (List.map (\<lambda>e. length (content (we_path e))) es)"
        using sum_finished_le [OF subset, of "\<lambda>e. length (content (we_path e))"] total by simp
      then have "\<not> scan_within opts content es" by (simp add: scan_within_def)
      moreover have "\<exists>m p. e = ScanError ScanLimit m p"
        using r 2 by (auto simp: res_def completeRead_def Let_def split: if_splits)
      ultimately show ?thesis by blast
    next
      case 3
      then show ?thesis by (rule takeNext_Inl)
    qed
  qed
  assume r: "res = Inr ss'"
  then have next': "takeNext opts es ?ss = Inr ss'" and small: "?len i \<le> so_maxFileBytes opts"
    and room: "ss_total ss + ?len i \<le> so_maxBytes opts"
    by (auto simp: res_def completeRead_def Let_def split: if_splits)
  note step = takeNext_inv [OF next' read(3) [OF small room]]
  note read(4)
  with step show "scan_inv opts content es ss' \<and> Suc (scan_work es ss') = scan_work es ss \<and>
      (ss_inflight ss' = [] \<longrightarrow> length es \<le> ss_next ss')"
    by simp
qed

lemma read_bind:
  assumes "wp_read ws p s = (Return x, s)"
  shows "act_bind (act_catch (wp_read ws p) h) k s = k x s"
  using assms by (simp add: act_bind_def act_catch_def)

lemma scanLoop_result:
  assumes read: "\<forall>e\<in>set es. wp_read ws (we_path e) s = (Return (content (we_path e)), s)"
  shows "scan_inv opts content es ss \<Longrightarrow> scan_work es ss \<le> fuel \<Longrightarrow>
    (ss_inflight ss = [] \<longrightarrow> length es \<le> ss_next ss) \<Longrightarrow>
    (\<exists>ss'. scanLoop fuel sched ws opts es ss s = (Return ss', s) \<and> scan_inv opts content es ss' \<and>
       finished es ss' = {i. i < length es}) \<or>
    (\<exists>m p. scanLoop fuel sched ws opts es ss s = (Throw (ScanError ScanLimit m p), s) \<and>
       \<not> scan_within opts content es)"
proof (induction fuel arbitrary: ss)
  case 0
  then show ?case
    by (subst (1 2) scanLoop.simps) (auto simp: act_return_def scan_work_def finished_def)
next
  case (Suc n)
  show ?case
  proof (cases "ss_inflight ss = []")
    case True
    with Suc.prems show ?thesis
      by (subst (1 2) scanLoop.simps) (auto simp: act_return_def finished_def)
  next
    case False
    let ?i = "ss_inflight ss ! (sched n mod length (ss_inflight ss))"
    have i: "?i \<in> set (ss_inflight ss)" using False by simp
    note step = completeRead_step [OF Suc.prems(1) i]
    have read_i: "wp_read ws (we_path (es ! ?i)) s = (Return (content (we_path (es ! ?i))), s)"
      using read Suc.prems(1) i by (simp add: scan_inv_def)
    have unfold: "scanLoop (Suc n) sched ws opts es ss s =
        act_bind (act_of (completeRead opts es ?i (content (we_path (es ! ?i))) ss))
          (\<lambda>ss'. scanLoop n sched ws opts es ss') s"
      using False
      by (subst scanLoop.simps) (simp add: Let_def read_bind [OF read_i])
    show ?thesis
    proof (cases "completeRead opts es ?i (content (we_path (es ! ?i))) ss")
      case (Inl e)
      with step(1) show ?thesis by (auto simp: unfold act_bind_def act_throw_def)
    next
      case (Inr ss')
      note s' = step(2) [OF Inr]
      from Suc.IH [of ss'] s' Suc.prems(2) show ?thesis by (auto simp: unfold Inr)
    qed
  qed
qed

lemma finished_all:
  assumes "scan_inv opts content es ss" and "finished es ss = {i. i < length es}"
  shows "List.map the (filter (\<lambda>f. f \<noteq> None) (ss_files ss)) = List.map (file_of content) es"
    and "ss_total ss = sum_list (List.map (\<lambda>e. length (content (we_path e))) es)"
    and "scan_within opts content es"
proof -
  have files: "ss_files ss = List.map (\<lambda>e. Some (file_of content e)) es"
    using assms by (auto simp: scan_inv_def intro!: nth_equalityI)
  then show "List.map the (filter (\<lambda>f. f \<noteq> None) (ss_files ss)) = List.map (file_of content) es"
    by (simp add: filter_map comp_def)
  show total: "ss_total ss = sum_list (List.map (\<lambda>e. length (content (we_path e))) es)"
    using assms by (simp add: scan_inv_def sum_list_sum_nth atLeast0LessThan lessThan_def)
  have "i < ss_next ss" if "i < length es" for i
    using assms(2) that by (auto simp: finished_def)
  with assms total show "scan_within opts content es"
    by (auto simp: scan_within_def scan_inv_def list_all_length)
qed

lemma scan_result:
  assumes "\<forall>e\<in>set es. wp_read ws (we_path e) s = (Return (content (we_path e)), s)" and "0 < so_concurrency opts"
  shows "scanEntries te sched ws opts es s = (r, s') \<Longrightarrow>
   s' = s \<and> (if scan_within opts content es
     then r = Return \<lparr>sr_files = List.map (file_of content) es,
            sr_totalBytes = sum_list (List.map (\<lambda>e. length (content (we_path e))) es),
            sr_scanId = scanFingerprint (te_num te) (List.map (file_of content) es)\<rparr>
     else \<exists>m p. r = Throw (ScanError ScanLimit m p))"
proof -
  let ?w = "min (so_concurrency opts) (max (length es) 1)"
  let ?ss = "\<lparr>ss_next = 0, ss_inflight = [], ss_files = replicate (length es) None, ss_total = 0\<rparr>"
  have inv: "scan_inv opts content es ?ss" and work: "scan_work es ?ss = length es"
    by (auto simp: scan_inv_def finished_def scan_work_def)
  have w: "0 < ?w" using assms(2) by simp
  assume run: "scanEntries te sched ws opts es s = (r, s')"
  show ?thesis
  proof (cases "startWorkers ?w opts es ?ss")
    case (Inl e)
    with startWorkers_Inl [OF Inl] run show ?thesis
      by (auto simp: scanEntries_def act_bind_def act_throw_def)
  next
    case (Inr ss0)
    from startWorkers_inv [OF Inr inv] work w
    have s0: "scan_inv opts content es ss0" "scan_work es ss0 \<le> length es"
      "ss_inflight ss0 = [] \<longrightarrow> length es \<le> ss_next ss0" by auto
    from scanLoop_result [OF assms(1) s0, of sched] show ?thesis
    proof (elim disjE exE conjE)
      fix ss'
      assume "scanLoop (length es) sched ws opts es ss0 s = (Return ss', s)"
        and done': "scan_inv opts content es ss'" "finished es ss' = {i. i < length es}"
      with run Inr finished_all [OF done'] show ?thesis
        by (auto simp: scanEntries_def act_bind_def act_return_def Let_def)
    next
      fix m p
      assume "scanLoop (length es) sched ws opts es ss0 s = (Throw (ScanError ScanLimit m p), s)"
        and "\<not> scan_within opts content es"
      with run Inr show ?thesis by (auto simp: scanEntries_def act_bind_def act_return_def)
    qed
  qed
qed

section \<open>Whole scans\<close>

lemma ceiling_value_pos: "ceiling_value v d = Some n \<Longrightarrow> 0 < d \<Longrightarrow> 0 < n"
  by (auto simp: ceiling_value_def split: option.splits if_splits)

lemma boundedOptions_concurrency: "boundedOptions supplied = Inr opts \<Longrightarrow> 0 < so_concurrency opts"
  by (auto simp: boundedOptions_def DEFAULT_SCAN_OPTIONS_def dest: ceiling_value_pos
      split: option.splits)


context markdown_tree
begin

lemma scanMarkdown_result:
  assumes bounds: "boundedOptions supplied = Inr opts"
    and listed: "listMarkdown te ws supplied s = (Return es, s')"
  shows "scan_within opts content es \<Longrightarrow> scanMarkdown te sched ws supplied s =
      (Return \<lparr>sr_files = List.map (file_of content) es,
         sr_totalBytes = sum_list (List.map (\<lambda>e. length (content (we_path e))) es),
         sr_scanId = scanFingerprint (te_num te) (List.map (file_of content) es)\<rparr>, s)"
    and "\<not> scan_within opts content es \<Longrightarrow>
      \<exists>m p. scanMarkdown te sched ws supplied s = (Throw (ScanError ScanLimit m p), s)"
proof -
  have with_opts: "listWith te ws opts s = (Return es, s')"
    using assms by (simp add: listMarkdown_def)
  then have s': "s' = s" using listWith_tree by blast
  have read: "\<forall>e\<in>set es. wp_read ws (we_path e) s = (Return (content (we_path e)), s)"
    using listWith_read [OF with_opts] by blast
  obtain r s'' where run: "scanMarkdown te sched ws supplied s = (r, s'')" by fastforce
  from run bounds with_opts s' have "s'' = s \<and> (if scan_within opts content es
     then r = Return \<lparr>sr_files = List.map (file_of content) es,
            sr_totalBytes = sum_list (List.map (\<lambda>e. length (content (we_path e))) es),
            sr_scanId = scanFingerprint (te_num te) (List.map (file_of content) es)\<rparr>
     else \<exists>m p. r = Throw (ScanError ScanLimit m p))"
    by (intro scan_result [OF read boundedOptions_concurrency [OF bounds]])
      (simp add: scanMarkdown_def act_bind_run [of "listWith te ws opts", OF with_opts])
  with run show "scan_within opts content es \<Longrightarrow> scanMarkdown te sched ws supplied s =
      (Return \<lparr>sr_files = List.map (file_of content) es,
         sr_totalBytes = sum_list (List.map (\<lambda>e. length (content (we_path e))) es),
         sr_scanId = scanFingerprint (te_num te) (List.map (file_of content) es)\<rparr>, s)"
    "\<not> scan_within opts content es \<Longrightarrow>
      \<exists>m p. scanMarkdown te sched ws supplied s = (Throw (ScanError ScanLimit m p), s)"
    by auto
qed

end

section \<open>Properties\<close>

text \<open>A small workspace for the witnesses: two notes, one of them in a directory, with a hidden
  directory and an image beside them.\<close>

definition note_entry :: "string \<Rightarrow> nat \<Rightarrow> workspace_entry" where
  "note_entry p n = \<lparr>we_path = lit p, we_kind = KFile, we_size = Some n, we_mtimeMs = None\<rparr>"

definition dir_entry :: "string \<Rightarrow> workspace_entry" where
  "dir_entry p = \<lparr>we_path = lit p, we_kind = KDirectory, we_size = None, we_mtimeMs = None\<rparr>"

definition sample_tree :: "jsstr \<Rightarrow> workspace_entry list" where
  "sample_tree d =
     (if d = [] then [dir_entry ''sub'', note_entry ''a.md'' 2, dir_entry ''.git'', note_entry ''x.png'' 9]
      else if d = lit ''sub'' then [note_entry ''sub/b.md'' 1]
      else [])"

definition sample_content :: "jsstr \<Rightarrow> bytes" where
  "sample_content p = (if p = lit ''a.md'' then [104, 105] else if p = lit ''sub/b.md'' then [33] else [])"

definition sample_workspace :: "(unit, source_error) workspace_port" where
  "sample_workspace = \<lparr>wp_list = (\<lambda>d. act_return (sample_tree d)), wp_stat = (\<lambda>_. act_return None),
     wp_read = (\<lambda>p. act_return (sample_content p)), wp_write = (\<lambda>_ _. act_return ())\<rparr>"

definition ascii_env :: text_env where
  "ascii_env = \<lparr>te_nfc = id, te_lower = List.map fold_unit, te_le = (\<lambda>a b. map unat a \<le> map unat b),
     te_num = (\<lambda>_. [])\<rparr>"

definition sample_supplied :: supplied_options where
  "sample_supplied = \<lparr>sup_maxEntries = Some (Fin 6), sup_maxFiles = Some (Fin 3), sup_maxBytes = Some (Fin 5),
     sup_maxFileBytes = Some (Fin 4), sup_maxDepth = Some (Fin 2), sup_concurrency = Some (Fin 2)\<rparr>"

definition sample_bounds :: scan_options where
  "sample_bounds = \<lparr>so_maxEntries = 6, so_maxFiles = 3, so_maxBytes = 5, so_maxFileBytes = 4,
     so_maxDepth = 2, so_concurrency = 2\<rparr>"

lemma sample_bounded: "boundedOptions sample_supplied = Inr sample_bounds"
  by (simp add: sample_supplied_def sample_bounds_def boundedOptions_def ceiling_value_def
      is_safe_integer_num_def int_of_num_def)

interpretation sample: answering_workspace sample_workspace
  by unfold_locales (simp add: sample_workspace_def wp_simps)

interpretation sample: markdown_tree sample_workspace "()" sample_tree sample_content
  by unfold_locales (simp_all add: sample_workspace_def act_return_def)

lemma sample_listing:
  "listMarkdown ascii_env sample_workspace sample_supplied () =
     (Return [note_entry ''a.md'' 2, note_entry ''sub/b.md'' 1], ())"
proof -
  have "listWith ascii_env sample_workspace sample_bounds () =
     (Return [note_entry ''a.md'' 2, note_entry ''sub/b.md'' 1], ())"
    by code_simp
  then show ?thesis by (simp add: listMarkdown_def sample_bounded)
qed

text \<open>
  C22. The paths \<open>validateMarkdownPath\<close> admits are exactly these: NFC, without NUL, backslash or
  drive prefix, whose segments are all non-empty and do not start with a dot (so no \<open>..\<close> and
  nothing hidden), whose directories are not excluded ones, ending in \<open>.md\<close> in some case, and
  not secret-shaped; and it returns the path unchanged.
\<close>

theorem markdown_boundary:
  "validateMarkdownPath nfc path = Inr p \<longleftrightarrow>
   p = path \<and> nfc path = path \<and> 0 \<notin> set path \<and> 92 \<notin> set path \<and> \<not> drive_shaped path \<and>
   list_all (\<lambda>part. part \<noteq> [] \<and> hd part \<noteq> 46) (split_on 47 path) \<and>
   list_all (\<lambda>part. part \<notin> set EXCLUDED_DIRECTORIES) (butlast (split_on 47 path)) \<and>
   md_leaf (last (split_on 47 path)) \<and> \<not> isSecretShaped path"
proof -
  have dot: "dotted part \<longleftrightarrow> part \<noteq> [] \<and> hd part = 46" for part
    by (cases part) (auto simp: dotted_def starts_with_def lit_def)
  have dots: "part = lit ''.'' \<or> part = lit ''..'' \<Longrightarrow> dotted part" for part
    by (auto simp: dotted_def starts_with_def lit_def)
  let ?parts = "split_on 47 path"
  have split: "set ?parts = insert (last ?parts) (set (butlast ?parts))"
    by (metis append_butlast_last_id list.set(1) list.simps(15) set_append split_on_nonempty
        Un_commute Un_insert_left sup_bot_left)
  have slash: "hd path = 47 \<Longrightarrow> path \<noteq> [] \<Longrightarrow> [] \<in> set ?parts"
    by (cases path) auto
  have empty: "path = [] \<Longrightarrow> [] \<in> set ?parts" by simp
  show ?thesis
    using slash empty dots
    by (auto simp: validateMarkdownPath_Inr validateRelativePath_def shouldExclude_def Let_def
        list_all_iff list_ex_iff split dot)
qed

text \<open>
  C23. Whatever the workspace adapter answers, in any order and with any entries, \<open>listMarkdown\<close>
  ends; and when it returns, every entry is a Markdown file \<open>validateMarkdownPath\<close> admits, no two
  paths are the same up to case, and their number is within the ceilings.
\<close>

theorem listing_is_bounded:
  fixes ws :: "('s, source_error) workspace_port"
  assumes "boundedOptions supplied = Inr opts"
    and "\<forall>d s. wp (wp_list ws d) (\<lambda>_ _. True) (\<lambda>e _. e \<noteq> None) s"
  shows "wp (listMarkdown te ws supplied)
     (\<lambda>es _. list_all (\<lambda>e. we_kind e = KFile \<and> portable_path (we_path e) \<and> te_nfc te (we_path e) = we_path e \<and>
          \<not> shouldExclude (we_path e) KFile \<and> path_depth (we_path e) \<le> so_maxDepth opts) es \<and>
        distinct (List.map (\<lambda>e. te_lower te (we_path e)) es) \<and>
        length es \<le> so_maxFiles opts \<and> length es \<le> so_maxEntries opts)
     (\<lambda>e _. e \<noteq> None) s"
proof -
  have "answering_workspace ws" by (rule answering_workspace.intro) (use assms(2) in blast)
  from answering_workspace.wp_listWith [OF this, of te opts s] show ?thesis
    by (simp add: listMarkdown_def assms(1) admitted_def [abs_def])
qed

theorem listing_is_bounded_witness:
  "wp (listMarkdown ascii_env sample_workspace sample_supplied)
     (\<lambda>es _. list_all (\<lambda>e. we_kind e = KFile \<and> portable_path (we_path e) \<and>
          te_nfc ascii_env (we_path e) = we_path e \<and>
          \<not> shouldExclude (we_path e) KFile \<and> path_depth (we_path e) \<le> so_maxDepth sample_bounds) es \<and>
        distinct (List.map (\<lambda>e. te_lower ascii_env (we_path e)) es) \<and>
        length es \<le> so_maxFiles sample_bounds \<and> length es \<le> so_maxEntries sample_bounds)
     (\<lambda>e _. e \<noteq> None) ()"
  by (rule listing_is_bounded [OF sample_bounded]) (simp add: sample_workspace_def wp_simps)

text \<open>
  On a workspace that answers from a tree of directories, \<open>listMarkdown\<close> returns exactly the
  Markdown files of the directories the policy enters, sorted by path, and changes nothing.
\<close>

theorem listing_is_exact:
  fixes ws :: "('s, source_error) workspace_port"
  assumes "\<forall>d. d \<in> entered tree \<longrightarrow> wp_list ws d s = (Return (tree d), s)"
    and "\<forall>a b. te_le te a b \<or> te_le te b a" and "\<forall>a b c. te_le te a b \<longrightarrow> te_le te b c \<longrightarrow> te_le te a c"
    and "listMarkdown te ws supplied s = (Return es, s')"
  shows "s' = s \<and> sorted_wrt (\<lambda>a b. te_le te (we_path a) (we_path b)) es \<and>
    set es = {e. \<exists>d\<in>entered tree. e \<in> set (tree d) \<and> we_kind e = KFile \<and> \<not> shouldExclude (we_path e) KFile}"
proof -
  from assms(4) obtain opts where run: "listWith te ws opts s = (Return es, s')"
    by (cases "boundedOptions supplied")
      (auto simp: listMarkdown_def act_bind_def act_throw_def act_return_def)
  then have "\<exists>entries. es = sort_by (\<lambda>a b. te_le te (we_path a) (we_path b)) entries"
    by (auto simp: listWith_def act_bind_def act_return_def act_throw_def Let_def
        split: prod.splits outcome.splits if_splits)
  then have "sorted_wrt (\<lambda>a b. te_le te (we_path a) (we_path b)) es"
    using assms(2,3) by (auto intro!: sorted_sort_by)
  moreover have "listing_tree ws s tree" by (rule listing_tree.intro) (use assms(1) in blast)
  note listing_tree.listWith_tree [OF this run]
  ultimately show ?thesis by (auto simp: tree_files_def)
qed

theorem listing_is_exact_witness:
  "sorted_wrt (\<lambda>a b. te_le ascii_env (we_path a) (we_path b))
     [note_entry ''a.md'' 2, note_entry ''sub/b.md'' 1] \<and>
   set [note_entry ''a.md'' 2, note_entry ''sub/b.md'' 1] = {e. \<exists>d\<in>entered sample_tree.
     e \<in> set (sample_tree d) \<and> we_kind e = KFile \<and> \<not> shouldExclude (we_path e) KFile}"
proof -
  have "\<forall>d. d \<in> entered sample_tree \<longrightarrow> wp_list sample_workspace d () = (Return (sample_tree d), ())"
    by (simp add: sample_workspace_def act_return_def)
  moreover have "\<forall>a b. te_le ascii_env a b \<or> te_le ascii_env b a"
    "\<forall>a b c. te_le ascii_env a b \<longrightarrow> te_le ascii_env b c \<longrightarrow> te_le ascii_env a c"
    by (auto simp: ascii_env_def)
  ultimately show ?thesis
    using listing_is_exact [OF _ _ _ sample_listing] by blast
qed

text \<open>
  C24. A scan returns the same whatever the order in which its concurrent reads complete: for
  every schedule, the listed files with their contents in the order of the listing, their total
  size and fingerprint if they are within the ceilings, and the error \<open>scan_limit\<close> if not.
\<close>

theorem scan_any_order:
  fixes ws :: "('s, source_error) workspace_port"
  assumes "boundedOptions supplied = Inr opts"
    and "\<forall>d. d \<in> entered tree \<longrightarrow> wp_list ws d s = (Return (tree d), s)"
    and "\<forall>d e. d \<in> entered tree \<longrightarrow> e \<in> tree_files tree d \<longrightarrow>
      wp_read ws (we_path e) s = (Return (content (we_path e)), s)"
    and "listMarkdown te ws supplied s = (Return es, s')"
  shows "if list_all (\<lambda>e. (case we_size e of Some n \<Rightarrow> n \<le> so_maxFileBytes opts | None \<Rightarrow> True) \<and>
            length (content (we_path e)) \<le> so_maxFileBytes opts) es \<and>
          sum_list (List.map (\<lambda>e. length (content (we_path e))) es) \<le> so_maxBytes opts
     then scanMarkdown te sched ws supplied s =
       (Return \<lparr>sr_files = List.map (file_of content) es,
          sr_totalBytes = sum_list (List.map (\<lambda>e. length (content (we_path e))) es),
          sr_scanId = scanFingerprint (te_num te) (List.map (file_of content) es)\<rparr>, s)
     else \<exists>m p. scanMarkdown te sched ws supplied s = (Throw (ScanError ScanLimit m p), s)"
proof -
  have "markdown_tree ws s tree content"
    by (intro markdown_tree.intro listing_tree.intro markdown_tree_axioms.intro) (use assms(2,3) in blast)+
  from markdown_tree.scanMarkdown_result [OF this assms(1,4)] show ?thesis
    by (simp add: scan_within_def listed_ok_def)
qed

theorem scan_any_order_witness:
  "\<forall>sched. scanMarkdown ascii_env sched sample_workspace sample_supplied () =
     (Return \<lparr>sr_files = [file_of sample_content (note_entry ''a.md'' 2),
          file_of sample_content (note_entry ''sub/b.md'' 1)],
        sr_totalBytes = 3,
        sr_scanId = scanFingerprint (te_num ascii_env) [file_of sample_content (note_entry ''a.md'' 2),
          file_of sample_content (note_entry ''sub/b.md'' 1)]\<rparr>, ())"
proof
  fix sched
  show "scanMarkdown ascii_env sched sample_workspace sample_supplied () =
     (Return \<lparr>sr_files = [file_of sample_content (note_entry ''a.md'' 2),
          file_of sample_content (note_entry ''sub/b.md'' 1)],
        sr_totalBytes = 3,
        sr_scanId = scanFingerprint (te_num ascii_env) [file_of sample_content (note_entry ''a.md'' 2),
          file_of sample_content (note_entry ''sub/b.md'' 1)]\<rparr>, ())"
    using scan_any_order [where ws = sample_workspace and tree = sample_tree and content = sample_content
        and sched = sched, OF sample_bounded _ _ sample_listing]
    by (simp add: sample_workspace_def act_return_def sample_bounds_def note_entry_def sample_content_def)
qed

end
