(* ===== verification/FolderListing.thy ===== *)
theory FolderListing
  imports FolderProps SourceScanProps
begin

text \<open>
  Listing and scanning a folder on disk. On a tidy folder the adapter answers from its directory
  tree, so that it is an instance of the interface \<open>markdown_tree\<close>, and a listing returns exactly
  the files whose path the Markdown policy admits.
\<close>

section \<open>Tidy folders\<close>

abbreviation slashed :: "jsstr list \<Rightarrow> jsstr" where
  "slashed r \<equiv> join_with 47 r"

text \<open>
  An entry of a folder the adapter accepts: its names are portable, its parents are directories, and it is
  a directory that is not secret-shaped or a file. A folder is tidy when this holds of every entry that a
  listing comes to see: not of those in a directory that the policy excludes, which nothing enters.
\<close>

definition open_name :: "jsstr \<Rightarrow> bool" where
  "open_name part \<longleftrightarrow> \<not> (part \<in> set EXCLUDED_DIRECTORIES \<or> dotted part)"

definition tidy_node :: "folder_files \<Rightarrow> fs_tree \<Rightarrow> jsstr list \<Rightarrow> fs_node \<Rightarrow> bool" where
  "tidy_node nf t r n \<longleftrightarrow> list_all (\<lambda>s. 47 \<notin> set s) r \<and> portable_path (slashed r) \<and>
     \<not> drive_shaped (slashed r) \<and> te_nfc (nf_text nf) (slashed r) = slashed r \<and>
     real_dir t (nf_root nf @ butlast r) \<and>
     (case n of FsDir _ \<Rightarrow> \<not> isSecretShaped (slashed r)
      | FsFile _ _ \<Rightarrow> True | _ \<Rightarrow> False)"

definition tidy :: "folder_files \<Rightarrow> folder_world \<Rightarrow> bool" where
  "tidy nf w \<longleftrightarrow> fw_faults w = [] \<and> real_dir (fw_tree w) (nf_root nf) \<and> distinct (List.map fst (fw_tree w)) \<and>
     list_all (\<lambda>(q, _). list_all (\<lambda>s. 47 \<notin> set s) q) (fw_tree w) \<and>
     list_all (\<lambda>(q, n). length (nf_root nf) < length q \<and> take (length (nf_root nf)) q = nf_root nf \<and>
          list_all open_name (butlast (drop (length (nf_root nf)) q)) \<longrightarrow>
        tidy_node nf (fw_tree w) (drop (length (nf_root nf)) q) n) (fw_tree w)"

lemma tidy_nodeD:
  "tidy nf w \<Longrightarrow> r \<noteq> [] \<Longrightarrow> map_of (fw_tree w) (nf_root nf @ r) = Some n \<Longrightarrow> list_all open_name (butlast r) \<Longrightarrow>
   tidy_node nf (fw_tree w) r n"
  by (force simp: tidy_def list_all_iff dest!: map_of_SomeD)

lemma split_on_no: "c \<notin> set p \<Longrightarrow> split_on c p = [p]"
  by (induction p) auto

lemma split_on_append: "c \<notin> set p \<Longrightarrow> split_on c (p @ c # s) = p # split_on c s"
  by (induction p) auto

lemma split_slashed: "r \<noteq> [] \<Longrightarrow> list_all (\<lambda>s. c \<notin> set s) r \<Longrightarrow> split_on c (join_with c r) = r"
  by (induction c r rule: join_with.induct) (auto simp: split_on_no split_on_append)

lemma slashed_not_empty: "portable_path (slashed r) \<Longrightarrow> slashed r \<noteq> []"
  by (simp add: portable_path_def)

lemma validate_portable:
  assumes "portable_path p" and "nfc p = p" and "\<not> drive_shaped p"
  shows "validateRelativePath nfc p = Inr p"
proof -
  have "hd p \<noteq> 47"
  proof
    assume "hd p = 47"
    with assms(1) obtain s where "p = 47 # s" by (cases p) (auto simp: portable_path_def)
    with assms(1) show False by (simp add: portable_path_def)
  qed
  with assms show ?thesis
    by (auto simp: validateRelativePath_def portable_path_def list_all_iff list_ex_iff)
qed

lemma tidy_validate:
  assumes "tidy_node nf t r n"
  shows "validateRelativePath (te_nfc (nf_text nf)) (slashed r) = Inr (slashed r)"
  using assms by (intro validate_portable) (simp_all add: tidy_node_def)

lemma tidy_split:
  assumes "tidy_node nf t r n" and "r \<noteq> []"
  shows "split_on 47 (slashed r) = r" "hd r \<noteq> lit ''..''" "lit ''..'' \<notin> set r"
proof -
  show split: "split_on 47 (slashed r) = r"
    using assms by (intro split_slashed) (simp_all add: tidy_node_def)
  then show dots: "lit ''..'' \<notin> set r"
    using assms portable_no_dots [of "slashed r"] by (simp add: tidy_node_def)
  with assms(2) show "hd r \<noteq> lit ''..''" using hd_in_set by fastforce
qed

text \<open>The policy reads the same in the path and in its names.\<close>

lemma tidy_excluded:
  assumes "tidy_node nf t r n" and "r \<noteq> []"
  shows "hasExcludedComponent (slashed r) \<longleftrightarrow> \<not> list_all open_name r"
  by (simp add: hasExcludedComponent_def tidy_split(1) [OF assms] list_ex_iff list_all_iff open_name_def)

lemma list_all_butlast: "list_all P r \<Longrightarrow> list_all P (butlast r)"
  by (auto simp: list_all_iff dest: in_set_butlastD)

section \<open>Excluded paths\<close>

lemma excluded_component:
  "\<not> shouldExclude p KDirectory \<longleftrightarrow> \<not> hasExcludedComponent p"
proof -
  have split: "set (split_on 47 p) = insert (last (split_on 47 p)) (set (butlast (split_on 47 p)))"
    by (metis append_butlast_last_id list.set(1) list.simps(15) set_append split_on_nonempty
        Un_commute Un_insert_left sup_bot_left)
  show ?thesis
    by (auto simp: shouldExclude_def hasExcludedComponent_def Let_def list_ex_iff split)
qed

lemma file_component: "\<not> shouldExclude p KFile \<Longrightarrow> \<not> hasExcludedComponent p"
proof -
  assume a: "\<not> shouldExclude p KFile"
  have "last (split_on 47 p) \<notin> set EXCLUDED_DIRECTORIES" if "md_leaf (last (split_on 47 p))"
    using that by (auto simp: EXCLUDED_DIRECTORIES_def md_leaf_def fold_unit_def)
  with a show ?thesis
    by (auto simp: excluded_component [symmetric] shouldExclude_def Let_def list_ex_iff split: if_splits)
qed

text \<open>Every directory on the way to a file that the policy admits is one it enters.\<close>

lemma admitted_names:
  assumes "tidy nf w" and "map_of (fw_tree w) (nf_root nf @ r) = Some n" and "r \<noteq> []"
    and "\<not> shouldExclude (slashed r) KFile"
  shows "list_all open_name r" "list_all open_name (butlast r)"
proof -
  have "list_all (\<lambda>s. 47 \<notin> set s) (nf_root nf @ r)"
    using assms(1,2) by (auto simp: tidy_def list_all_iff dest!: map_of_SomeD)
  then have "split_on 47 (slashed r) = r" by (intro split_slashed assms(3)) simp
  with file_component [OF assms(4)] show "list_all open_name r"
    by (simp add: hasExcludedComponent_def list_all_iff list_ex_iff open_name_def)
  then show "list_all open_name (butlast r)" by (rule list_all_butlast)
qed

section \<open>The adapter's listings\<close>

definition entry_at :: "folder_files \<Rightarrow> folder_world \<Rightarrow> jsstr list \<Rightarrow> workspace_entry" where
  "entry_at nf w r = the (entry_for (slashed r) (the (map_of (fw_tree w) (nf_root nf @ r))))"

lemma list_names_tidy:
  assumes tidy: "tidy nf w" and dir: "real_dir (fw_tree w) (nf_root nf @ rel)" and shown: "list_all open_name rel"
  shows "\<forall>s\<in>set names. map_of (fw_tree w) (nf_root nf @ rel @ [s]) \<noteq> None \<Longrightarrow>
    list_names nf (nf_root nf @ rel) names acc w =
      (Return (acc @ List.map (\<lambda>s. entry_at nf w (rel @ [s])) names), w)"
proof (induction names arbitrary: acc)
  case Nil
  then show ?case by (simp add: act_return_def)
next
  case (Cons s names)
  let ?q = "nf_root nf @ rel @ [s]"
  from Cons.prems obtain n where n: "map_of (fw_tree w) ?q = Some n" by auto
  then have node: "tidy_node nf (fw_tree w) (rel @ [s]) n" using tidy_nodeD [OF tidy, of "rel @ [s]"] shown by simp
  have quiet: "fw_faults w = []" using tidy by (simp add: tidy_def)
  have lstat: "lstatWorkspace ?q msg w = (Return (Some n), w)" for msg
    using dir n lstat_of_real [of "fw_tree w" "nf_root nf @ rel" s] by (intro quiet_lstat [OF quiet]) simp
  have link: "\<not> is_link n" using node by (auto simp: tidy_node_def is_link_def split: fs_node.splits)
  have "real_path (fw_tree w) ?q"
    using dir n link real_path_snoc [of "fw_tree w" "nf_root nf @ rel" s] by simp
  then have inside: "assertRealPathInside (nf_root nf) ?q w = (Return (), w)"
    using quiet tidy_split(3) [OF node] by (intro quiet_inside) (auto simp: realpath_of_real)
  have port: "asPortablePath (nf_root nf) ?q = Inr (slashed (rel @ [s]))"
    using tidy_split(2) [OF node] by (simp add: asPortablePath_def Let_def)
  have entry: "entry_or_throw (slashed (rel @ [s])) n w = (Return (entry_at nf w (rel @ [s])), w)"
    using node n by (auto simp: entry_or_throw_def entry_at_def entry_for_def tidy_node_def act_return_def
        split: fs_node.splits)
  from Cons show ?case
    by (simp add: port link act_bind_run [of "lstatWorkspace _ _", OF lstat]
        act_bind_run [of "assertRealPathInside _ _", OF inside] act_bind_run [of "entry_or_throw _ _", OF entry])
qed

text \<open>The names in a real directory.\<close>

lemma readdir_real:
  assumes "real_dir t d"
  obtains names where "readdir_of t d = Inr names" "set names = {s. map_of t (d @ [s]) \<noteq> None}"
proof
  show "readdir_of t d = Inr (List.map last (filter (\<lambda>q. q \<noteq> [] \<and> butlast q = d) (List.map fst t)))"
    using assms by (simp add: readdir_of_def realpath_of_real real_dir_path)
  show "set (List.map last (filter (\<lambda>q. q \<noteq> [] \<and> butlast q = d) (List.map fst t))) =
      {s. map_of t (d @ [s]) \<noteq> None}"
  proof (rule set_eqI)
    fix s
    have "(\<exists>q\<in>set (List.map fst t). q \<noteq> [] \<and> butlast q = d \<and> s = last q) \<longleftrightarrow> d @ [s] \<in> fst ` set t"
      by (metis append_butlast_last_id butlast_snoc last_snoc list.set_map snoc_eq_iff_butlast)
    then show "s \<in> set (List.map last (filter (\<lambda>q. q \<noteq> [] \<and> butlast q = d) (List.map fst t))) \<longleftrightarrow>
        s \<in> {s. map_of t (d @ [s]) \<noteq> None}"
      by (auto simp: map_of_eq_None_iff)
  qed
qed

text \<open>A directory below the folder that the policy admits.\<close>

definition open_dir :: "folder_files \<Rightarrow> folder_world \<Rightarrow> jsstr list \<Rightarrow> bool" where
  "open_dir nf w r \<longleftrightarrow> r = [] \<or>
     (\<exists>m. map_of (fw_tree w) (nf_root nf @ r) = Some (FsDir m)) \<and> list_all open_name r"

lemma open_dir_names: "open_dir nf w r \<Longrightarrow> list_all open_name r"
  by (auto simp: open_dir_def)

lemma open_dir_node:
  assumes "tidy nf w" and "open_dir nf w r" and "r \<noteq> []"
  obtains m where "map_of (fw_tree w) (nf_root nf @ r) = Some (FsDir m)" "tidy_node nf (fw_tree w) r (FsDir m)"
  using assms tidy_nodeD [OF assms(1,3)] list_all_butlast by (auto simp: open_dir_def)

lemma open_dir_real:
  assumes "tidy nf w" and "open_dir nf w r"
  shows "real_dir (fw_tree w) (nf_root nf @ r)"
proof (cases "r = []")
  case True
  with assms(1) show ?thesis by (simp add: tidy_def)
next
  case False
  from open_dir_node [OF assms False] obtain m where m: "map_of (fw_tree w) (nf_root nf @ r) = Some (FsDir m)"
    and node: "tidy_node nf (fw_tree w) r (FsDir m)" .
  from node have "real_dir (fw_tree w) (nf_root nf @ butlast r)"
    by (simp add: tidy_node_def)
  with m False show ?thesis
    using real_dir_snoc [of "fw_tree w" "nf_root nf @ butlast r" "last r"] by simp
qed

lemma absolute_open:
  assumes "tidy nf w" and "open_dir nf w r"
  shows "absolute nf True (slashed r) = Inr (nf_root nf @ r)"
proof (cases "r = []")
  case True
  then show ?thesis by (simp add: absolute_def assertPortablePath_def isPathInside_def)
next
  case False
  from open_dir_node [OF assms False] obtain m where m: "map_of (fw_tree w) (nf_root nf @ r) = Some (FsDir m)"
    and node: "tidy_node nf (fw_tree w) r (FsDir m)" .
  have open': "\<not> hasExcludedComponent (slashed r)"
    using open_dir_names [OF assms(2)] by (simp add: tidy_excluded [OF node False])
  have "slashed r \<noteq> []" using node by (intro slashed_not_empty) (simp add: tidy_node_def)
  moreover have "\<not> isSecretShaped (slashed r)" using node by (simp add: tidy_node_def)
  ultimately show ?thesis
    using open' tidy_validate [OF node] tidy_split [OF node False] isPathInside_append [of r "nf_root nf"]
    by (simp add: absolute_def assertPortablePath_def assertAllowedPath_def Let_def)
qed

lemma files_list_open:
  assumes "tidy nf w" and "open_dir nf w r"
  obtains names where "files_list nf (slashed r) w = (Return (List.map (\<lambda>s. entry_at nf w (r @ [s])) names), w)"
    "set names = {s. map_of (fw_tree w) (nf_root nf @ r @ [s]) \<noteq> None}"
proof -
  have quiet: "fw_faults w = []" using assms(1) by (simp add: tidy_def)
  note real = open_dir_real [OF assms]
  from readdir_real [OF real] obtain names where names: "readdir_of (fw_tree w) (nf_root nf @ r) = Inr names"
    "set names = {s. map_of (fw_tree w) (nf_root nf @ r @ [s]) \<noteq> None}" by auto
  have "\<exists>m. lstat_of (fw_tree w) (nf_root nf @ r) = Inr (FsDir m)"
  proof (cases "nf_root nf @ r" rule: rev_cases)
    case Nil
    then show ?thesis by (simp add: lstat_of_def)
  next
    case (snoc d s)
    with real show ?thesis by (auto simp: lstat_of_real simp del: append_assoc)
  qed
  then obtain m where lstat: "lstat_of (fw_tree w) (nf_root nf @ r) = Inr (FsDir m)" by blast
  have dots: "lit ''..'' \<notin> set r"
  proof (cases "r = []")
    case False
    from open_dir_node [OF assms False] obtain m where "tidy_node nf (fw_tree w) r (FsDir m)" .
    from tidy_split(3) [OF this False] show ?thesis .
  qed simp
  have inside: "assertRealPathInside (nf_root nf) (nf_root nf @ r) w = (Return (), w)"
    using quiet realpath_of_real [OF real_dir_path [OF real]] dots by (rule quiet_inside)
  have readdir: "with_code msg p (fs_readdir (nf_root nf @ r)) w = (Return names, w)" for msg p
    using names(1) quiet by (simp add: with_code_def map_error_def fs_readdir_def quiet_look)
  let ?sorted = "sort_by (te_le (nf_text nf)) names"
  have listed: "list_names nf (nf_root nf @ r) ?sorted [] w =
      (Return (List.map (\<lambda>s. entry_at nf w (r @ [s])) ?sorted), w)"
    using names(2) list_names_tidy [OF assms(1) real open_dir_names [OF assms(2)], of ?sorted "[]"] by simp
  have "files_list nf (slashed r) w = (Return (List.map (\<lambda>s. entry_at nf w (r @ [s])) ?sorted), w)"
    by (simp add: files_list_def absolute_open [OF assms] is_dir_def listed
        act_bind_run [of "lstatWorkspace _ _", OF quiet_lstat [OF quiet lstat]]
        act_bind_run [of "assertRealPathInside _ _", OF inside] act_bind_run [of "with_code _ _ _", OF readdir])
  with names(2) that show thesis by simp
qed

section \<open>The folder as a directory tree\<close>

definition disk_tree :: "folder_files \<Rightarrow> folder_world \<Rightarrow> jsstr \<Rightarrow> workspace_entry list" where
  "disk_tree nf w d = (case files_list nf d w of (Return es, _) \<Rightarrow> es | _ \<Rightarrow> [])"

definition disk_content :: "folder_files \<Rightarrow> folder_world \<Rightarrow> jsstr \<Rightarrow> bytes" where
  "disk_content nf w p = (case files_read nf p w of (Return bs, _) \<Rightarrow> bs | _ \<Rightarrow> [])"

lemma disk_tree_open:
  assumes "tidy nf w" and "open_dir nf w r"
  shows "files_list nf (slashed r) w = (Return (disk_tree nf w (slashed r)), w)"
    and "set (disk_tree nf w (slashed r)) =
      (\<lambda>s. entry_at nf w (r @ [s])) ` {s. map_of (fw_tree w) (nf_root nf @ r @ [s]) \<noteq> None}"
proof -
  from files_list_open [OF assms] obtain names where
    "files_list nf (slashed r) w = (Return (List.map (\<lambda>s. entry_at nf w (r @ [s])) names), w)"
    "set names = {s. map_of (fw_tree w) (nf_root nf @ r @ [s]) \<noteq> None}" .
  then show "files_list nf (slashed r) w = (Return (disk_tree nf w (slashed r)), w)"
    "set (disk_tree nf w (slashed r)) =
      (\<lambda>s. entry_at nf w (r @ [s])) ` {s. map_of (fw_tree w) (nf_root nf @ r @ [s]) \<noteq> None}"
    by (simp_all add: disk_tree_def)
qed

lemma entry_at_simps:
  assumes "tidy nf w" and "r \<noteq> []" and "map_of (fw_tree w) (nf_root nf @ r) = Some n"
    and "list_all open_name (butlast r)"
  shows "we_path (entry_at nf w r) = slashed r"
    and "we_kind (entry_at nf w r) = KDirectory \<longleftrightarrow> is_dir n"
    and "we_kind (entry_at nf w r) = KFile \<longleftrightarrow> is_file n"
  using tidy_nodeD [OF assms] assms(3)
  by (auto simp: tidy_node_def entry_at_def entry_for_def is_dir_def is_file_def split: fs_node.splits)

lemma entered_open:
  assumes "tidy nf w" and "d \<in> entered (disk_tree nf w)"
  shows "\<exists>r. d = slashed r \<and> open_dir nf w r"
  using assms(2)
proof (induction rule: entered.induct)
  case root
  have "open_dir nf w []" by (simp add: open_dir_def)
  then show ?case by (intro exI [of _ "[]"]) simp
next
  case (sub d e)
  then obtain r where r: "d = slashed r" "open_dir nf w r" by blast
  from sub(2) obtain s n where e: "e = entry_at nf w (r @ [s])"
    and n: "map_of (fw_tree w) (nf_root nf @ r @ [s]) = Some n"
    unfolding r(1) disk_tree_open(2) [OF assms(1) r(2)] by auto
  have "is_dir n" "we_path e = slashed (r @ [s])"
    using sub(3) entry_at_simps [OF assms(1) _ n] open_dir_names [OF r(2)] by (simp_all add: e)
  moreover have "tidy_node nf (fw_tree w) (r @ [s]) n"
    using tidy_nodeD [OF assms(1) _ n] open_dir_names [OF r(2)] by simp
  ultimately have "open_dir nf w (r @ [s])"
    using sub(4) n tidy_excluded [of nf "fw_tree w" "r @ [s]" n]
    by (cases n) (auto simp: open_dir_def is_dir_def excluded_component)
  with \<open>we_path e = slashed (r @ [s])\<close> show ?case by blast
qed

lemma open_parent:
  assumes "tidy nf w" and "r @ [s] \<noteq> []" and "map_of (fw_tree w) (nf_root nf @ r @ [s]) = Some n"
    and "list_all open_name r"
  shows "open_dir nf w r"
proof (cases "r = []")
  case False
  have "tidy_node nf (fw_tree w) (r @ [s]) n" using tidy_nodeD [OF assms(1,2,3)] assms(4) by simp
  then have "real_dir (fw_tree w) (nf_root nf @ butlast r @ [last r])" using False by (simp add: tidy_node_def)
  then obtain m where "map_of (fw_tree w) (nf_root nf @ r) = Some (FsDir m)"
    using real_dir_snoc [of "fw_tree w" "nf_root nf @ butlast r" "last r"] False by auto
  with assms(4) show ?thesis by (simp add: open_dir_def)
qed (simp add: open_dir_def)

lemma open_entered:
  assumes "tidy nf w"
  shows "open_dir nf w r \<Longrightarrow> slashed r \<in> entered (disk_tree nf w)"
proof (induction r rule: rev_induct)
  case Nil
  show ?case by (simp add: entered.root)
next
  case (snoc s r)
  then obtain m where m: "map_of (fw_tree w) (nf_root nf @ r @ [s]) = Some (FsDir m)"
    and shown: "list_all open_name (r @ [s])" by (auto simp: open_dir_def)
  have r: "open_dir nf w r" by (rule open_parent [OF assms _ m]) (use shown in simp_all)
  have "tidy_node nf (fw_tree w) (r @ [s]) (FsDir m)" using tidy_nodeD [OF assms _ m] shown by simp
  with shown have shut: "\<not> hasExcludedComponent (slashed (r @ [s]))"
    using tidy_excluded [of nf "fw_tree w" "r @ [s]" "FsDir m"] by simp
  note entry = entry_at_simps [OF assms _ m, simplified]
  have "entry_at nf w (r @ [s]) \<in> set (disk_tree nf w (slashed r))"
    unfolding disk_tree_open(2) [OF assms r] using m by blast
  from entered.sub [OF snoc.IH [OF r] this] entry shut shown show ?case
    by (simp add: excluded_component is_dir_def)
qed

lemma tidy_read:
  assumes "tidy nf w" and "r \<noteq> []" and n: "map_of (fw_tree w) (nf_root nf @ r) = Some (FsFile bs m)"
    and "\<not> shouldExclude (slashed r) KFile" and size: "length bs \<le> nf_maxFileBytes nf"
  shows "files_read nf (slashed r) w = (Return bs, w)"
proof -
  note node = tidy_nodeD [OF assms(1,2) n admitted_names(2) [OF assms(1) n assms(2,4)]]
  have quiet: "fw_faults w = []" using assms(1) by (simp add: tidy_def)
  have split: "split_on 47 (slashed r) = r" by (rule tidy_split [OF node assms(2)])
  have shut: "\<not> hasExcludedComponent (slashed r)" using assms(4) by (rule file_component)
  have "isSecretShaped (slashed r) \<longrightarrow> shouldExclude (slashed r) KFile"
    by (simp add: shouldExclude_def Let_def)
  then have secret: "\<not> isSecretShaped (slashed r)" using assms(4) by blast
  have not_empty: "slashed r \<noteq> []" using node by (intro slashed_not_empty) (simp add: tidy_node_def)
  have path: "assertMarkdownPath (te_nfc (nf_text nf)) (slashed r) = Inr (slashed r)"
    using tidy_validate [OF node] assms(4) by (simp add: assertMarkdownPath_def validateMarkdownPath_def)
  have a: "absolute nf False (slashed r) = Inr (nf_root nf @ split_on 47 (slashed r))"
    using tidy_validate [OF node] shut secret not_empty isPathInside_append [of r "nf_root nf"] tidy_split [OF node assms(2)]
    by (simp add: absolute_def assertPortablePath_def assertAllowedPath_def Let_def)
  have "real_path (fw_tree w) (nf_root nf @ r)"
    using n node assms(2) real_path_snoc [of "fw_tree w" "nf_root nf @ butlast r" "last r"]
    by (simp add: tidy_node_def is_link_def)
  with n node path a size show ?thesis
    by (intro quiet_read [OF quiet]) (simp_all add: split tidy_node_def)
qed

lemma tidy_listing_tree:
  assumes "tidy nf w"
  shows "listing_tree (NodeFolderFiles nf) w (disk_tree nf w)"
proof
  fix d
  assume d: "d \<in> entered (disk_tree nf w)"
  from entered_open [OF assms d] obtain r where r: "d = slashed r" "open_dir nf w r" by blast
  then show "wp_list (NodeFolderFiles nf) d w = (Return (disk_tree nf w d), w)"
    using disk_tree_open(1) [OF assms r(2)] by (simp add: NodeFolderFiles_def)
qed

text \<open>The files that are read are within the adapter's ceiling; there is no bound on any other.\<close>

definition small_notes :: "folder_files \<Rightarrow> folder_world \<Rightarrow> bool" where
  "small_notes nf w \<longleftrightarrow> list_all (\<lambda>(q, n). case n of
      FsFile bs _ \<Rightarrow> take (length (nf_root nf)) q = nf_root nf \<and>
        \<not> shouldExclude (slashed (drop (length (nf_root nf)) q)) KFile \<longrightarrow> length bs \<le> nf_maxFileBytes nf
    | _ \<Rightarrow> True) (fw_tree w)"

lemma small_notesD:
  "small_notes nf w \<Longrightarrow> map_of (fw_tree w) (nf_root nf @ r) = Some (FsFile bs m) \<Longrightarrow>
   \<not> shouldExclude (slashed r) KFile \<Longrightarrow> length bs \<le> nf_maxFileBytes nf"
  by (force simp: small_notes_def list_all_iff dest!: map_of_SomeD)

lemma tidy_markdown_tree:
  assumes "tidy nf w" and small: "small_notes nf w"
  shows "markdown_tree (NodeFolderFiles nf) w (disk_tree nf w) (disk_content nf w)"
proof (intro markdown_tree.intro markdown_tree_axioms.intro tidy_listing_tree [OF assms(1)])
  fix d e
  assume d: "d \<in> entered (disk_tree nf w)"
  from entered_open [OF assms(1) d] obtain r where r: "d = slashed r" "open_dir nf w r" by blast
  assume "e \<in> tree_files (disk_tree nf w) d"
  then obtain s n where e: "e = entry_at nf w (r @ [s])" "we_kind e = KFile" "\<not> shouldExclude (we_path e) KFile"
    and n: "map_of (fw_tree w) (nf_root nf @ r @ [s]) = Some n"
    using disk_tree_open(2) [OF assms(1) r(2)] by (auto simp: tree_files_def r(1))
  note entry = entry_at_simps [OF assms(1) _ n, simplified, OF open_dir_names [OF r(2)]]
  from e entry obtain bs m where "n = FsFile bs m" by (cases n) (auto simp: is_file_def)
  with tidy_read [OF assms(1), of "r @ [s]" bs m] small_notesD [OF small, of "r @ [s]" bs m] e entry n
  show "wp_read (NodeFolderFiles nf) (we_path e) w = (Return (disk_content nf w (we_path e)), w)"
    by (simp add: NodeFolderFiles_def disk_content_def)
qed

text \<open>The files a listing of a tidy folder returns.\<close>

lemma tidy_files:
  assumes "tidy nf w"
  shows "(\<Union>d\<in>entered (disk_tree nf w). tree_files (disk_tree nf w) d) =
    {entry_at nf w r | r. r \<noteq> [] \<and> (\<exists>bs m. map_of (fw_tree w) (nf_root nf @ r) = Some (FsFile bs m)) \<and>
       \<not> shouldExclude (slashed r) KFile}" (is "?L = ?R")
proof (intro set_eqI iffI)
  fix e
  assume "e \<in> ?L"
  then obtain d where d: "d \<in> entered (disk_tree nf w)" and e: "e \<in> tree_files (disk_tree nf w) d" by blast
  from entered_open [OF assms d] obtain r where r: "d = slashed r" "open_dir nf w r" by blast
  from e obtain s n where e: "e = entry_at nf w (r @ [s])" "we_kind e = KFile" "\<not> shouldExclude (we_path e) KFile"
    and n: "map_of (fw_tree w) (nf_root nf @ r @ [s]) = Some n"
    using disk_tree_open(2) [OF assms r(2)] by (auto simp: tree_files_def r(1))
  with entry_at_simps [OF assms _ n, simplified, OF open_dir_names [OF r(2)]] show "e \<in> ?R"
    by (cases n) (auto simp: is_file_def intro!: exI [of _ "r @ [s]"])
next
  fix e
  assume "e \<in> ?R"
  then obtain r bs m where e: "e = entry_at nf w r" "r \<noteq> []" "\<not> shouldExclude (slashed r) KFile"
    and n: "map_of (fw_tree w) (nf_root nf @ r) = Some (FsFile bs m)" by blast
  from e(2) obtain q s where r: "r = q @ [s]" by (metis rev_exhaust)
  note n' = n [unfolded r]
  have q: "open_dir nf w q"
    using open_parent [OF assms _ n'] admitted_names(2) [OF assms n e(2,3)] by (simp add: r)
  have "e \<in> set (disk_tree nf w (slashed q))"
    unfolding disk_tree_open(2) [OF assms q] using n' e(1) r by blast
  moreover note entry_at_simps [OF assms e(2) n admitted_names(2) [OF assms n e(2,3)]]
  ultimately have "e \<in> tree_files (disk_tree nf w) (slashed q)"
    using e by (simp add: tree_files_def is_file_def)
  with open_entered [OF assms q] show "e \<in> ?L" by blast
qed

lemma tidy_contents:
  assumes "tidy nf w" and small: "small_notes nf w"
  shows "(\<lambda>e. (we_path e, disk_content nf w (we_path e))) `
      {entry_at nf w r | r. r \<noteq> [] \<and> (\<exists>bs m. map_of (fw_tree w) (nf_root nf @ r) = Some (FsFile bs m)) \<and>
         \<not> shouldExclude (slashed r) KFile} =
    {(slashed r, bs) | r bs. r \<noteq> [] \<and> (\<exists>m. map_of (fw_tree w) (nf_root nf @ r) = Some (FsFile bs m)) \<and>
         \<not> shouldExclude (slashed r) KFile}" (is "?f ` ?E = ?P")
proof -
  have pair: "?f (entry_at nf w r) = (slashed r, bs)"
    if "r \<noteq> []" "map_of (fw_tree w) (nf_root nf @ r) = Some (FsFile bs m)" "\<not> shouldExclude (slashed r) KFile" for r bs m
    using entry_at_simps(1) [OF assms(1) that(1,2) admitted_names(2) [OF assms(1) that(2,1,3)]]
      tidy_read [OF assms(1) that small_notesD [OF small that(2,3)]] by (simp add: disk_content_def)
  show ?thesis
  proof (intro set_eqI iffI)
    fix x
    assume "x \<in> ?f ` ?E"
    then obtain r bs m where "r \<noteq> []" "map_of (fw_tree w) (nf_root nf @ r) = Some (FsFile bs m)"
      "\<not> shouldExclude (slashed r) KFile" "x = (slashed r, bs)"
      using pair by blast
    then show "x \<in> ?P" by blast
  next
    fix x
    assume "x \<in> ?P"
    then obtain r bs m where r: "r \<noteq> []" "map_of (fw_tree w) (nf_root nf @ r) = Some (FsFile bs m)"
      "\<not> shouldExclude (slashed r) KFile" and x: "x = (slashed r, bs)" by blast
    then have "entry_at nf w r \<in> ?E" by blast
    with pair [OF r] x show "x \<in> ?f ` ?E" by (metis (no_types, lifting) image_eqI)
  qed
qed

section \<open>Properties\<close>

text \<open>A listing that returns has no path twice.\<close>

lemma listLoop_inv:
  "listLoop fuel te ws opts ls s = (Return ls', s') \<Longrightarrow> list_inv te opts ls \<Longrightarrow> list_inv te opts ls'"
proof (induction fuel arbitrary: ls s)
  case 0
  then show ?case
    by (subst (asm) listLoop.simps) (auto simp: act_return_def act_diverge_def split: list.splits)
next
  case (Suc n)
  show ?case
  proof (cases "ls_directories ls")
    case Nil
    with Suc.prems show ?thesis by (subst (asm) listLoop.simps) (auto simp: act_return_def)
  next
    case (Cons d rest)
    with Suc.prems(1) obtain es ls1 s1 where
      ls1: "listEntries te opts es (ls\<lparr>ls_directories := rest\<rparr>) = Inr ls1" "listLoop n te ws opts ls1 s1 = (Return ls', s')"
      by (subst (asm) (2) listLoop.simps)
        (auto simp: act_bind_def act_of_def act_return_def act_throw_def split: prod.splits outcome.splits sum.splits)
    have "list_inv te opts (ls\<lparr>ls_directories := rest\<rparr>)"
      using Suc.prems(2) by (auto simp: list_inv_def Cons)
    with listEntries_inv [OF ls1(1)] Suc.IH [OF ls1(2)] show ?thesis by blast
  qed
qed

lemma listWith_distinct:
  assumes "listWith te ws opts s = (Return es, s')"
  shows "distinct (List.map we_path es)"
proof -
  obtain ls where "listLoop (so_maxEntries opts + 1) te ws opts
      \<lparr>ls_directories = [[]], ls_entries = [], ls_seen = [], ls_count = 0\<rparr> s = (Return ls, s')"
    and es: "es = sort_by (\<lambda>a b. te_le te (we_path a) (we_path b)) (ls_entries ls)"
    using assms by (auto simp: listWith_def act_bind_def act_return_def act_throw_def Let_def
        split: prod.splits outcome.splits if_splits)
  from listLoop_inv [OF this(1)] have "distinct (List.map (\<lambda>e. te_lower te (we_path e)) (ls_entries ls))"
    by (simp add: list_inv_def)
  then have "distinct (List.map (te_lower te) (List.map we_path (ls_entries ls)))" by (simp add: comp_def)
  then have "distinct (List.map we_path (ls_entries ls))" using distinct_map by blast
  then show ?thesis by (simp add: es)
qed

lemma scanMarkdown_listed:
  assumes "scanMarkdown te sched ws supplied s = (Return res, s')"
  obtains opts es s1 where "boundedOptions supplied = Inr opts" "listMarkdown te ws supplied s = (Return es, s1)"
  using assms
  by (cases "boundedOptions supplied")
    (auto simp: scanMarkdown_def listMarkdown_def act_bind_def act_return_def act_throw_def
      split: prod.splits outcome.splits)

text \<open>
  C28. A scan that returns has read exactly the regular files below the folder whose path the Markdown policy
  admits, each with its bytes, each once (no path occurs twice), and changed nothing, whatever the order
  of its reads. The folder is tidy (what a listing sees has portable names, is no link and no secret-shaped
  directory; nothing is asked of what lies in excluded directories) and the admitted files are
  within the adapter's ceiling.
\<close>

theorem folder_scan_exact:
  assumes "tidy nf w" and "small_notes nf w"
    and "scanMarkdown te sched (NodeFolderFiles nf) supplied w = (Return res, w')"
  shows "w' = w \<and> distinct (List.map mf_path (sr_files res)) \<and>
    (\<lambda>f. (mf_path f, mf_contents f)) ` set (sr_files res) =
    {(slashed r, bs) | r bs. r \<noteq> [] \<and> (\<exists>m. map_of (fw_tree w) (nf_root nf @ r) = Some (FsFile bs m)) \<and>
       \<not> shouldExclude (slashed r) KFile}"
proof -
  from scanMarkdown_listed [OF assms(3)] obtain opts es w1 where
    bounds: "boundedOptions supplied = Inr opts" and
    listed: "listMarkdown te (NodeFolderFiles nf) supplied w = (Return es, w1)" .
  note tree = tidy_markdown_tree [OF assms(1,2)]
  note result = markdown_tree.scanMarkdown_result [OF tree bounds listed, of sched]
  have within: "scan_within opts (disk_content nf w) es"
    using result(2) assms(3) by auto
  with result(1) assms(3) have w': "w' = w" and files: "sr_files res = List.map (file_of (disk_content nf w)) es"
    by auto
  have listed': "listWith te (NodeFolderFiles nf) opts w = (Return es, w1)"
    using listed bounds by (simp add: listMarkdown_def)
  from listing_tree.listWith_tree [OF markdown_tree.axioms(1) [OF tree] this]
  have es: "set es = {entry_at nf w r | r. r \<noteq> [] \<and>
      (\<exists>bs m. map_of (fw_tree w) (nf_root nf @ r) = Some (FsFile bs m)) \<and> \<not> shouldExclude (slashed r) KFile}"
    using tidy_files [OF assms(1)] by blast
  have "distinct (List.map we_path es)"
    by (rule listWith_distinct [OF listed'])
  then have once: "distinct (List.map mf_path (sr_files res))"
    by (simp add: files file_of_def comp_def)
  have "(\<lambda>f. (mf_path f, mf_contents f)) ` set (sr_files res) =
      (\<lambda>e. (we_path e, disk_content nf w (we_path e))) ` set es"
    by (simp add: files file_of_def image_image)
  also note tidy_contents [OF assms(1,2), folded es]
  finally show ?thesis using w' once by simp
qed

lemma real_dir_code [code]:
  "real_dir t q = list_all (\<lambda>i. case map_of t (take (Suc i) q) of Some n \<Rightarrow> is_dir n | None \<Rightarrow> False) [0..<length q]"
proof -
  have "(\<exists>m. x = Some (FsDir m)) = (case x of Some n \<Rightarrow> is_dir n | None \<Rightarrow> False)" for x
    by (auto simp: is_dir_def split: option.splits fs_node.splits)
  then show ?thesis by (auto simp: real_dir_def list_all_iff)
qed

text \<open>A small folder for the witnesses.\<close>

definition sample_folder :: folder_files where
  "sample_folder = \<lparr>nf_root = [lit ''v''], nf_maxFileBytes = 4, nf_text = ascii_env, nf_uuid = (\<lambda>_. lit ''u'')\<rparr>"

definition sample_disk :: folder_world where
  "sample_disk = \<lparr>fw_tree = [([lit ''v''], FsDir (Fin 0)), ([lit ''v'', lit ''a.md''], FsFile [104, 105] (Fin 0))],
     fw_docs = [], fw_faults = [], fw_credential = None, fw_uuids = 0\<rparr>"

lemma sample_tidy: "tidy sample_folder sample_disk"
  by code_simp

lemma sample_small: "small_notes sample_folder sample_disk"
  by code_simp

interpretation sample_files: markdown_tree "NodeFolderFiles sample_folder" sample_disk
  "disk_tree sample_folder sample_disk" "disk_content sample_folder sample_disk"
  by (rule tidy_markdown_tree [OF sample_tidy sample_small])

definition sample_note :: workspace_entry where
  "sample_note = \<lparr>we_path = lit ''a.md'', we_kind = KFile, we_size = Some 2, we_mtimeMs = Some (Fin 0)\<rparr>"

lemma sample_folder_listing:
  "listMarkdown ascii_env (NodeFolderFiles sample_folder) sample_supplied sample_disk =
     (Return [sample_note], sample_disk)"
proof -
  have "fst (listWith ascii_env (NodeFolderFiles sample_folder) sample_bounds sample_disk) = Return [sample_note]"
    by code_simp
  then obtain w' where es: "listWith ascii_env (NodeFolderFiles sample_folder) sample_bounds sample_disk =
      (Return [sample_note], w')"
    by (metis prod.collapse)
  with sample_files.listWith_tree [OF es] show ?thesis
    by (simp add: listMarkdown_def sample_bounded)
qed

lemma sample_folder_within: "scan_within sample_bounds (disk_content sample_folder sample_disk) [sample_note]"
proof -
  have "\<not> shouldExclude (slashed [lit ''a.md'']) KFile" by code_simp
  then have "files_read sample_folder (slashed [lit ''a.md'']) sample_disk = (Return [104, 105], sample_disk)"
    by (intro tidy_read [OF sample_tidy, where m = "Fin 0"])
      (simp_all add: sample_folder_def sample_disk_def)
  then have "files_read sample_folder (we_path sample_note) sample_disk = (Return [104, 105], sample_disk)"
    by (simp add: sample_note_def)
  then have "disk_content sample_folder sample_disk (we_path sample_note) = [104, 105]"
    by (auto simp: disk_content_def split: prod.splits)
  then show ?thesis
    by (simp add: scan_within_def listed_ok_def sample_note_def sample_bounds_def)
qed

theorem folder_scan_exact_witness:
  "\<exists>res. scanMarkdown ascii_env (\<lambda>i. i) (NodeFolderFiles sample_folder) sample_supplied sample_disk = (Return res, sample_disk) \<and>
    distinct (List.map mf_path (sr_files res)) \<and>
    (\<lambda>f. (mf_path f, mf_contents f)) ` set (sr_files res) =
    {(slashed r, bs) | r bs. r \<noteq> [] \<and>
       (\<exists>m. map_of (fw_tree sample_disk) (nf_root sample_folder @ r) = Some (FsFile bs m)) \<and>
       \<not> shouldExclude (slashed r) KFile}"
proof -
  note run = sample_files.scanMarkdown_result(1) [OF sample_bounded sample_folder_listing sample_folder_within,
      of "\<lambda>i. i"]
  show ?thesis
    by (intro exI, rule conjI [OF run], rule conjunct2 [OF folder_scan_exact [OF sample_tidy sample_small run]])
qed

end
