(* ===== verification/FileMeta.thy ===== *)
theory FileMeta
  imports JsValue "HOL-Library.AList" "HOL-Library.Multiset"
begin

text \<open>
  File metadata, \<open>packages/yaos-core/src/fileMeta.ts\<close>: entries in the flat (version 2) and the nested
  (version 3) shape, their readers and writers, and the two ways of computing what changed between
  two states of the metadata map. A CRDT map is the list of its keys and values in the order
  \<open>forEach\<close> visits them; a \<open>Map\<close> is the list of its entries in insertion order. The clock's answer
  is the argument \<open>now\<close>.
\<close>

section \<open>Entries\<close>

datatype file_meta_shape = FlatShape | NestedShape

record decoded_meta =
  dm_shape :: file_meta_shape
  dm_path :: jsstr
  dm_deletedAt :: "rat option"
  dm_deleted :: bool
  dm_mtime :: "rat option"
  dm_device :: "jsstr option"

type_synonym meta_map = "(jsstr \<times> js_value) list"
type_synonym meta_snapshot = "(jsstr \<times> decoded_meta) list"

definition meta_get :: "meta_map \<Rightarrow> jsstr \<Rightarrow> js_value" where
  "meta_get m fileId = (case map_of m fileId of Some v \<Rightarrow> v | None \<Rightarrow> JUndefined)"

definition ymap_get :: "(string \<times> js_value) list \<Rightarrow> string \<Rightarrow> js_value" where
  "ymap_get ps k = (case map_of ps k of Some v \<Rightarrow> v | None \<Rightarrow> JUndefined)"

definition isNestedFileMeta :: "js_value \<Rightarrow> bool" where
  "isNestedFileMeta v = (case v of JYMap _ \<Rightarrow> True | _ \<Rightarrow> False)"

definition isObjectRecord :: "js_value \<Rightarrow> bool" where
  "isObjectRecord v \<longleftrightarrow> is_object_value v \<and> \<not> isNestedFileMeta v"

text \<open>The two branches of every reader: how the fields of a value are read, if it has any.\<close>

definition meta_fields :: "js_value \<Rightarrow> (file_meta_shape \<times> (string \<Rightarrow> js_value)) option" where
  "meta_fields v = (case v of
     JYMap ps \<Rightarrow> Some (NestedShape, ymap_get ps)
   | _ \<Rightarrow> if isObjectRecord v then Some (FlatShape, js_prop v) else None)"

definition path_value :: "js_value \<Rightarrow> jsstr option" where
  "path_value v = (case v of JStr s \<Rightarrow> if s = [] then None else Some s | _ \<Rightarrow> None)"

definition finite_value :: "js_value \<Rightarrow> rat option" where
  "finite_value v = (case v of JNum (Fin q) \<Rightarrow> Some q | _ \<Rightarrow> None)"

definition text_value :: "js_value \<Rightarrow> jsstr option" where
  "text_value v = (case v of JStr s \<Rightarrow> Some s | _ \<Rightarrow> None)"

definition decode_fields :: "file_meta_shape \<Rightarrow> (string \<Rightarrow> js_value) \<Rightarrow> decoded_meta option" where
  "decode_fields shape get = (case path_value (get ''path'') of
     None \<Rightarrow> None
   | Some path \<Rightarrow> Some \<lparr>dm_shape = shape, dm_path = path, dm_deletedAt = finite_value (get ''deletedAt''),
       dm_deleted = (get ''deleted'' = JBool True), dm_mtime = finite_value (get ''mtime''),
       dm_device = text_value (get ''device'')\<rparr>)"

definition decodeFileMeta :: "js_value \<Rightarrow> decoded_meta option" where
  "decodeFileMeta v = (case meta_fields v of
     None \<Rightarrow> None | Some (shape, get) \<Rightarrow> decode_fields shape get)"

section \<open>Readers\<close>

definition getMetaPath :: "js_value \<Rightarrow> jsstr option" where
  "getMetaPath v = (case meta_fields v of None \<Rightarrow> None | Some (_, get) \<Rightarrow> path_value (get ''path''))"

definition getMetaMtime :: "js_value \<Rightarrow> rat option" where
  "getMetaMtime v = (case meta_fields v of None \<Rightarrow> None | Some (_, get) \<Rightarrow> finite_value (get ''mtime''))"

definition getMetaDevice :: "js_value \<Rightarrow> jsstr option" where
  "getMetaDevice v = (case meta_fields v of None \<Rightarrow> None | Some (_, get) \<Rightarrow> text_value (get ''device''))"

definition getMetaDeletedAt :: "js_value \<Rightarrow> rat option" where
  "getMetaDeletedAt v =
     (case meta_fields v of None \<Rightarrow> None | Some (_, get) \<Rightarrow> finite_value (get ''deletedAt''))"

definition isFileMetaDeletedValue :: "js_value \<Rightarrow> bool" where
  "isFileMetaDeletedValue v = (case meta_fields v of
     None \<Rightarrow> False
   | Some (_, get) \<Rightarrow> if finite_value (get ''deletedAt'') \<noteq> None then True else get ''deleted'' = JBool True)"

section \<open>Writers\<close>

definition createNestedActiveMeta :: "jsstr \<Rightarrow> js_num \<Rightarrow> jsstr option \<Rightarrow> js_value" where
  "createNestedActiveMeta path mtime device = JYMap
     ([(''path'', JStr path), (''mtime'', JNum mtime)] @
      (case device of Some d \<Rightarrow> if d = [] then [] else [(''device'', JStr d)] | None \<Rightarrow> []))"

definition createNestedDeletedMeta :: "jsstr \<Rightarrow> js_num \<Rightarrow> js_value" where
  "createNestedDeletedMeta path deletedAt = JYMap [(''path'', JStr path), (''deletedAt'', JNum deletedAt)]"

text \<open>\<open>deleted === true || typeof deletedAt === "number"\<close>.\<close>

definition is_tombstone :: "decoded_meta \<Rightarrow> bool" where
  "is_tombstone d \<longleftrightarrow> dm_deleted d \<or> dm_deletedAt d \<noteq> None"

text \<open>\<open>deletedAt ?? Date.now()\<close>.\<close>

definition deleted_time :: "rat \<Rightarrow> decoded_meta \<Rightarrow> rat" where
  "deleted_time now d = (case dm_deletedAt d of Some t \<Rightarrow> t | None \<Rightarrow> now)"

definition createNestedMetaFromDecoded :: "rat \<Rightarrow> decoded_meta \<Rightarrow> js_value" where
  "createNestedMetaFromDecoded now d = JYMap ((''path'', JStr (dm_path d)) #
     (if is_tombstone d then [(''deletedAt'', JNum (Fin (deleted_time now d)))]
      else (case dm_mtime d of Some t \<Rightarrow> [(''mtime'', JNum (Fin t))] | None \<Rightarrow> []) @
           (case dm_device d of Some s \<Rightarrow> [(''device'', JStr s)] | None \<Rightarrow> [])))"

text \<open>The entry that is returned, and the map with it in place.\<close>

definition ensureNestedMetaEntry ::
  "rat \<Rightarrow> meta_map \<Rightarrow> jsstr \<Rightarrow> decoded_meta option \<Rightarrow> js_value option \<times> meta_map" where
  "ensureNestedMetaEntry now m fileId fallback =
     (let existing = meta_get m fileId;
          convert = (\<lambda>d. let entry = createNestedMetaFromDecoded now d in (Some entry, AList.update fileId entry m)) in
      if isNestedFileMeta existing then (Some existing, m)
      else case decodeFileMeta existing of
        Some d \<Rightarrow> convert d
      | None \<Rightarrow> (case fallback of Some d \<Rightarrow> convert d | None \<Rightarrow> (None, m)))"

section \<open>What changed\<close>

datatype meta_change =
    Added jsstr decoded_meta
  | Removed jsstr decoded_meta
  | PathChanged jsstr jsstr jsstr bool bool
  | Deleted jsstr jsstr rat
  | Revived jsstr jsstr
  | MtimeChanged jsstr jsstr
  | DeviceChanged jsstr jsstr
  | InvalidMeta jsstr

text \<open>The comparison of an entry with what it was, up to the first difference.\<close>

definition entry_changes :: "rat \<Rightarrow> jsstr \<Rightarrow> decoded_meta \<Rightarrow> decoded_meta \<Rightarrow> meta_change list" where
  "entry_changes now fileId prev cur =
     (if is_tombstone prev \<and> \<not> is_tombstone cur then [Revived fileId (dm_path cur)]
      else if \<not> is_tombstone prev \<and> is_tombstone cur
        then [Deleted fileId (dm_path cur) (deleted_time now cur)]
      else if dm_path prev \<noteq> dm_path cur
        then [PathChanged fileId (dm_path prev) (dm_path cur) (is_tombstone prev) (is_tombstone cur)]
      else if dm_mtime prev \<noteq> dm_mtime cur then [MtimeChanged fileId (dm_path cur)]
      else if dm_device prev \<noteq> dm_device cur then [DeviceChanged fileId (dm_path cur)]
      else [])"

definition computeMetaSemanticChanges :: "rat \<Rightarrow> meta_snapshot \<Rightarrow> meta_snapshot \<Rightarrow> meta_change list" where
  "computeMetaSemanticChanges now previous current =
     concat (List.map (\<lambda>(fileId, prev). if map_of current fileId = None then [Removed fileId prev] else []) previous) @
     concat (List.map (\<lambda>(fileId, cur). case map_of previous fileId of
         None \<Rightarrow> [Added fileId cur] | Some prev \<Rightarrow> entry_changes now fileId prev cur) current)"

definition buildMetaSnapshot :: "meta_map \<Rightarrow> meta_snapshot" where
  "buildMetaSnapshot m = fold (\<lambda>(fileId, v) snapshot. case decodeFileMeta v of
     Some d \<Rightarrow> AList.update fileId d snapshot | None \<Rightarrow> snapshot) m []"

text \<open>A deep-observe event: on the metadata map itself, with the keys it changed, or below it, with
  the path from the map to its target.\<close>

datatype path_element = PathKey jsstr | PathIndex nat

datatype meta_event = TopEvent "jsstr list" | NestedEvent "path_element list"

fun affected_loop :: "meta_event list \<Rightarrow> jsstr list \<Rightarrow> jsstr list option" where
  "affected_loop [] affected = Some affected"
| "affected_loop (TopEvent ks # events) affected = affected_loop events (fold set_add ks affected)"
| "affected_loop (NestedEvent path # events) affected =
     (case path of PathKey fileId # _ \<Rightarrow> affected_loop events (set_add fileId affected) | _ \<Rightarrow> None)"

definition extractAffectedFileIds :: "meta_event list \<Rightarrow> jsstr list option" where
  "extractAffectedFileIds events = affected_loop events []"

text \<open>The loop over the affected entries, with the changes of each and the snapshot after it.\<close>

definition incremental_step ::
  "rat \<Rightarrow> meta_map \<Rightarrow> jsstr \<Rightarrow> meta_snapshot \<Rightarrow> meta_change list \<times> meta_snapshot" where
  "incremental_step now m fileId snapshot =
     (case decodeFileMeta (meta_get m fileId) of
        None \<Rightarrow> (case map_of snapshot fileId of
            Some prev \<Rightarrow> ([Removed fileId prev], AList.delete fileId snapshot)
          | None \<Rightarrow> ([InvalidMeta fileId], snapshot))
      | Some cur \<Rightarrow> ((case map_of snapshot fileId of
            None \<Rightarrow> [Added fileId cur] | Some prev \<Rightarrow> entry_changes now fileId prev cur),
          AList.update fileId cur snapshot))"

fun incremental_loop ::
  "rat \<Rightarrow> meta_map \<Rightarrow> jsstr list \<Rightarrow> meta_snapshot \<Rightarrow> meta_change list \<times> meta_snapshot" where
  "incremental_loop now m [] snapshot = ([], snapshot)"
| "incremental_loop now m (fileId # rest) snapshot =
     (let (changes, snapshot') = incremental_step now m fileId snapshot;
          (changes', snapshot'') = incremental_loop now m rest snapshot'
      in (changes @ changes', snapshot''))"

definition computeIncrementalMetaChanges ::
  "rat \<Rightarrow> meta_snapshot \<Rightarrow> meta_map \<Rightarrow> jsstr list \<Rightarrow> meta_change list \<times> meta_snapshot" where
  "computeIncrementalMetaChanges now snapshot m affected = incremental_loop now m affected snapshot"

section \<open>Statistics\<close>

record meta_shape_stats =
  ms_schemaVersion :: "js_num option"
  ms_flat :: nat
  ms_nested :: nat
  ms_invalid :: nat
  ms_active :: nat
  ms_tombstone :: nat
  ms_total :: nat

definition stats_step :: "js_value \<Rightarrow> meta_shape_stats \<Rightarrow> meta_shape_stats" where
  "stats_step v st = (case decodeFileMeta v of
     None \<Rightarrow> st\<lparr>ms_invalid := ms_invalid st + 1\<rparr>
   | Some d \<Rightarrow>
       (let st = (if dm_shape d = NestedShape then st\<lparr>ms_nested := ms_nested st + 1\<rparr>
                  else st\<lparr>ms_flat := ms_flat st + 1\<rparr>) in
        if is_tombstone d then st\<lparr>ms_tombstone := ms_tombstone st + 1\<rparr>
        else st\<lparr>ms_active := ms_active st + 1\<rparr>))"

definition computeMetaShapeStats :: "meta_map \<Rightarrow> js_num option \<Rightarrow> meta_shape_stats" where
  "computeMetaShapeStats m schemaVersion =
     (let st = fold (\<lambda>(_, v). stats_step v) m
          \<lparr>ms_schemaVersion = schemaVersion, ms_flat = 0, ms_nested = 0, ms_invalid = 0, ms_active = 0,
           ms_tombstone = 0, ms_total = 0\<rparr>
      in st\<lparr>ms_total := ms_flat st + ms_nested st + ms_invalid st\<rparr>)"

end
