(* ===== verification/FileMetaProps.thy ===== *)
theory FileMetaProps
  imports FileMeta
begin

text \<open>
  The properties of the file metadata: the incremental computation of changes against the full one,
  which differences between two states can go unreported, the conversion of entries from the
  flat to the nested shape, the readers against the decoder, and the statistics.
\<close>

section \<open>Snapshots\<close>

lemma decode_undefined [simp]: "decodeFileMeta JUndefined = None"
  by (simp add: decodeFileMeta_def meta_fields_def isObjectRecord_def)

lemma meta_get_unset: "map_of m f = None \<Longrightarrow> decodeFileMeta (meta_get m f) = None"
  by (simp add: meta_get_def)

lemma key_iff: "f \<in> fst ` set ps \<longleftrightarrow> map_of ps f \<noteq> None"
  by (simp add: map_of_eq_None_iff)

lemma snapshot_fold:
  assumes "distinct (List.map fst m)" and "fst ` set m \<inter> fst ` set acc = {}" and "distinct (List.map fst acc)"
  shows "distinct (List.map fst (fold (\<lambda>(fileId, v) snapshot. case decodeFileMeta v of
       Some d \<Rightarrow> AList.update fileId d snapshot | None \<Rightarrow> snapshot) m acc)) \<and>
     map_of (fold (\<lambda>(fileId, v) snapshot. case decodeFileMeta v of
       Some d \<Rightarrow> AList.update fileId d snapshot | None \<Rightarrow> snapshot) m acc) f =
     (case map_of acc f of Some d \<Rightarrow> Some d | None \<Rightarrow> decodeFileMeta (meta_get m f))"
  using assms
proof (induction m arbitrary: acc)
  case Nil
  then show ?case by (simp add: meta_get_unset split: option.split)
next
  case (Cons p m)
  obtain k v where p: "p = (k, v)" by (cases p)
  from Cons.prems(2) p have new: "map_of acc k = None" by (simp add: map_of_eq_None_iff)
  from Cons.prems(1) p have once: "map_of m k = None" by (simp add: map_of_eq_None_iff)
  show ?case
  proof (cases "decodeFileMeta v")
    case None
    with Cons.IH [of acc] Cons.prems p new show ?thesis
      by (auto simp: meta_get_def once meta_get_unset split: option.split)
  next
    case (Some d)
    have keys: "fst ` set (AList.update k d acc) = insert k (fst ` set acc)"
      by (simp add: dom_map_of_conv_image_fst [symmetric] update_conv')
    have "fst ` set m \<inter> fst ` set (AList.update k d acc) = {}"
      using Cons.prems(1,2) p by (auto simp: keys)
    from Cons.IH [OF _ this] Cons.prems(1,3) have
      "distinct (List.map fst (fold (\<lambda>(fileId, v) snapshot. case decodeFileMeta v of
         Some d \<Rightarrow> AList.update fileId d snapshot | None \<Rightarrow> snapshot) m (AList.update k d acc)))"
      "map_of (fold (\<lambda>(fileId, v) snapshot. case decodeFileMeta v of
         Some d \<Rightarrow> AList.update fileId d snapshot | None \<Rightarrow> snapshot) m (AList.update k d acc)) f =
       (case map_of (AList.update k d acc) f of Some d \<Rightarrow> Some d | None \<Rightarrow> decodeFileMeta (meta_get m f))"
      by (simp_all add: distinct_update)
    with Some p new show ?thesis
      by (auto simp: update_conv' meta_get_def split: option.split)
  qed
qed

lemma buildMetaSnapshot_lookup:
  assumes "distinct (List.map fst m)"
  shows "distinct (List.map fst (buildMetaSnapshot m))"
    and "map_of (buildMetaSnapshot m) f = decodeFileMeta (meta_get m f)"
  using snapshot_fold [OF assms, of "[]" f] by (simp_all add: buildMetaSnapshot_def)

section \<open>The two computations of changes\<close>

text \<open>The changes of one entry, given what it was and what it is.\<close>

fun changes_of :: "rat \<Rightarrow> jsstr \<Rightarrow> decoded_meta option \<Rightarrow> decoded_meta option \<Rightarrow> meta_change list" where
  "changes_of now f (Some prev) None = [Removed f prev]"
| "changes_of now f None (Some cur) = [Added f cur]"
| "changes_of now f (Some prev) (Some cur) = entry_changes now f prev cur"
| "changes_of now f None None = []"

lemma changes_of_same [simp]: "changes_of now f d d = []"
  by (cases d) (simp_all add: entry_changes_def)

fun is_invalid :: "meta_change \<Rightarrow> bool" where
  "is_invalid (InvalidMeta _) = True"
| "is_invalid _ = False"

lemma entry_changes_valid [simp]:
  "filter (\<lambda>c. \<not> is_invalid c) (entry_changes now f p c) = entry_changes now f p c"
  "filter is_invalid (entry_changes now f p c) = []"
  by (simp_all add: entry_changes_def)

lemma changes_of_valid [simp]: "filter (\<lambda>c. \<not> is_invalid c) (changes_of now f p c) = changes_of now f p c"
  "filter is_invalid (changes_of now f p c) = []"
  by (cases p; cases c; simp)+

lemma mset_concat_map: "mset (concat (List.map g xs)) = sum_list (List.map (\<lambda>x. mset (g x)) xs)"
  by (induction xs) simp_all

lemma sum_keys:
  assumes "distinct (List.map fst ps)"
  shows "sum_list (List.map (\<lambda>(k, v). g k v) ps) =
    (\<Sum>k \<in> fst ` set ps. g k (the (map_of ps k)) :: 'a :: comm_monoid_add)"
  using assms
proof (induction ps)
  case Nil
  then show ?case by simp
next
  case (Cons p ps)
  obtain k v where p: "p = (k, v)" by (cases p)
  have "(\<Sum>j \<in> fst ` set ps. g j (the (map_of ((k, v) # ps) j))) = (\<Sum>j \<in> fst ` set ps. g j (the (map_of ps j)))"
    by (rule sum.cong) (use Cons.prems p in auto)
  with Cons p show ?case by simp
qed

lemma full_diff_sum:
  assumes "distinct (List.map fst previous)" and "distinct (List.map fst current)"
    and "finite K" and "fst ` set previous \<union> fst ` set current \<subseteq> K"
  shows "mset (computeMetaSemanticChanges now previous current) =
    (\<Sum>f \<in> K. mset (changes_of now f (map_of previous f) (map_of current f)))"
proof -
  let ?P = "fst ` set previous" and ?C = "fst ` set current"
  let ?removed = "\<lambda>f. if map_of current f = None then mset [Removed f (the (map_of previous f))] else {#}"
  let ?now = "\<lambda>f. mset (case map_of previous f of None \<Rightarrow> [Added f (the (map_of current f))]
      | Some prev \<Rightarrow> entry_changes now f prev (the (map_of current f)))"
  have split_removed: "mset (concat (List.map (\<lambda>(f, prev). if map_of current f = None then [Removed f prev] else []) previous)) =
      (\<Sum>f \<in> ?P. ?removed f)"
    using sum_keys [OF assms(1), of "\<lambda>f prev. mset (if map_of current f = None then [Removed f prev] else [])"]
    by (simp add: mset_concat_map case_prod_beta' if_distrib cong: if_cong)
  have split_now: "mset (concat (List.map (\<lambda>(f, cur). case map_of previous f of None \<Rightarrow> [Added f cur]
      | Some prev \<Rightarrow> entry_changes now f prev cur) current)) = (\<Sum>f \<in> ?C. ?now f)"
    using sum_keys [OF assms(2), of "\<lambda>f cur. mset (case map_of previous f of None \<Rightarrow> [Added f cur]
      | Some prev \<Rightarrow> entry_changes now f prev cur)"]
    by (simp add: mset_concat_map case_prod_beta')
  have P: "(\<Sum>f \<in> ?P. ?removed f) = (\<Sum>f \<in> K. if f \<in> ?P then ?removed f else {#})"
    using assms(3,4) by (simp add: sum.inter_restrict [symmetric] Int_absorb1)
  have C: "(\<Sum>f \<in> ?C. ?now f) = (\<Sum>f \<in> K. if f \<in> ?C then ?now f else {#})"
    using assms(3,4) by (simp add: sum.inter_restrict [symmetric] Int_absorb1)
  have "mset (changes_of now f (map_of previous f) (map_of current f)) =
      (if f \<in> ?P then ?removed f else {#}) + (if f \<in> ?C then ?now f else {#})" for f
    by (cases "map_of previous f"; cases "map_of current f") (simp_all add: key_iff)
  then show ?thesis
    unfolding computeMetaSemanticChanges_def mset_append split_removed split_now P C
    by (simp add: sum.distrib)
qed

text \<open>The incremental loop, entry by entry.\<close>

lemma incremental_step_lookup:
  "map_of (snd (incremental_step now m f snapshot)) g =
     (if g = f then decodeFileMeta (meta_get m f) else map_of snapshot g)"
  by (simp add: incremental_step_def update_conv' delete_conv' split: option.split)

lemma incremental_step_changes:
  "filter (\<lambda>c. \<not> is_invalid c) (fst (incremental_step now m f snapshot)) =
     changes_of now f (map_of snapshot f) (decodeFileMeta (meta_get m f))"
  "filter is_invalid (fst (incremental_step now m f snapshot)) =
     (if map_of snapshot f = None \<and> decodeFileMeta (meta_get m f) = None then [InvalidMeta f] else [])"
  using changes_of_valid [of now f "map_of snapshot f" "decodeFileMeta (meta_get m f)"]
  by (auto simp: incremental_step_def split: option.split)

lemma incremental_loop_result:
  assumes "distinct affected"
  shows "filter (\<lambda>c. \<not> is_invalid c) (fst (incremental_loop now m affected snapshot)) =
      concat (List.map (\<lambda>f. changes_of now f (map_of snapshot f) (decodeFileMeta (meta_get m f))) affected) \<and>
    filter is_invalid (fst (incremental_loop now m affected snapshot)) =
      List.map InvalidMeta (filter (\<lambda>f. map_of snapshot f = None \<and> decodeFileMeta (meta_get m f) = None) affected) \<and>
    map_of (snd (incremental_loop now m affected snapshot)) =
      (\<lambda>g. if g \<in> set affected then decodeFileMeta (meta_get m g) else map_of snapshot g)"
  using assms
proof (induction affected arbitrary: snapshot)
  case Nil
  then show ?case by simp
next
  case (Cons f fs)
  let ?s = "snd (incremental_step now m f snapshot)"
  have loop: "fst (incremental_loop now m (f # fs) snapshot) =
      fst (incremental_step now m f snapshot) @ fst (incremental_loop now m fs ?s)"
    "snd (incremental_loop now m (f # fs) snapshot) = snd (incremental_loop now m fs ?s)"
    by (simp_all split: prod.split)
  from Cons.prems have "f \<notin> set fs" "distinct fs" by simp_all
  then have others: "map_of ?s g = map_of snapshot g" if "g \<in> set fs" for g
    using that by (auto simp: incremental_step_lookup)
  then have cong: "List.map (\<lambda>g. h g (map_of ?s g)) fs = List.map (\<lambda>g. h g (map_of snapshot g)) fs"
    "filter (\<lambda>g. map_of ?s g = None \<and> b g) fs = filter (\<lambda>g. map_of snapshot g = None \<and> b g) fs"
    for h :: "jsstr \<Rightarrow> decoded_meta option \<Rightarrow> meta_change list" and b
    by (auto cong: filter_cong)
  note ih = Cons.IH [OF \<open>distinct fs\<close>, of ?s]
  have "map_of (snd (incremental_loop now m (f # fs) snapshot)) =
      (\<lambda>g. if g \<in> set (f # fs) then decodeFileMeta (meta_get m g) else map_of snapshot g)"
    using ih \<open>f \<notin> set fs\<close> unfolding loop(2) by (auto simp: fun_eq_iff incremental_step_lookup)
  moreover have "filter (\<lambda>c. \<not> is_invalid c) (fst (incremental_loop now m (f # fs) snapshot)) =
      concat (List.map (\<lambda>f. changes_of now f (map_of snapshot f) (decodeFileMeta (meta_get m f))) (f # fs))"
    using ih cong(1) [of "\<lambda>g p. changes_of now g p (decodeFileMeta (meta_get m g))"]
    unfolding loop(1) by (simp add: incremental_step_changes(1))
  moreover have "filter is_invalid (fst (incremental_loop now m (f # fs) snapshot)) =
      List.map InvalidMeta (filter (\<lambda>f. map_of snapshot f = None \<and> decodeFileMeta (meta_get m f) = None) (f # fs))"
    using ih cong(2) [of "\<lambda>g. decodeFileMeta (meta_get m g) = None"]
    unfolding loop(1) by (simp add: incremental_step_changes(2))
  ultimately show ?case by blast
qed

text \<open>The affected entries are those the events name.\<close>

definition names_entry :: "jsstr \<Rightarrow> meta_event \<Rightarrow> bool" where
  "names_entry f e = (case e of TopEvent ks \<Rightarrow> f \<in> set ks
     | NestedEvent path \<Rightarrow> (case path of PathKey g # _ \<Rightarrow> f = g | _ \<Rightarrow> False))"

lemma affected_loop_set:
  "affected_loop events xs = Some affected \<Longrightarrow> distinct xs \<Longrightarrow>
     distinct affected \<and> (\<forall>f. f \<in> set affected \<longleftrightarrow> f \<in> set xs \<or> (\<exists>e \<in> set events. names_entry f e))"
proof (induction events xs rule: affected_loop.induct)
  case (2 ks events xs)
  then show ?case by (auto simp: names_entry_def set_set_add distinct_set_add)
next
  case (3 path events xs)
  then show ?case
    using distinct_set_add [of xs "[_]"] set_set_add [of "[_]" xs]
    by (auto simp: names_entry_def split: list.splits path_element.splits)
qed simp

text \<open>
  C33. The incremental observer reports what a full comparison would. If every entry whose stored value
  differs between two states of the metadata map is named by one of the events, the incremental computation over
  the entries the events name, from the snapshot of the first state, yields the changes that the
  full comparison of the two snapshots yields, each as often, beside one \<open>invalid\<close> for every named entry
  that is readable in neither state, and leaves the snapshot of the second state.
\<close>

theorem incremental_is_full_diff:
  assumes "distinct (List.map fst before)" and "distinct (List.map fst now_map)"
    and "extractAffectedFileIds events = Some affected"
    and "\<And>f. map_of before f \<noteq> map_of now_map f \<Longrightarrow>
       (\<exists>ks. TopEvent ks \<in> set events \<and> f \<in> set ks) \<or> (\<exists>path. NestedEvent (PathKey f # path) \<in> set events)"
  shows "case computeIncrementalMetaChanges now (buildMetaSnapshot before) now_map affected of
     (changes, snapshot) \<Rightarrow>
       mset (filter (\<lambda>c. \<not> is_invalid c) changes) =
         mset (computeMetaSemanticChanges now (buildMetaSnapshot before) (buildMetaSnapshot now_map)) \<and>
       filter is_invalid changes = List.map InvalidMeta (filter (\<lambda>f.
         decodeFileMeta (meta_get before f) = None \<and> decodeFileMeta (meta_get now_map f) = None) affected) \<and>
       map_of snapshot = map_of (buildMetaSnapshot now_map)"
proof -
  let ?prev = "buildMetaSnapshot before" and ?cur = "buildMetaSnapshot now_map"
  note prev = buildMetaSnapshot_lookup [OF assms(1)] and cur = buildMetaSnapshot_lookup [OF assms(2)]
  from affected_loop_set [OF assms(3) [unfolded extractAffectedFileIds_def]]
  have dist: "distinct affected" and named: "\<And>f e. e \<in> set events \<Longrightarrow> names_entry f e \<Longrightarrow> f \<in> set affected"
    by auto
  have covered: "map_of before f = map_of now_map f" if "f \<notin> set affected" for f
    using assms(4) [of f] that named [of "TopEvent _" f] named [of "NestedEvent (PathKey f # _)" f]
    by (fastforce simp: names_entry_def)
  then have same: "decodeFileMeta (meta_get before f) = decodeFileMeta (meta_get now_map f)" if "f \<notin> set affected" for f
    using that by (simp add: meta_get_def)
  let ?g = "\<lambda>f. mset (changes_of now f (map_of ?prev f) (map_of ?cur f))"
  let ?K = "set affected \<union> fst ` set ?prev \<union> fst ` set ?cur"
  have "sum ?g (set affected) = sum ?g ?K"
    by (rule sum.mono_neutral_left) (auto simp: prev(2) cur(2) same)
  also have "\<dots> = mset (computeMetaSemanticChanges now ?prev ?cur)"
    by (rule full_diff_sum [symmetric]) (use prev(1) cur(1) in auto)
  finally have total: "mset (concat (List.map (\<lambda>f. changes_of now f (map_of ?prev f) (decodeFileMeta (meta_get now_map f))) affected)) =
      mset (computeMetaSemanticChanges now ?prev ?cur)"
    using dist by (simp add: mset_concat_map sum_list_distinct_conv_sum_set cur(2))
  from incremental_loop_result [OF dist, of now now_map ?prev] total same
  show ?thesis
    unfolding computeIncrementalMetaChanges_def
    by (simp add: case_prod_beta prev(2) cur(2) fun_eq_iff del: mset_filter)
qed

section \<open>What goes unreported\<close>

text \<open>
  C34. Nothing but the representation goes unreported: the full comparison of two snapshots is empty
  exactly when they have the same entries and each entry has the same path, modification time and
  device and is a tombstone in both or in neither.
\<close>

theorem no_silent_change:
  assumes "distinct (List.map fst previous)" and "distinct (List.map fst current)"
  shows "computeMetaSemanticChanges now previous current = [] \<longleftrightarrow>
    (\<forall>f. rel_option (\<lambda>p c. dm_path p = dm_path c \<and> dm_mtime p = dm_mtime c \<and> dm_device p = dm_device c \<and>
        is_tombstone p = is_tombstone c) (map_of previous f) (map_of current f))"
proof -
  let ?K = "fst ` set previous \<union> fst ` set current"
  have each: "changes_of now f p c = [] \<longleftrightarrow> rel_option (\<lambda>p c. dm_path p = dm_path c \<and> dm_mtime p = dm_mtime c \<and>
      dm_device p = dm_device c \<and> is_tombstone p = is_tombstone c) p c" for f p c
    by (cases p; cases c) (auto simp: entry_changes_def)
  have "computeMetaSemanticChanges now previous current = [] \<longleftrightarrow>
      (\<Sum>f \<in> ?K. mset (changes_of now f (map_of previous f) (map_of current f))) = {#}"
    by (subst full_diff_sum [OF assms, symmetric]) auto
  also have "\<dots> \<longleftrightarrow> (\<forall>f \<in> ?K. changes_of now f (map_of previous f) (map_of current f) = [])"
    by (subst sum_eq_empty_iff) auto
  also have "\<dots> \<longleftrightarrow> (\<forall>f. changes_of now f (map_of previous f) (map_of current f) = [])"
  proof -
    have "changes_of now f (map_of previous f) (map_of current f) = []" if "f \<notin> ?K" for f
      using that key_iff [of f previous] key_iff [of f current] by auto
    then show ?thesis by blast
  qed
  finally show ?thesis unfolding each .
qed

text \<open>The entry a change is about, and the paths it names.\<close>

fun change_id :: "meta_change \<Rightarrow> jsstr" where
  "change_id (Added f _) = f"
| "change_id (Removed f _) = f"
| "change_id (PathChanged f _ _ _ _) = f"
| "change_id (Deleted f _ _) = f"
| "change_id (Revived f _) = f"
| "change_id (MtimeChanged f _) = f"
| "change_id (DeviceChanged f _) = f"
| "change_id (InvalidMeta f) = f"

fun change_paths :: "meta_change \<Rightarrow> jsstr set" where
  "change_paths (Added _ d) = {dm_path d}"
| "change_paths (Removed _ d) = {dm_path d}"
| "change_paths (PathChanged _ old new _ _) = {old, new}"
| "change_paths (Deleted _ path _) = {path}"
| "change_paths (Revived _ path) = {path}"
| "change_paths (MtimeChanged _ path) = {path}"
| "change_paths (DeviceChanged _ path) = {path}"
| "change_paths (InvalidMeta _) = {}"

lemma changes_of_names:
  assumes "c \<in> set (changes_of now f p q)"
  shows "change_id c = f" and "change_paths c \<subseteq> dm_path ` (set_option p \<union> set_option q)"
  using assms by (cases p; cases q; auto simp: entry_changes_def split: if_splits)+

text \<open>What the full comparison reports of one entry depends on that entry alone.\<close>

lemma filter_mset_sum: "finite K \<Longrightarrow> filter_mset Q (\<Sum>x \<in> K. g x) = (\<Sum>x \<in> K. filter_mset Q (g x))"
  by (induction K rule: finite_induct) simp_all

lemma computeMetaSemanticChanges_set:
  assumes "distinct (List.map fst previous)" and "distinct (List.map fst current)"
  shows "set (computeMetaSemanticChanges now previous current) =
    (\<Union>f. set (changes_of now f (map_of previous f) (map_of current f)))"
proof -
  let ?K = "fst ` set previous \<union> fst ` set current"
  let ?g = "\<lambda>f. changes_of now f (map_of previous f) (map_of current f)"
  have "?g f = []" if "f \<notin> ?K" for f
    using that key_iff [of f previous] key_iff [of f current] by auto
  then have "(\<Union>f \<in> ?K. set (?g f)) = (\<Union>f. set (?g f))"
    by (fastforce elim: ssubst)
  moreover have "set_mset (\<Sum>f \<in> ?K. mset (?g f)) = (\<Union>f \<in> ?K. set (?g f))"
    by (simp add: set_mset_sum)
  ultimately show ?thesis
    using arg_cong [OF full_diff_sum [OF assms, of ?K now], of set_mset] by simp
qed

lemma computeMetaSemanticChanges_entry:
  assumes "distinct (List.map fst previous)" and "distinct (List.map fst current)"
  shows "filter_mset (\<lambda>c. change_id c = f) (mset (computeMetaSemanticChanges now previous current)) =
    mset (changes_of now f (map_of previous f) (map_of current f))"
proof -
  let ?K = "insert f (fst ` set previous \<union> fst ` set current)"
  let ?g = "\<lambda>f. changes_of now f (map_of previous f) (map_of current f)"
  have one: "filter (\<lambda>c. change_id c = f) (?g k) = (if k = f then ?g k else [])" for k
    using changes_of_names(1) [of _ now k "map_of previous k" "map_of current k"]
    by (auto simp: filter_empty_conv filter_id_conv)
  have "mset (computeMetaSemanticChanges now previous current) = (\<Sum>k \<in> ?K. mset (?g k))"
    by (rule full_diff_sum [OF assms]) auto
  then have "filter_mset (\<lambda>c. change_id c = f) (mset (computeMetaSemanticChanges now previous current)) =
      (\<Sum>k \<in> ?K. mset (filter (\<lambda>c. change_id c = f) (?g k)))"
    by (simp add: filter_mset_sum del: sum.insert sum.insert_remove)
  also have "\<dots> = (\<Sum>k \<in> ?K. if k = f then mset (?g k) else {#})"
    by (rule sum.cong) (simp_all add: one)
  finally show ?thesis by simp
qed

text \<open>
  C35. A deletion hides a rename. Take any two snapshots, and an entry of both that is a tombstone in one
  of them only and has another path in the second than it had in the first. The full comparison reports exactly one change about that entry, its deletion or
  revival at the new path; and if any reported change names the old path, where the entry's file still
  is, it is about another entry that has that path itself.
\<close>

theorem deletion_hides_rename:
  assumes "distinct (List.map fst previous)" and "distinct (List.map fst current)"
    and "map_of previous f = Some prev" and "map_of current f = Some cur"
    and "is_tombstone prev \<noteq> is_tombstone cur" and "dm_path prev \<noteq> dm_path cur"
  shows "filter (\<lambda>c. change_id c = f) (computeMetaSemanticChanges now previous current) =
      [if is_tombstone cur then Deleted f (dm_path cur) (deleted_time now cur) else Revived f (dm_path cur)] \<and>
    (\<forall>c \<in> set (computeMetaSemanticChanges now previous current). dm_path prev \<in> change_paths c \<longrightarrow>
      change_id c \<noteq> f \<and>
      dm_path prev \<in> dm_path ` (set_option (map_of previous (change_id c)) \<union> set_option (map_of current (change_id c))))"
proof -
  have own: "changes_of now f (map_of previous f) (map_of current f) =
      [if is_tombstone cur then Deleted f (dm_path cur) (deleted_time now cur) else Revived f (dm_path cur)]"
    using assms(3-5) by (auto simp: entry_changes_def)
  have "change_id c \<noteq> f \<and>
      dm_path prev \<in> dm_path ` (set_option (map_of previous (change_id c)) \<union> set_option (map_of current (change_id c)))"
    if c: "c \<in> set (computeMetaSemanticChanges now previous current)" and p: "dm_path prev \<in> change_paths c" for c
  proof -
    from c obtain g where g: "c \<in> set (changes_of now g (map_of previous g) (map_of current g))"
      unfolding computeMetaSemanticChanges_set [OF assms(1,2)] by blast
    have "g \<noteq> f"
      using g p assms(6) own by (cases "is_tombstone cur") auto
    with changes_of_names [OF g] p show ?thesis by auto
  qed
  moreover have "filter (\<lambda>c. change_id c = f) (computeMetaSemanticChanges now previous current) =
      [if is_tombstone cur then Deleted f (dm_path cur) (deleted_time now cur) else Revived f (dm_path cur)]"
    using computeMetaSemanticChanges_entry [OF assms(1,2), of f now]
    unfolding own mset_filter [symmetric] mset.simps mset_single_iff .
  ultimately show ?thesis by blast
qed

section \<open>Readers, writers and statistics\<close>

lemma readers_agree_core:
  "case decodeFileMeta v of
      None \<Rightarrow> getMetaPath v = None
    | Some d \<Rightarrow> getMetaPath v = Some (dm_path d) \<and> dm_path d \<noteq> [] \<and> getMetaMtime v = dm_mtime d \<and>
        getMetaDevice v = dm_device d \<and> getMetaDeletedAt v = dm_deletedAt d \<and>
        isFileMetaDeletedValue v = is_tombstone d \<and> (dm_shape d = NestedShape) = isNestedFileMeta v"
  by (cases v) (auto simp: decodeFileMeta_def meta_fields_def decode_fields_def getMetaPath_def getMetaMtime_def
        getMetaDevice_def getMetaDeletedAt_def isFileMetaDeletedValue_def is_tombstone_def isNestedFileMeta_def
        isObjectRecord_def path_value_def split: option.splits js_value.splits if_splits)

text \<open>
  The readers agree with the decoder on every value of either shape, and the writers produce nested
  entries that decode to what was written.
\<close>

theorem readers_agree:
  "(case decodeFileMeta v of
      None \<Rightarrow> getMetaPath v = None
    | Some d \<Rightarrow> getMetaPath v = Some (dm_path d) \<and> dm_path d \<noteq> [] \<and> getMetaMtime v = dm_mtime d \<and>
        getMetaDevice v = dm_device d \<and> getMetaDeletedAt v = dm_deletedAt d \<and>
        isFileMetaDeletedValue v = is_tombstone d \<and> (dm_shape d = NestedShape) = isNestedFileMeta v) \<and>
   decodeFileMeta (createNestedActiveMeta path mtime device) = (if path = [] then None else
      Some \<lparr>dm_shape = NestedShape, dm_path = path, dm_deletedAt = None, dm_deleted = False,
        dm_mtime = finite_value (JNum mtime),
        dm_device = (case device of Some d \<Rightarrow> if d = [] then None else Some d | None \<Rightarrow> None)\<rparr>) \<and>
   decodeFileMeta (createNestedDeletedMeta path mtime) = (if path = [] then None else
      Some \<lparr>dm_shape = NestedShape, dm_path = path, dm_deletedAt = finite_value (JNum mtime), dm_deleted = False,
        dm_mtime = None, dm_device = None\<rparr>)"
  using readers_agree_core [of v]
  by (auto simp: createNestedActiveMeta_def createNestedDeletedMeta_def decodeFileMeta_def meta_fields_def
        decode_fields_def ymap_get_def path_value_def finite_value_def text_value_def
        split: option.splits js_value.splits js_num.splits)

lemma decode_converted:
  assumes "dm_path d \<noteq> []"
  shows "decodeFileMeta (createNestedMetaFromDecoded now d) = Some
    (if is_tombstone d then \<lparr>dm_shape = NestedShape, dm_path = dm_path d, dm_deletedAt = Some (deleted_time now d),
        dm_deleted = False, dm_mtime = None, dm_device = None\<rparr>
     else d\<lparr>dm_shape := NestedShape\<rparr>)"
  using assms
  by (cases d) (auto simp: createNestedMetaFromDecoded_def decodeFileMeta_def meta_fields_def decode_fields_def
      ymap_get_def path_value_def finite_value_def text_value_def is_tombstone_def split: option.splits)

text \<open>
  C36. Conversion on write changes no meaning: \<open>ensureNestedMetaEntry\<close> leaves every other entry as it was,
  returns the nested entry that is now in the map, and a readable entry keeps its path and stays a
  tombstone or active; an active one keeps its time and device too, so that
  observers see no change at all.
\<close>

theorem conversion_preserves:
  assumes "decodeFileMeta (meta_get m f) = Some d"
  shows "case ensureNestedMetaEntry now m f fallback of (entry, m') \<Rightarrow>
     entry = Some (meta_get m' f) \<and> isNestedFileMeta (meta_get m' f) \<and>
     (\<forall>g. g = f \<or> map_of m' g = map_of m g) \<and>
     (\<exists>d'. decodeFileMeta (meta_get m' f) = Some d' \<and> dm_path d' = dm_path d \<and> is_tombstone d' = is_tombstone d \<and>
        (is_tombstone d \<or> entry_changes now f d d' = []))"
proof (cases "isNestedFileMeta (meta_get m f)")
  case True
  then show ?thesis using assms by (auto simp: ensureNestedMetaEntry_def entry_changes_def)
next
  case False
  let ?m = "AList.update f (createNestedMetaFromDecoded now d) m"
  have path: "dm_path d \<noteq> []"
    using assms by (auto simp: decodeFileMeta_def decode_fields_def path_value_def split: option.splits js_value.splits if_splits)
  have ensure: "ensureNestedMetaEntry now m f fallback = (Some (createNestedMetaFromDecoded now d), ?m)"
    using False assms by (simp add: ensureNestedMetaEntry_def Let_def)
  have get: "meta_get ?m f = createNestedMetaFromDecoded now d"
    by (simp add: meta_get_def update_conv')
  have nested: "isNestedFileMeta (createNestedMetaFromDecoded now d)"
    by (simp add: isNestedFileMeta_def createNestedMetaFromDecoded_def)
  show ?thesis
    unfolding ensure using decode_converted [OF path, of now] nested
    by (auto simp: get update_conv' is_tombstone_def entry_changes_def)
qed

lemma stats_fold:
  "ms_nested (fold (\<lambda>(_, v). stats_step v) m st) = ms_nested st + length (filter (\<lambda>(_, v). isNestedFileMeta v \<and> decodeFileMeta v \<noteq> None) m)"
  "ms_flat (fold (\<lambda>(_, v). stats_step v) m st) = ms_flat st + length (filter (\<lambda>(_, v). \<not> isNestedFileMeta v \<and> decodeFileMeta v \<noteq> None) m)"
  "ms_invalid (fold (\<lambda>(_, v). stats_step v) m st) = ms_invalid st + length (filter (\<lambda>(_, v). decodeFileMeta v = None) m)"
  "ms_tombstone (fold (\<lambda>(_, v). stats_step v) m st) = ms_tombstone st + length (filter (\<lambda>(_, v). isFileMetaDeletedValue v \<and> decodeFileMeta v \<noteq> None) m)"
  "ms_active (fold (\<lambda>(_, v). stats_step v) m st) = ms_active st + length (filter (\<lambda>(_, v). \<not> isFileMetaDeletedValue v \<and> decodeFileMeta v \<noteq> None) m)"
proof (induction m arbitrary: st)
  case (Cons p m)
  obtain k v where p: "p = (k, v)" by (cases p)
  {
    case 1
    then show ?case using Cons p readers_agree_core [of v] by (auto simp: stats_step_def Let_def split: option.splits)
  next
    case 2
    then show ?case using Cons p readers_agree_core [of v] by (auto simp: stats_step_def Let_def split: option.splits)
  next
    case 3
    then show ?case using Cons p readers_agree_core [of v] by (auto simp: stats_step_def Let_def split: option.splits)
  next
    case 4
    then show ?case using Cons p readers_agree_core [of v] by (auto simp: stats_step_def Let_def split: option.splits)
  next
    case 5
    then show ?case using Cons p readers_agree_core [of v] by (auto simp: stats_step_def Let_def split: option.splits)
  }
qed simp_all

text \<open>
  The statistics partition the map: every entry is counted once as flat, nested or invalid, every
  readable one once as active or tombstone, and the total is the number of entries.
\<close>

theorem stats_partition:
  "case computeMetaShapeStats m version of st \<Rightarrow>
     ms_schemaVersion st = version \<and> ms_total st = length m \<and>
     ms_nested st = length (filter (\<lambda>(_, v). isNestedFileMeta v \<and> decodeFileMeta v \<noteq> None) m) \<and>
     ms_flat st = length (filter (\<lambda>(_, v). \<not> isNestedFileMeta v \<and> decodeFileMeta v \<noteq> None) m) \<and>
     ms_invalid st = length (filter (\<lambda>(_, v). decodeFileMeta v = None) m) \<and>
     ms_tombstone st = length (filter (\<lambda>(_, v). isFileMetaDeletedValue v \<and> decodeFileMeta v \<noteq> None) m) \<and>
     ms_active st = length (filter (\<lambda>(_, v). \<not> isFileMetaDeletedValue v \<and> decodeFileMeta v \<noteq> None) m) \<and>
     ms_active st + ms_tombstone st = ms_nested st + ms_flat st"
proof -
  let ?count = "\<lambda>P. length (filter (\<lambda>(_, v). P v) m)"
  have total: "?count (\<lambda>v. \<not> isNestedFileMeta v \<and> decodeFileMeta v \<noteq> None) +
      ?count (\<lambda>v. isNestedFileMeta v \<and> decodeFileMeta v \<noteq> None) + ?count (\<lambda>v. decodeFileMeta v = None) = length m"
    and halves: "?count (\<lambda>v. \<not> isFileMetaDeletedValue v \<and> decodeFileMeta v \<noteq> None) +
      ?count (\<lambda>v. isFileMetaDeletedValue v \<and> decodeFileMeta v \<noteq> None) =
      ?count (\<lambda>v. isNestedFileMeta v \<and> decodeFileMeta v \<noteq> None) + ?count (\<lambda>v. \<not> isNestedFileMeta v \<and> decodeFileMeta v \<noteq> None)"
    by (induction m) auto
  have version: "ms_schemaVersion (fold (\<lambda>(_, v). stats_step v) m st) = ms_schemaVersion st" for st
    by (induction m arbitrary: st) (auto simp: stats_step_def Let_def split: option.split)
  show ?thesis
    using total halves by (simp add: computeMetaShapeStats_def Let_def stats_fold version)
qed

section \<open>Witnesses\<close>

definition flat_entry :: "string \<Rightarrow> js_value" where
  "flat_entry path = JObj [(''path'', JStr (lit path)), (''mtime'', JNum (Fin 1))]"

definition old_map :: meta_map where
  "old_map = [(lit ''f'', flat_entry ''a.md''), (lit ''g'', flat_entry ''b.md'')]"

definition new_map :: meta_map where
  "new_map = [(lit ''f'', createNestedActiveMeta (lit ''c.md'') (Fin 1) None), (lit ''g'', flat_entry ''b.md'')]"

theorem incremental_is_full_diff_witness:
  "mset (filter (\<lambda>c. \<not> is_invalid c)
       (fst (computeIncrementalMetaChanges 0 (buildMetaSnapshot old_map) new_map [lit ''f'']))) =
     mset (computeMetaSemanticChanges 0 (buildMetaSnapshot old_map) (buildMetaSnapshot new_map))"
proof -
  have events: "extractAffectedFileIds [NestedEvent [PathKey (lit ''f''), PathIndex 0]] = Some [lit ''f'']"
    by code_simp
  have "case computeIncrementalMetaChanges 0 (buildMetaSnapshot old_map) new_map [lit ''f''] of
     (changes, snapshot) \<Rightarrow>
       mset (filter (\<lambda>c. \<not> is_invalid c) changes) =
         mset (computeMetaSemanticChanges 0 (buildMetaSnapshot old_map) (buildMetaSnapshot new_map)) \<and>
       filter is_invalid changes = List.map InvalidMeta (filter (\<lambda>f.
         decodeFileMeta (meta_get old_map f) = None \<and> decodeFileMeta (meta_get new_map f) = None) [lit ''f'']) \<and>
       map_of snapshot = map_of (buildMetaSnapshot new_map)"
    by (rule incremental_is_full_diff [OF _ _ events])
      (auto simp: old_map_def new_map_def lit_def split: if_splits)
  then show ?thesis by (simp add: case_prod_beta)
qed

theorem no_silent_change_witness:
  "computeMetaSemanticChanges 0 (buildMetaSnapshot old_map) (buildMetaSnapshot new_map) \<noteq> []"
proof -
  have "distinct (List.map fst old_map)" "distinct (List.map fst new_map)"
    by (simp_all add: old_map_def new_map_def lit_def)
  note old = buildMetaSnapshot_lookup [OF this(1)] and new = buildMetaSnapshot_lookup [OF this(2)]
  have "map_option dm_path (decodeFileMeta (meta_get old_map (lit ''f''))) \<noteq>
      map_option dm_path (decodeFileMeta (meta_get new_map (lit ''f'')))"
    by code_simp
  then have "\<not> rel_option (\<lambda>p c. dm_path p = dm_path c \<and> dm_mtime p = dm_mtime c \<and> dm_device p = dm_device c \<and>
      is_tombstone p = is_tombstone c) (map_of (buildMetaSnapshot old_map) (lit ''f'')) (map_of (buildMetaSnapshot new_map) (lit ''f''))"
    unfolding old(2) new(2) by (auto elim!: option.rel_cases)
  then show ?thesis
    by (subst no_silent_change [OF old(1) new(1)]) blast
qed

definition live_meta :: "string \<Rightarrow> decoded_meta" where
  "live_meta path = \<lparr>dm_shape = NestedShape, dm_path = lit path, dm_deletedAt = None, dm_deleted = False,
     dm_mtime = Some 1, dm_device = None\<rparr>"

definition meta_then :: meta_snapshot where
  "meta_then = [(lit ''f'', live_meta ''old.md''), (lit ''g'', live_meta ''b.md''), (lit ''h'', live_meta ''c.md'')]"

definition meta_now :: meta_snapshot where
  "meta_now = [(lit ''g'', live_meta ''b2.md''), (lit ''f'', (live_meta ''new.md'')\<lparr>dm_deletedAt := Some 5\<rparr>)]"

theorem deletion_hides_rename_witness:
  "filter (\<lambda>c. change_id c = lit ''f'') (computeMetaSemanticChanges 0 meta_then meta_now) =
     [Deleted (lit ''f'') (lit ''new.md'') 5] \<and> length (computeMetaSemanticChanges 0 meta_then meta_now) = 3"
proof -
  let ?new = "(live_meta ''new.md'')\<lparr>dm_deletedAt := Some 5\<rparr>"
  have found: "distinct (List.map fst meta_then)" "distinct (List.map fst meta_now)"
    "map_of meta_then (lit ''f'') = Some (live_meta ''old.md'')" "map_of meta_now (lit ''f'') = Some ?new"
    "is_tombstone (live_meta ''old.md'') \<noteq> is_tombstone ?new" "dm_path (live_meta ''old.md'') \<noteq> dm_path ?new"
    by (code_simp; fail)+
  have new: "is_tombstone ?new" "dm_path ?new = lit ''new.md''" "deleted_time 0 ?new = 5"
    by (simp_all add: live_meta_def is_tombstone_def deleted_time_def)
  have "length (computeMetaSemanticChanges 0 meta_then meta_now) = 3"
    by code_simp
  with conjunct1 [OF deletion_hides_rename [OF found, of 0]] show ?thesis
    unfolding new by (simp add: new)
qed

theorem conversion_preserves_witness:
  "isNestedFileMeta (meta_get (snd (ensureNestedMetaEntry 0 old_map (lit ''f'') None)) (lit ''f''))"
proof -
  have "decodeFileMeta (meta_get old_map (lit ''f'')) = Some \<lparr>dm_shape = FlatShape, dm_path = lit ''a.md'',
      dm_deletedAt = None, dm_deleted = False, dm_mtime = Some 1, dm_device = None\<rparr>"
    by code_simp
  from conversion_preserves [OF this, of 0 None] show ?thesis by (simp add: case_prod_beta)
qed

end
