(* ===== verification/JsUtf8.thy ===== *)
theory JsUtf8
  imports JsText
begin

text \<open>
  The runtime's UTF-8 encoder (\<open>TextEncoder\<close>: a lone surrogate becomes U+FFFD) and its strict decoder
  (\<open>TextDecoder\<close> with \<open>fatal\<close>: no overlong forms, no surrogates, nothing beyond U+10FFFF, and a byte
  order mark at the start is dropped).
\<close>

section \<open>Encoding\<close>

definition scalar_of :: "code_unit \<Rightarrow> nat" where
  "scalar_of u = (if high_surrogate u \<or> low_surrogate u then 0xFFFD else unat u)"

definition pair_value :: "code_unit \<Rightarrow> code_unit \<Rightarrow> nat" where
  "pair_value u v = 0x10000 + (unat u - 0xD800) * 0x400 + (unat v - 0xDC00)"

fun code_points :: "jsstr \<Rightarrow> nat list" where
  "code_points [] = []"
| "code_points [u] = [scalar_of u]"
| "code_points (u # v # r) =
     (if high_surrogate u \<and> low_surrogate v then pair_value u v # code_points r
      else scalar_of u # code_points (v # r))"

definition utf8_bytes :: "nat \<Rightarrow> bytes" where
  "utf8_bytes c = List.map of_nat
     (if c < 0x80 then [c]
      else if c < 0x800 then [0xC0 + c div 64, 0x80 + c mod 64]
      else if c < 0x10000 then [0xE0 + c div 4096, 0x80 + c div 64 mod 64, 0x80 + c mod 64]
      else [0xF0 + c div 262144, 0x80 + c div 4096 mod 64, 0x80 + c div 64 mod 64, 0x80 + c mod 64])"

definition utf8_encode :: "jsstr \<Rightarrow> bytes" where
  "utf8_encode s = concat (List.map utf8_bytes (code_points s))"

section \<open>Decoding\<close>

definition continuation :: "byte \<Rightarrow> nat option" where
  "continuation b = (if 0x80 \<le> unat b \<and> unat b < 0xC0 then Some (unat b - 0x80) else None)"

definition units_of :: "nat \<Rightarrow> jsstr" where
  "units_of c = (if c < 0x10000 then [of_nat c]
     else [of_nat (0xD800 + (c - 0x10000) div 0x400), of_nat (0xDC00 + (c - 0x10000) mod 0x400)])"

text \<open>The code point the bytes start with and the bytes after it.\<close>

definition utf8_step :: "bytes \<Rightarrow> (nat \<times> bytes) option" where
  "utf8_step bs = (case bs of
     [] \<Rightarrow> None
   | b # r \<Rightarrow>
       (let n = unat b in
        if n < 0x80 then Some (n, r)
        else if 0xC2 \<le> n \<and> n < 0xE0 then
          (case r of
             b1 # r \<Rightarrow> (case continuation b1 of Some c1 \<Rightarrow> Some ((n - 0xC0) * 64 + c1, r) | None \<Rightarrow> None)
           | _ \<Rightarrow> None)
        else if 0xE0 \<le> n \<and> n < 0xF0 then
          (case r of
             b1 # b2 # r \<Rightarrow> (case (continuation b1, continuation b2) of
               (Some c1, Some c2) \<Rightarrow>
                 (let c = (n - 0xE0) * 4096 + c1 * 64 + c2 in
                  if 0x800 \<le> c \<and> \<not> (0xD800 \<le> c \<and> c < 0xE000) then Some (c, r) else None)
             | _ \<Rightarrow> None)
           | _ \<Rightarrow> None)
        else if 0xF0 \<le> n \<and> n < 0xF5 then
          (case r of
             b1 # b2 # b3 # r \<Rightarrow> (case (continuation b1, continuation b2, continuation b3) of
               (Some c1, Some c2, Some c3) \<Rightarrow>
                 (let c = (n - 0xF0) * 262144 + c1 * 4096 + c2 * 64 + c3 in
                  if 0x10000 \<le> c \<and> c < 0x110000 then Some (c, r) else None)
             | _ \<Rightarrow> None)
           | _ \<Rightarrow> None)
        else None))"

lemma utf8_step_shorter: "utf8_step bs = Some (c, r) \<Longrightarrow> length r < length bs"
  by (auto simp: utf8_step_def Let_def split: list.splits if_splits option.splits)

function utf8_scan :: "bytes \<Rightarrow> jsstr option" where
  "utf8_scan bs = (if bs = [] then Some []
     else case utf8_step bs of
       None \<Rightarrow> None
     | Some (c, r) \<Rightarrow> map_option ((@) (units_of c)) (utf8_scan r))"
  by pat_completeness auto
termination
  by (relation "measure length") (auto dest: utf8_step_shorter)

declare utf8_scan.simps [simp del]

definition utf8_decode :: "bytes \<Rightarrow> jsstr option" where
  "utf8_decode bs = utf8_scan (if take 3 bs = [0xEF, 0xBB, 0xBF] then drop 3 bs else bs)"

section \<open>Round trip\<close>

text \<open>A Unicode scalar value.\<close>

definition scalar_value :: "nat \<Rightarrow> bool" where
  "scalar_value c \<longleftrightarrow> c < 0x110000 \<and> \<not> (0xD800 \<le> c \<and> c < 0xE000)"

lemma unat_small: "n < 256 \<Longrightarrow> unat (of_nat n :: byte) = n"
  by (simp add: unsigned_of_nat take_bit_nat_eq_self)

lemma continuation_of: "x < 64 \<Longrightarrow> continuation (of_nat (128 + x)) = Some x"
  using unat_small [of "128 + x"] by (simp add: continuation_def del: of_nat_add)

text \<open>What the decoder reads of each form.\<close>

lemma utf8_step_forms:
  "n < 128 \<Longrightarrow> utf8_step (of_nat n # r) = Some (n, r)"
  "2 \<le> n \<Longrightarrow> n < 32 \<Longrightarrow> x < 64 \<Longrightarrow> utf8_step (of_nat (192 + n) # of_nat (128 + x) # r) = Some (n * 64 + x, r)"
  "n < 16 \<Longrightarrow> x < 64 \<Longrightarrow> y < 64 \<Longrightarrow> 2048 \<le> n * 4096 + x * 64 + y \<Longrightarrow>
     \<not> (55296 \<le> n * 4096 + x * 64 + y \<and> n * 4096 + x * 64 + y < 57344) \<Longrightarrow>
     utf8_step (of_nat (224 + n) # of_nat (128 + x) # of_nat (128 + y) # r) = Some (n * 4096 + x * 64 + y, r)"
  "n < 5 \<Longrightarrow> x < 64 \<Longrightarrow> y < 64 \<Longrightarrow> z < 64 \<Longrightarrow> 65536 \<le> n * 262144 + x * 4096 + y * 64 + z \<Longrightarrow>
     n * 262144 + x * 4096 + y * 64 + z < 1114112 \<Longrightarrow>
     utf8_step (of_nat (240 + n) # of_nat (128 + x) # of_nat (128 + y) # of_nat (128 + z) # r) =
       Some (n * 262144 + x * 4096 + y * 64 + z, r)"
  using unat_small [of n] unat_small [of "192 + n"] unat_small [of "224 + n"] unat_small [of "240 + n"]
  by (simp_all add: utf8_step_def Let_def continuation_of del: of_nat_add)

lemma base64_digits:
  fixes c :: nat
  shows "c = c div 64 * 64 + c mod 64" "c = c div 4096 * 4096 + c div 64 mod 64 * 64 + c mod 64"
    "c = c div 262144 * 262144 + c div 4096 mod 64 * 4096 + c div 64 mod 64 * 64 + c mod 64"
proof -
  have one: "x = x div 64 * 64 + x mod 64" for x :: nat by simp
  have two: "c div 4096 = c div 64 div 64" "c div 262144 = c div 4096 div 64" by (simp_all add: div_mult2_eq)
  show "c = c div 64 * 64 + c mod 64" by (rule one)
  show "c = c div 4096 * 4096 + c div 64 mod 64 * 64 + c mod 64"
    using one [of c] one [of "c div 64"] unfolding two by linarith
  then show "c = c div 262144 * 262144 + c div 4096 mod 64 * 4096 + c div 64 mod 64 * 64 + c mod 64"
    using one [of "c div 4096"] unfolding two(2) by linarith
qed

lemma utf8_step_bytes:
  assumes "scalar_value c"
  shows "utf8_step (utf8_bytes c @ r) = Some (c, r)"
proof -
  have c: "c < 0x110000" "\<not> (0xD800 \<le> c \<and> c < 0xE000)" using assms by (simp_all add: scalar_value_def)
  consider "c < 0x80" | "0x80 \<le> c" "c < 0x800" | "0x800 \<le> c" "c < 0x10000" | "0x10000 \<le> c" by linarith
  then show ?thesis
  proof cases
    case 1
    then show ?thesis by (simp add: utf8_bytes_def utf8_step_forms)
  next
    case 2
    then have "2 \<le> c div 64" "c div 64 < 32" by auto
    from utf8_step_forms(2) [OF this, of "c mod 64" r] base64_digits(1) [of c] 2 show ?thesis
      by (simp add: utf8_bytes_def del: of_nat_add)
  next
    case 3
    then have "c div 4096 < 16" by auto
    from utf8_step_forms(3) [OF this, of "c div 64 mod 64" "c mod 64" r] base64_digits(2) [of c, symmetric] 3 c show ?thesis
      by (simp add: utf8_bytes_def del: of_nat_add)
  next
    case 4
    from c(1) have "c div 262144 < 5" by auto
    from utf8_step_forms(4) [OF this, of "c div 4096 mod 64" "c div 64 mod 64" "c mod 64" r]
      base64_digits(3) [of c, symmetric] 4 c show ?thesis
      by (simp add: utf8_bytes_def del: of_nat_add)
  qed
qed

text \<open>A string without lone surrogates.\<close>

fun well_formed :: "jsstr \<Rightarrow> bool" where
  "well_formed [] = True"
| "well_formed [u] = (\<not> high_surrogate u \<and> \<not> low_surrogate u)"
| "well_formed (u # v # r) =
     (if high_surrogate u \<and> low_surrogate v then well_formed r
      else \<not> high_surrogate u \<and> \<not> low_surrogate u \<and> well_formed (v # r))"

lemma surrogate_bounds:
  "high_surrogate u \<longleftrightarrow> 0xD800 \<le> unat u \<and> unat u < 0xDC00" "low_surrogate u \<longleftrightarrow> 0xDC00 \<le> unat u \<and> unat u < 0xE000"
  by (auto simp: high_surrogate_def low_surrogate_def word_le_nat_alt)

lemma unit_bound: "unat (u :: code_unit) < 65536"
  using unsigned_less [of u] by simp

lemma scalar_units:
  assumes "\<not> high_surrogate u" "\<not> low_surrogate u"
  shows "scalar_value (scalar_of u)" "units_of (scalar_of u) = [u]"
  using assms unit_bound [of u]
  by (auto simp: scalar_value_def scalar_of_def surrogate_bounds units_of_def)

lemma pair_units:
  assumes "high_surrogate u" "low_surrogate v"
  shows "scalar_value (pair_value u v)" "units_of (pair_value u v) = [u, v]"
proof -
  from assms have u: "0xD800 \<le> unat u" "unat u < 0xDC00" and v: "0xDC00 \<le> unat v" "unat v < 0xE000"
    by (simp_all add: surrogate_bounds)
  then show "scalar_value (pair_value u v)" by (simp add: scalar_value_def pair_value_def)
  define a b where "a = unat u - 0xD800" and "b = unat v - 0xDC00"
  have digits: "pair_value u v - 0x10000 = a * 0x400 + b" "b < 0x400"
    using v by (simp_all add: pair_value_def a_def b_def)
  then have "(pair_value u v - 0x10000) div 0x400 = a" "(pair_value u v - 0x10000) mod 0x400 = b" by simp_all
  then have "0xD800 + (pair_value u v - 0x10000) div 0x400 = unat u"
    "0xDC00 + (pair_value u v - 0x10000) mod 0x400 = unat v"
    using u v by (simp_all add: a_def b_def)
  then show "units_of (pair_value u v) = [u, v]"
    by (simp add: units_of_def del: of_nat_add) (simp add: pair_value_def)
qed

lemma utf8_scan_bytes:
  assumes "scalar_value c"
  shows "utf8_scan (utf8_bytes c @ r) = map_option ((@) (units_of c)) (utf8_scan r)"
proof -
  have "utf8_bytes c \<noteq> []" by (auto simp: utf8_bytes_def split: if_splits)
  then show ?thesis by (subst utf8_scan.simps) (simp add: utf8_step_bytes [OF assms])
qed

lemma utf8_scan_encode: "well_formed s \<Longrightarrow> utf8_scan (utf8_encode s) = Some s"
proof (induction s rule: well_formed.induct)
  case 1
  then show ?case by (simp add: utf8_encode_def utf8_scan.simps)
next
  case (2 u)
  then show ?case
    using utf8_scan_bytes [of "scalar_of u" "[]"] scalar_units [of u]
    by (simp add: utf8_encode_def utf8_scan.simps [of "[]"])
next
  case (3 u v r)
  then show ?case
    using scalar_units [of u] pair_units [of u v]
    by (auto simp: utf8_encode_def utf8_scan_bytes split: if_splits)
qed

lemma utf8_decode_encode:
  assumes "well_formed s" and "take 1 s \<noteq> [0xFEFF]"
  shows "utf8_decode (utf8_encode s) = Some s"
proof -
  have "take 3 (utf8_encode s) \<noteq> [0xEF, 0xBB, 0xBF]"
  proof
    assume "take 3 (utf8_encode s) = [0xEF, 0xBB, 0xBF]"
    then obtain r where e: "utf8_encode s = [0xEF, 0xBB, 0xBF] @ r"
      by (metis append_take_drop_id)
    have "utf8_bytes 0xFEFF = [0xEF, 0xBB, 0xBF]" by (simp add: utf8_bytes_def)
    then have "utf8_scan (utf8_encode s) = map_option ((@) (units_of 0xFEFF)) (utf8_scan r)"
      unfolding e using utf8_scan_bytes [of "0xFEFF" r] by (simp add: scalar_value_def)
    with utf8_scan_encode [OF assms(1)] assms(2) show False
      by (auto simp: units_of_def)
  qed
  then show ?thesis by (simp add: utf8_decode_def utf8_scan_encode [OF assms(1)])
qed

section \<open>Texts that come back\<close>

text \<open>What the decoder returns has no lone surrogate, and the encoder writes a text as the well-formed
  one in which each lone surrogate is replaced.\<close>

lemma unit_of_scalar:
  assumes "scalar_value c" and "c < 0x10000"
  shows "\<not> high_surrogate (of_nat c)" "\<not> low_surrogate (of_nat c)" "scalar_of (of_nat c) = c"
  using assms unat_unit [of c] by (auto simp: surrogate_bounds scalar_value_def scalar_of_def)

lemma pair_of_scalar:
  assumes "scalar_value c" and "\<not> c < 0x10000"
  defines "u \<equiv> of_nat (0xD800 + (c - 0x10000) div 0x400) :: code_unit"
    and "v \<equiv> of_nat (0xDC00 + (c - 0x10000) mod 0x400) :: code_unit"
  shows "high_surrogate u" "low_surrogate v" "pair_value u v = c"
proof -
  have "c - 0x10000 < 0x100000" using assms(1,2) by (auto simp: scalar_value_def)
  then have hi: "(c - 0x10000) div 0x400 < 0x400" by auto
  have u: "unat u = 0xD800 + (c - 0x10000) div 0x400"
    unfolding u_def using hi by (intro unat_unit) simp
  have "(c - 0x10000) mod 0x400 < 0x400" by simp
  then have v: "unat v = 0xDC00 + (c - 0x10000) mod 0x400"
    unfolding v_def by (intro unat_unit) simp
  show "high_surrogate u" "low_surrogate v"
    using hi \<open>(c - 0x10000) mod 0x400 < 0x400\<close> by (simp_all add: surrogate_bounds u v)
  have "(c - 0x10000) div 0x400 * 0x400 + (c - 0x10000) mod 0x400 = c - 0x10000" by simp
  then show "pair_value u v = c" using assms(2) by (simp add: pair_value_def u v)
qed

lemma units_of_front:
  assumes "scalar_value c"
  shows "code_points (units_of c @ s) = c # code_points s" "well_formed (units_of c @ s) = well_formed s"
proof -
  have "code_points (units_of c @ s) = c # code_points s \<and> well_formed (units_of c @ s) = well_formed s"
  proof (cases "c < 0x10000")
    case True
    with unit_of_scalar [OF assms] show ?thesis by (cases s) (simp_all add: units_of_def)
  next
    case False
    with pair_of_scalar [OF assms False] show ?thesis by (simp add: units_of_def)
  qed
  then show "code_points (units_of c @ s) = c # code_points s" "well_formed (units_of c @ s) = well_formed s" by blast+
qed

definition units_text :: "nat list \<Rightarrow> jsstr" where
  "units_text cs = concat (List.map units_of cs)"

lemma units_text_simps [simp]: "units_text [] = []" "units_text (c # cs) = units_of c @ units_text cs"
  by (simp_all add: units_text_def)

lemma units_text_points:
  "list_all scalar_value cs \<Longrightarrow> code_points (units_text cs) = cs \<and> well_formed (units_text cs)"
  by (induction cs) (simp_all add: units_of_front)

lemma code_points_scalar: "list_all scalar_value (code_points s)"
proof (induction s rule: code_points.induct)
  case (2 u)
  show ?case using scalar_units(1) [of u] by (auto simp: scalar_of_def scalar_value_def)
next
  case (3 u v r)
  have "scalar_value (scalar_of u)" using scalar_units(1) [of u] by (auto simp: scalar_of_def scalar_value_def)
  with 3 pair_units(1) [of u v] show ?case by simp
qed simp

text \<open>The well-formed text that is written for \<open>t\<close>.\<close>

definition scrubbed :: "jsstr \<Rightarrow> jsstr" where
  "scrubbed t = units_text (code_points t)"

lemma scrubbed_encode: "well_formed (scrubbed t)" "utf8_encode (scrubbed t) = utf8_encode t"
  using units_text_points [OF code_points_scalar, of t] by (simp_all add: scrubbed_def utf8_encode_def)

lemma utf8_step_scalar: "utf8_step bs = Some (c, r) \<Longrightarrow> scalar_value c"
  by (auto simp: utf8_step_def Let_def scalar_value_def continuation_def split: list.splits if_splits option.splits)

lemma utf8_scan_well_formed: "utf8_scan bs = Some t \<Longrightarrow> well_formed t"
proof (induction bs arbitrary: t rule: utf8_scan.induct)
  case (1 bs)
  show ?case
  proof (cases "bs = []")
    case True
    with 1(2) show ?thesis by (simp add: utf8_scan.simps [of "[]"])
  next
    case False
    with 1(2) obtain c r t' where step: "utf8_step bs = Some (c, r)" and t': "utf8_scan r = Some t'" "t = units_of c @ t'"
      by (subst (asm) utf8_scan.simps) (auto split: option.splits)
    from 1(1) [OF False step refl t'(1)] units_of_front(2) [OF utf8_step_scalar [OF step]] t'(2) show ?thesis by simp
  qed
qed

lemma utf8_decode_well_formed: "utf8_decode bs = Some t \<Longrightarrow> well_formed t"
  by (simp add: utf8_decode_def utf8_scan_well_formed)

end
