(* ===== verification/JsDate.thy ===== *)
theory JsDate
  imports JsValue
begin

text \<open>
  \<open>new Date(t).toISOString()\<close> for a time that is not negative, with the proleptic Gregorian calendar of
  ECMAScript: a year above 9999 has a sign and six digits. Different milliseconds have different
  texts.
\<close>

section \<open>The calendar\<close>

definition leap_year :: "nat \<Rightarrow> bool" where
  "leap_year y \<longleftrightarrow> y mod 4 = 0 \<and> (y mod 100 \<noteq> 0 \<or> y mod 400 = 0)"

text \<open>Days from the first of January of the year 0.\<close>

definition days_before_year :: "nat \<Rightarrow> nat" where
  "days_before_year y = 365 * y + (y + 3) div 4 - (y + 99) div 100 + (y + 399) div 400"

definition year_of_day :: "nat \<Rightarrow> nat" where
  "year_of_day d = (let y = d * 400 div 146097 in
     if d < days_before_year y then y - 1 else if days_before_year (y + 1) \<le> d then y + 1 else y)"

definition month_starts :: "nat \<Rightarrow> nat list" where
  "month_starts y = (if leap_year y
     then [0, 31, 60, 91, 121, 152, 182, 213, 244, 274, 305, 335]
     else [0, 31, 59, 90, 120, 151, 181, 212, 243, 273, 304, 334])"

text \<open>The month, counted from 0, of a day of the year.\<close>

definition month_of_day :: "nat \<Rightarrow> nat \<Rightarrow> nat" where
  "month_of_day y r = length (filter (\<lambda>s. s \<le> r) (month_starts y)) - 1"

section \<open>The text\<close>

fun padded :: "nat \<Rightarrow> nat \<Rightarrow> jsstr" where
  "padded 0 n = []"
| "padded (Suc k) n = padded k (n div 10) @ [of_nat (48 + n mod 10)]"

definition iso_year :: "nat \<Rightarrow> jsstr" where
  "iso_year y = (if y < 10000 then padded 4 y else 43 # padded 6 y)"

definition iso_clock :: "nat \<Rightarrow> jsstr" where
  "iso_clock t = padded 2 (t div 3600000) @ 58 # padded 2 (t div 60000 mod 60) @ 58 #
     padded 2 (t div 1000 mod 60) @ 46 # padded 3 (t mod 1000)"

definition iso_string :: "nat \<Rightarrow> jsstr" where
  "iso_string t =
     (let d = t div 86400000 + days_before_year 1970;
          y = year_of_day d;
          r = d - days_before_year y;
          m = month_of_day y r in
      iso_year y @ 45 # padded 2 (m + 1) @ 45 # padded 2 (r - month_starts y ! m + 1) @ 84 #
      iso_clock (t mod 86400000) @ [90])"

section \<open>Different times have different texts\<close>

lemma length_padded [simp]: "length (padded k n) = k"
  by (induction k arbitrary: n) simp_all

lemma unat_digit: "unat (of_nat (48 + n mod 10) :: code_unit) = 48 + n mod 10"
  by (simp add: unsigned_of_nat take_bit_nat_eq_self del: of_nat_add)

lemma padded_inject:
  "m < 10 ^ k \<Longrightarrow> n < 10 ^ k \<Longrightarrow> padded k m = padded k n \<longleftrightarrow> m = n"
proof (induction k arbitrary: m n)
  case (Suc k)
  have "m div 10 < 10 ^ k" "n div 10 < 10 ^ k"
    using Suc.prems by (simp_all add: less_mult_imp_div_less mult.commute)
  from Suc.IH [OF this] have "padded k (m div 10) = padded k (n div 10) \<longleftrightarrow> m div 10 = n div 10" .
  moreover have "(of_nat (48 + m mod 10) :: code_unit) = of_nat (48 + n mod 10) \<longleftrightarrow> m mod 10 = n mod 10"
    using unat_digit [of m] unat_digit [of n] by (metis add_left_cancel)
  moreover have "m = n \<longleftrightarrow> m div 10 = n div 10 \<and> m mod 10 = n mod 10"
    by (metis div_mult_mod_eq)
  ultimately show ?case by (simp del: of_nat_add)
qed simp

lemma div_bounds: "c > 0 \<Longrightarrow> c * (x div c) \<le> x \<and> x < c * (x div c) + (c :: nat)"
  by (metis div_mult_mod_eq le_add1 mod_less_divisor mult.commute nat_add_left_cancel_less)

text \<open>A year has 365.2425 days, up to the place of its leap days.\<close>

lemma days_before_year_bounds:
  "146097 * y \<le> 400 * days_before_year y + 396" "400 * days_before_year y \<le> 146097 * y + 699"
  using div_bounds [of 4 "y + 3"] div_bounds [of 100 "y + 99"] div_bounds [of 400 "y + 399"]
  by (simp_all add: days_before_year_def)

lemma year_of_day_bounds:
  "days_before_year (year_of_day d) \<le> d" "d < days_before_year (year_of_day d) + 367"
  "146097 * year_of_day d \<le> 400 * d + 146493"
proof -
  let ?y = "d * 400 div 146097"
  have y: "146097 * ?y \<le> d * 400" "d * 400 < 146097 * ?y + 146097"
    using div_bounds [of 146097 "d * 400"] by simp_all
  have first: "days_before_year 0 = 0" by (simp add: days_before_year_def)
  have low: "days_before_year (?y - 1) \<le> d"
  proof (cases "?y = 0")
    case True
    then show ?thesis by (simp add: first)
  next
    case False
    with y(1) days_before_year_bounds(2) [of "?y - 1"] show ?thesis
      by (simp add: diff_mult_distrib2)
  qed
  show "days_before_year (year_of_day d) \<le> d"
    using low by (auto simp: year_of_day_def Let_def)
  have step: "days_before_year (Suc k) \<le> days_before_year k + 367" for k
    using days_before_year_bounds [of k] days_before_year_bounds [of "Suc k"] by simp
  have high: "d < days_before_year (?y + 2)"
    using days_before_year_bounds(1) [of "?y + 2"] y by simp
  show "d < days_before_year (year_of_day d) + 367"
  proof (cases "d < days_before_year ?y")
    case True
    with first have "?y \<noteq> 0" by (metis not_less_zero)
    with True step [of "?y - 1"] have "d < days_before_year (?y - 1) + 367" by simp
    with True show ?thesis by (simp add: year_of_day_def Let_def)
  next
    case False
    then show ?thesis using step [of ?y] step [of "?y + 1"] high by (auto simp: year_of_day_def Let_def)
  qed
  show "146097 * year_of_day d \<le> 400 * d + 146493"
    using days_before_year_bounds(1) [of "?y + 1"] y
    by (auto simp: year_of_day_def Let_def diff_mult_distrib2)
qed

lemma month_start_le:
  "month_starts y ! month_of_day y r \<le> r"
proof -
  have start: "xs ! (length (filter (\<lambda>s. s \<le> r) xs) - 1) \<le> r" if "sorted xs" "xs \<noteq> []" "hd xs \<le> r" for xs
    using that
  proof (induction xs)
    case (Cons x xs)
    show ?case
    proof (cases "filter (\<lambda>s. s \<le> r) xs")
      case Nil
      then show ?thesis using Cons.prems by simp
    next
      case (Cons z zs)
      then have "xs \<noteq> []" "z \<in> set xs" "z \<le> r" by (auto dest: filter_eq_ConsD)
      with Cons.prems have "hd xs \<le> r" by (cases xs) auto
      with Cons.IH Cons.prems \<open>xs \<noteq> []\<close> have "xs ! (length (filter (\<lambda>s. s \<le> r) xs) - 1) \<le> r" by simp
      with Cons Cons.prems show ?thesis by (simp add: nth_Cons')
    qed
  qed simp
  show ?thesis
    unfolding month_of_day_def by (rule start) (simp_all add: month_starts_def)
qed

lemma month_of_day_less: "month_of_day y r < 12"
proof -
  have "length (filter (\<lambda>s. s \<le> r) (month_starts y)) \<le> 12"
    by (rule order_trans [OF length_filter_le]) (simp add: month_starts_def)
  then show ?thesis by (simp add: month_of_day_def)
qed

lemma month_start_near:
  assumes "r < 367"
  shows "r - month_starts y ! month_of_day y r < 99"
proof -
  have "month_starts y ! month_of_day y r + 99 > r"
    using assms month_start_le [of y r] unfolding month_of_day_def month_starts_def by auto
  then show ?thesis by simp
qed

definition iso_day :: "nat \<Rightarrow> jsstr" where
  "iso_day d = (let y = year_of_day d; r = d - days_before_year y; m = month_of_day y r in
     iso_year y @ 45 # padded 2 (m + 1) @ 45 # padded 2 (r - month_starts y ! m + 1))"

lemma iso_string_parts:
  "iso_string t = iso_day (t div 86400000 + days_before_year 1970) @ 84 # iso_clock (t mod 86400000) @ [90]"
  by (simp add: iso_string_def iso_day_def Let_def)

text \<open>This holds under any renaming of the other characters that leaves the digits alone.\<close>

definition keeps_digits :: "(code_unit \<Rightarrow> code_unit) \<Rightarrow> bool" where
  "keeps_digits f \<longleftrightarrow> (\<forall>d<10. f (of_nat (48 + d)) = of_nat (48 + d))"

lemma map_padded: "keeps_digits f \<Longrightarrow> List.map f (padded k n) = padded k n"
  by (induction k arbitrary: n) (simp_all add: keeps_digits_def del: of_nat_add)

lemma iso_clock_inject:
  assumes f: "keeps_digits f"
    and "s < 86400000" "t < 86400000" "List.map f (iso_clock s) = List.map f (iso_clock t)"
  shows "s = t"
proof -
  have "s div 3600000 < 24" "t div 3600000 < 24" using assms(2,3) by auto
  with assms(4) have "s div 3600000 = t div 3600000" "s div 60000 mod 60 = t div 60000 mod 60"
    "s div 1000 mod 60 = t div 1000 mod 60" "s mod 1000 = t mod 1000"
    by (auto simp: iso_clock_def padded_inject map_padded [OF f])
  moreover have "x = x div 3600000 * 3600000 + x div 60000 mod 60 * 60000 + x div 1000 mod 60 * 1000 + x mod 1000"
    for x :: nat
  proof -
    have q: "y = y div c * c + y mod c" for y c :: nat by simp
    have "x div 60000 = x div 1000 div 60" "x div 3600000 = x div 60000 div 60" by (simp_all add: div_mult2_eq)
    with q [of x 1000] q [of "x div 1000" 60] q [of "x div 60000" 60] show ?thesis by linarith
  qed
  ultimately show ?thesis by metis
qed

lemma length_iso_clock [simp]: "length (iso_clock t) = 12"
  by (simp add: iso_clock_def)

lemma iso_year_inject:
  "keeps_digits f \<Longrightarrow> y < 1000000 \<Longrightarrow> z < 1000000 \<Longrightarrow> List.map f (iso_year y) = List.map f (iso_year z) \<Longrightarrow> y = z"
  by (auto simp: iso_year_def padded_inject map_padded dest: arg_cong [of _ _ length] split: if_splits)

lemma iso_day_inject:
  assumes f: "keeps_digits f"
    and "c \<le> 200000000" "d \<le> 200000000" "List.map f (iso_day c) = List.map f (iso_day d)"
  shows "c = d"
proof -
  let ?r = "\<lambda>d. d - days_before_year (year_of_day d)"
  let ?m = "\<lambda>d. month_of_day (year_of_day d) (?r d)"
  let ?s = "\<lambda>d. month_starts (year_of_day d) ! ?m d"
  have small: "year_of_day d < 1000000" "?m d + 1 < 10 ^ 2" "?r d - ?s d + 1 < 10 ^ 2" if "d \<le> 200000000" for d
  proof -
    show "year_of_day d < 1000000" using year_of_day_bounds(3) [of d] that by simp
    show "?m d + 1 < 10 ^ 2" using month_of_day_less [of "year_of_day d" "?r d"] by simp
    have "?r d < 367" using year_of_day_bounds(2) [of d] by simp
    from month_start_near [OF this, of "year_of_day d"] show "?r d - ?s d + 1 < 10 ^ 2" by simp
  qed
  note c = small [OF assms(2)] and d = small [OF assms(3)]
  from assms(4) have "List.map f (iso_year (year_of_day c)) = List.map f (iso_year (year_of_day d))" "?m c + 1 = ?m d + 1"
    "?r c - ?s c + 1 = ?r d - ?s d + 1"
    using padded_inject [OF c(2) d(2)] padded_inject [OF c(3) d(3)]
    by (simp_all add: iso_day_def Let_def map_padded [OF f])
  then have y: "year_of_day c = year_of_day d" and "?s c = ?s d" "?r c - ?s c = ?r d - ?s d"
    using iso_year_inject [OF f c(1) d(1)] by simp_all
  then have "?r c = ?r d"
    using month_start_le [of "year_of_day c" "?r c"] month_start_le [of "year_of_day d" "?r d"]
    by (metis le_add_diff_inverse2)
  with y year_of_day_bounds(1) [of c] year_of_day_bounds(1) [of d] show ?thesis
    by (metis le_add_diff_inverse2)
qed

lemma iso_string_inject:
  assumes f: "keeps_digits f"
    and "s \<le> 9000000000000000" "t \<le> 9000000000000000" "List.map f (iso_string s) = List.map f (iso_string t)"
  shows "s = t"
proof -
  have epoch: "days_before_year 1970 = 719528" by (simp add: days_before_year_def)
  have small: "x div 86400000 + 719528 \<le> 200000000" if "x \<le> 9000000000000000" for x :: nat
    using div_le_mono [OF that, of 86400000] by simp
  have "List.map f (iso_day (s div 86400000 + 719528)) = List.map f (iso_day (t div 86400000 + 719528))"
    and "List.map f (iso_clock (s mod 86400000)) = List.map f (iso_clock (t mod 86400000))"
    using assms(4) by (simp_all add: iso_string_parts epoch)
  moreover note iso_day_inject [OF f small [OF assms(2)] small [OF assms(3)]]
    iso_clock_inject [OF f, of "s mod 86400000" "t mod 86400000"]
  ultimately have "s div 86400000 + 719528 = t div 86400000 + 719528" "s mod 86400000 = t mod 86400000"
    by simp_all
  then have "s div 86400000 = t div 86400000" "s mod 86400000 = t mod 86400000" by simp_all
  then show ?thesis by (metis div_mult_mod_eq)
qed

end
