(* ===== verification/FolderReconcile.thy ===== *)
theory FolderReconcile
  imports SourceCore JsUtf8 JsDate "HOL-Library.AList"
begin

text \<open>
  Reconciling a folder with the synchronised document: the three-way decision of
  \<open>packages/yaos-core/src/closedFileConflict.ts\<close> and \<open>reconcileFolder\<close> of
  \<open>packages/yaos-core/src/folderReconciliation.ts\<close>. The remote port acts on a state of its own beside
  the core's. The digest, the collation of the paths and the case folding are parameters.
\<close>

section \<open>The decision\<close>

datatype conflict_winner = DiskWins | CrdtWins
datatype conflict_reason = BothChanged | NoBaseline
datatype winner_policy = DiskMtimeAfterLastIndexSave | CrdtDefaultNoEvidence | CrdtDefaultDiskNotNewer

record preserved_conflict =
  pv_reason :: conflict_reason
  pv_winner :: conflict_winner
  pv_preserveCrdt :: bool
  pv_preserveDisk :: bool
  pv_policy :: "winner_policy option"

datatype conflict_decision = NoOp | ApplyRemoteToDisk | ImportDiskToCrdt | PreserveConflict preserved_conflict

record conflict_input =
  ci_baselineHash :: "jsstr option"
  ci_diskHash :: jsstr
  ci_crdtHash :: jsstr
  ci_diskMtime :: "js_num option"
  ci_lastDiskIndexPersistedAt :: "js_num option"

definition decideClosedFileConflict :: "conflict_input \<Rightarrow> conflict_decision" where
  "decideClosedFileConflict input =
     (let disk = ci_diskHash input; crdt = ci_crdtHash input in
      if disk = crdt then NoOp
      else case ci_baselineHash input of
        None \<Rightarrow>
          (let evidence = ci_diskMtime input \<noteq> None \<and> ci_lastDiskIndexPersistedAt input \<noteq> None in
           if evidence \<and> num_less (the (ci_lastDiskIndexPersistedAt input)) (the (ci_diskMtime input))
           then PreserveConflict \<lparr>pv_reason = NoBaseline, pv_winner = DiskWins, pv_preserveCrdt = True,
             pv_preserveDisk = False, pv_policy = Some DiskMtimeAfterLastIndexSave\<rparr>
           else PreserveConflict \<lparr>pv_reason = NoBaseline, pv_winner = CrdtWins, pv_preserveCrdt = False,
             pv_preserveDisk = True,
             pv_policy = Some (if evidence then CrdtDefaultDiskNotNewer else CrdtDefaultNoEvidence)\<rparr>)
      | Some baseline \<Rightarrow>
          if disk = baseline \<and> crdt \<noteq> baseline then ApplyRemoteToDisk
          else if crdt = baseline \<and> disk \<noteq> baseline then ImportDiskToCrdt
          else PreserveConflict \<lparr>pv_reason = BothChanged, pv_winner = DiskWins, pv_preserveCrdt = True,
             pv_preserveDisk = False, pv_policy = None\<rparr>)"

section \<open>The baseline\<close>

definition BASELINE_KEY :: jsstr where
  "BASELINE_KEY = lit ''mdevolved/folder-reconciliation/v1''"

record baseline_state =
  bs_savedAt :: js_num
  bs_hashes :: "(jsstr \<times> jsstr) list"

definition empty_baseline :: baseline_state where
  "empty_baseline = \<lparr>bs_savedAt = Fin 0, bs_hashes = []\<rparr>"

text \<open>\<open>Object.entries\<close> of an object; those of a binary value are numbers, which the caller drops.\<close>

definition object_entries :: "js_value \<Rightarrow> (jsstr \<times> js_value) list" where
  "object_entries v = (case v of
     JDict ps \<Rightarrow> ps
   | JObj ps \<Rightarrow> List.map (\<lambda>(k, v). (lit k, v)) ps
   | JArr vs \<Rightarrow> List.map (\<lambda>i. (lit (decimal i), vs ! i)) [0..<length vs]
   | _ \<Rightarrow> [])"

definition hash_entry :: "jsstr \<times> js_value \<Rightarrow> (jsstr \<times> jsstr) option" where
  "hash_entry e = (case snd e of JStr h \<Rightarrow> if is_sha256_hex h then Some (fst e, h) else None | _ \<Rightarrow> None)"

definition readBaseline :: "js_value \<Rightarrow> baseline_state" where
  "readBaseline v =
     (if \<not> is_object_value v then empty_baseline
      else if js_prop v ''version'' \<noteq> nat_value 1 \<or>
        \<not> (case js_prop v ''savedAt'' of JNum n \<Rightarrow> is_finite_num n | _ \<Rightarrow> False) \<or>
        \<not> is_object_value (js_prop v ''hashes'')
      then empty_baseline
      else \<lparr>bs_savedAt = (case js_prop v ''savedAt'' of JNum n \<Rightarrow> n | _ \<Rightarrow> Fin 0),
            bs_hashes = List.map_filter hash_entry (object_entries (js_prop v ''hashes''))\<rparr>)"

definition baseline_value :: "js_num \<Rightarrow> (jsstr \<times> jsstr) list \<Rightarrow> js_value" where
  "baseline_value now hashes = JObj [(''version'', nat_value 1), (''savedAt'', JNum now),
     (''hashes'', JDict (List.map (\<lambda>(k, h). (k, JStr h)) hashes))]"

section \<open>Ports\<close>

record 'r remote_port =
  rp_listPaths :: "('r, source_error, jsstr list) act"
  rp_read :: "jsstr \<Rightarrow> ('r, source_error, jsstr option) act"
  rp_write :: "jsstr \<Rightarrow> jsstr \<Rightarrow> ('r, source_error, unit) act"
  rp_isTombstoned :: "jsstr \<Rightarrow> ('r, source_error, bool) act"
  rp_confirmDurable :: "('r, source_error, bool) act"

record ('w, 'r) reconcile_env =
  re_core :: "'w core_options"
  re_state :: "'w local_state_port"
  re_remote :: "'r remote_port"
  re_digest :: "bytes \<Rightarrow> bytes"
  re_compare :: "jsstr \<Rightarrow> jsstr \<Rightarrow> bool"
  re_maxFileBytes :: js_num
  re_now :: "('w, source_error, js_num) act"

record reconcile_result =
  rr_conflicts :: "jsstr list"
  rr_diskWrites :: nat
  rr_remoteWrites :: nat
  rr_skippedOversize :: "jsstr list"
  rr_durable :: bool

type_synonym ('w, 'r, 'a) sync_act = "('w core \<times> 'r, source_error, 'a) act"

definition on_core :: "('w, 'a) core_act \<Rightarrow> ('w, 'r, 'a) sync_act" where
  "on_core m = (\<lambda>(c, r). case m c of (x, c') \<Rightarrow> (x, (c', r)))"

definition on_remote :: "('r, source_error, 'a) act \<Rightarrow> ('w, 'r, 'a) sync_act" where
  "on_remote m = (\<lambda>(c, r). case m r of (x, r') \<Rightarrow> (x, (c, r')))"

section \<open>Texts and names\<close>

definition sha256 :: "(bytes \<Rightarrow> bytes) \<Rightarrow> jsstr \<Rightarrow> jsstr" where
  "sha256 digest contents = bytesToHex (digest (utf8_encode contents))"

text \<open>\<open>new Date(now)\<close> drops the fraction and has no text beyond the last representable time.\<close>

definition stamp_of :: "rat \<Rightarrow> source_error + jsstr" where
  "stamp_of now = (if 8640000000000000 < now then Inl (RangeError ''Invalid time value'')
     else Inr (List.map (\<lambda>u. if u = 46 \<or> u = 58 then 45 else u) (iso_string (nat \<lfloor>now\<rfloor>))))"

definition side_text :: "conflict_winner \<Rightarrow> jsstr" where
  "side_text side = lit (case side of DiskWins \<Rightarrow> ''disk'' | CrdtWins \<Rightarrow> ''remote'')"

definition conflictPath :: "(jsstr \<Rightarrow> jsstr) \<Rightarrow> jsstr \<Rightarrow> rat \<Rightarrow> conflict_winner \<Rightarrow> source_error + jsstr" where
  "conflictPath lower path now side =
     (let filename = last (split_on 47 path);
          directory = take (length path - length filename) path;
          stem = (if take 3 (rev (lower filename)) = rev (lit ''.md'')
                  then take (length filename - 3) filename else filename) in
      case stamp_of now of
        Inl e \<Rightarrow> Inl e
      | Inr stamp \<Rightarrow> Inr (directory @ take 120 stem @ lit '' (MDevolved conflict '' @ side_text side @
          lit '' '' @ stamp @ lit '').md''))"

text \<open>The loop that looks for a free name: \<open>fuel\<close> bounds the suffixes that are tried.\<close>

fun free_artifact ::
  "(jsstr \<Rightarrow> jsstr) \<Rightarrow> jsstr \<Rightarrow> rat \<Rightarrow> conflict_winner \<Rightarrow> jsstr list \<Rightarrow> nat \<Rightarrow> nat \<Rightarrow> jsstr \<Rightarrow>
     (source_error + jsstr) option" where
  "free_artifact lower path now side occupied 0 suffix artifact = None"
| "free_artifact lower path now side occupied (Suc fuel) suffix artifact =
     (if artifact \<notin> set occupied then Some (Inr artifact)
      else case conflictPath lower path (now + of_nat suffix) side of
        Inl e \<Rightarrow> Some (Inl e)
      | Inr artifact' \<Rightarrow> free_artifact lower path now side occupied fuel (suffix + 1) artifact')"

definition findArtifact ::
  "(jsstr \<Rightarrow> jsstr) \<Rightarrow> jsstr \<Rightarrow> rat \<Rightarrow> conflict_winner \<Rightarrow> jsstr list \<Rightarrow> (source_error + jsstr) option" where
  "findArtifact lower path now side occupied = (case conflictPath lower path now side of
     Inl e \<Rightarrow> Some (Inl e)
   | Inr artifact \<Rightarrow> free_artifact lower path now side occupied (Suc (length occupied)) 2 artifact)"

definition act_found :: "('e + 'a) option \<Rightarrow> ('s, 'e, 'a) act" where
  "act_found r = (case r of None \<Rightarrow> act_diverge | Some x \<Rightarrow> act_of x)"

definition safeText :: "'w core_options \<Rightarrow> workspace_entry \<Rightarrow> nat \<Rightarrow> ('w, jsstr option) core_act" where
  "safeText opts entry maxFileBytes =
     act_catch
       (act_bind (core_read opts (we_path entry)) (\<lambda>contents.
        if maxFileBytes < length contents then act_return None
        else case utf8_decode contents of
          None \<Rightarrow> act_throw (TypeError ''The encoded data was not valid for encoding utf-8'')
        | Some t \<Rightarrow> act_return (Some t)))
       (\<lambda>_. act_throw (SyncError ''source_markdown_invalid_utf8'' (Some (we_path entry))))"

section \<open>Reconciling one path\<close>

record reconcile_state =
  rs_occupied :: "jsstr list"
  rs_hashes :: "(jsstr \<times> jsstr) list"
  rs_conflicts :: "jsstr list"
  rs_diskWrites :: nat
  rs_remoteWrites :: nat

definition write_disk ::
  "('w, 'r) reconcile_env \<Rightarrow> jsstr \<Rightarrow> jsstr \<Rightarrow> reconcile_state \<Rightarrow> ('w, 'r, reconcile_state) sync_act" where
  "write_disk env path contents st =
     act_bind (on_core (core_write (re_core env) path (utf8_encode contents))) (\<lambda>_.
     act_return (st\<lparr>rs_diskWrites := rs_diskWrites st + 1\<rparr>))"

definition write_remote ::
  "('w, 'r) reconcile_env \<Rightarrow> jsstr \<Rightarrow> jsstr \<Rightarrow> reconcile_state \<Rightarrow> ('w, 'r, reconcile_state) sync_act" where
  "write_remote env path contents st =
     act_bind (on_remote (rp_write (re_remote env) path contents)) (\<lambda>_.
     act_return (st\<lparr>rs_remoteWrites := rs_remoteWrites st + 1\<rparr>))"

definition keep_hash :: "('w, 'r) reconcile_env \<Rightarrow> jsstr \<Rightarrow> jsstr \<Rightarrow> reconcile_state \<Rightarrow> ('w, 'r, reconcile_state) sync_act" where
  "keep_hash env path contents st =
     act_return (st\<lparr>rs_hashes := AList.update path (sha256 (re_digest env) contents) (rs_hashes st)\<rparr>)"

text \<open>The case \<open>preserve-conflict\<close>: the side that loses is written to a new file first.\<close>

definition preserve_both ::
  "('w, 'r) reconcile_env \<Rightarrow> rat \<Rightarrow> jsstr \<Rightarrow> jsstr \<Rightarrow> jsstr \<Rightarrow> preserved_conflict \<Rightarrow> reconcile_state \<Rightarrow>
     ('w, 'r, reconcile_state) sync_act" where
  "preserve_both env now path localText remoteText d st =
     (let preserved = (if pv_preserveCrdt d then remoteText else localText);
          side = (if pv_preserveCrdt d then CrdtWins else DiskWins) in
      act_bind (act_found (findArtifact (te_lower (co_text (re_core env))) path now side (rs_occupied st)))
        (\<lambda>artifact.
      act_bind (write_disk env artifact preserved (st\<lparr>rs_occupied := rs_occupied st @ [artifact]\<rparr>)) (\<lambda>st.
      let st = st\<lparr>rs_conflicts := rs_conflicts st @ [artifact]\<rparr> in
      if pv_winner d = DiskWins
      then act_bind (write_remote env path localText st) (keep_hash env path localText)
      else act_bind (write_disk env path remoteText st) (keep_hash env path remoteText))))"

definition reconcile_both ::
  "('w, 'r) reconcile_env \<Rightarrow> rat \<Rightarrow> baseline_state \<Rightarrow> jsstr \<Rightarrow> jsstr \<Rightarrow> workspace_entry \<Rightarrow> jsstr \<Rightarrow> reconcile_state \<Rightarrow>
     ('w, 'r, reconcile_state) sync_act" where
  "reconcile_both env now baseline path localText entry remoteText st =
     (case decideClosedFileConflict \<lparr>ci_baselineHash = map_of (bs_hashes baseline) path,
         ci_diskHash = sha256 (re_digest env) localText, ci_crdtHash = sha256 (re_digest env) remoteText,
         ci_diskMtime = we_mtimeMs entry, ci_lastDiskIndexPersistedAt = Some (bs_savedAt baseline)\<rparr> of
        NoOp \<Rightarrow> keep_hash env path localText st
      | ApplyRemoteToDisk \<Rightarrow> act_bind (write_disk env path remoteText st) (keep_hash env path remoteText)
      | ImportDiskToCrdt \<Rightarrow> act_bind (write_remote env path localText st) (keep_hash env path localText)
      | PreserveConflict d \<Rightarrow> preserve_both env now path localText remoteText d st)"

definition reconcile_path ::
  "('w, 'r) reconcile_env \<Rightarrow> nat \<Rightarrow> rat \<Rightarrow> baseline_state \<Rightarrow> (jsstr \<times> (jsstr \<times> workspace_entry)) list \<Rightarrow>
     jsstr \<Rightarrow> reconcile_state \<Rightarrow> ('w, 'r, reconcile_state) sync_act" where
  "reconcile_path env maxBytes now baseline disk path st =
     act_bind (on_remote (rp_read (re_remote env) path)) (\<lambda>remoteContents.
     if (case remoteContents of Some t \<Rightarrow> maxBytes < length (utf8_encode t) | None \<Rightarrow> False)
     then act_throw (SyncError ''remote_markdown_oversize'' (Some path))
     else case (map_of disk path, remoteContents) of
       (None, None) \<Rightarrow> act_return st
     | (None, Some t) \<Rightarrow> act_bind (write_disk env path t st) (keep_hash env path t)
     | (Some (t, _), None) \<Rightarrow>
         act_bind (on_remote (rp_isTombstoned (re_remote env) path)) (\<lambda>tombstoned.
         if tombstoned then act_return (st\<lparr>rs_conflicts := rs_conflicts st @ [path]\<rparr>)
         else act_bind (write_remote env path t st) (keep_hash env path t))
     | (Some (localText, entry), Some remoteText) \<Rightarrow>
         reconcile_both env now baseline path localText entry remoteText st)"

section \<open>The reconciliation\<close>

text \<open>The loop that reads the eligible files: the texts, and the paths skipped as too large.\<close>

definition read_entry ::
  "'w core_options \<Rightarrow> nat \<Rightarrow> workspace_entry \<Rightarrow> (jsstr \<times> (jsstr \<times> workspace_entry)) list \<times> jsstr list \<Rightarrow>
     ('w, (jsstr \<times> (jsstr \<times> workspace_entry)) list \<times> jsstr list) core_act" where
  "read_entry opts maxBytes entry = (\<lambda>(disk, skipped).
     act_bind (safeText opts entry maxBytes) (\<lambda>contents.
     act_return (case contents of
       None \<Rightarrow> (disk, skipped @ [we_path entry])
     | Some t \<Rightarrow> (AList.update (we_path entry) (t, entry) disk, skipped))))"

definition entry_size :: "workspace_entry \<Rightarrow> nat" where
  "entry_size e = (case we_size e of Some n \<Rightarrow> n | None \<Rightarrow> 0)"

definition no_options :: supplied_options where
  "no_options = \<lparr>sup_maxEntries = None, sup_maxFiles = None, sup_maxBytes = None, sup_maxFileBytes = None,
     sup_maxDepth = None, sup_concurrency = None\<rparr>"

definition read_disk ::
  "'w core_options \<Rightarrow> nat \<Rightarrow> ('w, (jsstr \<times> (jsstr \<times> workspace_entry)) list \<times> jsstr list) core_act" where
  "read_disk opts maxBytes =
     act_bind (core_listMarkdown opts no_options) (\<lambda>entries.
     let eligible = filter (\<lambda>e. we_kind e = KFile \<and> entry_size e \<le> maxBytes) entries;
         skipped = List.map we_path (filter (\<lambda>e. maxBytes < entry_size e) entries) in
     act_fold (read_entry opts maxBytes) eligible ([], skipped))"

definition validated_paths :: "(jsstr \<Rightarrow> jsstr) \<Rightarrow> jsstr list \<Rightarrow> source_error + jsstr list" where
  "validated_paths nfc ps = foldr (\<lambda>p acc. case (validateMarkdownPath nfc p, acc) of
     (Inl e, _) \<Rightarrow> Inl e | (_, Inl e) \<Rightarrow> Inl e | (Inr q, Inr qs) \<Rightarrow> Inr (q # qs)) ps (Inr [])"

definition reconcile_texts ::
  "('w, 'r) reconcile_env \<Rightarrow> nat \<Rightarrow> rat \<Rightarrow> baseline_state \<Rightarrow> ('w, 'r, reconcile_result) sync_act" where
  "reconcile_texts env maxBytes now baseline =
     act_bind (on_core (read_disk (re_core env) maxBytes)) (\<lambda>(disk, skippedOversize).
     act_bind (on_remote (rp_listPaths (re_remote env))) (\<lambda>listed.
     act_bind (act_of (validated_paths (te_nfc (co_text (re_core env))) listed)) (\<lambda>remotePaths.
     let paths = fold set_add remotePaths (List.map fst disk) in
     act_bind (act_fold (reconcile_path env maxBytes now baseline disk) (sort_by (re_compare env) paths)
         \<lparr>rs_occupied = paths, rs_hashes = [], rs_conflicts = [], rs_diskWrites = 0, rs_remoteWrites = 0\<rparr>) (\<lambda>st.
     act_bind (if rs_remoteWrites st = 0 then act_return True
         else on_remote (rp_confirmDurable (re_remote env))) (\<lambda>durable.
     if 0 < rs_remoteWrites st \<and> \<not> durable then act_throw (SyncError ''remote_receipt_unconfirmed'' None)
     else act_bind (on_core (on_world (lsp_write (re_state env) BASELINE_KEY
         (baseline_value (Fin now) (rs_hashes st))))) (\<lambda>_.
       act_return \<lparr>rr_conflicts = rs_conflicts st, rr_diskWrites = rs_diskWrites st,
         rr_remoteWrites = rs_remoteWrites st, rr_skippedOversize = skippedOversize, rr_durable = durable\<rparr>))))))"

definition reconcileFolder :: "('w, 'r) reconcile_env \<Rightarrow> ('w, 'r, reconcile_result) sync_act" where
  "reconcileFolder env =
     (if \<not> is_safe_integer_num (re_maxFileBytes env) \<or> int_of_num (re_maxFileBytes env) < 1
      then act_throw (TypeError ''max_file_bytes_invalid'')
      else act_bind (on_core (on_world (re_now env))) (\<lambda>now.
        case now of
          Fin t \<Rightarrow>
            if t < 0 \<or> 8640000000000000 < t then act_throw (TypeError ''reconciliation_time_invalid'')
            else act_bind (on_core (on_world (lsp_read (re_state env) BASELINE_KEY))) (\<lambda>stored.
              reconcile_texts env (nat (int_of_num (re_maxFileBytes env))) t (readBaseline stored))
        | _ \<Rightarrow> act_throw (TypeError ''reconciliation_time_invalid'')))"

end
