(* ===== verification/FolderReconcileSpec.thy ===== *)
theory FolderReconcileSpec
  imports FolderReconcile SourceScanSpec
begin

text \<open>
  What a reconciliation preserves: which texts are still somewhere after each of its writes, that the
  search for a free name ends, and that the baseline it writes is read back.
\<close>

section \<open>The decision\<close>

lemma decide_spec:
  "case decideClosedFileConflict i of
     NoOp \<Rightarrow> ci_diskHash i = ci_crdtHash i
   | ApplyRemoteToDisk \<Rightarrow> ci_baselineHash i = Some (ci_diskHash i)
   | ImportDiskToCrdt \<Rightarrow> ci_baselineHash i = Some (ci_crdtHash i)
   | PreserveConflict d \<Rightarrow> pv_preserveCrdt d = (pv_winner d = DiskWins) \<and> pv_preserveDisk d = (pv_winner d = CrdtWins)"
  by (simp add: decideClosedFileConflict_def Let_def split: option.split)

section \<open>Texts that are kept\<close>

text \<open>The bytes \<open>bs\<close> hold the text \<open>t\<close>: they decode to it, or are its encoding, which loses nothing of a
  text without lone surrogates (the encoder replaces each of those by U+FFFD).\<close>

definition stored_as :: "jsstr \<Rightarrow> bytes \<Rightarrow> bool" where
  "stored_as t bs \<longleftrightarrow> utf8_decode bs = Some t \<or> well_formed t \<and> bs = utf8_encode t"

definition kept :: "(jsstr \<Rightarrow> bytes option) \<Rightarrow> (jsstr \<Rightarrow> jsstr option) \<Rightarrow> jsstr \<Rightarrow> bool" where
  "kept D R t \<longleftrightarrow> (\<exists>q bs. D q = Some bs \<and> stored_as t bs) \<or> (\<exists>q. R q = Some t)"

text \<open>It is kept at a place that the paths still to do, \<open>todo\<close>, and new names leave alone.\<close>

definition pinned ::
  "(jsstr \<Rightarrow> bytes option) \<Rightarrow> (jsstr \<Rightarrow> jsstr option) \<Rightarrow> jsstr set \<Rightarrow> jsstr set \<Rightarrow> jsstr \<Rightarrow> bool" where
  "pinned D R occ todo t \<longleftrightarrow>
     (\<exists>q bs. q \<notin> todo \<and> q \<in> occ \<and> D q = Some bs \<and> stored_as t bs) \<or> (\<exists>q. q \<notin> todo \<and> R q = Some t)"

lemma pinned_kept: "pinned D R occ todo t \<Longrightarrow> kept D R t"
  by (auto simp: pinned_def kept_def)

lemma stored_encoded [simp]: "well_formed t \<Longrightarrow> stored_as t (utf8_encode t)"
  by (simp add: stored_as_def)

text \<open>The text of a file that is small enough to be read.\<close>

definition local_text :: "nat \<Rightarrow> (jsstr \<Rightarrow> bytes option) \<Rightarrow> jsstr \<Rightarrow> jsstr option" where
  "local_text maxBytes D p = (case D p of
     Some bs \<Rightarrow> if length bs \<le> maxBytes then utf8_decode bs else None | None \<Rightarrow> None)"

text \<open>What a run has to keep: the texts both sides started with, apart from those at the baseline and those
  with lone surrogates.\<close>

record initial_texts =
  it_disk :: "jsstr \<Rightarrow> bytes option"
  it_local :: "jsstr \<Rightarrow> jsstr option"
  it_remote :: "jsstr \<Rightarrow> jsstr option"
  it_synced :: "jsstr \<Rightarrow> jsstr \<Rightarrow> bool"

definition texts_ok :: "initial_texts \<Rightarrow> bool" where
  "texts_ok I \<longleftrightarrow> (\<forall>q t. it_local I q = Some t \<longrightarrow> (\<exists>bs. it_disk I q = Some bs \<and> stored_as t bs))"

definition starts_with_text :: "initial_texts \<Rightarrow> jsstr \<Rightarrow> jsstr \<Rightarrow> bool" where
  "starts_with_text I q t \<longleftrightarrow> it_local I q = Some t \<or> it_remote I q = Some t"

definition nothing_lost :: "initial_texts \<Rightarrow> (jsstr \<Rightarrow> bytes option) \<Rightarrow> (jsstr \<Rightarrow> jsstr option) \<Rightarrow> bool" where
  "nothing_lost I D R \<longleftrightarrow> (\<forall>q t. starts_with_text I q t \<and> well_formed t \<longrightarrow> it_synced I q t \<or> kept D R t)"

definition progress ::
  "initial_texts \<Rightarrow> jsstr set \<Rightarrow> jsstr set \<Rightarrow> (jsstr \<Rightarrow> bytes option) \<Rightarrow> (jsstr \<Rightarrow> jsstr option) \<Rightarrow> bool" where
  "progress I occ todo D R \<longleftrightarrow> todo \<subseteq> occ \<and> (\<forall>q\<in>todo. D q = it_disk I q \<and> R q = it_remote I q) \<and>
     (\<forall>q t. q \<notin> todo \<and> starts_with_text I q t \<and> well_formed t \<longrightarrow> it_synced I q t \<or> pinned D R occ todo t)"

lemma progress_lost:
  assumes "texts_ok I" and "progress I occ todo D R"
  shows "nothing_lost I D R"
  unfolding nothing_lost_def
proof (intro allI impI)
  fix q t
  assume t: "starts_with_text I q t \<and> well_formed t"
  show "it_synced I q t \<or> kept D R t"
  proof (cases "q \<in> todo")
    case True
    with assms t show ?thesis
      by (fastforce simp: progress_def starts_with_text_def texts_ok_def kept_def)
  next
    case False
    with assms(2) t have "it_synced I q t \<or> pinned D R occ todo t" by (simp add: progress_def)
    then show ?thesis by (auto intro: pinned_kept)
  qed
qed

lemma progress_start:
  assumes "\<And>q t. it_local I q = Some t \<Longrightarrow> q \<in> occ"
  shows "progress I occ occ (it_disk I) (it_remote I)"
  using assms by (auto simp: progress_def starts_with_text_def pinned_def)

text \<open>One path is done: only it and new names \<open>N\<close> were written.\<close>

lemma progress_step:
  assumes "progress I occ (insert p todo) D R" and "p \<notin> todo"
    and "N \<inter> occ = {}" and "occ' = occ \<union> N"
    and "\<And>q. q \<noteq> p \<Longrightarrow> q \<notin> N \<Longrightarrow> D' q = D q" and "\<And>q. q \<noteq> p \<Longrightarrow> R' q = R q"
    and "\<And>t. starts_with_text I p t \<Longrightarrow> well_formed t \<Longrightarrow> it_synced I p t \<or> pinned D' R' occ' todo t"
  shows "progress I occ' todo D' R'"
proof -
  have old: "todo \<subseteq> occ" "p \<in> occ" "\<forall>q\<in>todo. D q = it_disk I q \<and> R q = it_remote I q"
    using assms(1) by (auto simp: progress_def)
  have same: "D' q = D q" if "q \<in> occ" "q \<noteq> p" for q
    using assms(3,5) that by blast
  have "it_synced I q t \<or> pinned D' R' occ' todo t" if "q \<notin> todo" "starts_with_text I q t" "well_formed t" for q t
  proof (cases "q = p")
    case True
    with assms(7) that show ?thesis by simp
  next
    case False
    with that assms(1) have "it_synced I q t \<or> pinned D R occ (insert p todo) t"
      by (auto simp: progress_def)
    then show ?thesis
    proof
      assume "pinned D R occ (insert p todo) t"
      then have "pinned D' R' occ' todo t"
        using same assms(4,6) by (fastforce simp: pinned_def)
      then show ?thesis ..
    qed simp
  qed
  moreover have "\<forall>q\<in>todo. D' q = it_disk I q \<and> R' q = it_remote I q"
  proof
    fix q
    assume q: "q \<in> todo"
    with assms(2) have "q \<noteq> p" by auto
    moreover from q old(1) have "q \<in> occ" by auto
    ultimately show "D' q = it_disk I q \<and> R' q = it_remote I q"
      using same assms(6) old(3) q by auto
  qed
  ultimately show ?thesis using old assms(4) by (auto simp: progress_def)
qed

section \<open>Lifting\<close>

lemma wp_on_core [wp_simps]:
  "wp (on_core m) Q R s = wp m (\<lambda>x c. Q x (c, snd s)) (\<lambda>e c. R e (c, snd s)) (fst s)"
  by (cases s) (simp add: wp_def on_core_def split: prod.split outcome.split)

lemma wp_on_remote [wp_simps]:
  "wp (on_remote m) Q R s = wp m (\<lambda>x r. Q x (fst s, r)) (\<lambda>e r. R e (fst s, r)) (snd s)"
  by (cases s) (simp add: wp_def on_remote_def split: prod.split outcome.split)

text \<open>The path of a note: one that the Markdown policy accepts as it is.\<close>

abbreviation note_path :: "(jsstr \<Rightarrow> jsstr) \<Rightarrow> jsstr \<Rightarrow> bool" where
  "note_path nfc p \<equiv> validateMarkdownPath nfc p = Inr p"

lemma validated_paths_Inr: "validated_paths nfc ps = Inr qs \<Longrightarrow> qs = ps \<and> list_all (note_path nfc) ps"
proof (induction ps arbitrary: qs)
  case (Cons p ps)
  then show ?case
    by (auto simp: validated_paths_def validateMarkdownPath_Inr dest: validateRelativePath_Inr split: sum.splits)
qed (simp add: validated_paths_def)

section \<open>The search for a free name\<close>

lemma stamp_inject:
  assumes "stamp_of s = Inr x" and "stamp_of t = Inr x" and "0 \<le> s" and "0 \<le> t"
  shows "\<lfloor>s\<rfloor> = \<lfloor>t\<rfloor>"
proof -
  let ?f = "\<lambda>u :: code_unit. if u = 46 \<or> u = 58 then 45 else u"
  have "keeps_digits ?f"
    unfolding keeps_digits_def
  proof (intro allI impI)
    fix d :: nat
    assume "d < 10"
    then have d: "unat (of_nat (48 + d) :: code_unit) = 48 + d" using unat_digit [of d] by simp
    have "(of_nat (48 + d) :: code_unit) \<noteq> 46" "(of_nat (48 + d) :: code_unit) \<noteq> 58"
      using d \<open>d < 10\<close> by (auto dest!: arg_cong [of _ _ unat] simp del: of_nat_add)
    then show "?f (of_nat (48 + d)) = of_nat (48 + d)" by simp
  qed
  moreover have small: "nat \<lfloor>q\<rfloor> \<le> 9000000000000000" if "stamp_of q = Inr x" for q
  proof -
    from that have "q \<le> 8640000000000000" by (auto simp: stamp_of_def split: if_splits)
    then have "\<lfloor>q\<rfloor> \<le> \<lfloor>8640000000000000 :: rat\<rfloor>" by (rule floor_mono)
    then have "nat \<lfloor>q\<rfloor> \<le> nat 8640000000000000" unfolding floor_numeral by (rule nat_mono)
    then show ?thesis by (rule order_trans) simp
  qed
  moreover have "List.map ?f (iso_string (nat \<lfloor>s\<rfloor>)) = List.map ?f (iso_string (nat \<lfloor>t\<rfloor>))"
    using assms(1,2) by (auto simp: stamp_of_def split: if_splits)
  ultimately have "nat \<lfloor>s\<rfloor> = nat \<lfloor>t\<rfloor>"
    using small [OF assms(1)] small [OF assms(2)] by (intro iso_string_inject [of ?f])
  with assms(3,4) eq_nat_nat_iff [of "\<lfloor>s\<rfloor>" "\<lfloor>t\<rfloor>"] show ?thesis by simp
qed

lemma conflictPath_inject:
  assumes "conflictPath lower p s side = Inr a" and "conflictPath lower p t side = Inr a"
    and "0 \<le> s" and "0 \<le> t"
  shows "\<lfloor>s\<rfloor> = \<lfloor>t\<rfloor>"
  using assms by (auto simp: conflictPath_def Let_def split: sum.splits intro: stamp_inject)

text \<open>Each name that is tried is new, so more tries than there are occupied names are never needed.\<close>

lemma free_artifact_ends:
  assumes "0 \<le> now" and "set tried \<subseteq> set occupied" and "distinct tried"
    and "length occupied < length tried + fuel"
    and "conflictPath lower path u side = Inr artifact" and "0 \<le> u" and "\<lfloor>u\<rfloor> < \<lfloor>now\<rfloor> + int suffix"
    and "\<forall>a\<in>set tried. \<exists>v\<ge>0. conflictPath lower path v side = Inr a \<and> \<lfloor>v\<rfloor> < \<lfloor>u\<rfloor>"
  shows "\<exists>r. free_artifact lower path now side occupied fuel suffix artifact = Some r \<and>
     (\<forall>a. r = Inr a \<longrightarrow> a \<notin> set occupied)"
  using assms
proof (induction fuel arbitrary: tried u artifact suffix)
  case 0
  have "length tried = card (set tried)" using 0 by (simp add: distinct_card)
  also have "\<dots> \<le> card (set occupied)" using 0 by (intro card_mono) auto
  also have "\<dots> \<le> length occupied" by (rule card_length)
  finally show ?case using 0 by simp
next
  case (Suc fuel)
  show ?case
  proof (cases "artifact \<in> set occupied")
    case False
    then show ?thesis by simp
  next
    case True
    show ?thesis
    proof (cases "conflictPath lower path (now + of_nat suffix) side")
      case (Inl e)
      with True show ?thesis by simp
    next
      case (Inr artifact')
      have later: "\<lfloor>now + of_nat suffix\<rfloor> = \<lfloor>now\<rfloor> + int suffix" by simp
      have new: "artifact \<notin> set tried"
      proof
        assume "artifact \<in> set tried"
        with Suc.prems(8) obtain v where "v \<ge> 0" "conflictPath lower path v side = Inr artifact" "\<lfloor>v\<rfloor> < \<lfloor>u\<rfloor>" by blast
        with conflictPath_inject [OF _ Suc.prems(5)] Suc.prems(6) show False by (metis less_irrefl)
      qed
      have "\<exists>r. free_artifact lower path now side occupied fuel (suffix + 1) artifact' = Some r \<and>
          (\<forall>a. r = Inr a \<longrightarrow> a \<notin> set occupied)"
      proof (rule Suc.IH [where tried = "artifact # tried" and u = "now + of_nat suffix"])
        show "\<forall>a\<in>set (artifact # tried). \<exists>v\<ge>0. conflictPath lower path v side = Inr a \<and> \<lfloor>v\<rfloor> < \<lfloor>now + of_nat suffix\<rfloor>"
          using Suc.prems(5-8) unfolding later by (auto intro: order.strict_trans)
      qed (use Suc.prems True new Inr in \<open>auto simp: later\<close>)
      with True Inr show ?thesis by simp
    qed
  qed
qed

lemma findArtifact_ends:
  assumes "0 \<le> now"
  shows "\<exists>r. findArtifact lower path now side occupied = Some r \<and> (\<forall>a. r = Inr a \<longrightarrow> a \<notin> set occupied)"
proof (cases "conflictPath lower path now side")
  case (Inl e)
  then show ?thesis by (simp add: findArtifact_def)
next
  case (Inr artifact)
  with assms free_artifact_ends [of now "[]" occupied "Suc (length occupied)" lower path now side artifact 2]
  show ?thesis by (simp add: findArtifact_def)
qed

lemma conflictPath_error: "conflictPath lower path now side = Inl e \<Longrightarrow> e = RangeError ''Invalid time value''"
  by (auto simp: conflictPath_def stamp_of_def Let_def split: sum.splits if_splits)

lemma findArtifact_error:
  assumes "findArtifact lower path now side occupied = Some (Inl e)"
  shows "e = RangeError ''Invalid time value''"
proof -
  have loop: "free_artifact lower path now side occupied fuel suffix a = Some (Inl e) \<Longrightarrow>
      e = RangeError ''Invalid time value''" for fuel suffix a
    by (induction fuel arbitrary: suffix a) (auto dest: conflictPath_error split: if_splits sum.splits)
  from assms show ?thesis
    by (auto simp: findArtifact_def simp del: free_artifact.simps dest: conflictPath_error loop split: sum.splits)
qed

section \<open>The baseline\<close>

lemma sha256_is_hex: "length (digest (utf8_encode t)) = 32 \<Longrightarrow> is_sha256_hex (sha256 digest t)"
  by (simp add: sha256_def is_sha256_hex_def bytesToHex_is_hex)

lemma entries_kept:
  "\<forall>e\<in>set hs. is_sha256_hex (snd e) \<Longrightarrow>
   List.map_filter hash_entry (List.map (\<lambda>(k, h). (k, JStr h)) hs) = hs"
  by (induction hs) (auto simp: List.map_filter_simps hash_entry_def)

lemma copied_hashes:
  "json_copy (JDict (List.map (\<lambda>(k, h). (k, JStr h)) hs)) = JDict (List.map (\<lambda>(k, h). (k, JStr h)) hs)"
  by (induction hs) auto

lemma baseline_roundtrip:
  assumes "\<forall>e\<in>set hs. is_sha256_hex (snd e)"
  shows "readBaseline (json_copy (baseline_value (Fin now) hs)) = \<lparr>bs_savedAt = Fin now, bs_hashes = hs\<rparr>"
  using entries_kept [OF assms]
  by (simp add: readBaseline_def baseline_value_def object_entries_def nat_value_def num_of_nat_def is_finite_num_def
      copied_hashes del: json_copy.simps(5))

end
