(* ===== verification/FolderReconcileRun.thy ===== *)
theory FolderReconcileRun
  imports FolderReconcileSpec
begin

text \<open>
  A reconciliation over any files and any remote that keep their contracts: however it ends no text
  is lost, and when it returns both sides agree on every path it did not report as a conflict.
\<close>

section \<open>Files and a remote that keep their contracts\<close>

text \<open>
  \<open>disk\<close> shows the text files of a core's world, \<open>base\<close> the value stored under the baseline's key, \<open>rem\<close>
  the texts of a remote state by path. The remote answers for the paths of notes, and so do all the calls of
  a reconciliation. \<open>ready\<close> holds while a folder is listed and read, \<open>sound\<close> while it is written.
\<close>

abbreviation env_path :: "('w, 'r) reconcile_env \<Rightarrow> jsstr \<Rightarrow> bool" where
  "env_path env p \<equiv> note_path (te_nfc (co_text (re_core env))) p"

locale remote_texts =
  fixes nfc :: "jsstr \<Rightarrow> jsstr" and remote :: "'r remote_port" and rem :: "'r \<Rightarrow> jsstr \<Rightarrow> jsstr option"
  assumes remote_listed: "wp (rp_listPaths remote)
      (\<lambda>ps r'. rem r' = rem r \<and> (\<forall>p. rem r p \<noteq> None \<longrightarrow> p \<in> set ps)) (\<lambda>_ r'. rem r' = rem r) r"
    and remote_read: "note_path nfc p \<Longrightarrow> wp (rp_read remote p) (\<lambda>x r'. x = rem r p \<and> rem r' = rem r) (\<lambda>_ r'. rem r' = rem r) r"
    and remote_tombstoned: "wp (rp_isTombstoned remote p) (\<lambda>_ r'. rem r' = rem r) (\<lambda>_ r'. rem r' = rem r) r"
    and remote_confirmed: "wp (rp_confirmDurable remote) (\<lambda>_ r'. rem r' = rem r) (\<lambda>_ r'. rem r' = rem r) r"
    and remote_written: "note_path nfc p \<Longrightarrow> wp (rp_write remote p t) (\<lambda>_ r'. rem r' = (rem r)(p := Some t))
      (\<lambda>_ r'. rem r' = rem r \<or> rem r' = (rem r)(p := Some t)) r"

locale reconcile_ports = remote_texts "te_nfc (co_text (re_core env))" "re_remote env" rem
  for env :: "('w, 'r) reconcile_env" and rem :: "'r \<Rightarrow> jsstr \<Rightarrow> jsstr option" +
  fixes ready :: "'w core \<Rightarrow> bool" and sound :: "'w core \<Rightarrow> bool"
    and disk :: "'w core \<Rightarrow> jsstr \<Rightarrow> bytes option" and base :: "'w core \<Rightarrow> js_value"
  assumes ready_sound: "ready c \<Longrightarrow> sound c"
    and disk_paths: "ready c \<Longrightarrow> disk c p \<noteq> None \<Longrightarrow> env_path env p"
    and now_port: "ready c \<Longrightarrow> wp (on_world (re_now env)) (\<lambda>_ c'. ready c' \<and> disk c' = disk c \<and> base c' = base c)
      (\<lambda>_ c'. disk c' = disk c) c"
    and state_read_port: "ready c \<Longrightarrow> wp (on_world (lsp_read (re_state env) BASELINE_KEY))
      (\<lambda>v c'. v = base c \<and> ready c' \<and> disk c' = disk c) (\<lambda>_ c'. disk c' = disk c) c"
    and state_write_port: "sound c \<Longrightarrow> wp (on_world (lsp_write (re_state env) BASELINE_KEY v))
      (\<lambda>_ c'. disk c' = disk c \<and> base c' = json_copy v) (\<lambda>_ c'. disk c' = disk c) c"
    and files_listed: "ready c \<Longrightarrow> wp (core_listMarkdown (re_core env) no_options)
      (\<lambda>es c'. ready c' \<and> disk c' = disk c \<and> (\<forall>p bs. disk c p = Some bs \<longrightarrow>
         (\<exists>e\<in>set es. we_path e = p \<and> we_kind e = KFile \<and> we_size e = Some (length bs))))
      (\<lambda>_ c'. disk c' = disk c) c"
    and file_read: "ready c \<Longrightarrow> wp (core_read (re_core env) p)
      (\<lambda>bs c'. ready c' \<and> disk c' = disk c \<and> disk c p = Some bs) (\<lambda>_ c'. disk c' = disk c) c"
    and file_written: "sound c \<Longrightarrow> wp (core_write (re_core env) p bs)
      (\<lambda>_ c'. sound c' \<and> disk c' = (disk c)(p := Some bs)) (\<lambda>_ c'. disk c' = disk c) c"
    and digest_length: "length (re_digest env bs) = 32"
begin

text \<open>The progress of a run, as a predicate of its state; \<open>safe\<close> is what a failure leaves.\<close>

definition reached :: "initial_texts \<Rightarrow> jsstr set \<Rightarrow> jsstr set \<Rightarrow> 'w core \<times> 'r \<Rightarrow> bool" where
  "reached I occ todo s \<longleftrightarrow> progress I occ todo (disk (fst s)) (rem (snd s))"

definition safe :: "initial_texts \<Rightarrow> 'w core \<times> 'r \<Rightarrow> bool" where
  "safe I s \<longleftrightarrow> nothing_lost I (disk (fst s)) (rem (snd s))"

lemma reached_safe: "texts_ok I \<Longrightarrow> reached I occ todo s \<Longrightarrow> safe I s"
  unfolding reached_def safe_def by (rule progress_lost)

lemma safe_same: "disk (fst s') = disk (fst s) \<Longrightarrow> rem (snd s') = rem (snd s) \<Longrightarrow> safe I s \<Longrightarrow> safe I s'"
  by (simp add: safe_def)

lemma wp_write_disk:
  assumes "sound (fst s)"
    and "\<And>c'. sound c' \<Longrightarrow> disk c' = (disk (fst s))(p := Some (utf8_encode t)) \<Longrightarrow>
      Q (st\<lparr>rs_diskWrites := Suc (rs_diskWrites st)\<rparr>) (c', snd s)"
    and "\<And>e c'. disk c' = disk (fst s) \<Longrightarrow> R e (c', snd s)"
  shows "wp (write_disk env p t st) Q R s"
  unfolding write_disk_def wp_bind wp_on_core
  by (rule wp_mono [OF file_written [OF assms(1)]]) (auto simp: wp_return intro: assms(2,3))

lemma wp_write_remote:
  assumes path: "env_path env p" and "\<And>r'. rem r' = (rem (snd s))(p := Some t) \<Longrightarrow>
      Q (st\<lparr>rs_remoteWrites := Suc (rs_remoteWrites st)\<rparr>) (fst s, r')"
    and "\<And>e r'. rem r' = rem (snd s) \<or> rem r' = (rem (snd s))(p := Some t) \<Longrightarrow> R e (fst s, r')"
  shows "wp (write_remote env p t st) Q R s"
  unfolding write_remote_def wp_bind wp_on_remote
  by (rule wp_mono [OF remote_written [OF path]]) (auto simp: wp_return intro: assms(2,3))

text \<open>The effect of one path: only it and at most one new name are written.\<close>

lemma reached_step:
  assumes "reached I occ (insert p todo) s" and "p \<notin> todo" and "N \<inter> occ = {}" and "occ' = occ \<union> N"
    and "\<And>q. q \<noteq> p \<Longrightarrow> q \<notin> N \<Longrightarrow> disk (fst s') q = disk (fst s) q" and "\<And>q. q \<noteq> p \<Longrightarrow> rem (snd s') q = rem (snd s) q"
    and "\<And>t. starts_with_text I p t \<Longrightarrow> well_formed t \<Longrightarrow>
      it_synced I p t \<or> pinned (disk (fst s')) (rem (snd s')) occ' todo t"
  shows "reached I occ' todo s'"
  using progress_step [OF assms(1) [unfolded reached_def] assms(2-7)] by (simp add: reached_def)

text \<open>How a text of the path is found again.\<close>

lemma pinned_here:
  "p \<notin> todo \<Longrightarrow> R p = Some t \<Longrightarrow> pinned D R occ todo t"
  "q \<notin> todo \<Longrightarrow> q \<in> occ \<Longrightarrow> D q = Some bs \<Longrightarrow> stored_as t bs \<Longrightarrow> pinned D R occ todo t"
  by (auto simp: pinned_def)

definition both_sides :: "initial_texts \<Rightarrow> jsstr \<Rightarrow> 'w core \<times> 'r \<Rightarrow> jsstr \<Rightarrow> jsstr \<Rightarrow> bool" where
  "both_sides I p s lt rt \<longleftrightarrow> it_local I p = Some lt \<and> it_remote I p = Some rt \<and> rem (snd s) p = Some rt \<and>
     (\<exists>bs. disk (fst s) p = Some bs \<and> stored_as lt bs)"

lemma preserve_step:
  assumes I: "texts_ok I" and now: "0 \<le> now" and st: "set (rs_occupied st) = occ"
    and sound: "sound (fst s)" and reached: "reached I occ (insert p todo) s" and p: "p \<notin> todo"
    and both: "both_sides I p s lt rt" and d: "pv_preserveCrdt d = (pv_winner d = DiskWins)" and path: "env_path env p"
  shows "wp (preserve_both env now p lt rt d st)
     (\<lambda>st' s'. sound (fst s') \<and> reached I (set (rs_occupied st')) todo s') (\<lambda>_. safe I) s"
proof -
  let ?Q = "\<lambda>st' s'. sound (fst s') \<and> reached I (set (rs_occupied st')) todo s'" and ?R = "\<lambda>_ :: source_error option. safe I"
  have safe: "safe I s" by (rule reached_safe [OF I reached])
  have texts: "t = lt \<or> t = rt" if "starts_with_text I p t" for t
    using both that by (auto simp: both_sides_def starts_with_text_def)
  have p_occ: "p \<in> occ" and todo_occ: "todo \<subseteq> occ" using reached by (auto simp: reached_def progress_def)
  obtain r where r: "findArtifact (te_lower (co_text (re_core env))) p now
      (if pv_preserveCrdt d then CrdtWins else DiskWins) (rs_occupied st) = Some r" "\<And>a. r = Inr a \<Longrightarrow> a \<notin> occ"
    using findArtifact_ends [OF now, of "te_lower (co_text (re_core env))" p
        "if pv_preserveCrdt d then CrdtWins else DiskWins" "rs_occupied st"] st by metis
  show ?thesis
  proof (cases r)
    case (Inl e)
    then show ?thesis
      by (simp add: preserve_both_def Let_def r(1) act_found_def wp_bind [of "act_throw _"] wp_throw safe)
  next
    case (Inr a)
    have new: "a \<notin> occ" by (rule r(2) [OF Inr])
    then have a: "a \<noteq> p" "a \<notin> todo" using p_occ todo_occ by auto
    let ?t = "if pv_preserveCrdt d then rt else lt"
    let ?st = "\<lambda>st1. st1\<lparr>rs_conflicts := rs_conflicts st1 @ [a]\<rparr>"
    let ?rest = "\<lambda>st1. if pv_winner d = DiskWins
      then act_bind (write_remote env p lt (?st st1)) (keep_hash env p lt)
      else act_bind (write_disk env p rt (?st st1)) (keep_hash env p rt)"
    have stage: "reached I (insert a occ) todo s'"
      if "disk (fst s') a = Some (utf8_encode ?t)" "\<And>q. q \<noteq> a \<Longrightarrow> q \<noteq> p \<Longrightarrow> disk (fst s') q = disk (fst s) q"
        "\<And>q. q \<noteq> p \<Longrightarrow> rem (snd s') q = rem (snd s) q"
        "\<And>t. t = (if pv_preserveCrdt d then lt else rt) \<Longrightarrow> pinned (disk (fst s')) (rem (snd s')) (insert a occ) todo t" for s'
    proof (rule reached_step [OF reached p, where N = "{a}"])
      fix t
      assume "starts_with_text I p t" and wf: "well_formed t"
      from texts [OF this(1)] have "t = ?t \<or> t = (if pv_preserveCrdt d then lt else rt)" by auto
      then show "it_synced I p t \<or> pinned (disk (fst s')) (rem (snd s')) (insert a occ) todo t"
        using that(4) pinned_here(2) [of a todo "insert a occ" "disk (fst s')" "utf8_encode ?t" ?t "rem (snd s')"] that(1) a wf
        by auto
    qed (use that new in auto)
    have rest: "wp (?rest st1) ?Q ?R (c1, snd s)"
      if c1: "sound c1" "disk c1 = (disk (fst s))(a := Some (utf8_encode ?t))"
        and occ1: "set (rs_occupied st1) = insert a occ" for st1 c1
    proof (cases "pv_winner d")
      case DiskWins
      then have crdt: "pv_preserveCrdt d" using d by simp
      have fin: "reached I (insert a occ) todo (c1, r')" if "\<And>q. q \<noteq> p \<Longrightarrow> rem r' q = rem (snd s) q" for r'
        by (rule stage) (use that c1 both crdt a p p_occ in \<open>auto simp: both_sides_def intro: pinned_here\<close>)
      have "safe I (c1, r')" if "\<And>q. q \<noteq> p \<Longrightarrow> rem r' q = rem (snd s) q" for r'
        by (rule reached_safe [OF I fin [OF that]])
      with fin show ?thesis
        using DiskWins c1(1) occ1 path
        by (auto simp: wp_bind keep_hash_def wp_return intro!: wp_write_remote)
    next
      case CrdtWins
      then have crdt: "\<not> pv_preserveCrdt d" using d by simp
      have remote: "rem (snd s) p = Some rt" using both by (simp add: both_sides_def)
      have fin: "reached I (insert a occ) todo (c2, snd s)" if "\<And>q. q \<noteq> p \<Longrightarrow> disk c2 q = disk c1 q" for c2
        by (rule stage) (use that c1 crdt a p remote in \<open>auto intro: pinned_here\<close>)
      have "safe I (c2, snd s)" if "\<And>q. q \<noteq> p \<Longrightarrow> disk c2 q = disk c1 q" for c2
        by (rule reached_safe [OF I fin [OF that]])
      with CrdtWins c1(1) occ1 fin show ?thesis
        by (auto simp: wp_bind keep_hash_def wp_return intro!: wp_write_disk)
    qed
    have found: "act_found (findArtifact (te_lower (co_text (re_core env))) p now
        (if pv_preserveCrdt d then CrdtWins else DiskWins) (rs_occupied st)) = act_return a"
      by (simp add: r(1) Inr act_found_def)
    show ?thesis
      unfolding preserve_both_def Let_def found act_bind_return wp_bind [of "write_disk _ _ _ _"]
    proof (rule wp_write_disk [OF sound])
      let ?st1 = "st\<lparr>rs_occupied := rs_occupied st @ [a]\<rparr>"
      fix c'
      assume "sound c'" "disk c' = (disk (fst s))(a := Some (utf8_encode ?t))"
      then show "wp (?rest (?st1\<lparr>rs_diskWrites := Suc (rs_diskWrites ?st1)\<rparr>)) ?Q ?R (c', snd s)"
        by (rule rest) (simp add: st)
    qed (use safe in \<open>auto intro: safe_same\<close>)
  qed
qed

lemma both_step:
  assumes I: "texts_ok I" and now: "0 \<le> now" and st: "set (rs_occupied st) = occ"
    and sound: "sound (fst s)" and reached: "reached I occ (insert p todo) s" and p: "p \<notin> todo"
    and both: "both_sides I p s lt rt" and path: "env_path env p"
    and synced: "\<And>t. it_synced I p t = (map_of (bs_hashes baseline) p = Some (sha256 (re_digest env) t))"
  shows "wp (reconcile_both env now baseline p lt entry rt st)
     (\<lambda>st' s'. sound (fst s') \<and> reached I (set (rs_occupied st')) todo s') (\<lambda>_. safe I) s"
proof -
  let ?i = "\<lparr>ci_baselineHash = map_of (bs_hashes baseline) p,
         ci_diskHash = sha256 (re_digest env) lt, ci_crdtHash = sha256 (re_digest env) rt,
         ci_diskMtime = we_mtimeMs entry, ci_lastDiskIndexPersistedAt = Some (bs_savedAt baseline)\<rparr>"
  have safe: "safe I s" by (rule reached_safe [OF I reached])
  have occ: "p \<in> occ" using reached by (auto simp: reached_def progress_def)
  have texts: "t = lt \<or> t = rt" if "starts_with_text I p t" for t
    using both that by (auto simp: both_sides_def starts_with_text_def)
  have stage: "reached I occ todo s'"
    if "\<And>q. q \<noteq> p \<Longrightarrow> disk (fst s') q = disk (fst s) q" "\<And>q. q \<noteq> p \<Longrightarrow> rem (snd s') q = rem (snd s) q"
      "it_synced I p lt \<or> pinned (disk (fst s')) (rem (snd s')) occ todo lt"
      "it_synced I p rt \<or> pinned (disk (fst s')) (rem (snd s')) occ todo rt" for s'
    by (rule reached_step [OF reached p, where N = "{}"]) (use that texts in auto)
  have sides: "pinned D (rem (snd s)) occ todo rt" "pinned (disk (fst s)) R occ todo lt" for D R
    using both p occ by (auto simp: both_sides_def intro: pinned_here)
  note spec = decide_spec [of ?i]
  show ?thesis
  proof (cases "decideClosedFileConflict ?i")
    case NoOp
    have "reached I occ todo s" by (rule stage) (simp_all add: sides)
    with NoOp sound st show ?thesis by (simp add: reconcile_both_def keep_hash_def wp_return)
  next
    case ApplyRemoteToDisk
    with spec have "it_synced I p lt" by (simp add: synced)
    then have "reached I occ todo (c', snd s)" if "\<And>q. q \<noteq> p \<Longrightarrow> disk c' q = disk (fst s) q" for c'
      by (intro stage) (simp_all add: that sides)
    with ApplyRemoteToDisk st sound safe show ?thesis
      by (auto simp: reconcile_both_def wp_bind keep_hash_def wp_return intro!: wp_write_disk intro: safe_same)
  next
    case ImportDiskToCrdt
    with spec have "it_synced I p rt" by (simp add: synced)
    then have fin: "reached I occ todo (fst s, r')" if "\<And>q. q \<noteq> p \<Longrightarrow> rem r' q = rem (snd s) q" for r'
      by (intro stage) (simp_all add: that sides)
    have "safe I (fst s, r')" if "\<And>q. q \<noteq> p \<Longrightarrow> rem r' q = rem (snd s) q" for r'
      by (rule reached_safe [OF I fin [OF that]])
    with ImportDiskToCrdt st sound fin path show ?thesis
      by (auto simp: reconcile_both_def wp_bind keep_hash_def wp_return intro!: wp_write_remote)
  next
    case (PreserveConflict d)
    with spec have "pv_preserveCrdt d = (pv_winner d = DiskWins)" by simp
    from preserve_step [OF I now st sound reached p both this path] PreserveConflict show ?thesis
      by (simp add: reconcile_both_def)
  qed
qed

lemma path_step:
  assumes I: "texts_ok I" and now: "0 \<le> now" and st: "set (rs_occupied st) = occ"
    and sound: "sound (fst s)" and reached: "reached I occ (insert p todo) s" and p: "p \<notin> todo"
    and locals: "it_local I p = map_option fst (map_of texts p)" and path: "env_path env p"
    and synced: "\<And>t. it_synced I p t = (map_of (bs_hashes baseline) p = Some (sha256 (re_digest env) t))"
  shows "wp (reconcile_path env maxBytes now baseline texts p st)
     (\<lambda>st' s'. sound (fst s') \<and> reached I (set (rs_occupied st')) todo s') (\<lambda>_. safe I) s"
proof -
  let ?Q = "\<lambda>st' s'. sound (fst s') \<and> reached I (set (rs_occupied st')) todo s'" and ?R = "\<lambda>_ :: source_error option. safe I"
  have start: "disk (fst s) p = it_disk I p" "rem (snd s) p = it_remote I p" and occ: "p \<in> occ"
    using reached by (auto simp: reached_def progress_def)
  have stage: "reached I occ todo s'"
    if "\<And>q. q \<noteq> p \<Longrightarrow> disk (fst s') q = disk (fst s) q" "\<And>q. q \<noteq> p \<Longrightarrow> rem (snd s') q = rem (snd s) q"
      "\<And>t. starts_with_text I p t \<Longrightarrow> pinned (disk (fst s')) (rem (snd s')) occ todo t" for s'
    by (rule reached_step [OF reached p, where N = "{}"]) (use that in auto)
  have local_kept: "\<exists>bs. disk (fst s) p = Some bs \<and> stored_as t bs" if "it_local I p = Some t" for t
    using I that start by (auto simp: texts_ok_def)
  have go: "wp (if b then act_throw e else case (map_of texts p, it_remote I p) of
       (None, None) \<Rightarrow> act_return st
     | (None, Some t) \<Rightarrow> act_bind (write_disk env p t st) (keep_hash env p t)
     | (Some (t, _), None) \<Rightarrow>
         act_bind (on_remote (rp_isTombstoned (re_remote env) p)) (\<lambda>tombstoned.
         if tombstoned then act_return (st\<lparr>rs_conflicts := rs_conflicts st @ [p]\<rparr>)
         else act_bind (write_remote env p t st) (keep_hash env p t))
     | (Some (localText, entry), Some remoteText) \<Rightarrow>
         reconcile_both env now baseline p localText entry remoteText st) ?Q ?R (fst s, r)"
    if r: "rem r = rem (snd s)" for b e r
  proof -
    let ?s = "(fst s, r)"
    have reached': "reached I occ (insert p todo) ?s" using reached r by (simp add: reached_def)
    have safe: "safe I ?s" by (rule reached_safe [OF I reached'])
    consider (none) "map_of texts p = None" "it_remote I p = None"
      | (remote) t where "map_of texts p = None" "it_remote I p = Some t"
      | (loc) t entry where "map_of texts p = Some (t, entry)" "it_remote I p = None"
      | (both) lt entry rt where "map_of texts p = Some (lt, entry)" "it_remote I p = Some rt"
      by (metis not_Some_eq surj_pair)
    then show ?thesis
    proof cases
      case none
      then have "reached I occ todo ?s" by (intro stage) (simp_all add: r starts_with_text_def locals)
      with none safe sound st show ?thesis by (simp add: wp_return wp_throw)
    next
      case remote
      then have fin: "reached I occ todo (c', r)" if "\<And>q. q \<noteq> p \<Longrightarrow> disk c' q = disk (fst s) q" for c'
        by (intro stage) (use that r start p in \<open>auto simp: starts_with_text_def locals intro: pinned_here\<close>)
      have "safe I (c', r)" if "\<And>q. q \<noteq> p \<Longrightarrow> disk c' q = disk (fst s) q" for c'
        by (rule reached_safe [OF I fin [OF that]])
      with fin remote safe sound st show ?thesis
        by (auto simp: wp_throw wp_bind keep_hash_def wp_return intro!: wp_write_disk)
    next
      case loc
      then have lt: "it_local I p = Some t" by (simp add: locals)
      have fin: "reached I occ todo (fst s, r')" if "\<And>q. q \<noteq> p \<Longrightarrow> rem r' q = rem (snd s) q" for r'
        by (rule stage) (use that p occ loc lt local_kept [OF lt] in \<open>auto simp: starts_with_text_def intro: pinned_here\<close>)
      have fail: "safe I (fst s, r')" if "\<And>q. q \<noteq> p \<Longrightarrow> rem r' q = rem (snd s) q" for r'
        by (rule reached_safe [OF I fin [OF that]])
      have "wp (on_remote (rp_isTombstoned (re_remote env) p)) (\<lambda>tombstoned. wp
         (if tombstoned then act_return (st\<lparr>rs_conflicts := rs_conflicts st @ [p]\<rparr>)
         else act_bind (write_remote env p t st) (keep_hash env p t)) ?Q ?R) ?R ?s"
        unfolding wp_on_remote
        by (rule wp_mono [OF remote_tombstoned])
          (use fin fail sound st r path in \<open>auto simp: wp_return wp_bind keep_hash_def intro!: wp_write_remote\<close>)
      with loc safe show ?thesis by (simp add: wp_throw wp_bind [of "on_remote _"])
    next
      case both
      then have "both_sides I p ?s lt rt"
        using start local_kept by (simp add: both_sides_def locals r)
      from both_step [OF I now st _ reached' p this path synced, of entry] sound safe both show ?thesis
        by (simp add: wp_throw)
    qed
  qed
  show ?thesis
    unfolding reconcile_path_def wp_bind [of "on_remote _"] wp_on_remote
    by (rule wp_mono [OF remote_read [OF path]]) (use go start reached_safe [OF I reached] in \<open>auto intro: safe_same\<close>)
qed

text \<open>
  What a run that returns achieves: a path whose hash is recorded has that text on both sides, and each
  path with a text is recorded, unless it was tombstoned and is reported.
\<close>

definition agree :: "jsstr \<Rightarrow> jsstr \<Rightarrow> 'w core \<times> 'r \<Rightarrow> bool" where
  "agree p h s \<longleftrightarrow> (\<exists>bs lt rt. disk (fst s) p = Some bs \<and> stored_as lt bs \<and> rem (snd s) p = Some rt \<and>
     sha256 (re_digest env) lt = h \<and> sha256 (re_digest env) rt = h)"

definition settled :: "initial_texts \<Rightarrow> jsstr set \<Rightarrow> reconcile_state \<Rightarrow> 'w core \<times> 'r \<Rightarrow> bool" where
  "settled I todo st s \<longleftrightarrow> distinct (List.map fst (rs_hashes st)) \<and>
     fst ` set (rs_hashes st) \<subseteq> set (rs_occupied st) - todo \<and>
     (\<forall>q h. map_of (rs_hashes st) q = Some h \<longrightarrow> is_sha256_hex h \<and> agree q h s) \<and>
     (\<forall>q t. q \<notin> todo \<and> starts_with_text I q t \<longrightarrow>
        it_remote I q = None \<and> q \<in> set (rs_conflicts st) \<or> q \<in> fst ` set (rs_hashes st)) \<and>
     (\<forall>q t. it_remote I q = Some t \<longrightarrow> q \<in> set (rs_occupied st)) \<and>
     (\<forall>q t. q \<notin> todo \<and> it_local I q = None \<and> it_remote I q = Some t \<longrightarrow> disk (fst s) q = Some (utf8_encode t))"

lemma settledI:
  assumes "distinct (List.map fst (rs_hashes st))"
    and "\<And>q. q \<in> fst ` set (rs_hashes st) \<Longrightarrow> q \<in> set (rs_occupied st) \<and> q \<notin> todo"
    and "\<And>q h. map_of (rs_hashes st) q = Some h \<Longrightarrow> is_sha256_hex h \<and> agree q h s"
    and "\<And>q t. q \<notin> todo \<Longrightarrow> starts_with_text I q t \<Longrightarrow>
      it_remote I q = None \<and> q \<in> set (rs_conflicts st) \<or> q \<in> fst ` set (rs_hashes st)"
    and "\<And>q t. it_remote I q = Some t \<Longrightarrow> q \<in> set (rs_occupied st)"
    and "\<And>q t. q \<notin> todo \<Longrightarrow> it_local I q = None \<Longrightarrow> it_remote I q = Some t \<Longrightarrow> disk (fst s) q = Some (utf8_encode t)"
  shows "settled I todo st s"
  unfolding settled_def using assms by (intro conjI subsetI allI impI; (elim conjE)?) simp_all

lemma settledD:
  assumes "settled I todo st s"
  shows "distinct (List.map fst (rs_hashes st))"
    and "q \<in> fst ` set (rs_hashes st) \<Longrightarrow> q \<in> set (rs_occupied st) \<and> q \<notin> todo"
    and "map_of (rs_hashes st) q = Some h \<Longrightarrow> is_sha256_hex h \<and> agree q h s"
    and "q \<notin> todo \<Longrightarrow> starts_with_text I q t \<Longrightarrow>
      it_remote I q = None \<and> q \<in> set (rs_conflicts st) \<or> q \<in> fst ` set (rs_hashes st)"
    and "it_remote I q = Some t \<Longrightarrow> q \<in> set (rs_occupied st)"
    and "q \<notin> todo \<Longrightarrow> it_local I q = None \<Longrightarrow> it_remote I q = Some t \<Longrightarrow> disk (fst s) q = Some (utf8_encode t)"
  using assms unfolding settled_def by blast+

lemma settled_keep:
  assumes settled: "settled I (insert p todo) st s" and "p \<notin> todo" and "p \<in> set (rs_occupied st)"
    and hashes: "rs_hashes st' = AList.update p (sha256 (re_digest env) t) (rs_hashes st)"
    and here: "agree p (sha256 (re_digest env) t) s'"
    and grow: "set (rs_occupied st) \<subseteq> set (rs_occupied st')" "set (rs_conflicts st) \<subseteq> set (rs_conflicts st')"
    and others: "\<And>q. q \<noteq> p \<Longrightarrow> q \<in> set (rs_occupied st) \<Longrightarrow> disk (fst s') q = disk (fst s) q"
      "\<And>q. q \<noteq> p \<Longrightarrow> rem (snd s') q = rem (snd s) q"
    and fetched: "\<And>r. it_local I p = None \<Longrightarrow> it_remote I p = Some r \<Longrightarrow> disk (fst s') p = Some (utf8_encode r)"
  shows "settled I todo st' s'"
proof (rule settledI)
  note old = settledD [OF settled]
  have keys: "fst ` set (rs_hashes st') = insert p (fst ` set (rs_hashes st))"
    by (simp add: hashes dom_map_of_conv_image_fst [symmetric] update_conv')
  show "distinct (List.map fst (rs_hashes st'))" using old(1) by (simp add: hashes distinct_update)
  fix q
  show "q \<in> fst ` set (rs_hashes st') \<Longrightarrow> q \<in> set (rs_occupied st') \<and> q \<notin> todo"
    unfolding keys using old(2) [of q] assms(2,3) grow(1) by blast
  show "it_remote I q = Some r \<Longrightarrow> q \<in> set (rs_occupied st')" for r using old(5) [of q r] grow(1) by blast
  show "is_sha256_hex h \<and> agree q h s'" if "map_of (rs_hashes st') q = Some h" for h
  proof (cases "q = p")
    case True
    with that have "h = sha256 (re_digest env) t" by (simp add: hashes update_conv')
    with True here show ?thesis using sha256_is_hex [OF digest_length] by simp
  next
    case False
    with that have q: "map_of (rs_hashes st) q = Some h" by (simp add: hashes update_conv')
    then have "q \<in> set (rs_occupied st)" using old(2) [of q] by (force dest: map_of_SomeD)
    with False others [of q] old(3) [OF q] show ?thesis by (simp add: agree_def)
  qed
  show "it_remote I q = None \<and> q \<in> set (rs_conflicts st') \<or> q \<in> fst ` set (rs_hashes st')"
    if "q \<notin> todo" "starts_with_text I q t'" for t'
    unfolding keys using old(4) [of q t'] that grow(2) by blast
  show "disk (fst s') q = Some (utf8_encode r)"
    if "q \<notin> todo" "it_local I q = None" "it_remote I q = Some r" for r
  proof (cases "q = p")
    case True
    with that fetched show ?thesis by simp
  next
    case False
    with that old(5,6) [of q r] others(1) show ?thesis by simp
  qed
qed

lemma settled_skip:
  assumes settled: "settled I (insert p todo) st s"
    and "rs_hashes st' = rs_hashes st" and "rs_occupied st' = rs_occupied st"
    and "set (rs_conflicts st) \<subseteq> set (rs_conflicts st')"
    and "disk (fst s') = disk (fst s)" and "rem (snd s') = rem (snd s)"
    and conflict: "\<And>t. starts_with_text I p t \<Longrightarrow> it_remote I p = None \<and> p \<in> set (rs_conflicts st')"
  shows "settled I todo st' s'"
proof (rule settledI, unfold assms(2,3))
  note old = settledD [OF settled]
  show "distinct (List.map fst (rs_hashes st))" by (rule old(1))
  fix q
  show "q \<in> fst ` set (rs_hashes st) \<Longrightarrow> q \<in> set (rs_occupied st) \<and> q \<notin> todo" using old(2) [of q] by blast
  show "it_remote I q = Some r \<Longrightarrow> q \<in> set (rs_occupied st)" for r by (rule old(5))
  show "map_of (rs_hashes st) q = Some h \<Longrightarrow> is_sha256_hex h \<and> agree q h s'" for h
    using old(3) [of q h] assms(5,6) by (simp add: agree_def)
  show "it_remote I q = None \<and> q \<in> set (rs_conflicts st') \<or> q \<in> fst ` set (rs_hashes st)"
    if "q \<notin> todo" "starts_with_text I q t" for t
    using that old(4) [of q t] conflict [of t] assms(4) by (cases "q = p") auto
  show "disk (fst s') q = Some (utf8_encode r)"
    if "q \<notin> todo" "it_local I q = None" "it_remote I q = Some r" for r
  proof -
    have "q \<noteq> p" using that(3) conflict [of r] by (auto simp: starts_with_text_def)
    with that old(6) [of q r] assms(5) show ?thesis by simp
  qed
qed

lemma settled_same:
  "settled I todo st s \<Longrightarrow> disk (fst s') = disk (fst s) \<Longrightarrow> rem (snd s') = rem (snd s) \<Longrightarrow> settled I todo st s'"
  by (simp add: settled_def agree_def)

lemma agree_both:
  "disk (fst s) p = Some bs \<Longrightarrow> stored_as t bs \<Longrightarrow> rem (snd s) p = Some t \<Longrightarrow> agree p (sha256 (re_digest env) t) s"
  by (auto simp: agree_def)

text \<open>A text that is written on disk agrees with the remote even if its lone surrogates were replaced.\<close>

lemma agree_written:
  "disk (fst s) p = Some (utf8_encode t) \<Longrightarrow> rem (snd s) p = Some t \<Longrightarrow> agree p (sha256 (re_digest env) t) s"
  unfolding agree_def
  by (intro exI [of _ "utf8_encode t"] exI [of _ "scrubbed t"] exI [of _ t])
    (simp add: stored_as_def sha256_def scrubbed_encode)

lemma preserve_settled:
  assumes now: "0 \<le> now" and sound: "sound (fst s)" and settled: "settled I (insert p todo) st s"
    and p: "p \<notin> todo" "p \<in> set (rs_occupied st)" and both: "both_sides I p s lt rt" and path: "env_path env p"
  shows "wp (preserve_both env now p lt rt d st) (\<lambda>st' s'. settled I todo st' s') (\<lambda>_ _. True) s"
proof -
  obtain r where r: "findArtifact (te_lower (co_text (re_core env))) p now
      (if pv_preserveCrdt d then CrdtWins else DiskWins) (rs_occupied st) = Some r" "\<And>a. r = Inr a \<Longrightarrow> a \<notin> set (rs_occupied st)"
    using findArtifact_ends [OF now, of "te_lower (co_text (re_core env))" p
        "if pv_preserveCrdt d then CrdtWins else DiskWins" "rs_occupied st"] by metis
  show ?thesis
  proof (cases r)
    case (Inl e)
    then show ?thesis
      by (simp add: preserve_both_def Let_def r(1) act_found_def wp_bind [of "act_throw _"] wp_throw)
  next
    case (Inr a)
    with r(2) p(2) have a: "a \<notin> set (rs_occupied st)" "a \<noteq> p" by auto
    have found: "act_found (findArtifact (te_lower (co_text (re_core env))) p now
        (if pv_preserveCrdt d then CrdtWins else DiskWins) (rs_occupied st)) = act_return a"
      by (simp add: r(1) Inr act_found_def)
    let ?st = "\<lambda>st1. st1\<lparr>rs_conflicts := rs_conflicts st1 @ [a]\<rparr>"
    have fin: "settled I todo st' s'"
      if "rs_hashes st' = AList.update p (sha256 (re_digest env) t) (rs_hashes st)"
        "rs_occupied st' = rs_occupied st @ [a]" "rs_conflicts st' = rs_conflicts st @ [a]"
        "agree p (sha256 (re_digest env) t) s'"
        "\<And>q. q \<noteq> p \<Longrightarrow> q \<noteq> a \<Longrightarrow> disk (fst s') q = disk (fst s) q" "\<And>q. q \<noteq> p \<Longrightarrow> rem (snd s') q = rem (snd s) q"
      for st' s' t
      by (rule settled_keep [OF settled p]) (use that a both in \<open>auto simp: both_sides_def\<close>)
    obtain bs where bs: "disk (fst s) p = Some bs" "stored_as lt bs" and rt: "rem (snd s) p = Some rt"
      using both by (auto simp: both_sides_def)
    have rest: "wp (if pv_winner d = DiskWins
      then act_bind (write_remote env p lt (?st st1)) (keep_hash env p lt)
      else act_bind (write_disk env p rt (?st st1)) (keep_hash env p rt)) (\<lambda>st' s'. settled I todo st' s') (\<lambda>_ _. True) (c1, snd s)"
      if c1: "sound c1" "disk c1 = (disk (fst s))(a := Some new)"
        and st1: "rs_hashes st1 = rs_hashes st" "rs_occupied st1 = rs_occupied st @ [a]" "rs_conflicts st1 = rs_conflicts st"
      for st1 c1 new
    proof (cases "pv_winner d")
      case DiskWins
      with c1 st1 a bs rt path show ?thesis
        by (auto simp: wp_bind keep_hash_def wp_return intro!: wp_write_remote fin [of _ lt] agree_both [where bs = bs])
    next
      case CrdtWins
      with c1 st1 a bs rt show ?thesis
        by (auto simp: wp_bind keep_hash_def wp_return intro!: wp_write_disk fin [of _ rt]
            agree_written)
    qed
    show ?thesis
      unfolding preserve_both_def Let_def found act_bind_return wp_bind [of "write_disk _ _ _ _"]
      by (rule wp_write_disk [OF sound], rule rest) simp_all
  qed
qed

lemma both_settled:
  assumes now: "0 \<le> now" and sound: "sound (fst s)" and settled: "settled I (insert p todo) st s"
    and p: "p \<notin> todo" "p \<in> set (rs_occupied st)" and both: "both_sides I p s lt rt" and path: "env_path env p"
  shows "wp (reconcile_both env now baseline p lt entry rt st) (\<lambda>st' s'. settled I todo st' s') (\<lambda>_ _. True) s"
proof -
  let ?i = "\<lparr>ci_baselineHash = map_of (bs_hashes baseline) p,
         ci_diskHash = sha256 (re_digest env) lt, ci_crdtHash = sha256 (re_digest env) rt,
         ci_diskMtime = we_mtimeMs entry, ci_lastDiskIndexPersistedAt = Some (bs_savedAt baseline)\<rparr>"
  obtain bs where bs: "disk (fst s) p = Some bs" "stored_as lt bs" and rt: "rem (snd s) p = Some rt"
    using both by (auto simp: both_sides_def)
  have fin: "settled I todo st' s'"
    if "rs_hashes st' = AList.update p (sha256 (re_digest env) t) (rs_hashes st)"
      "rs_occupied st' = rs_occupied st" "rs_conflicts st' = rs_conflicts st"
      "agree p (sha256 (re_digest env) t) s'"
      "\<And>q. q \<noteq> p \<Longrightarrow> disk (fst s') q = disk (fst s) q" "\<And>q. q \<noteq> p \<Longrightarrow> rem (snd s') q = rem (snd s) q"
    for st' s' t
    by (rule settled_keep [OF settled p]) (use that both in \<open>auto simp: both_sides_def\<close>)
  show ?thesis
  proof (cases "decideClosedFileConflict ?i")
    case NoOp
    with decide_spec [of ?i] have "sha256 (re_digest env) lt = sha256 (re_digest env) rt" by simp
    with bs rt have "agree p (sha256 (re_digest env) lt) s" by (auto simp: agree_def)
    with NoOp show ?thesis
      by (auto simp: reconcile_both_def keep_hash_def wp_return intro!: fin [of _ lt])
  next
    case ApplyRemoteToDisk
    with sound rt show ?thesis
      by (auto simp: reconcile_both_def wp_bind keep_hash_def wp_return intro!: wp_write_disk fin [of _ rt]
          agree_written)
  next
    case ImportDiskToCrdt
    with bs path show ?thesis
      by (auto simp: reconcile_both_def wp_bind keep_hash_def wp_return intro!: wp_write_remote fin [of _ lt]
          agree_both [where bs = bs])
  next
    case (PreserveConflict d)
    with preserve_settled [OF now sound settled p both path] show ?thesis by (simp add: reconcile_both_def)
  qed
qed

lemma path_settled:
  assumes I: "texts_ok I" and now: "0 \<le> now" and sound: "sound (fst s)"
    and reached: "reached I (set (rs_occupied st)) (insert p todo) s" and settled: "settled I (insert p todo) st s"
    and p: "p \<notin> todo" and locals: "it_local I p = map_option fst (map_of texts p)" and path: "env_path env p"
  shows "wp (reconcile_path env maxBytes now baseline texts p st) (\<lambda>st' s'. settled I todo st' s') (\<lambda>_ _. True) s"
proof -
  have start: "disk (fst s) p = it_disk I p" "rem (snd s) p = it_remote I p" and occ: "p \<in> set (rs_occupied st)"
    using reached by (auto simp: reached_def progress_def)
  have local_kept: "\<exists>bs. disk (fst s) p = Some bs \<and> stored_as t bs" if "it_local I p = Some t" for t
    using I that start by (auto simp: texts_ok_def)
  let ?Q = "\<lambda>st' s'. settled I todo st' s'" and ?R = "\<lambda>(_ :: source_error option) (_ :: 'w core \<times> 'r). True"
  have go: "wp (if b then act_throw e else case (map_of texts p, it_remote I p) of
       (None, None) \<Rightarrow> act_return st
     | (None, Some t) \<Rightarrow> act_bind (write_disk env p t st) (keep_hash env p t)
     | (Some (t, _), None) \<Rightarrow>
         act_bind (on_remote (rp_isTombstoned (re_remote env) p)) (\<lambda>tombstoned.
         if tombstoned then act_return (st\<lparr>rs_conflicts := rs_conflicts st @ [p]\<rparr>)
         else act_bind (write_remote env p t st) (keep_hash env p t))
     | (Some (localText, entry), Some remoteText) \<Rightarrow>
         reconcile_both env now baseline p localText entry remoteText st) ?Q ?R (fst s, r)"
    if r: "rem r = rem (snd s)" for b e r
  proof -
    let ?s = "(fst s, r)"
    have settled': "settled I (insert p todo) st ?s" by (rule settled_same [OF settled]) (simp_all add: r)
    have fin: "settled I todo st' s'"
      if "rs_hashes st' = AList.update p (sha256 (re_digest env) t) (rs_hashes st)"
        "rs_occupied st' = rs_occupied st" "rs_conflicts st' = rs_conflicts st"
        "agree p (sha256 (re_digest env) t) s'"
        "\<And>q. q \<noteq> p \<Longrightarrow> disk (fst s') q = disk (fst s) q" "\<And>q. q \<noteq> p \<Longrightarrow> rem (snd s') q = rem (snd s) q"
        "\<And>r. it_local I p = None \<Longrightarrow> it_remote I p = Some r \<Longrightarrow> disk (fst s') p = Some (utf8_encode r)"
      for st' s' t
      by (rule settled_keep [OF settled' p occ]) (use that r in auto)
    consider (none) "map_of texts p = None" "it_remote I p = None"
      | (remote) t where "map_of texts p = None" "it_remote I p = Some t"
      | (loc) t entry where "map_of texts p = Some (t, entry)" "it_remote I p = None"
      | (both) lt entry rt where "map_of texts p = Some (lt, entry)" "it_remote I p = Some rt"
      by (metis not_Some_eq surj_pair)
    then show ?thesis
    proof cases
      case none
      then have "settled I todo st ?s"
        by (intro settled_skip [OF settled']) (simp_all add: starts_with_text_def locals)
      with none show ?thesis by (simp add: wp_return wp_throw)
    next
      case remote
      with sound r start show ?thesis
        by (auto simp: wp_throw wp_bind keep_hash_def wp_return intro!: wp_write_disk fin [of _ t]
            agree_written)
    next
      case loc
      then have lt: "it_local I p = Some t" by (simp add: locals)
      obtain bs where bs: "disk (fst s) p = Some bs" "stored_as t bs" using local_kept [OF lt] by blast
      have conflict: "settled I todo (st\<lparr>rs_conflicts := rs_conflicts st @ [p]\<rparr>) (fst s, r')" if "rem r' = rem r" for r'
        by (rule settled_skip [OF settled']) (use that loc in auto)
      have import: "wp (act_bind (write_remote env p t st) (keep_hash env p t)) ?Q ?R (fst s, r')" if "rem r' = rem r" for r'
        using that bs r lt path
        by (auto simp: wp_bind keep_hash_def wp_return intro!: wp_write_remote fin [of _ t] agree_both [where bs = bs])
      have "wp (on_remote (rp_isTombstoned (re_remote env) p)) (\<lambda>tombstoned. wp
         (if tombstoned then act_return (st\<lparr>rs_conflicts := rs_conflicts st @ [p]\<rparr>)
         else act_bind (write_remote env p t st) (keep_hash env p t)) ?Q ?R) ?R ?s"
        unfolding wp_on_remote
        by (rule wp_mono [OF remote_tombstoned]) (use conflict import in \<open>auto simp: wp_return\<close>)
      with loc show ?thesis by (simp add: wp_throw wp_bind [of "on_remote _"])
    next
      case both
      then have "both_sides I p ?s lt rt"
        using start local_kept by (simp add: both_sides_def locals r)
      from both_settled [OF now _ settled' p occ this path, of baseline entry] sound both show ?thesis
        by (simp add: wp_throw)
    qed
  qed
  show ?thesis
    unfolding reconcile_path_def wp_bind [of "on_remote _"] wp_on_remote
    by (rule wp_mono [OF remote_read [OF path]]) (use go start in auto)
qed

text \<open>All the paths, one after the other.\<close>

lemma paths_step:
  assumes I: "texts_ok I" and now: "0 \<le> now" and "distinct ps"
    and "\<And>p. it_local I p = map_option fst (map_of texts p)"
    and "\<And>p t. it_synced I p t = (map_of (bs_hashes baseline) p = Some (sha256 (re_digest env) t))"
  shows "sound (fst s) \<Longrightarrow> reached I (set (rs_occupied st)) (set ps) s \<Longrightarrow> settled I (set ps) st s \<Longrightarrow>
    \<forall>p\<in>set ps. env_path env p \<Longrightarrow> wp (act_fold (reconcile_path env maxBytes now baseline texts) ps st)
     (\<lambda>st' s'. sound (fst s') \<and> safe I s' \<and> settled I {} st' s') (\<lambda>_. safe I) s"
  using assms(3)
proof (induction ps arbitrary: st s)
  case Nil
  then show ?case by (auto simp: wp_return intro: reached_safe [OF I])
next
  case (Cons p ps)
  have "wp (reconcile_path env maxBytes now baseline texts p st)
     (\<lambda>st' s'. sound (fst s') \<and> reached I (set (rs_occupied st')) (set ps) s') (\<lambda>_. safe I) s"
    by (rule path_step [OF I now refl]) (use Cons.prems assms(4,5) in simp_all)
  moreover have "wp (reconcile_path env maxBytes now baseline texts p st) (settled I (set ps)) (\<lambda>_ _. True) s"
    by (rule path_settled [OF I now]) (use Cons.prems assms(4) in simp_all)
  ultimately show ?case
    unfolding act_fold.simps wp_bind
    by (rule wp_mono [OF wp_conj]) (use Cons.IH Cons.prems(4,5) in simp_all)
qed

text \<open>Reading the folder: the texts that were read are those of their files.\<close>

definition read_from_disk :: "'w core \<Rightarrow> nat \<Rightarrow> (jsstr \<times> (jsstr \<times> workspace_entry)) list \<Rightarrow> bool" where
  "read_from_disk c maxBytes texts \<longleftrightarrow> distinct (List.map fst texts) \<and>
     (\<forall>p t e. map_of texts p = Some (t, e) \<longrightarrow>
        (\<exists>bs. disk c p = Some bs \<and> length bs \<le> maxBytes \<and> utf8_decode bs = Some t))"

lemma wp_safeText:
  assumes "ready c"
  shows "wp (safeText (re_core env) e maxBytes)
     (\<lambda>x c'. ready c' \<and> disk c' = disk c \<and>
        (\<exists>bs. disk c (we_path e) = Some bs \<and> (if maxBytes < length bs then x = None else x \<noteq> None \<and> utf8_decode bs = x)))
     (\<lambda>_ c'. disk c' = disk c) c"
  unfolding safeText_def wp_catch wp_bind
  by (rule wp_mono [OF file_read [OF assms]]) (auto simp: wp_return wp_throw split: option.split)

definition small_paths :: "'w core \<Rightarrow> nat \<Rightarrow> workspace_entry list \<Rightarrow> jsstr set" where
  "small_paths c maxBytes es =
     {we_path e | e bs. e \<in> set es \<and> disk c (we_path e) = Some bs \<and> length bs \<le> maxBytes}"

lemma small_paths_simps:
  "small_paths c maxBytes [] = {}"
  "disk c (we_path e) = Some bs \<Longrightarrow> small_paths c maxBytes (e # es) =
     (if length bs \<le> maxBytes then {we_path e} else {}) \<union> small_paths c maxBytes es"
  by (auto simp: small_paths_def)

lemma small_paths_same: "disk c' = disk c \<Longrightarrow> small_paths c' = small_paths c"
  by (simp add: small_paths_def fun_eq_iff)

lemma read_from_disk_same: "disk c' = disk c \<Longrightarrow> read_from_disk c' = read_from_disk c"
  by (simp add: read_from_disk_def fun_eq_iff)

lemma read_entries:
  assumes "ready c" and "read_from_disk c maxBytes (fst acc)"
  shows "wp (act_fold (read_entry (re_core env) maxBytes) es acc)
     (\<lambda>(texts, _) c'. ready c' \<and> disk c' = disk c \<and> read_from_disk c maxBytes texts \<and>
        set (List.map fst texts) = set (List.map fst (fst acc)) \<union> small_paths c maxBytes es)
     (\<lambda>_ c'. disk c' = disk c) c"
  using assms
proof (induction es arbitrary: acc c)
  case Nil
  then show ?case by (simp add: wp_return case_prod_beta small_paths_simps)
next
  case (Cons e es)
  obtain texts skipped where acc: "acc = (texts, skipped)" by (cases acc)
  let ?new = "\<lambda>x. case x of None \<Rightarrow> (texts, skipped @ [we_path e]) | Some t \<Rightarrow> (AList.update (we_path e) (t, e) texts, skipped)"
  have others: "wp (act_fold (read_entry (re_core env) maxBytes) es (?new x))
     (\<lambda>(texts', _) c'. ready c' \<and> disk c' = disk c \<and> read_from_disk c maxBytes texts' \<and>
        set (List.map fst texts') = set (List.map fst texts) \<union> small_paths c maxBytes (e # es))
     (\<lambda>_ c'. disk c' = disk c) c1"
    if c1: "ready c1" "disk c1 = disk c" and bs: "disk c (we_path e) = Some bs"
      and x: "if maxBytes < length bs then x = None else x \<noteq> None \<and> utf8_decode bs = x" for x c1 bs
  proof -
    have fine: "read_from_disk c1 maxBytes (fst (?new x))"
      using Cons.prems(2) x bs
      by (auto simp: acc read_from_disk_def c1(2) distinct_update update_conv' simp del: map_of_eq_Some_iff
            split: option.split if_splits)
    have keys: "set (List.map fst (fst (?new x))) = set (List.map fst texts) \<union>
        (if length bs \<le> maxBytes then {we_path e} else {})"
      using x by (auto simp: dom_map_of_conv_image_fst [symmetric] update_conv' split: option.split)
    show ?thesis
    proof (rule wp_mono [OF Cons.IH [OF c1(1) fine]])
      fix res c2
      assume "(\<lambda>(texts', _) c'. ready c' \<and> disk c' = disk c1 \<and> read_from_disk c1 maxBytes texts' \<and>
        set (List.map fst texts') = set (List.map fst (fst (?new x))) \<union> small_paths c1 maxBytes es) res c2"
      then show "(\<lambda>(texts', _) c'. ready c' \<and> disk c' = disk c \<and> read_from_disk c maxBytes texts' \<and>
        set (List.map fst texts') = set (List.map fst texts) \<union> small_paths c maxBytes (e # es)) res c2"
        unfolding keys small_paths_simps(2) [OF bs] small_paths_same [OF c1(2)] read_from_disk_same [OF c1(2)] c1(2)
        by (simp only: Un_assoc)
    qed (simp add: c1(2))
  qed
  have step: "read_entry (re_core env) maxBytes e acc = act_bind (safeText (re_core env) e maxBytes) (\<lambda>x. act_return (?new x))"
    by (simp add: read_entry_def acc)
  show ?case
    unfolding act_fold.simps step wp_bind
    by (rule wp_mono [OF wp_safeText [OF Cons.prems(1)]]) (use others in \<open>auto simp: wp_return acc\<close>)
qed

lemma read_disk_result:
  assumes "ready c"
  shows "wp (read_disk (re_core env) maxBytes)
     (\<lambda>(texts, _) c'. ready c' \<and> disk c' = disk c \<and> read_from_disk c maxBytes texts \<and>
        (\<forall>p bs. disk c p = Some bs \<and> length bs \<le> maxBytes \<longrightarrow> p \<in> set (List.map fst texts)))
     (\<lambda>_ c'. disk c' = disk c) c"
  unfolding read_disk_def wp_bind Let_def
proof (rule wp_mono [OF files_listed [OF assms]])
  fix es c1
  let ?es = "filter (\<lambda>e. we_kind e = KFile \<and> entry_size e \<le> maxBytes) es"
  let ?acc = "([] :: (jsstr \<times> (jsstr \<times> workspace_entry)) list,
      List.map we_path (filter (\<lambda>e. maxBytes < entry_size e) es))"
  assume listed: "ready c1 \<and> disk c1 = disk c \<and> (\<forall>p bs. disk c p = Some bs \<longrightarrow>
     (\<exists>e\<in>set es. we_path e = p \<and> we_kind e = KFile \<and> we_size e = Some (length bs)))"
  then have same: "disk c1 = disk c" by simp
  have all: "p \<in> small_paths c maxBytes ?es" if "disk c p = Some bs" "length bs \<le> maxBytes" for p bs
    using listed that by (fastforce simp: small_paths_def entry_size_def)
  have "read_from_disk c1 maxBytes (fst ?acc)" by (simp add: read_from_disk_def)
  with listed have "wp (act_fold (read_entry (re_core env) maxBytes) ?es ?acc)
     (\<lambda>(texts, _) c'. ready c' \<and> disk c' = disk c1 \<and> read_from_disk c1 maxBytes texts \<and>
        set (List.map fst texts) = set (List.map fst (fst ?acc)) \<union> small_paths c1 maxBytes ?es)
     (\<lambda>_ c'. disk c' = disk c1) c1"
    by (intro read_entries) simp_all
  then show "wp (act_fold (read_entry (re_core env) maxBytes) ?es ?acc)
     (\<lambda>(texts, _) c'. ready c' \<and> disk c' = disk c \<and> read_from_disk c maxBytes texts \<and>
        (\<forall>p bs. disk c p = Some bs \<and> length bs \<le> maxBytes \<longrightarrow> p \<in> set (List.map fst texts)))
     (\<lambda>_ c'. disk c' = disk c) c1"
    unfolding same small_paths_same [OF same] read_from_disk_same [OF same]
    by (rule wp_mono) (use all in auto)
qed simp

text \<open>The texts both sides start with.\<close>

definition texts_of :: "nat \<Rightarrow> baseline_state \<Rightarrow> 'w core \<times> 'r \<Rightarrow> initial_texts" where
  "texts_of maxBytes baseline s = \<lparr>it_disk = disk (fst s),
     it_local = local_text maxBytes (disk (fst s)),
     it_remote = rem (snd s),
     it_synced = (\<lambda>p t. map_of (bs_hashes baseline) p = Some (sha256 (re_digest env) t))\<rparr>"

lemma texts_of_ok: "texts_ok (texts_of maxBytes baseline s)"
  by (auto simp: texts_ok_def texts_of_def local_text_def stored_as_def split: option.splits if_splits)

lemma texts_of_safe: "safe (texts_of maxBytes baseline s) s"
  using reached_safe [OF texts_of_ok, of maxBytes baseline s UNIV UNIV s] progress_start [of "texts_of maxBytes baseline s" UNIV]
  by (simp add: reached_def texts_of_def)

lemma local_texts:
  assumes "read_from_disk (fst s) maxBytes texts"
    and "\<And>p bs. disk (fst s) p = Some bs \<Longrightarrow> length bs \<le> maxBytes \<Longrightarrow> p \<in> set (List.map fst texts)"
  shows "it_local (texts_of maxBytes baseline s) p = map_option fst (map_of texts p)"
proof (cases "map_of texts p")
  case None
  then have "p \<notin> set (List.map fst texts)" by (simp add: map_of_eq_None_iff)
  with assms(2) [of p] None show ?thesis by (auto simp: texts_of_def local_text_def split: option.split)
next
  case (Some te)
  with assms(1) obtain bs where "disk (fst s) p = Some bs" "length bs \<le> maxBytes" "utf8_decode bs = Some (fst te)"
    unfolding read_from_disk_def by (metis prod.collapse)
  with Some show ?thesis by (simp add: texts_of_def local_text_def)
qed

text \<open>What a run that returns \<open>res\<close> leaves in the state \<open>s\<close>, over the baseline it stored.\<close>

definition reconciled :: "initial_texts \<Rightarrow> reconcile_result \<Rightarrow> 'w core \<times> 'r \<Rightarrow> bool" where
  "reconciled I res s \<longleftrightarrow> (let hashes = bs_hashes (readBaseline (base (fst s))) in
     (\<forall>q h. map_of hashes q = Some h \<longrightarrow> agree q h s) \<and>
     (\<forall>q t. starts_with_text I q t \<longrightarrow>
        it_remote I q = None \<and> q \<in> set (rr_conflicts res) \<or> map_of hashes q \<noteq> None) \<and>
     (\<forall>q t. it_local I q = None \<and> it_remote I q = Some t \<longrightarrow> disk (fst s) q = Some (utf8_encode t)))"

lemma settled_reconciled:
  assumes "settled I {} st s" and "disk (fst s') = disk (fst s)" and "rem (snd s') = rem (snd s)"
    and "base (fst s') = json_copy (baseline_value (Fin now) (rs_hashes st))" and "rr_conflicts res = rs_conflicts st"
  shows "reconciled I res s'"
proof -
  have "\<forall>e\<in>set (rs_hashes st). is_sha256_hex (snd e)"
  proof
    fix e
    assume "e \<in> set (rs_hashes st)"
    with assms(1) have "map_of (rs_hashes st) (fst e) = Some (snd e)"
      by (intro map_of_is_SomeI) (simp_all add: settled_def)
    moreover have "map_of (rs_hashes st) q = Some h \<Longrightarrow> is_sha256_hex h" for q h
      using assms(1) unfolding settled_def by blast
    ultimately show "is_sha256_hex (snd e)" by blast
  qed
  from baseline_roundtrip [OF this] have "bs_hashes (readBaseline (base (fst s'))) = rs_hashes st"
    by (simp add: assms(4))
  moreover have "agree q h s' = agree q h s" for q h using assms(2,3) by (simp add: agree_def)
  ultimately show ?thesis
    using assms(1) unfolding reconciled_def Let_def assms(5) settled_def by (auto simp: map_of_eq_None_iff assms(2))
qed

lemma settled_start:
  assumes "\<And>q t. starts_with_text I q t \<Longrightarrow> q \<in> set paths"
  shows "settled I (set paths) \<lparr>rs_occupied = paths, rs_hashes = [], rs_conflicts = [], rs_diskWrites = 0,
    rs_remoteWrites = 0\<rparr> s"
proof -
  have "q \<in> set paths" if "it_remote I q = Some t" for q t
    by (rule assms [of q t]) (simp add: starts_with_text_def that)
  with assms show ?thesis by (auto simp: settled_def)
qed

lemma reconcile_texts_result:
  assumes "ready (fst s)" and now: "0 \<le> now"
  shows "wp (reconcile_texts env maxBytes now baseline)
     (\<lambda>res s'. safe (texts_of maxBytes baseline s) s' \<and> reconciled (texts_of maxBytes baseline s) res s')
     (\<lambda>_. safe (texts_of maxBytes baseline s)) s"
proof -
  let ?I = "texts_of maxBytes baseline s"
  let ?Q = "\<lambda>res s'. safe ?I s' \<and> reconciled ?I res s'"
  have unchanged: "safe ?I (c, r)" if "disk c = disk (fst s)" "rem r = rem (snd s)" for c r
    using texts_of_safe [of maxBytes baseline s] safe_same [of "(c, r)" s] that by simp
  let ?res = "\<lambda>skipped st durable. \<lparr>rr_conflicts = rs_conflicts st, rr_diskWrites = rs_diskWrites st,
         rr_remoteWrites = rs_remoteWrites st, rr_skippedOversize = skipped, rr_durable = durable\<rparr>"
  let ?save = "\<lambda>st. on_core (on_world (lsp_write (re_state env) BASELINE_KEY
         (baseline_value (Fin now) (rs_hashes st))))"
  let ?finish = "\<lambda>skipped st. act_bind (if rs_remoteWrites st = 0 then act_return True
         else on_remote (rp_confirmDurable (re_remote env))) (\<lambda>durable.
     if 0 < rs_remoteWrites st \<and> \<not> durable then act_throw (SyncError ''remote_receipt_unconfirmed'' None)
     else act_bind (?save st) (\<lambda>_. act_return (?res skipped st durable)))"
  let ?P = "\<lambda>st s'. sound (fst s') \<and> safe ?I s' \<and> settled ?I {} st s'"
  have save: "wp (?save st) (\<lambda>_. ?Q (?res skipped st durable)) (\<lambda>_. safe ?I) s'" if "?P st s'" for skipped st durable s'
  proof -
    from that have "sound (fst s')" by simp
    from state_write_port [OF this] show ?thesis
      unfolding wp_on_core
    proof (rule wp_mono)
      fix x c
      assume "disk c = disk (fst s') \<and> base c = json_copy (baseline_value (Fin now) (rs_hashes st))"
      with that show "?Q (?res skipped st durable) (c, snd s')"
        using settled_reconciled [of ?I st s' "(c, snd s')" now] by (simp add: safe_def)
    qed (use that in \<open>simp add: safe_def\<close>)
  qed
  have finish: "wp (?finish skipped st) ?Q (\<lambda>_. safe ?I) s'" if "?P st s'" for skipped st s'
  proof -
    have rest: "wp (if b then act_throw e else act_bind (?save st) (\<lambda>_. act_return (?res skipped st durable)))
        ?Q (\<lambda>_. safe ?I) s''" if "?P st s''" for b e durable s''
      using save [OF that] that by (simp add: wp_throw wp_bind wp_return_fun)
    have "wp (on_remote (rp_confirmDurable (re_remote env))) (\<lambda>_. ?P st) (\<lambda>_. safe ?I) s'"
      unfolding wp_on_remote
      by (rule wp_mono [OF remote_confirmed]) (use that in \<open>auto simp: safe_def intro: settled_same\<close>)
    then have "wp (if rs_remoteWrites st = 0 then act_return True else on_remote (rp_confirmDurable (re_remote env)))
        (\<lambda>_. ?P st) (\<lambda>_. safe ?I) s'"
      using that by (simp add: wp_return)
    then show ?thesis unfolding wp_bind [of "if _ then _ else _"]
      by (rule wp_mono) (erule rest, simp)
  qed
  have loop: "wp (act_bind (act_fold (reconcile_path env maxBytes now baseline texts) (sort_by (re_compare env) paths)
         \<lparr>rs_occupied = paths, rs_hashes = [], rs_conflicts = [], rs_diskWrites = 0, rs_remoteWrites = 0\<rparr>)
         (?finish skipped)) ?Q (\<lambda>_. safe ?I) (c, r)"
    if c: "ready c" "disk c = disk (fst s)" and r: "rem r = rem (snd s)"
      and texts: "read_from_disk (fst s) maxBytes texts"
        "\<And>p bs. disk (fst s) p = Some bs \<Longrightarrow> length bs \<le> maxBytes \<Longrightarrow> p \<in> set (List.map fst texts)"
      and listed: "\<And>p. rem (snd s) p \<noteq> None \<Longrightarrow> p \<in> set remotePaths"
      and noted: "\<And>p. p \<in> set remotePaths \<Longrightarrow> env_path env p"
      and paths: "paths = fold set_add remotePaths (List.map fst texts)"
    for texts skipped remotePaths paths c r
  proof -
    have dist: "distinct paths"
      using texts(1) by (simp add: paths distinct_set_add read_from_disk_def)
    have locals: "it_local ?I p = map_option fst (map_of texts p)" for p
      by (rule local_texts [OF texts])
    have all: "p \<in> set paths" if "starts_with_text ?I p t" for p t
      using that locals [of p] listed
      by (auto simp: starts_with_text_def paths set_set_add dest: map_of_SomeD intro: image_eqI [rotated])
        (auto simp: texts_of_def)
    have "env_path env p" if "p \<in> set (List.map fst texts)" for p
    proof -
      from that obtain x where "map_of texts p = Some x" by (cases "map_of texts p") (auto simp: map_of_eq_None_iff)
      then have "disk (fst s) p \<noteq> None"
        using texts(1) unfolding read_from_disk_def by (metis option.distinct(1) prod.collapse)
      with disk_paths [OF assms(1)] show ?thesis .
    qed
    with noted have good: "\<forall>p\<in>set paths. env_path env p" by (auto simp: paths set_set_add)
    have "progress ?I (set paths) (set paths) (it_disk ?I) (it_remote ?I)"
      by (rule progress_start, rule all, unfold starts_with_text_def, erule disjI1)
    then have "reached ?I (set paths) (set paths) (c, r)"
      using c r by (simp add: reached_def texts_of_def)
    moreover note settled_start [OF all]
    ultimately have "wp (act_fold (reconcile_path env maxBytes now baseline texts) (sort_by (re_compare env) paths)
         \<lparr>rs_occupied = paths, rs_hashes = [], rs_conflicts = [], rs_diskWrites = 0, rs_remoteWrites = 0\<rparr>)
        ?P (\<lambda>_. safe ?I) (c, r)"
      using c(1) ready_sound dist locals good
      by (intro paths_step [OF texts_of_ok now])
        (simp_all add: texts_of_def mset_eq_imp_distinct_iff [OF mset_sort_by])
    then show ?thesis unfolding wp_bind [of "act_fold _ _ _"]
      by (rule wp_mono) (erule finish, simp)
  qed
  show ?thesis
    unfolding reconcile_texts_def Let_def wp_bind [of "on_core _"] wp_on_core
  proof (rule wp_mono [OF read_disk_result [OF assms(1)]], goal_cases)
    case (1 res c)
    obtain texts skipped where res: "res = (texts, skipped)" by (cases res)
    show ?case
      unfolding res prod.case wp_bind [of "on_remote _"] wp_on_remote
    proof (rule wp_mono [OF remote_listed], goal_cases)
      case (1 listed r)
      show ?case
        using 1 \<open>(\<lambda>(texts, _) c'. ready c' \<and> disk c' = disk (fst s) \<and> read_from_disk (fst s) maxBytes texts \<and>
          (\<forall>p bs. disk (fst s) p = Some bs \<and> length bs \<le> maxBytes \<longrightarrow> p \<in> set (List.map fst texts))) res c\<close>
        unfolding wp_bind [of "act_of _"] wp_of res
        by (auto intro!: loop unchanged dest!: validated_paths_Inr simp: list_all_iff split: sum.split)
    qed (use 1 res unchanged in auto)
  qed (use unchanged in auto)
qed

lemma reconcileFolder_result:
  assumes "ready (fst s)"
  shows "wp (reconcileFolder env)
     (\<lambda>res s'. safe (texts_of (nat (int_of_num (re_maxFileBytes env))) (readBaseline (base (fst s))) s) s' \<and>
        reconciled (texts_of (nat (int_of_num (re_maxFileBytes env))) (readBaseline (base (fst s))) s) res s')
     (\<lambda>_. safe (texts_of (nat (int_of_num (re_maxFileBytes env))) (readBaseline (base (fst s))) s)) s"
proof -
  let ?max = "nat (int_of_num (re_maxFileBytes env))" and ?b = "readBaseline (base (fst s))"
  let ?I = "texts_of ?max ?b s"
  let ?Q = "\<lambda>res s'. safe ?I s' \<and> reconciled ?I res s'"
  have unchanged: "safe ?I (c, snd s)" if "disk c = disk (fst s)" for c
    using texts_of_safe [of ?max ?b s] safe_same [of "(c, snd s)" s] that by simp
  have here: "safe ?I s" by (rule texts_of_safe)
  have run: "wp (act_bind (on_core (on_world (lsp_read (re_state env) BASELINE_KEY)))
      (\<lambda>stored. reconcile_texts env ?max t (readBaseline stored))) ?Q (\<lambda>_. safe ?I) (c, snd s)"
    if c: "ready c" "disk c = disk (fst s)" "base c = base (fst s)" and t: "0 \<le> t" for c t
    unfolding wp_bind wp_on_core fst_conv snd_conv
  proof (rule wp_mono [OF state_read_port [OF c(1)]])
    fix v c'
    assume v: "v = base c \<and> ready c' \<and> disk c' = disk c"
    then have "ready (fst (c', snd s))" by simp
    from reconcile_texts_result [OF this t, of ?max "readBaseline v"] v c
    show "wp (reconcile_texts env ?max t (readBaseline v)) ?Q (\<lambda>_. safe ?I) (c', snd s)"
      by (simp add: texts_of_def)
  qed (use c unchanged in simp)
  show ?thesis
    unfolding reconcileFolder_def
  proof (rule if_wp [where R = "\<lambda>_. safe ?I" and s = s, OF here])
    show "wp (act_bind (on_core (on_world (re_now env))) (\<lambda>now. case now of
          Fin t \<Rightarrow> if t < 0 \<or> 8640000000000000 < t then act_throw (TypeError ''reconciliation_time_invalid'')
            else act_bind (on_core (on_world (lsp_read (re_state env) BASELINE_KEY)))
              (\<lambda>stored. reconcile_texts env ?max t (readBaseline stored))
        | _ \<Rightarrow> act_throw (TypeError ''reconciliation_time_invalid''))) ?Q (\<lambda>_. safe ?I) s"
      unfolding wp_bind [of "on_core (on_world (re_now env))"] wp_on_core
    proof (rule wp_mono [OF now_port [OF assms]])
      fix now c
      assume c: "ready c \<and> disk c = disk (fst s) \<and> base c = base (fst s)"
      then have still: "safe ?I (c, snd s)" using unchanged by simp
      show "wp (case now of
          Fin t \<Rightarrow> if t < 0 \<or> 8640000000000000 < t then act_throw (TypeError ''reconciliation_time_invalid'')
            else act_bind (on_core (on_world (lsp_read (re_state env) BASELINE_KEY)))
              (\<lambda>stored. reconcile_texts env ?max t (readBaseline stored))
        | _ \<Rightarrow> act_throw (TypeError ''reconciliation_time_invalid'')) ?Q (\<lambda>_. safe ?I) (c, snd s)"
      proof (cases now)
        case (Fin t)
        show ?thesis
        proof (cases "t < 0 \<or> 8640000000000000 < t")
          case True
          with Fin still show ?thesis by (simp add: wp_throw)
        next
          case False
          with Fin c show ?thesis using run [of c t] by simp
        qed
      qed (simp_all add: wp_throw still)
    qed (use unchanged in simp)
  qed
qed

end

end
