(* ===== verification/FolderReconcileProps.thy ===== *)
theory FolderReconcileProps
  imports FolderReconcileRun
begin

text \<open>
  The properties of the reconciliation of a folder.
\<close>

section \<open>The decision\<close>

text \<open>
  The three-way decision. Equal sides need nothing; a side still at the baseline takes the other's text;
  otherwise both are kept: the disk wins against a baseline, and without one exactly when its
  modification is newer than the last save, and the side that does not win is the one preserved.
\<close>

lemma three_way_decision:
  "case decideClosedFileConflict i of
     NoOp \<Rightarrow> ci_diskHash i = ci_crdtHash i
   | ApplyRemoteToDisk \<Rightarrow> ci_baselineHash i = Some (ci_diskHash i) \<and> ci_crdtHash i \<noteq> ci_diskHash i
   | ImportDiskToCrdt \<Rightarrow> ci_baselineHash i = Some (ci_crdtHash i) \<and> ci_diskHash i \<noteq> ci_crdtHash i
   | PreserveConflict d \<Rightarrow> ci_diskHash i \<noteq> ci_crdtHash i \<and>
       ci_baselineHash i \<noteq> Some (ci_diskHash i) \<and> ci_baselineHash i \<noteq> Some (ci_crdtHash i) \<and>
       pv_reason d = (if ci_baselineHash i = None then NoBaseline else BothChanged) \<and>
       pv_winner d = (case (ci_baselineHash i, ci_diskMtime i, ci_lastDiskIndexPersistedAt i) of
          (Some _, _, _) \<Rightarrow> DiskWins
        | (None, Some mtime, Some saved) \<Rightarrow> if num_less saved mtime then DiskWins else CrdtWins
        | _ \<Rightarrow> CrdtWins) \<and>
       pv_preserveCrdt d = (pv_winner d = DiskWins) \<and> pv_preserveDisk d = (pv_winner d = CrdtWins) \<and>
       pv_policy d = (case (ci_baselineHash i, ci_diskMtime i, ci_lastDiskIndexPersistedAt i) of
          (Some _, _, _) \<Rightarrow> None
        | (None, Some mtime, Some saved) \<Rightarrow>
            Some (if num_less saved mtime then DiskMtimeAfterLastIndexSave else CrdtDefaultDiskNotNewer)
        | _ \<Rightarrow> Some CrdtDefaultNoEvidence)"
  by (auto simp: decideClosedFileConflict_def Let_def split: option.split)

section \<open>Names for what is preserved\<close>

text \<open>
  The search for a free name ends, with a name that no file or note has, or with the error of a
  time that has no text; one attempt more than there are occupied names is always enough.
\<close>

theorem artifact_found:
  assumes "0 \<le> now"
  shows "\<exists>r. findArtifact lower path now side occupied = Some r \<and>
     (case r of Inl e \<Rightarrow> e = RangeError ''Invalid time value'' | Inr a \<Rightarrow> a \<notin> set occupied)"
proof -
  obtain r where r: "findArtifact lower path now side occupied = Some r" "\<And>a. r = Inr a \<Longrightarrow> a \<notin> set occupied"
    using findArtifact_ends [OF assms, of lower path side occupied] by blast
  moreover have "e = RangeError ''Invalid time value''" if "r = Inl e" for e
    using findArtifact_error r(1) that by simp
  ultimately show ?thesis by (intro exI [of _ r]) (simp split: sum.split)
qed

theorem artifact_found_witness:
  "\<exists>a. findArtifact id (lit ''a.md'') 5 DiskWins [lit ''a.md''] = Some (Inr a) \<and> a \<noteq> lit ''a.md''"
proof -
  have "case findArtifact id (lit ''a.md'') 5 DiskWins [lit ''a.md''] of Some (Inr _) \<Rightarrow> True | _ \<Rightarrow> False"
    by (simp add: findArtifact_def conflictPath_def stamp_of_def Let_def)
  with artifact_found [of 5 id "lit ''a.md''" DiskWins "[lit ''a.md'']"] show ?thesis
    by (auto split: option.splits sum.splits)
qed

end
