(* ===== verification/CliRuntime.thy ===== *)
theory CliRuntime
  imports FolderAdapter FolderReconcile
begin

text \<open>
  The runtime of the command-line client, \<open>packages/mdevolved-cli/src/runtime.ts\<close>: the remote port over a
  \<open>VaultSync\<close>, and the runtime that starts a folder source, reconciles it and watches it. The vault, its
  texts and the clock are parameters that act on a state of their own. A method runs to its end before
  the next starts.
\<close>

section \<open>The vault\<close>

record ('v, 'h) sync_text =
  tx_toString :: "'h \<Rightarrow> ('v, source_error, jsstr) act"
  tx_delete :: "'h \<Rightarrow> nat \<Rightarrow> nat \<Rightarrow> ('v, source_error, unit) act"
  tx_insert :: "'h \<Rightarrow> nat \<Rightarrow> jsstr \<Rightarrow> ('v, source_error, unit) act"
  tx_transact :: "'h \<Rightarrow> (('v, source_error, unit) act \<Rightarrow> ('v, source_error, unit) act) option"

record ('v, 'h) vault_sync =
  vs_getActiveMarkdownPaths :: "('v, source_error, jsstr list) act"
  vs_getTextForPath :: "jsstr \<Rightarrow> ('v, source_error, 'h option) act"
  vs_ensureFile :: "jsstr \<Rightarrow> jsstr \<Rightarrow> jsstr option \<Rightarrow> ('v, source_error, 'h option) act"
  vs_markInitialized :: "('v, source_error, unit) act option"
  vs_writeMarkdownText :: "(jsstr \<Rightarrow> jsstr \<Rightarrow> jsstr option \<Rightarrow> ('v, source_error, bool) act) option"
  vs_isMarkdownTombstoned :: "(jsstr \<Rightarrow> ('v, source_error, bool) act) option"
  vs_waitForLocalPersistence :: "('v, source_error, bool) act option"
  vs_waitForProviderSync :: "('v, source_error, bool) act option"
  vs_connected :: "('v, source_error, bool option) act"
  vs_providerSynced :: "('v, source_error, bool option) act"
  vs_serverAppliedLocalState :: "('v, source_error, bool option) act"
  vs_destroy :: "('v, source_error, unit) act option"
  vs_getStateVector :: "('v, source_error, bytes) act option"
  vs_texts :: "('v, 'h) sync_text"

text \<open>The clock and the timer of the platform, in milliseconds.\<close>

record 'v timer_port =
  tp_now :: "('v, source_error, nat) act"
  tp_sleep :: "nat \<Rightarrow> ('v, source_error, unit) act"

text \<open>A call \<open>f?.()\<close> whose result is not used.\<close>

definition call_optional :: "('v, source_error, unit) act option \<Rightarrow> ('v, source_error, unit) act" where
  "call_optional f = (case f of None \<Rightarrow> act_return () | Some m \<Rightarrow> m)"

section \<open>The remote port\<close>

definition textContents :: "('v, 'h) sync_text \<Rightarrow> 'h \<Rightarrow> ('v, source_error, jsstr) act" where
  "textContents tx h = tx_toString tx h"

definition replaceText :: "('v, 'h) sync_text \<Rightarrow> 'h \<Rightarrow> jsstr \<Rightarrow> ('v, source_error, unit) act" where
  "replaceText tx h contents =
     (let replace =
        act_bind (tx_toString tx h) (\<lambda>current.
        act_bind (if 0 < length current then tx_delete tx h 0 (length current) else act_return ()) (\<lambda>_.
        if 0 < length contents then tx_insert tx h 0 contents else act_return ())) in
      case tx_transact tx h of Some transact \<Rightarrow> transact replace | None \<Rightarrow> replace)"

definition remote_rejected :: "jsstr \<Rightarrow> ('v, source_error, 'a) act" where
  "remote_rejected path = act_throw (SyncError ''remote_write_rejected'' (Some path))"

definition remote_write :: "('v, 'h) vault_sync \<Rightarrow> jsstr option \<Rightarrow> jsstr \<Rightarrow> jsstr \<Rightarrow> ('v, source_error, unit) act" where
  "remote_write vault device path contents =
     (case vs_writeMarkdownText vault of
        Some writeText \<Rightarrow>
          act_bind (writeText path contents device) (\<lambda>ok. if ok then act_return () else remote_rejected path)
      | None \<Rightarrow>
          act_bind (vs_getTextForPath vault path) (\<lambda>found.
          act_bind (if found = None then vs_ensureFile vault path contents device else act_return found) (\<lambda>handle.
          case handle of
            None \<Rightarrow> remote_rejected path
          | Some h \<Rightarrow>
              act_bind (textContents (vs_texts vault) h) (\<lambda>current.
              if current \<noteq> contents then replaceText (vs_texts vault) h contents else act_return ()))))"

definition is_applied :: "('v, 'h) vault_sync \<Rightarrow> ('v, source_error, bool) act" where
  "is_applied vault = act_bind (vs_serverAppliedLocalState vault) (\<lambda>a. act_return (a = Some True))"

text \<open>The loop that polls until the deadline; each pass sleeps for 100 ms.\<close>

fun await_applied :: "nat \<Rightarrow> ('v, 'h) vault_sync \<Rightarrow> 'v timer_port \<Rightarrow> nat \<Rightarrow> ('v, source_error, bool) act" where
  "await_applied 0 vault timer deadline = act_diverge"
| "await_applied (Suc fuel) vault timer deadline =
     act_bind (tp_now timer) (\<lambda>now.
     if deadline \<le> now then is_applied vault
     else act_bind (is_applied vault) (\<lambda>applied.
       if applied then act_return True
       else act_bind (tp_sleep timer 100) (\<lambda>_. await_applied fuel vault timer deadline)))"

definition confirm_durable :: "('v, 'h) vault_sync \<Rightarrow> 'v timer_port \<Rightarrow> ('v, source_error, bool) act" where
  "confirm_durable vault timer =
     act_bind (is_applied vault) (\<lambda>applied.
     if applied then act_return True
     else act_bind (vs_connected vault) (\<lambda>connected.
     act_bind (if connected = Some False then act_return (Some False) else vs_providerSynced vault) (\<lambda>synced.
     if synced = Some False then act_return False
     else act_bind (tp_now timer) (\<lambda>now. await_applied 51 vault timer (now + 5000)))))"

definition createVaultSyncRemote :: "('v, 'h) vault_sync \<Rightarrow> 'v timer_port \<Rightarrow> jsstr option \<Rightarrow> 'v remote_port" where
  "createVaultSyncRemote vault timer device = \<lparr>
     rp_listPaths = vs_getActiveMarkdownPaths vault,
     rp_read = (\<lambda>path. act_bind (vs_getTextForPath vault path) (\<lambda>text'.
       case text' of None \<Rightarrow> act_return None
       | Some h \<Rightarrow> act_bind (textContents (vs_texts vault) h) (\<lambda>t. act_return (Some t)))),
     rp_write = remote_write vault device,
     rp_isTombstoned = (\<lambda>path. case vs_isMarkdownTombstoned vault of
       None \<Rightarrow> act_return False | Some f \<Rightarrow> f path),
     rp_confirmDurable = confirm_durable vault timer\<rparr>"

section \<open>The runtime\<close>

datatype sync_runtime_status = RtStarting | RtRunning | RtSyncing | RtOffline | RtError | RtStopped

text \<open>\<open>rt_watching\<close>: the source's watcher is installed and open; \<open>rt_unwatch\<close>: it has been installed.
  \<open>rt_statuses\<close> are the calls of \<open>onStatus\<close>.\<close>

record 'v sync_runtime =
  rt_core :: "folder_world core"
  rt_vault :: 'v
  rt_unwatch :: bool
  rt_watching :: bool
  rt_stopped :: bool
  rt_statuses :: "sync_runtime_status list"

type_synonym ('v, 'a) rt_act = "('v sync_runtime, source_error, 'a) act"

record ('v, 'h) runtime_options =
  ro_vault :: "('v, 'h) vault_sync"
  ro_timer :: "'v timer_port"
  ro_device :: "jsstr option"
  ro_now :: "js_num folder_act"
  ro_maxFileBytes :: "js_num option"
  ro_watch :: "bool option"
  ro_digest :: "bytes \<Rightarrow> bytes"
  ro_compare :: "jsstr \<Rightarrow> jsstr \<Rightarrow> bool"

definition on_source :: "(folder_world, 'a) core_act \<Rightarrow> ('v, 'a) rt_act" where
  "on_source m = (\<lambda>rt. case m (rt_core rt) of (r, c) \<Rightarrow> (r, rt\<lparr>rt_core := c\<rparr>))"

definition on_vault :: "('v, source_error, 'a) act \<Rightarrow> ('v, 'a) rt_act" where
  "on_vault m = (\<lambda>rt. case m (rt_vault rt) of (r, v) \<Rightarrow> (r, rt\<lparr>rt_vault := v\<rparr>))"

definition on_both :: "(folder_world, 'v, 'a) sync_act \<Rightarrow> ('v, 'a) rt_act" where
  "on_both m = (\<lambda>rt. case m (rt_core rt, rt_vault rt) of (r, (c, v)) \<Rightarrow> (r, rt\<lparr>rt_core := c, rt_vault := v\<rparr>))"

definition rt_emit :: "sync_runtime_status \<Rightarrow> ('v, unit) rt_act" where
  "rt_emit st = (\<lambda>rt. (Return (), rt\<lparr>rt_statuses := rt_statuses rt @ [st]\<rparr>))"

definition rt_refuse_stopped :: "('v, unit) rt_act" where
  "rt_refuse_stopped = (\<lambda>rt. if rt_stopped rt then (Throw (SyncError ''sync_runtime_stopped'' None), rt) else (Return (), rt))"

definition installWatcher :: "('v, 'h) runtime_options \<Rightarrow> ('v, unit) rt_act" where
  "installWatcher opts = (\<lambda>rt. (Return (),
     if ro_watch opts = Some False \<or> rt_unwatch rt then rt else rt\<lparr>rt_unwatch := True, rt_watching := True\<rparr>))"

definition runtime_env :: "folder_world core_options \<Rightarrow> ('v, 'h) runtime_options \<Rightarrow> (folder_world, 'v) reconcile_env" where
  "runtime_env source opts = \<lparr>re_core = source, re_state = co_state source,
     re_remote = createVaultSyncRemote (ro_vault opts) (ro_timer opts) (ro_device opts),
     re_digest = ro_digest opts, re_compare = ro_compare opts,
     re_maxFileBytes = (case ro_maxFileBytes opts of Some n \<Rightarrow> n | None \<Rightarrow> num_of_nat (2 * 1024 * 1024)),
     re_now = ro_now opts\<rparr>"

definition unconfirmed :: "source_error \<Rightarrow> bool" where
  "unconfirmed e = (e = SyncError ''remote_receipt_unconfirmed'' None)"

definition syncOnce :: "folder_world core_options \<Rightarrow> ('v, 'h) runtime_options \<Rightarrow> ('v, reconcile_result) rt_act" where
  "syncOnce source opts =
     act_bind rt_refuse_stopped (\<lambda>_.
     act_bind (rt_emit RtSyncing) (\<lambda>_.
     act_catch
       (act_bind (on_vault (call_optional (vs_markInitialized (ro_vault opts)))) (\<lambda>_.
        act_bind (on_both (reconcileFolder (runtime_env source opts))) (\<lambda>result.
        act_bind (rt_emit RtRunning) (\<lambda>_. act_return result))))
       (\<lambda>e. act_bind (rt_emit (if unconfirmed e then RtOffline else RtError)) (\<lambda>_. act_throw e))))"

text \<open>\<open>waitForProviderSync\<close> where the vault has it, or else the two flags.\<close>

definition provider_ready :: "('v, 'h) vault_sync \<Rightarrow> ('v, source_error, bool) act" where
  "provider_ready vault = (case vs_waitForProviderSync vault of
     Some wait \<Rightarrow> wait
   | None \<Rightarrow> act_bind (vs_connected vault) (\<lambda>connected.
       if connected = Some False then act_return False
       else act_bind (vs_providerSynced vault) (\<lambda>synced. act_return (synced \<noteq> Some False))))"

text \<open>The block of \<open>start\<close> that reconciles: the status it returns early, if it does.\<close>

definition first_sync :: "folder_world core_options \<Rightarrow> ('v, 'h) runtime_options \<Rightarrow> ('v, sync_runtime_status option) rt_act" where
  "first_sync source opts =
     act_catch (act_bind (syncOnce source opts) (\<lambda>_. act_return None))
       (\<lambda>e. act_bind (installWatcher opts) (\<lambda>_.
          if unconfirmed e then act_bind (rt_emit RtOffline) (\<lambda>_. act_return (Some RtOffline))
          else act_throw e))"

definition runtime_start :: "folder_world core_options \<Rightarrow> ('v, 'h) runtime_options \<Rightarrow> ('v, sync_runtime_status) rt_act" where
  "runtime_start source opts =
     act_bind rt_refuse_stopped (\<lambda>_.
     act_bind (rt_emit RtStarting) (\<lambda>_.
     act_bind (on_source (core_start source)) (\<lambda>status.
     if status \<noteq> Running
     then act_bind (rt_emit (if status = Expired \<or> status = RevokedStatus then RtError else RtOffline))
       (\<lambda>_. act_return RtOffline)
     else
     act_bind (on_vault (call_optional (map_option (\<lambda>wait. act_bind wait (\<lambda>_. act_return ()))
         (vs_waitForLocalPersistence (ro_vault opts))))) (\<lambda>_.
     act_bind (on_vault (provider_ready (ro_vault opts))) (\<lambda>providerReady.
     act_bind (first_sync source opts) (\<lambda>early.
     case early of
       Some st \<Rightarrow> act_return st
     | None \<Rightarrow>
         act_bind (installWatcher opts) (\<lambda>_.
         let st = (if providerReady then RtRunning else RtOffline) in
         act_bind (rt_emit st) (\<lambda>_. act_return st))))))))"

definition runtime_getStateVector :: "('v, 'h) runtime_options \<Rightarrow> ('v, bytes option) rt_act" where
  "runtime_getStateVector opts = (case vs_getStateVector (ro_vault opts) of
     None \<Rightarrow> act_return None
   | Some m \<Rightarrow> act_bind (on_vault m) (\<lambda>sv. act_return (Some sv)))"

text \<open>\<open>unwatch?.()\<close>, and then \<open>source.close()\<close>, which stops the watchers of the source and the core.\<close>

definition put_watching :: "bool \<Rightarrow> ('v, unit) rt_act" where
  "put_watching b = (\<lambda>rt. (Return (), rt\<lparr>rt_watching := b\<rparr>))"

definition runtime_stop :: "folder_world core_options \<Rightarrow> ('v, 'h) runtime_options \<Rightarrow> ('v, unit) rt_act" where
  "runtime_stop source opts = (\<lambda>rt.
     if rt_stopped rt then (Return (), rt)
     else act_bind (put_watching False) (\<lambda>_.
          act_bind (on_source (core_stop source)) (\<lambda>_.
          act_bind (on_vault (call_optional (vs_destroy (ro_vault opts)))) (\<lambda>_.
          rt_emit RtStopped))) (rt\<lparr>rt_stopped := True\<rparr>))"

text \<open>The watcher's callback: a reconciliation whose outcome nobody sees.\<close>

definition runtime_change :: "folder_world core_options \<Rightarrow> ('v, 'h) runtime_options \<Rightarrow> ('v, unit) rt_act" where
  "runtime_change source opts = (\<lambda>rt.
     if \<not> rt_watching rt then (Return (), rt)
     else ignore_errors (act_bind (syncOnce source opts) (\<lambda>_. act_return ())) rt)"

definition new_runtime :: "folder_world \<Rightarrow> 'v \<Rightarrow> 'v sync_runtime" where
  "new_runtime w v = \<lparr>rt_core = new_core w, rt_vault = v, rt_unwatch = False, rt_watching = False, rt_stopped = False,
     rt_statuses = []\<rparr>"

end
