(* ===== verification/FolderQuiet.thy ===== *)
theory FolderQuiet
  imports FolderListing SourceLifecycle
begin

text \<open>
  Operations that leave the disk as it is. \<open>looks\<close> operations change nothing but the list of faults;
  a \<open>steady\<close> one that returns despite the faults returns what it would without them; a \<open>still\<close> method
  of the core changes no file.
\<close>

section \<open>Looking\<close>

lemma wp_chain:
  assumes first: "wp m (\<lambda>_. G s) (\<lambda>_. H s) s" and rest: "\<And>x s1. wp (k x) (\<lambda>_. G s1) (\<lambda>_. H s1) s1"
    and "\<And>s1 s2. G s s1 \<Longrightarrow> G s1 s2 \<Longrightarrow> G s s2" and "\<And>s1 s2. G s s1 \<Longrightarrow> H s1 s2 \<Longrightarrow> H s s2"
  shows "wp (act_bind m k) (\<lambda>_. G s) (\<lambda>_. H s) s"
  unfolding wp_bind
proof (rule wp_mono [OF first])
  fix x s1
  assume "G s s1"
  with assms(3,4) show "wp (k x) (\<lambda>_. G s) (\<lambda>_. H s) s1" by (intro wp_mono [OF rest]) blast+
qed

definition looks :: "(folder_world, 'e, 'a) act \<Rightarrow> bool" where
  "looks m \<longleftrightarrow> (\<forall>w. wp m (\<lambda>_. same_disk w) (\<lambda>_. same_disk w) w)"

named_theorems looks_intros \<open>operations that only look\<close>

lemma looks_bind [looks_intros]: "looks m \<Longrightarrow> (\<And>x. looks (k x)) \<Longrightarrow> looks (act_bind m k)"
  unfolding looks_def by (intro allI wp_chain) (auto intro: same_disk_trans)

lemma looks_simple [looks_intros]: "looks (act_return x)" "looks (act_throw e)" "looks (act_of r)" "looks act_diverge"
  by (simp_all add: looks_def wp_simps split: sum.split)

lemma looks_if [looks_intros]: "looks m \<Longrightarrow> looks n \<Longrightarrow> looks (if b then m else n)"
  by simp

lemma looks_option [looks_intros]:
  "looks m \<Longrightarrow> (\<And>x. looks (k x)) \<Longrightarrow> looks (case r of None \<Rightarrow> m | Some x \<Rightarrow> k x)"
  by (cases r) simp_all

lemma looks_map_error [looks_intros]: "looks m \<Longrightarrow> looks (map_error f m)"
  by (simp add: looks_def wp_map_error)

lemma looks_call [looks_intros]: "looks (fs_call (\<lambda>t. (r t, t)))"
  unfolding looks_def by (auto intro: wp_mono [OF wp_look])

lemma looks_parts [looks_intros]: "looks (lstatWorkspace p msg)" "looks (assertRealPathInside base p)"
  unfolding looks_def by (auto intro: wp_mono [OF wp_lstatWorkspace] wp_mono [OF wp_assertRealPathInside])

lemma looks_entry [looks_intros]: "looks (entry_or_throw path n)"
  unfolding entry_or_throw_def by (intro looks_intros)

lemma looks_names [looks_intros]: "looks (list_names nf directory names result)"
  by (induction names arbitrary: result) (auto intro!: looks_intros)

lemma looks_files [looks_intros]: "looks (files_list nf p)" "looks (files_stat nf p)"
  unfolding files_list_def files_stat_def with_code_def fs_readdir_def by (intro looks_intros)+

lemma looks_listLoop:
  assumes "\<And>d. looks (wp_list ws d)"
  shows "looks (listLoop fuel te ws opts ls)"
proof (induction fuel arbitrary: ls)
  case 0
  show ?case by (subst listLoop.simps) (auto intro!: looks_intros split: list.split)
next
  case (Suc n)
  show ?case by (subst listLoop.simps) (auto intro!: looks_intros assms Suc.IH split: list.split)
qed

lemma looks_listing:
  assumes "\<And>d. looks (wp_list ws d)"
  shows "looks (listMarkdown te ws supplied)"
  unfolding listMarkdown_def listWith_def Let_def
  by (intro looks_intros looks_listLoop assms)

section \<open>Steadiness\<close>

definition calm :: "folder_world \<Rightarrow> folder_world" where
  "calm w = w\<lparr>fw_faults := []\<rparr>"

definition steady :: "(folder_world, 'e, 'a) act \<Rightarrow> bool" where
  "steady m \<longleftrightarrow> (\<forall>w x w'. m w = (Return x, w') \<longrightarrow> m (calm w) = (Return x, calm w'))"

named_theorems steady_intros \<open>operations that faults can only make fail\<close>

lemma calm_simps [simp]: "fw_tree (calm w) = fw_tree w" "fw_docs (calm w) = fw_docs w" "fw_faults (calm w) = []"
  "calm (calm w) = calm w"
  by (simp_all add: calm_def)

lemma calm_same: "same_disk w w' \<Longrightarrow> calm w' = calm w"
  by (simp add: same_disk_def calm_def)

lemma steady_bind [steady_intros]:
  assumes "steady m" and "\<And>x. steady (k x)"
  shows "steady (act_bind m k)"
  unfolding steady_def
proof (intro allI impI)
  fix w y w'
  assume "act_bind m k w = (Return y, w')"
  then obtain x w1 where first: "m w = (Return x, w1)" and rest: "k x w1 = (Return y, w')"
    by (auto simp: act_bind_def split: prod.splits outcome.splits)
  from assms(1) first have "m (calm w) = (Return x, calm w1)" by (simp add: steady_def)
  moreover from assms(2) rest have "k x (calm w1) = (Return y, calm w')" by (simp add: steady_def)
  ultimately show "act_bind m k (calm w) = (Return y, calm w')" by (simp add: act_bind_def)
qed

lemma steady_simple [steady_intros]: "steady (act_return x)" "steady (act_throw e)" "steady act_diverge"
  by (auto simp: steady_def act_return_def act_throw_def act_diverge_def)

lemma steady_of [steady_intros]: "steady (act_of r)"
  by (cases r) (simp_all add: steady_simple)

lemma steady_if [steady_intros]: "steady m \<Longrightarrow> steady n \<Longrightarrow> steady (if b then m else n)"
  by simp

lemma steady_option [steady_intros]:
  "steady m \<Longrightarrow> (\<And>x. steady (k x)) \<Longrightarrow> steady (case r of None \<Rightarrow> m | Some x \<Rightarrow> k x)"
  by (cases r) simp_all

lemma steady_call [steady_intros]: "steady (fs_call f)"
  by (auto simp: steady_def fs_call_def Let_def calm_def split: list.splits option.splits prod.splits sum.splits)

lemma steady_map_error [steady_intros]: "steady m \<Longrightarrow> steady (map_error f m)"
  by (auto simp: steady_def map_error_def split: prod.splits outcome.splits)

text \<open>A fault is never the absence of the file, which \<open>lstatSafe\<close> turns into an answer.\<close>

lemma steady_lstatSafe [steady_intros]: "steady (lstatSafe p)"
  unfolding steady_def lstatSafe_def
  by (auto simp: act_catch_def act_bind_def act_return_def act_throw_def fs_lstat_def fs_call_def Let_def calm_def
      errno_of_def split: prod.splits outcome.splits list.splits option.splits sum.splits if_splits fault.splits)

lemma steady_parts [steady_intros]: "steady (lstatWorkspace p msg)" "steady (assertRealPathInside base p)"
  "steady (entry_or_throw path n)"
  unfolding lstatWorkspace_def assertRealPathInside_def with_code_def fs_realpath_def entry_or_throw_def
  by (intro steady_intros)+

lemma steady_names [steady_intros]: "steady (list_names nf directory names result)"
  by (induction names arbitrary: result) (auto intro!: steady_intros)

lemma steady_files_list [steady_intros]: "steady (files_list nf p)"
  unfolding files_list_def with_code_def fs_readdir_def by (intro steady_intros)

lemma steady_listLoop:
  assumes "\<And>d. steady (wp_list ws d)"
  shows "steady (listLoop fuel te ws opts ls)"
proof (induction fuel arbitrary: ls)
  case 0
  show ?case by (subst listLoop.simps) (auto intro!: steady_intros split: list.split)
next
  case (Suc n)
  show ?case by (subst listLoop.simps) (auto intro!: steady_intros assms Suc.IH split: list.split)
qed

lemma steady_listing:
  assumes "\<And>d. steady (wp_list ws d)"
  shows "steady (listMarkdown te ws supplied)"
  unfolding listMarkdown_def listWith_def Let_def
  by (intro steady_intros steady_listLoop assms)

section \<open>Still methods\<close>

text \<open>A method of the core that leaves the disk as it is when it returns, and the files when it fails.\<close>

definition still :: "(folder_world, 'a) core_act \<Rightarrow> bool" where
  "still m \<longleftrightarrow> (\<forall>c. wp m (\<lambda>_ c'. same_disk (core_world c) (core_world c'))
     (\<lambda>_ c'. fw_tree (core_world c') = fw_tree (core_world c)) c)"

definition keeps_tree :: "(folder_world, 'a) core_act \<Rightarrow> bool" where
  "keeps_tree m \<longleftrightarrow> (\<forall>c. wp m (\<lambda>_ c'. fw_tree (core_world c') = fw_tree (core_world c))
     (\<lambda>_ c'. fw_tree (core_world c') = fw_tree (core_world c)) c)"

named_theorems still_intros \<open>methods of the core that change no file\<close>

lemma still_bind [still_intros]: "still m \<Longrightarrow> (\<And>x. still (k x)) \<Longrightarrow> still (act_bind m k)"
  unfolding still_def
  by (intro allI wp_chain [where G = "\<lambda>c c'. same_disk (core_world c) (core_world c')"
        and H = "\<lambda>c c'. fw_tree (core_world c') = fw_tree (core_world c)"])
    (auto intro: same_disk_trans simp: same_disk_tree)

lemma still_simple [still_intros]: "still (act_return x)" "still (act_throw e)" "still (act_of r)" "still (not_running st)"
  "still get_status" "still get_state"
  by (simp_all add: still_def wp_simps split: sum.split)

lemma still_if [still_intros]: "still m \<Longrightarrow> still n \<Longrightarrow> still (if b then m else n)"
  by simp

lemma still_option [still_intros]:
  "still m \<Longrightarrow> (\<And>x. still (k x)) \<Longrightarrow> still (case r of None \<Rightarrow> m | Some x \<Rightarrow> k x)"
  by (cases r) simp_all

lemma still_world [still_intros]: "looks m \<Longrightarrow> still (on_world m)"
  unfolding still_def looks_def wp_on_world
  by (rule allI, rule wp_mono, erule spec) (simp_all add: same_disk_tree)

lemma keeps_tree_bind: "keeps_tree m \<Longrightarrow> (\<And>x. keeps_tree (k x)) \<Longrightarrow> keeps_tree (act_bind m k)"
  unfolding keeps_tree_def
  by (intro allI wp_chain [where G = "\<lambda>c c'. fw_tree (core_world c') = fw_tree (core_world c)"
        and H = "\<lambda>c c'. fw_tree (core_world c') = fw_tree (core_world c)"]) simp_all

lemma keeps_tree_world:
  "(\<And>w. wp m (\<lambda>_ w'. fw_tree w' = fw_tree w) (\<lambda>_ w'. fw_tree w' = fw_tree w) w) \<Longrightarrow> keeps_tree (on_world m)"
  unfolding keeps_tree_def wp_on_world by (auto elim!: wp_mono)

lemma looks_keeps_tree: "looks m \<Longrightarrow> keeps_tree (on_world m)"
  unfolding looks_def keeps_tree_def wp_on_world
  by (rule allI, rule wp_mono, erule spec) (simp_all add: same_disk_tree)

lemma keeps_tree_simple: "keeps_tree (act_return x)" "keeps_tree (put_status st)" "keeps_tree (put_state p)" "keeps_tree get_state"
  by (simp_all add: keeps_tree_def wp_simps)

text \<open>A refusal never returns, so what it does before matters only for the files.\<close>

lemma still_refusal [still_intros]: "keeps_tree m \<Longrightarrow> still (act_bind m (\<lambda>_. not_running st))"
  unfolding still_def keeps_tree_def wp_bind wp_not_running
  by (auto elim!: wp_mono dest!: spec)

section \<open>Secret-shaped directories\<close>

text \<open>A listing that returns has listed every directory it enters, however deep.\<close>

lemma listLoop_lists:
  assumes steady: "\<And>d. steady (wp_list ws d)" and looks: "\<And>d. looks (wp_list ws d)"
    and tree: "\<And>d es. fst (wp_list ws d (calm w)) = Return es \<Longrightarrow> tree d = es"
  shows "listLoop fuel te ws opts ls s = (Return ls', s') \<Longrightarrow> calm s = calm w \<Longrightarrow> tree_inv tree P ls \<Longrightarrow>
    \<forall>d\<in>P. \<exists>es. fst (wp_list ws d (calm w)) = Return es \<Longrightarrow> d \<in> entered tree \<Longrightarrow>
    \<exists>es. fst (wp_list ws d (calm w)) = Return es"
proof (induction fuel arbitrary: P ls s)
  case 0
  then have "ls_directories ls = []"
    by (subst (asm) listLoop.simps) (auto simp: act_diverge_def split: list.splits)
  from tree_inv_all [OF 0(3) this] 0 show ?case by blast
next
  case (Suc n)
  show ?case
  proof (cases "ls_directories ls")
    case Nil
    from tree_inv_all [OF Suc.prems(3) this] Suc.prems show ?thesis by blast
  next
    case (Cons a rest)
    with Suc.prems(1) obtain es ls1 s1 where listed: "wp_list ws a s = (Return es, s1)"
      and ls1: "listEntries te opts es (ls\<lparr>ls_directories := rest\<rparr>) = Inr ls1" "listLoop n te ws opts ls1 s1 = (Return ls', s')"
      by (subst (asm) (2) listLoop.simps)
        (auto simp: act_bind_def act_of_def act_return_def act_throw_def split: prod.splits outcome.splits sum.splits)
    have here: "fst (wp_list ws a (calm w)) = Return es"
      using steady [of a] listed Suc.prems(2) unfolding steady_def by (metis fst_conv)
    have "same_disk s s1" using looks [of a] listed by (auto simp: looks_def wp_def dest: spec [of _ s])
    then have calm: "calm s1 = calm w" using calm_same Suc.prems(2) by simp
    from ls1(1) have "listEntries te opts (tree a) (ls\<lparr>ls_directories := rest\<rparr>) = Inr ls1" by (simp add: tree [OF here])
    note inv = tree_inv_step [OF Suc.prems(3) Cons this]
    from Suc.IH [OF ls1(2) calm inv] Suc.prems(4,5) here show ?thesis by blast
  qed
qed

lemma listMarkdown_lists:
  assumes "listMarkdown te (NodeFolderFiles nf) supplied w = (Return es, w')" and "d \<in> entered (disk_tree nf (calm w))"
  shows "\<exists>es. fst (files_list nf d (calm w)) = Return es"
proof -
  let ?ws = "NodeFolderFiles nf" and ?tree = "disk_tree nf (calm w)"
  let ?ls0 = "\<lparr>ls_directories = [[]], ls_entries = [], ls_seen = [], ls_count = 0\<rparr>"
  have calls: "steady (wp_list ?ws d)" "looks (wp_list ?ws d)" for d
    by (simp_all add: NodeFolderFiles_def steady_files_list looks_files)
  have tree: "?tree d = es" if "fst (wp_list ?ws d (calm w)) = Return es" for d es
    using that by (auto simp: disk_tree_def NodeFolderFiles_def split: prod.splits outcome.splits)
  from assms(1) obtain opts ls w1 where run: "listLoop (so_maxEntries opts + 1) te ?ws opts ?ls0 w = (Return ls, w1)"
    by (auto simp: listMarkdown_def listWith_def act_bind_def act_of_def act_return_def act_throw_def Let_def
        split: prod.splits outcome.splits sum.splits)
  have start: "tree_inv ?tree {} ?ls0" by (simp add: tree_inv_def entered.root)
  have "\<exists>es. fst (wp_list ?ws d (calm w)) = Return es"
    by (rule listLoop_lists [OF calls tree run refl start _ assms(2)]) (assumption | rule ballI | simp)+
  then show ?thesis by (simp add: NodeFolderFiles_def)
qed

text \<open>
  C29. The scan policy and the folder adapter disagree on directories: \<open>shouldExclude\<close> lets the listing
  enter a directory with a secret-shaped name, at any depth, which \<open>NodeFolderFiles.list\<close> refuses; so as
  soon as the listing would come to one (\<open>design-tokens\<close>, say) it never returns, whatever calls fail.
\<close>

theorem secret_directory_blocks_listing:
  assumes "d \<in> entered (disk_tree nf (calm w))" and "isSecretShaped d"
  shows "\<nexists>es w'. listMarkdown te (NodeFolderFiles nf) supplied w = (Return es, w')"
proof
  assume "\<exists>es w'. listMarkdown te (NodeFolderFiles nf) supplied w = (Return es, w')"
  then obtain es where "fst (files_list nf d (calm w)) = Return es"
    using listMarkdown_lists [OF _ assms(1)] by metis
  then obtain a where "absolute nf True d = Inr a"
    by (cases "absolute nf True d") (auto simp: files_list_def act_bind_def act_throw_def)
  moreover have "d \<noteq> []"
    using assms(2) by (auto simp: isSecretShaped_def after_slashes_def env_shaped_def word_shaped_def
        folded_prefix_def starts_with_def lit_def)
  ultimately show False using absolute_Inr(2) assms(2) by blast
qed

definition secret_disk :: folder_world where
  "secret_disk = sample_disk\<lparr>fw_tree := [([lit ''v''], FsDir (Fin 0)), ([lit ''v'', lit ''work''], FsDir (Fin 0)),
     ([lit ''v'', lit ''work'', lit ''tokens''], FsDir (Fin 0))]\<rparr>"

theorem secret_directory_blocks_listing_witness:
  "\<nexists>es w'. listMarkdown ascii_env (NodeFolderFiles sample_folder) sample_supplied secret_disk = (Return es, w')"
proof -
  let ?dir = "\<lambda>p. \<lparr>we_path = p, we_kind = KDirectory, we_size = None, we_mtimeMs = Some (Fin 0)\<rparr>"
  let ?tree = "disk_tree sample_folder (calm secret_disk)"
  have "?tree [] = [?dir (lit ''work'')]" "?tree (lit ''work'') = [?dir (lit ''work/tokens'')]"
    "\<not> shouldExclude (lit ''work'') KDirectory" "\<not> shouldExclude (lit ''work/tokens'') KDirectory"
    by code_simp+
  then have "lit ''work/tokens'' \<in> entered ?tree"
    using entered.sub [OF entered.sub [OF entered.root, of "?dir (lit ''work'')" ?tree], of "?dir (lit ''work/tokens'')"]
    by simp
  moreover have "isSecretShaped (lit ''work/tokens'')" by code_simp
  ultimately show ?thesis by (rule secret_directory_blocks_listing)
qed

end
