(* ===== verification/FolderSync.thy ===== *)
theory FolderSync
  imports FolderQuiet FolderReconcileRun
begin

text \<open>
  A folder source as the files of a reconciliation: listing, reading and writing through the core keep
  the contracts the reconciliation relies on, whatever calls fail, on a folder that was tidy when the
  reconciliation began.
\<close>

section \<open>The folder's text files\<close>

definition md_path :: "jsstr \<Rightarrow> bool" where
  "md_path p \<longleftrightarrow> \<not> shouldExclude p KFile \<and> portable_path p"

definition file_at :: "fs_tree \<Rightarrow> abs_path \<Rightarrow> bytes option" where
  "file_at t q = (case map_of t q of Some (FsFile bs _) \<Rightarrow> Some bs | _ \<Rightarrow> None)"

definition tree_text :: "folder_files \<Rightarrow> fs_tree \<Rightarrow> jsstr \<Rightarrow> bytes option" where
  "tree_text nf t p = (if md_path p then file_at t (nf_root nf @ split_on 47 p) else None)"

definition folder_text :: "folder_files \<Rightarrow> folder_world core \<Rightarrow> jsstr \<Rightarrow> bytes option" where
  "folder_text nf c = tree_text nf (fw_tree (core_world c))"

text \<open>No entry has the name of a temporary file, one that a write cut short had left behind, say.\<close>

definition temp_shaped :: "jsstr \<Rightarrow> bool" where
  "temp_shaped s \<longleftrightarrow> dotted s \<and> take 4 (rev s) = rev (lit ''.tmp'')"

definition no_temp :: "fs_tree \<Rightarrow> bool" where
  "no_temp t \<longleftrightarrow> list_all (\<lambda>(q, _). q = [] \<or> \<not> temp_shaped (last q)) t"

definition folder_sound :: "folder_files \<Rightarrow> folder_world core \<Rightarrow> bool" where
  "folder_sound nf c \<longleftrightarrow> real_dir (fw_tree (core_world c)) (nf_root nf) \<and> no_temp (fw_tree (core_world c))"

definition folder_ready :: "folder_files \<Rightarrow> folder_world core \<Rightarrow> bool" where
  "folder_ready nf c \<longleftrightarrow> tidy nf (calm (core_world c)) \<and> no_temp (fw_tree (core_world c))"

lemma ready_sound: "folder_ready nf c \<Longrightarrow> folder_sound nf c"
  by (simp add: folder_ready_def folder_sound_def tidy_def)

lemma same_disk_views:
  assumes "same_disk (core_world c) (core_world c')"
  shows "folder_text nf c' = folder_text nf c" "folder_ready nf c \<Longrightarrow> folder_ready nf c'"
    "folder_sound nf c \<Longrightarrow> folder_sound nf c'" "doc_at k (core_world c') = doc_at k (core_world c)"
  using calm_same [OF assms] same_disk_tree [OF assms] assms
  by (simp_all add: folder_text_def folder_ready_def folder_sound_def doc_at_def same_disk_def)

lemma ready_same:
  "folder_ready nf c \<Longrightarrow> same_disk (core_world c) (core_world c') \<Longrightarrow>
   folder_ready nf c' \<and> folder_text nf c' = folder_text nf c \<and>
   doc_at BASELINE_KEY (core_world c') = doc_at BASELINE_KEY (core_world c)"
  using same_disk_views by blast

lemma temp_name_dotted: "dotted (temp_name nf x n)"
  by (simp add: temp_name_def dotted_def starts_with_def)

lemma temp_name_shaped: "temp_shaped (temp_name nf x n)"
  using temp_name_dotted [of nf x n] by (simp add: temp_shaped_def temp_name_def)

lemma no_tempD: "no_temp t \<Longrightarrow> map_of t (d @ [temp_name nf x n]) = None"
  using temp_name_shaped by (cases "map_of t (d @ [temp_name nf x n])") (auto simp: no_temp_def list_all_iff dest!: map_of_SomeD)

lemma split_inject: "split_on c p = split_on c q \<longleftrightarrow> p = q"
  using join_split_on by metis

section \<open>Reading below the folder\<close>

text \<open>Without links below it, a path below a real directory resolves to itself.\<close>

lemma real_dir_prefix:
  assumes "real_dir t (a @ b)"
  shows "real_dir t a"
  unfolding real_dir_def
proof (intro allI impI)
  fix i
  assume i: "i < length a"
  then have "\<exists>m. map_of t (take (Suc i) (a @ b)) = Some (FsDir m)"
    using assms unfolding real_dir_def by (metis length_append trans_less_add1)
  with i show "\<exists>m. map_of t (take (Suc i) a) = Some (FsDir m)" by simp
qed

lemma canon_dir: "real_dir t (acc @ p) \<Longrightarrow> canon n t acc (p @ q) = canon n t (acc @ p) q"
proof (induction p arbitrary: acc)
  case (Cons s p)
  have "real_dir t (acc @ [s])" by (rule real_dir_prefix [of _ _ p]) (use Cons.prems in simp)
  then obtain m where "map_of t (acc @ [s]) = Some (FsDir m)" by auto
  with Cons.IH [of "acc @ [s]"] Cons.prems show ?case by simp
qed simp

lemma canon_linkless:
  assumes "canon n t acc p = Inr q" and "\<And>i. i < length p \<Longrightarrow> \<forall>target. map_of t (acc @ take (Suc i) p) \<noteq> Some (FsLink target)"
  shows "q = acc @ p"
  using assms
proof (induction p arbitrary: acc)
  case (Cons s p)
  from Cons.prems(2) [of 0] have no_link: "map_of t (acc @ [s]) \<noteq> Some (FsLink x)" for x by simp
  have below: "\<forall>target. map_of t ((acc @ [s]) @ take (Suc i) p) \<noteq> Some (FsLink target)" if "i < length p" for i
    using Cons.prems(2) [of "Suc i"] that by simp
  show ?case
  proof (cases "map_of t (acc @ [s])")
    case None
    with Cons.prems(1) show ?thesis by simp
  next
    case (Some n')
    with Cons.prems(1) no_link Cons.IH [OF _ below] show ?thesis
      by (cases n') (auto split: if_splits)
  qed
qed simp

lemma tidy_no_link:
  assumes "tidy nf w" and "r \<noteq> []" and "list_all open_name r"
  shows "map_of (fw_tree w) (nf_root nf @ r) \<noteq> Some (FsLink x)"
  using tidy_nodeD [OF assms(1,2) _ list_all_butlast [OF assms(3)]] by (fastforce simp: tidy_node_def)

lemma tidy_realpath:
  assumes "tidy nf w" and "realpath_of (fw_tree w) (nf_root nf @ r) = Inr q" and "list_all open_name r"
  shows "q = nf_root nf @ r"
proof -
  have "real_dir (fw_tree w) (nf_root nf)" using assms(1) by (simp add: tidy_def)
  then have "canon 40 (fw_tree w) (nf_root nf) r = Inr q"
    using assms(2) canon_dir [of "fw_tree w" "[]" "nf_root nf" 40 r] by (simp add: realpath_of_def)
  then show ?thesis
  proof (rule canon_linkless, intro allI)
    fix i target
    assume "i < length r"
    then have "take (Suc i) r \<noteq> []" by auto
    moreover have "list_all open_name (take (Suc i) r)"
      using assms(3) by (auto simp: list_all_iff dest: in_set_takeD)
    ultimately show "map_of (fw_tree w) (nf_root nf @ take (Suc i) r) \<noteq> Some (FsLink target)"
      by (rule tidy_no_link [OF assms(1)])
  qed
qed

lemma md_names: "\<not> shouldExclude p KFile \<Longrightarrow> list_all open_name (split_on 47 p)"
  using file_component [of p] by (simp add: hasExcludedComponent_def list_all_iff list_ex_iff open_name_def)

lemma ready_read:
  assumes "folder_ready nf c" and "read_from nf (fw_tree (core_world c)) p bs"
  shows "folder_text nf c p = Some bs"
proof -
  from assms(2) obtain r m where p: "\<not> shouldExclude p KFile" "portable_path p"
    and r: "realpath_of (fw_tree (core_world c)) (nf_root nf @ split_on 47 p) = Inr (nf_root nf @ r)"
      "map_of (fw_tree (core_world c)) (nf_root nf @ r) = Some (FsFile bs m)"
    by (auto simp: read_from_def)
  have "tidy nf (calm (core_world c))" using assms(1) by (simp add: folder_ready_def)
  from tidy_realpath [OF this, of "split_on 47 p"] r(1) md_names [OF p(1)] have "r = split_on 47 p" by simp
  with r(2) p show ?thesis by (simp add: folder_text_def tree_text_def md_path_def file_at_def)
qed

section \<open>Listing\<close>

lemma listed_exactly:
  assumes "tidy nf w" and "listMarkdown te (NodeFolderFiles nf) supplied w = (Return es, w')"
    and "tree_text nf (fw_tree w) p = Some bs"
  shows "\<exists>e\<in>set es. we_path e = p \<and> we_kind e = KFile \<and> we_size e = Some (length bs)"
proof -
  let ?r = "split_on 47 p"
  obtain opts where "listWith te (NodeFolderFiles nf) opts w = (Return es, w')"
    using assms(2) by (cases "boundedOptions supplied")
      (auto simp: listMarkdown_def act_bind_def act_throw_def act_return_def)
  from listing_tree.listWith_tree [OF tidy_listing_tree [OF assms(1)] this]
  have es: "set es = {entry_at nf w r | r. r \<noteq> [] \<and>
      (\<exists>bs m. map_of (fw_tree w) (nf_root nf @ r) = Some (FsFile bs m)) \<and> \<not> shouldExclude (slashed r) KFile}"
    using tidy_files [OF assms(1)] by blast
  from assms(3) obtain m where p: "md_path p" and node: "map_of (fw_tree w) (nf_root nf @ ?r) = Some (FsFile bs m)"
    by (auto simp: tree_text_def file_at_def split: if_splits option.splits fs_node.splits)
  then have "entry_at nf w ?r \<in> set es"
    unfolding es by (auto simp: md_path_def join_split_on)
  moreover have "we_path (entry_at nf w ?r) = p \<and> we_kind (entry_at nf w ?r) = KFile \<and>
      we_size (entry_at nf w ?r) = Some (length bs)"
    using node by (simp add: entry_at_def entry_for_def join_split_on)
  ultimately show ?thesis by blast
qed

lemma wp_listing:
  assumes "folder_ready nf c"
  shows "wp (on_world (listMarkdown te (NodeFolderFiles nf) supplied))
    (\<lambda>es c'. same_disk (core_world c) (core_world c') \<and> (\<forall>p bs. folder_text nf c p = Some bs \<longrightarrow>
       (\<exists>e\<in>set es. we_path e = p \<and> we_kind e = KFile \<and> we_size e = Some (length bs))))
    (\<lambda>_ c'. same_disk (core_world c) (core_world c')) c"
proof -
  let ?m = "listMarkdown te (NodeFolderFiles nf) supplied" and ?w = "core_world c"
  have "looks ?m" by (rule looks_listing) (simp add: NodeFolderFiles_def looks_files)
  then have looks: "wp ?m (\<lambda>_. same_disk ?w) (\<lambda>_. same_disk ?w) ?w" unfolding looks_def by blast
  have steady: "steady ?m"
    by (rule steady_listing) (simp add: NodeFolderFiles_def steady_files_list)
  have tidy: "tidy nf (calm ?w)" using assms by (simp add: folder_ready_def)
  have "\<exists>e\<in>set es. we_path e = p \<and> we_kind e = KFile \<and> we_size e = Some (length bs)"
    if "?m ?w = (Return es, w')" "folder_text nf c p = Some bs" for es w' p bs
    using listed_exactly [OF tidy, of te supplied es "calm w'" p bs] steady that
    by (simp add: steady_def folder_text_def)
  with looks show ?thesis
    unfolding wp_on_world by (auto simp: wp_def split: prod.splits outcome.splits)
qed

text \<open>A file of a ready folder has a path that the policy accepts as it is.\<close>

lemma ready_paths:
  assumes "folder_ready nf c" and "folder_text nf c p \<noteq> None"
  shows "note_path (te_nfc (nf_text nf)) p"
proof -
  let ?w = "calm (core_world c)" and ?r = "split_on 47 p"
  have tidy: "tidy nf ?w" using assms(1) by (simp add: folder_ready_def)
  from assms(2) obtain bs m where p: "\<not> shouldExclude p KFile"
    and node: "map_of (fw_tree ?w) (nf_root nf @ ?r) = Some (FsFile bs m)"
    by (auto simp: folder_text_def tree_text_def file_at_def md_path_def split: if_splits option.splits fs_node.splits)
  from tidy_nodeD [OF tidy split_on_nonempty node list_all_butlast [OF md_names [OF p]]]
  have "validateRelativePath (te_nfc (nf_text nf)) (slashed ?r) = Inr (slashed ?r)" by (rule tidy_validate)
  with p show ?thesis by (simp add: join_split_on validateMarkdownPath_def)
qed

section \<open>Writing\<close>

lemma grown_file_at: "grown k q t t' \<Longrightarrow> file_at t' = file_at t"
proof (rule ext)
  fix x
  assume "grown k q t t'"
  then have "map_of t' x = map_of t x \<or> map_of t x = None \<and> (\<exists>m. map_of t' x = Some (FsDir m))"
    unfolding grown_def by blast
  then show "file_at t' x = file_at t x" by (auto simp: file_at_def)
qed

lemma committed_file_at: "committed a bs w w' \<Longrightarrow> file_at (fw_tree w') = (file_at (fw_tree w))(a := Some bs)"
  by (simp add: committed_def file_at_def fun_eq_iff)

lemma temp_only_file_at: "temp_only temp t t' \<Longrightarrow> q \<noteq> temp \<Longrightarrow> file_at t' q = file_at t q"
  by (simp add: temp_only_def file_at_def)

lemma no_temp_iff: "no_temp t \<longleftrightarrow> (\<forall>q. map_of t q \<noteq> None \<longrightarrow> q = [] \<or> \<not> temp_shaped (last q))"
  by (auto simp: no_temp_def list_all_iff map_of_eq_None_iff)

lemma md_component: "md_path p \<Longrightarrow> s \<in> set (split_on 47 p) \<Longrightarrow> \<not> dotted s"
  using file_component by (auto simp: md_path_def hasExcludedComponent_def list_ex_iff)

lemma written_text:
  assumes "write_done (length (nf_root nf)) a bs w w'" and a: "a = nf_root nf @ split_on 47 p" and p: "md_path p"
    and "real_dir (fw_tree w) (nf_root nf)" and "no_temp (fw_tree w)"
  shows "tree_text nf (fw_tree w') = (tree_text nf (fw_tree w))(p := Some bs)"
    and "real_dir (fw_tree w') (nf_root nf)" and "no_temp (fw_tree w')"
proof -
  obtain w1 where g: "grown (length (nf_root nf)) (butlast a) (fw_tree w) (fw_tree w1)" and c: "committed a bs w1 w'"
    using assms(1) by (auto simp: write_done_def grown_world_def)
  show "tree_text nf (fw_tree w') = (tree_text nf (fw_tree w))(p := Some bs)"
    using p by (simp add: fun_eq_iff tree_text_def committed_file_at [OF c] grown_file_at [OF g] a split_inject)
  have "real_dir (fw_tree w1) (nf_root nf)"
    by (rule real_dir_mono [OF assms(4) grown_keeps [OF g]])
  moreover have "take i (nf_root nf) \<noteq> a" for i
  proof -
    have "length (take i (nf_root nf)) < length a" by (simp add: a min.strict_coboundedI1)
    then show ?thesis by auto
  qed
  ultimately show "real_dir (fw_tree w') (nf_root nf)"
    using c by (simp add: real_dir_def committed_def)
  show "no_temp (fw_tree w')"
    unfolding no_temp_iff
  proof (intro allI impI)
    fix q
    assume q: "map_of (fw_tree w') q \<noteq> None"
    have comp: "\<not> temp_shaped s" if "s \<in> set (split_on 47 p)" for s
      using md_component [OF p that] by (simp add: temp_shaped_def)
    consider "q = a" | "map_of (fw_tree w) q \<noteq> None" | i where "length (nf_root nf) < i" "i \<le> length (butlast a)" "q = take i (butlast a)"
      using q g c unfolding grown_def committed_def by metis
    then show "q = [] \<or> \<not> temp_shaped (last q)"
    proof cases
      case 1
      then show ?thesis using comp [of "last (split_on 47 p)"] by (simp add: a)
    next
      case 2
      with assms(5) show ?thesis by (simp add: no_temp_iff)
    next
      case 3
      let ?below = "take (i - length (nf_root nf)) (butlast (split_on 47 p))"
      have q: "q = nf_root nf @ ?below" using 3 by (simp add: a butlast_append)
      have "length (butlast a) = length (nf_root nf) + length (butlast (split_on 47 p))"
        by (simp add: a butlast_append)
      with 3(1,2) have ne: "?below \<noteq> []"
        by (cases "butlast (split_on 47 p)") (simp_all del: length_butlast)
      then have "last ?below \<in> set (split_on 47 p)" by (meson in_set_butlastD in_set_takeD last_in_set)
      with ne comp show ?thesis by (simp add: q)
    qed
  qed
qed

lemma failed_text:
  assumes "write_failed (length (nf_root nf)) a temp w w'" and "temp = d @ [s]" and "dotted s"
  shows "tree_text nf (fw_tree w') = tree_text nf (fw_tree w)"
proof -
  obtain w1 :: folder_world where g: "grown (length (nf_root nf)) (butlast a) (fw_tree w) (fw_tree w1)"
    and t: "fw_tree w' = fw_tree w1 \<or> temp_only temp (fw_tree w1) (fw_tree w')"
    using assms(1) by (auto simp: write_failed_def grown_world_def)
  have "nf_root nf @ split_on 47 q \<noteq> temp" if "md_path q" for q
    using md_component [OF that last_in_set] assms(2,3) by (metis last_appendR last_snoc split_on_nonempty)
  then have "tree_text nf (fw_tree w') q = tree_text nf (fw_tree w1) q" for q
    using t temp_only_file_at by (auto simp: tree_text_def)
  then show ?thesis by (simp add: fun_eq_iff tree_text_def grown_file_at [OF g])
qed

lemma wp_cases:
  "wp m Q R s \<Longrightarrow> (\<And>x s'. m s = (Return x, s') \<Longrightarrow> Q x s' \<Longrightarrow> Q' x s') \<Longrightarrow> (\<And>e s'. R e s' \<Longrightarrow> R' e s') \<Longrightarrow> wp m Q' R' s"
  by (auto simp: wp_def split: prod.splits outcome.splits)

lemma wp_write_text:
  assumes root_ok: "real_dir (fw_tree w) (nf_root nf)" and temps: "no_temp (fw_tree w)"
  shows "wp (files_write nf p bs)
    (\<lambda>_ w'. tree_text nf (fw_tree w') = (tree_text nf (fw_tree w))(p := Some bs) \<and>
       real_dir (fw_tree w') (nf_root nf) \<and> no_temp (fw_tree w'))
    (\<lambda>_ w'. tree_text nf (fw_tree w') = tree_text nf (fw_tree w)) w"
proof (rule wp_cases [OF wp_files_write [OF root_ok refl refl no_tempD [OF temps]]])
  let ?a = "nf_root nf @ split_on 47 p"
  fix x w'
  assume "files_write nf p bs w = (Return x, w')"
  then have "md_path p" using write_returned(1) [of nf p bs w w'] assertMarkdownPath_Inr by (simp add: md_path_def)
  moreover assume "write_done (length (nf_root nf)) ?a bs w w'"
  ultimately show "tree_text nf (fw_tree w') = (tree_text nf (fw_tree w))(p := Some bs) \<and>
       real_dir (fw_tree w') (nf_root nf) \<and> no_temp (fw_tree w')"
    using written_text [OF _ refl _ root_ok temps] by simp
next
  let ?a = "nf_root nf @ split_on 47 p"
  fix e w'
  assume "write_failed (length (nf_root nf)) ?a (butlast ?a @ [temp_name nf (last ?a) (fw_uuids w)]) w w'"
  then show "tree_text nf (fw_tree w') = tree_text nf (fw_tree w)"
    by (rule failed_text [OF _ refl temp_name_dotted])
qed

section \<open>The folder source under a reconciliation\<close>

lemma baseline_key: "key_ok BASELINE_KEY" "BASELINE_KEY \<noteq> CORE_STATE_KEY"
  by code_simp+

text \<open>
  A reconciliation of a folder source with a custody, a clock and an interface that leave the disk alone,
  and a digest of 32 bytes.
\<close>

locale folder_sync = remote_texts "te_nfc (nf_text nf)" "re_remote env" rem
  for env :: "(folder_world, 'r) reconcile_env" and rem :: "'r \<Rightarrow> jsstr \<Rightarrow> jsstr option" and nf :: folder_files +
  fixes sha256_text :: "jsstr \<Rightarrow> jsstr" and options :: folder_options and d :: source_descriptor
  assumes source: "re_core env = folder_core_options sha256_text nf options d"
    and state_store: "re_state env = FileStateStore"
    and custody_looks: "looks (cp_get (fo_credentials options))"
    and clock_looks: "looks (re_now env)"
    and now_looks: "looks (fo_now options)"
    and ui_looks: "fo_ui options = Some emit \<Longrightarrow> looks (emit ev)"
    and digest_32: "length (re_digest env bs) = 32"
begin

lemma core_fields:
  "co_files (re_core env) = NodeFolderFiles nf" "co_state (re_core env) = FileStateStore"
  "co_now (re_core env) = fo_now options" "co_ui (re_core env) = fo_ui options"
  "co_text (re_core env) = nf_text nf"
  "co_credentials (re_core env) =
     scoped_custody (sourceIdentityForCanonicalRoot sha256_text (nf_root nf)) (fo_credentials options)"
  by (simp_all add: source folder_core_options_def)

lemma looks_custody: "looks (cp_get (co_credentials (re_core env)))"
  unfolding core_fields scoped_custody_def scope_error_def custody_port.simps
  by (intro looks_intros custody_looks)

lemma keeps_tree_setStatus: "keeps_tree (setStatus (re_core env) st)"
proof -
  have save: "keeps_tree (save_state (re_core env) p)" for p
    unfolding save_state_def core_fields FileStateStore_def
    by (intro keeps_tree_bind keeps_tree_simple keeps_tree_world)
      (auto intro: wp_mono [OF wp_store_write_key [OF core_key_ok]] simp: same_disk_tree)
  have emit: "keeps_tree (emit_status (re_core env) st)"
  proof (cases "fo_ui options")
    case None
    then show ?thesis by (simp add: emit_status_def core_fields keeps_tree_simple)
  next
    case (Some emit)
    then have "looks (emit (StatusEvent st))" by (rule ui_looks)
    with Some show ?thesis by (simp add: emit_status_def core_fields looks_keeps_tree)
  qed
  have skip: "keeps_tree (case state of Some p \<Rightarrow> if pcs_status p \<noteq> st then save_state (re_core env) (p\<lparr>pcs_status := st\<rparr>)
      else act_return () | None \<Rightarrow> act_return ())" for state
    by (simp add: save keeps_tree_simple split: option.split)
  show ?thesis
    unfolding setStatus_def by (intro keeps_tree_bind skip emit keeps_tree_simple)
qed

lemma still_requireRunning: "still (requireRunning (re_core env))"
  unfolding requireRunning_def
  by (intro still_intros looks_custody keeps_tree_setStatus) (simp add: core_fields now_looks)

lemma still_stat: "still (core_stat (re_core env) p)"
  unfolding core_stat_def
  by (intro still_intros still_requireRunning) (simp add: core_fields NodeFolderFiles_def looks_files)

end

lemma still_views:
  "still m \<Longrightarrow> wp m (\<lambda>_ c'. same_disk (core_world c) (core_world c'))
     (\<lambda>_ c'. folder_text nf c' = folder_text nf c \<and> (folder_sound nf c \<longrightarrow> folder_sound nf c')) c"
  unfolding still_def by (rule wp_mono, erule spec) (simp_all add: folder_text_def folder_sound_def)

sublocale folder_sync \<subseteq> ports: reconcile_ports env rem "folder_ready nf" "folder_sound nf" "folder_text nf"
  "\<lambda>c. doc_at BASELINE_KEY (core_world c)"
proof (intro reconcile_ports.intro reconcile_ports_axioms.intro)
  show "remote_texts (te_nfc (co_text (re_core env))) (re_remote env) rem"
    using remote_texts_axioms by (simp add: core_fields)
next
  fix c c1 :: "folder_world core" and p bs v
  show "folder_ready nf c \<Longrightarrow> folder_text nf c p \<noteq> None \<Longrightarrow> env_path env p"
    using ready_paths [of nf c p] by (simp add: core_fields)
  show "folder_ready nf c \<Longrightarrow> folder_sound nf c" by (rule ready_sound)
  show "length (re_digest env bs) = 32" by (rule digest_32)
  show "wp (on_world (re_now env))
      (\<lambda>_ c'. folder_ready nf c' \<and> folder_text nf c' = folder_text nf c \<and>
         doc_at BASELINE_KEY (core_world c') = doc_at BASELINE_KEY (core_world c))
      (\<lambda>_ c'. folder_text nf c' = folder_text nf c) c" if "folder_ready nf c"
    by (rule wp_mono [OF still_views [where nf = nf, OF still_world [OF clock_looks]]]) (auto dest!: ready_same [OF that])
  show "wp (on_world (lsp_read (re_state env) BASELINE_KEY))
      (\<lambda>v c'. v = doc_at BASELINE_KEY (core_world c) \<and> folder_ready nf c' \<and> folder_text nf c' = folder_text nf c)
      (\<lambda>_ c'. folder_text nf c' = folder_text nf c) c" if "folder_ready nf c"
    unfolding wp_on_world state_store FileStateStore_def local_state_port.simps
    by (rule wp_mono [OF wp_store_read_key [OF baseline_key(1)]]) (auto dest!: ready_same [OF that, of "c\<lparr>core_world := _\<rparr>", simplified])
  show "wp (on_world (lsp_write (re_state env) BASELINE_KEY v))
      (\<lambda>_ c'. folder_text nf c' = folder_text nf c \<and> doc_at BASELINE_KEY (core_world c') = json_copy v)
      (\<lambda>_ c'. folder_text nf c' = folder_text nf c) c" if "folder_sound nf c"
    unfolding wp_on_world state_store FileStateStore_def local_state_port.simps
    by (rule wp_mono [OF wp_store_write_key [OF baseline_key(1)]])
      (auto simp: folder_text_def doc_at_def update_conv' same_disk_tree)
  show "wp (core_listMarkdown (re_core env) no_options)
      (\<lambda>es c'. folder_ready nf c' \<and> folder_text nf c' = folder_text nf c \<and> (\<forall>p bs. folder_text nf c p = Some bs \<longrightarrow>
         (\<exists>e\<in>set es. we_path e = p \<and> we_kind e = KFile \<and> we_size e = Some (length bs))))
      (\<lambda>_ c'. folder_text nf c' = folder_text nf c) c" if "folder_ready nf c"
    unfolding core_listMarkdown_def wp_bind core_fields
  proof (rule wp_mono [OF still_views [where nf = nf, OF still_requireRunning]])
    fix x and c1 :: "folder_world core"
    assume same: "same_disk (core_world c) (core_world c1)"
    note views = ready_same [OF that same]
    then have ready: "folder_ready nf c1" by simp
    show "wp (on_world (listMarkdown (nf_text nf) (NodeFolderFiles nf) no_options))
      (\<lambda>es c'. folder_ready nf c' \<and> folder_text nf c' = folder_text nf c \<and> (\<forall>p bs. folder_text nf c p = Some bs \<longrightarrow>
         (\<exists>e\<in>set es. we_path e = p \<and> we_kind e = KFile \<and> we_size e = Some (length bs))))
      (\<lambda>_ c'. folder_text nf c' = folder_text nf c) c1"
      by (rule wp_mono [OF wp_listing [OF ready]]) (use views in \<open>auto dest!: ready_same [OF ready]\<close>)
  qed simp
  show "wp (core_read (re_core env) p)
      (\<lambda>bs c'. folder_ready nf c' \<and> folder_text nf c' = folder_text nf c \<and> folder_text nf c p = Some bs)
      (\<lambda>_ c'. folder_text nf c' = folder_text nf c) c" if "folder_ready nf c"
  proof -
    have get: "wp (on_world (files_read nf q))
        (\<lambda>bs c'. folder_ready nf c' \<and> folder_text nf c' = folder_text nf c \<and> folder_text nf c q = Some bs)
        (\<lambda>_ c'. folder_text nf c' = folder_text nf c) c1" if "same_disk (core_world c) (core_world c1)" for c1 :: "folder_world core" and q
    proof -
      note views = ready_same [OF \<open>folder_ready nf c\<close> that]
      then have ready: "folder_ready nf c1" by simp
      show ?thesis
        unfolding wp_on_world
        by (rule wp_mono [OF wp_files_read])
          (use views ready_read [OF ready] in \<open>auto dest!: ready_same [OF ready, of "c1\<lparr>core_world := _\<rparr>", simplified]\<close>)
    qed
    have "wp (act_bind (core_stat (re_core env) q) (\<lambda>entry.
        if (case entry of Some e \<Rightarrow> we_kind e \<noteq> KFile | None \<Rightarrow> True)
        then act_throw err else on_world (files_read nf q)))
      (\<lambda>bs c'. folder_ready nf c' \<and> folder_text nf c' = folder_text nf c \<and> folder_text nf c q = Some bs)
      (\<lambda>_ c'. folder_text nf c' = folder_text nf c) c" for q err
      unfolding wp_bind
      by (rule wp_mono [OF still_views [where nf = nf, OF still_stat]]) (auto simp: wp_throw intro!: get dest: same_disk_views(1))
    then show ?thesis
      unfolding core_read_def core_fields NodeFolderFiles_def workspace_port.simps wp_bind [of "act_of _"] wp_of
      by (auto dest: validateRelativePath_Inr split: sum.split)
  qed
  show "wp (core_write (re_core env) p bs)
      (\<lambda>_ c'. folder_sound nf c' \<and> folder_text nf c' = (folder_text nf c)(p := Some bs))
      (\<lambda>_ c'. folder_text nf c' = folder_text nf c) c" if "folder_sound nf c"
  proof -
    have put: "wp (on_world (files_write nf q bs))
        (\<lambda>_ c'. folder_sound nf c' \<and> folder_text nf c' = (folder_text nf c)(q := Some bs))
        (\<lambda>_ c'. folder_text nf c' = folder_text nf c) c1" if "same_disk (core_world c) (core_world c1)" for c1 :: "folder_world core" and q
    proof -
      note views = same_disk_views [OF that]
      have "folder_sound nf c1" by (rule views(3) [OF \<open>folder_sound nf c\<close>])
      then show ?thesis
        unfolding wp_on_world views(1) [symmetric]
        by (intro wp_mono [OF wp_write_text]) (simp_all add: folder_sound_def folder_text_def)
    qed
    have "wp (act_bind (core_stat (re_core env) q) (\<lambda>entry.
        if (case entry of Some e \<Rightarrow> we_kind e \<noteq> KFile | None \<Rightarrow> False)
        then act_throw err else on_world (files_write nf q bs)))
      (\<lambda>_ c'. folder_sound nf c' \<and> folder_text nf c' = (folder_text nf c)(q := Some bs))
      (\<lambda>_ c'. folder_text nf c' = folder_text nf c) c" for q err
      unfolding wp_bind
      by (rule wp_mono [OF still_views [where nf = nf, OF still_stat]]) (auto simp: wp_throw intro!: put dest: same_disk_views(1))
    then show ?thesis
      unfolding core_write_def core_fields NodeFolderFiles_def workspace_port.simps wp_bind [of "act_of _"] wp_of
      by (auto dest: validateRelativePath_Inr split: sum.split)
  qed
qed

end
