(* ===== verification/CliRuntimeProps.thy ===== *)
theory CliRuntimeProps
  imports CliRuntime FolderSync
begin

text \<open>
  The runtime over a vault that keeps its contract: its remote port keeps the one of the
  reconciliation, so a whole \<open>syncOnce\<close> loses no text; and what stopping it means.
\<close>

section \<open>Paths of the vault\<close>

text \<open>
  The vault's own normal form of a path: \<open>canonicalizeVaultPath\<close> of the vendored document layer. Every method of
  the vault that takes a path normalises it first, so that \<open>/a.md\<close> and \<open>./a.md\<close> name the note \<open>a.md\<close>.
\<close>

fun collapse_slashes :: "jsstr \<Rightarrow> jsstr" where
  "collapse_slashes (u # v # r) =
     (if u = 47 \<and> v = 47 then collapse_slashes (v # r) else u # collapse_slashes (v # r))"
| "collapse_slashes p = p"

fun strip_dot_slashes :: "jsstr \<Rightarrow> jsstr" where
  "strip_dot_slashes (u # v # r) = (if u = 46 \<and> v = 47 then strip_dot_slashes r else u # v # r)"
| "strip_dot_slashes p = p"

definition canonicalizeVaultPath :: "(jsstr \<Rightarrow> jsstr) \<Rightarrow> jsstr \<Rightarrow> jsstr" where
  "canonicalizeVaultPath nfc input =
     nfc (dropWhile (\<lambda>u. u = 47) (strip_dot_slashes (collapse_slashes
       (List.map (\<lambda>u. if u = 92 then 47 else u) input))))"

lemma collapse_nothing: "\<forall>a b. p \<noteq> a @ 47 # 47 # b \<Longrightarrow> collapse_slashes p = p"
proof (induction p rule: collapse_slashes.induct)
  case (1 u v r)
  have "v # r \<noteq> a @ 47 # 47 # b" for a b
    using 1(3) by (metis append_Cons)
  moreover have "\<not> (u = 47 \<and> v = 47)" using 1(3) by (metis append_Nil)
  ultimately show ?case using 1(2) by auto
qed simp_all

lemma split_on_middle: "split_on c (a @ c # b) = split_on c a @ split_on c b"
  by (induction a) (auto simp: split_on_nonempty split: list.split)

text \<open>The path of a note is its own normal form.\<close>

lemma note_path_canonical:
  assumes "note_path nfc p"
  shows "canonicalizeVaultPath nfc p = p"
proof -
  have valid: "portable_path p" "nfc p = p"
    using assms by (auto simp: validateMarkdownPath_def dest: validateRelativePath_Inr split: sum.splits if_splits)
  have "List.map (\<lambda>u. if u = 92 then 47 else u) p = p"
    using valid(1) by (intro map_idI) (auto simp: portable_path_def list_all_iff)
  moreover have "collapse_slashes p = p"
  proof (rule collapse_nothing, intro allI notI)
    fix a b
    assume "p = a @ 47 # 47 # b"
    then have "[] \<in> set (split_on 47 p)" by (simp add: split_on_middle)
    with valid(1) show False by (auto simp: portable_path_def list_all_iff)
  qed
  moreover have "strip_dot_slashes p = p"
    using valid(1) by (cases p rule: strip_dot_slashes.cases) (auto simp: portable_path_def)
  moreover have "dropWhile (\<lambda>u. u = 47) p = p"
    using valid(1) by (cases p) (auto simp: portable_path_def)
  ultimately show ?thesis by (simp add: canonicalizeVaultPath_def valid(2))
qed

section \<open>The vault's contract\<close>

text \<open>
  \<open>rem v\<close> are the texts of the vault by normal path and \<open>names v h p\<close> says that the handle \<open>h\<close> is the text of the
  normal path \<open>p\<close>. This is the vault over a document of schema 2 or later, whose one index of paths serves
  both the listing and the lookups (before that a lookup consults a second map that the listing does not),
  with no rename waiting to be flushed. A text is emptied and filled in place, without failing; nothing
  but a write changes a text.
\<close>

abbreviation keeps_texts :: "('v \<Rightarrow> jsstr \<Rightarrow> jsstr option) \<Rightarrow> ('v, source_error, 'a) act \<Rightarrow> 'v \<Rightarrow> bool" where
  "keeps_texts rem m v \<equiv> wp m (\<lambda>_ v'. rem v' = rem v) (\<lambda>_ v'. rem v' = rem v) v"

locale vault_texts =
  fixes nfc :: "jsstr \<Rightarrow> jsstr" and vault :: "('v, 'h) vault_sync" and timer :: "'v timer_port"
    and names :: "'v \<Rightarrow> 'h \<Rightarrow> jsstr \<Rightarrow> bool" and rem :: "'v \<Rightarrow> jsstr \<Rightarrow> jsstr option"
  assumes paths_listed: "wp (vs_getActiveMarkdownPaths vault)
      (\<lambda>ps v'. rem v' = rem v \<and> (\<forall>p. rem v p \<noteq> None \<longrightarrow> p \<in> set ps)) (\<lambda>_ v'. rem v' = rem v) v"
    and text_found: "wp (vs_getTextForPath vault p)
      (\<lambda>found v'. rem v' = rem v \<and> (case found of None \<Rightarrow> rem v (canonicalizeVaultPath nfc p) = None
         | Some h \<Rightarrow> names v' h (canonicalizeVaultPath nfc p)))
      (\<lambda>_ v'. rem v' = rem v) v"
    and text_ensured: "rem v (canonicalizeVaultPath nfc p) = None \<Longrightarrow> wp (vs_ensureFile vault p t device)
      (\<lambda>found v'. case found of None \<Rightarrow> rem v' = rem v
         | Some h \<Rightarrow> names v' h (canonicalizeVaultPath nfc p) \<and> rem v' = (rem v)(canonicalizeVaultPath nfc p := Some t))
      (\<lambda>_ v'. rem v' = rem v \<or> rem v' = (rem v)(canonicalizeVaultPath nfc p := Some t)) v"
    and text_read: "names v h p \<Longrightarrow> wp (tx_toString (vs_texts vault) h)
      (\<lambda>t v'. rem v p = Some t \<and> rem v' = rem v \<and> names v' h p) (\<lambda>_ v'. rem v' = rem v) v"
    and text_emptied: "names v h p \<Longrightarrow> rem v p = Some t \<Longrightarrow> wp (tx_delete (vs_texts vault) h 0 (length t))
      (\<lambda>_ v'. rem v' = (rem v)(p := Some []) \<and> names v' h p) (\<lambda>_ _. False) v"
    and text_filled: "names v h p \<Longrightarrow> rem v p = Some [] \<Longrightarrow> wp (tx_insert (vs_texts vault) h 0 s)
      (\<lambda>_ v'. rem v' = (rem v)(p := Some s) \<and> names v' h p) (\<lambda>_ _. False) v"
    and transact_runs: "tx_transact (vs_texts vault) h = Some transact \<Longrightarrow> wp m Q R v \<Longrightarrow> wp (transact m) Q R v"
    and text_written: "vs_writeMarkdownText vault = Some write' \<Longrightarrow> wp (write' p t device)
      (\<lambda>ok v'. rem v' = (if ok then (rem v)(canonicalizeVaultPath nfc p := Some t) else rem v))
      (\<lambda>_ v'. rem v' = rem v \<or> rem v' = (rem v)(canonicalizeVaultPath nfc p := Some t)) v"
    and tombstone_keeps: "vs_isMarkdownTombstoned vault = Some dead \<Longrightarrow> keeps_texts rem (dead p) v"
    and flags_keep: "keeps_texts rem (vs_connected vault) v" "keeps_texts rem (vs_providerSynced vault) v"
      "keeps_texts rem (vs_serverAppliedLocalState vault) v"
    and mark_keeps: "vs_markInitialized vault = Some mark \<Longrightarrow> keeps_texts rem mark v"
    and timer_keeps: "keeps_texts rem (tp_now timer) v" "keeps_texts rem (tp_sleep timer ms) v"
begin

lemma replaced:
  assumes "names v h p" and "rem v p = Some t"
  shows "wp (replaceText (vs_texts vault) h contents)
    (\<lambda>_ v'. rem v' = (rem v)(p := Some contents)) (\<lambda>_ v'. rem v' = rem v) v"
proof -
  let ?Q = "\<lambda>_ v'. rem v' = (rem v)(p := Some contents)" and ?R = "\<lambda>_ v'. rem v' = rem v"
  have insert: "wp (if 0 < length contents then tx_insert (vs_texts vault) h 0 contents else act_return ()) ?Q ?R v2"
    if "names v2 h p" "rem v2 = (rem v)(p := Some [])" for v2
  proof (cases "contents = []")
    case True
    with that show ?thesis by (simp add: wp_return)
  next
    case False
    have "rem v2 p = Some []" using that by simp
    from text_filled [OF that(1) this, of contents] False that show ?thesis by (auto elim!: wp_mono)
  qed
  have delete: "wp (if 0 < length current then tx_delete (vs_texts vault) h 0 (length current) else act_return ())
      (\<lambda>_ v2. names v2 h p \<and> rem v2 = (rem v)(p := Some [])) ?R v1"
    if "names v1 h p" "rem v1 = rem v" "rem v p = Some current" for v1 current
  proof (cases "current = []")
    case True
    with that show ?thesis by (auto simp: wp_return fun_eq_iff)
  next
    case False
    have "rem v1 p = Some current" using that by simp
    from text_emptied [OF that(1) this] False that show ?thesis by (auto elim!: wp_mono)
  qed
  have edit: "wp (act_bind (if 0 < length current then tx_delete (vs_texts vault) h 0 (length current) else act_return ()) (\<lambda>_.
        if 0 < length contents then tx_insert (vs_texts vault) h 0 contents else act_return ())) ?Q ?R v1"
    if "names v1 h p" "rem v1 = rem v" "rem v p = Some current" for v1 current
    unfolding wp_bind by (rule wp_mono [OF delete [OF that]]) (use insert in blast)+
  have "wp (act_bind (tx_toString (vs_texts vault) h) (\<lambda>current.
        act_bind (if 0 < length current then tx_delete (vs_texts vault) h 0 (length current) else act_return ()) (\<lambda>_.
        if 0 < length contents then tx_insert (vs_texts vault) h 0 contents else act_return ()))) ?Q ?R v"
    unfolding wp_bind [of "tx_toString _ _"]
    by (rule wp_mono [OF text_read [OF assms(1)]]) (use edit in blast)+
  then show ?thesis
    unfolding replaceText_def Let_def by (auto split: option.split intro: transact_runs)
qed

lemma remote_write_texts:
  assumes canon: "canonicalizeVaultPath nfc p = p"
  shows "wp (remote_write vault device p t) (\<lambda>_ v'. rem v' = (rem v)(p := Some t))
     (\<lambda>_ v'. rem v' = rem v \<or> rem v' = (rem v)(p := Some t)) v"
proof (cases "vs_writeMarkdownText vault")
  case (Some write')
  with text_written [OF Some, of p t device v, unfolded canon] show ?thesis
    by (auto simp: remote_write_def remote_rejected_def wp_bind wp_return wp_throw elim!: wp_mono)
next
  case None
  let ?Q = "\<lambda>_ v'. rem v' = (rem v)(p := Some t)" and ?R = "\<lambda>_ v'. rem v' = rem v \<or> rem v' = (rem v)(p := Some t)"
  have update: "wp (act_bind (textContents (vs_texts vault) h) (\<lambda>current.
        if current \<noteq> t then replaceText (vs_texts vault) h t else act_return ())) ?Q ?R v2"
    if "names v2 h p" "rem v2 = rem v \<or> rem v2 = (rem v)(p := Some t)" for h v2
    unfolding wp_bind textContents_def
  proof (rule wp_mono [OF text_read [OF that(1)]])
    fix current v3
    assume got: "rem v2 p = Some current \<and> rem v3 = rem v2 \<and> names v3 h p"
    then have named: "names v3 h p" "rem v3 p = Some current" by simp_all
    have "(rem v3)(p := Some t) = (rem v)(p := Some t)" using got that(2) by auto
    moreover have "rem v3 = (rem v)(p := Some t)" if "current = t" using got that(1) \<open>rem v2 = rem v \<or> _\<close> that by auto
    ultimately show "wp (if current \<noteq> t then replaceText (vs_texts vault) h t else act_return ()) ?Q ?R v3"
      using replaced [OF named, of t] got that(2) by (auto simp: wp_return elim!: wp_mono)
  qed (use that in auto)
  have ensure: "wp (if found = None then vs_ensureFile vault p t device else act_return found)
      (\<lambda>found v2. case found of None \<Rightarrow> rem v2 = rem v | Some h \<Rightarrow> names v2 h p \<and> (rem v2 = rem v \<or> rem v2 = (rem v)(p := Some t)))
      ?R v1"
    if "rem v1 = rem v" "case found of None \<Rightarrow> rem v p = None | Some h \<Rightarrow> names v1 h p" for found v1
  proof (cases found)
    case None
    with that have "rem v1 p = None" by simp
    from text_ensured [of v1 p t device, unfolded canon, OF this] None that show ?thesis
      by (auto elim!: wp_mono split: option.splits)
  qed (use that in \<open>simp add: wp_return\<close>)
  have rest: "wp (case found of None \<Rightarrow> remote_rejected p
      | Some h \<Rightarrow> act_bind (textContents (vs_texts vault) h) (\<lambda>current.
        if current \<noteq> t then replaceText (vs_texts vault) h t else act_return ())) ?Q ?R v2"
    if "case found of None \<Rightarrow> rem v2 = rem v | Some h \<Rightarrow> names v2 h p \<and> (rem v2 = rem v \<or> rem v2 = (rem v)(p := Some t))" for found v2
    using that update by (cases found) (auto simp: remote_rejected_def wp_throw)
  show ?thesis
    unfolding remote_write_def None option.case wp_bind [of "vs_getTextForPath _ _"]
  proof (rule wp_mono [OF text_found [of p v, unfolded canon]])
    fix found v1
    assume "rem v1 = rem v \<and> (case found of None \<Rightarrow> rem v p = None | Some h \<Rightarrow> names v1 h p)"
    then show "wp (act_bind (if found = None then vs_ensureFile vault p t device else act_return found) (\<lambda>handle.
          case handle of None \<Rightarrow> remote_rejected p
          | Some h \<Rightarrow> act_bind (textContents (vs_texts vault) h) (\<lambda>current.
              if current \<noteq> t then replaceText (vs_texts vault) h t else act_return ()))) ?Q ?R v1"
      by (subst wp_bind) (rule wp_mono [OF ensure], auto intro: rest)
  qed auto
qed

text \<open>Polling changes no text.\<close>

lemma keeps_bind:
  assumes "\<And>v. keeps_texts rem m v" and "\<And>x v. keeps_texts rem (k x) v"
  shows "keeps_texts rem (act_bind m k) v"
proof -
  have "wp (k x) (\<lambda>_ v'. rem v' = rem v) (\<lambda>_ v'. rem v' = rem v) v1" if "rem v1 = rem v" for x v1
    using assms(2) [of x v1] that by simp
  then show ?thesis unfolding wp_bind by (rule wp_mono [OF assms(1)])
qed

lemma keeps_return: "keeps_texts rem (act_return x) v"
  by (simp add: wp_return)

lemma keeps_if: "keeps_texts rem m v \<Longrightarrow> keeps_texts rem n v \<Longrightarrow> keeps_texts rem (if b then m else n) v"
  by simp

lemma keeps_applied: "keeps_texts rem (is_applied vault) v"
  unfolding is_applied_def by (intro keeps_bind keeps_return flags_keep)

lemma keeps_await: "keeps_texts rem (await_applied fuel vault timer deadline) v"
proof (induction fuel arbitrary: v)
  case 0
  show ?case by (simp add: wp_diverge)
next
  case (Suc fuel)
  show ?case
    unfolding await_applied.simps
    by (intro keeps_bind keeps_if keeps_return keeps_applied timer_keeps Suc.IH)
qed

lemma keeps_confirm: "keeps_texts rem (confirm_durable vault timer) v"
  unfolding confirm_durable_def
  by (intro keeps_bind keeps_if keeps_return keeps_applied flags_keep timer_keeps keeps_await)

end

sublocale vault_texts \<subseteq> remote_texts nfc "createVaultSyncRemote vault timer device" rem for device
proof
  fix v p t
  let ?remote = "createVaultSyncRemote vault timer device"
  show "wp (rp_listPaths ?remote) (\<lambda>ps v'. rem v' = rem v \<and> (\<forall>p. rem v p \<noteq> None \<longrightarrow> p \<in> set ps))
      (\<lambda>_ v'. rem v' = rem v) v"
    using paths_listed by (simp add: createVaultSyncRemote_def)
  have "wp (case found of None \<Rightarrow> act_return None
       | Some h \<Rightarrow> act_bind (textContents (vs_texts vault) h) (\<lambda>t. act_return (Some t)))
      (\<lambda>x v'. x = rem v p \<and> rem v' = rem v) (\<lambda>_ v'. rem v' = rem v) v1"
    if "rem v1 = rem v" "case found of None \<Rightarrow> rem v p = None | Some h \<Rightarrow> names v1 h p" for found v1
  proof (cases found)
    case (Some h)
    with that have "names v1 h p" by simp
    from text_read [OF this] Some that show ?thesis
      by (auto simp: textContents_def wp_bind wp_return elim!: wp_mono)
  qed (use that in \<open>simp add: wp_return\<close>)
  then show "wp (rp_read ?remote p) (\<lambda>x v'. x = rem v p \<and> rem v' = rem v) (\<lambda>_ v'. rem v' = rem v) v" if "note_path nfc p"
    unfolding createVaultSyncRemote_def remote_port.simps wp_bind
    by (intro wp_mono [OF text_found [of p v, unfolded note_path_canonical [OF that]]]) auto
  show "wp (rp_isTombstoned ?remote p) (\<lambda>_ v'. rem v' = rem v) (\<lambda>_ v'. rem v' = rem v) v"
    using tombstone_keeps by (auto simp: createVaultSyncRemote_def wp_return split: option.split)
  show "wp (rp_confirmDurable ?remote) (\<lambda>_ v'. rem v' = rem v) (\<lambda>_ v'. rem v' = rem v) v"
    using keeps_confirm by (simp add: createVaultSyncRemote_def)
  show "wp (rp_write ?remote p t) (\<lambda>_ v'. rem v' = (rem v)(p := Some t))
      (\<lambda>_ v'. rem v' = rem v \<or> rem v' = (rem v)(p := Some t)) v" if "note_path nfc p"
    using remote_write_texts [OF note_path_canonical [OF that]] by (simp add: createVaultSyncRemote_def)
qed

section \<open>A reconciliation of a folder, written out\<close>

definition start_texts ::
  "nat \<Rightarrow> baseline_state \<Rightarrow> (bytes \<Rightarrow> bytes) \<Rightarrow> (jsstr \<Rightarrow> bytes option) \<Rightarrow> (jsstr \<Rightarrow> jsstr option) \<Rightarrow> initial_texts" where
  "start_texts maxBytes baseline digest D R = \<lparr>it_disk = D, it_local = local_text maxBytes D, it_remote = R,
     it_synced = (\<lambda>p t. map_of (bs_hashes baseline) p = Some (sha256 digest t))\<rparr>"

definition folder_baseline :: "folder_world core \<Rightarrow> baseline_state" where
  "folder_baseline c = readBaseline (doc_at BASELINE_KEY (core_world c))"

definition max_bytes :: "('w, 'r) reconcile_env \<Rightarrow> nat" where
  "max_bytes env = nat (int_of_num (re_maxFileBytes env))"

text \<open>After a run: each recorded path has its text on both sides, and every text is recorded or reported.\<close>

definition agreed :: "(bytes \<Rightarrow> bytes) \<Rightarrow> (jsstr \<times> jsstr) list \<Rightarrow> (jsstr \<Rightarrow> bytes option) \<Rightarrow> (jsstr \<Rightarrow> jsstr option) \<Rightarrow> bool" where
  "agreed digest hashes D R \<longleftrightarrow> (\<forall>p h. map_of hashes p = Some h \<longrightarrow>
     (\<exists>bs lt rt. D p = Some bs \<and> stored_as lt bs \<and> R p = Some rt \<and> sha256 digest lt = h \<and> sha256 digest rt = h))"

definition synced_folder ::
  "(bytes \<Rightarrow> bytes) \<Rightarrow> initial_texts \<Rightarrow> reconcile_result \<Rightarrow> (jsstr \<times> jsstr) list \<Rightarrow> (jsstr \<Rightarrow> bytes option) \<Rightarrow>
    (jsstr \<Rightarrow> jsstr option) \<Rightarrow> bool" where
  "synced_folder digest I res hashes D R \<longleftrightarrow> nothing_lost I D R \<and> agreed digest hashes D R \<and>
     (\<forall>p t. starts_with_text I p t \<longrightarrow> it_remote I p = None \<and> p \<in> set (rr_conflicts res) \<or> map_of hashes p \<noteq> None) \<and>
     (\<forall>p t. it_local I p = None \<and> it_remote I p = Some t \<longrightarrow> D p = Some (utf8_encode t))"

context folder_sync
begin

lemma folder_result:
  fixes r :: 'r
  assumes "folder_ready nf c"
  defines "I \<equiv> start_texts (max_bytes env) (folder_baseline c) (re_digest env) (folder_text nf c) (rem r)"
  shows "wp (reconcileFolder env)
     (\<lambda>res s'. synced_folder (re_digest env) I res (bs_hashes (folder_baseline (fst s')))
        (folder_text nf (fst s')) (rem (snd s')))
     (\<lambda>_ s'. nothing_lost I (folder_text nf (fst s')) (rem (snd s'))) (c, r)"
proof -
  have I: "ports.texts_of (nat (int_of_num (re_maxFileBytes env))) (readBaseline (doc_at BASELINE_KEY (core_world (fst (c, r))))) (c, r) = I"
    by (simp add: ports.texts_of_def I_def start_texts_def max_bytes_def folder_baseline_def)
  have "folder_ready nf (fst (c, r))" using assms(1) by simp
  from ports.reconcileFolder_result [OF this, unfolded I] show ?thesis
    by (rule wp_mono) (simp_all add: ports.safe_def ports.reconciled_def ports.agree_def agreed_def synced_folder_def folder_baseline_def Let_def)
qed

end

section \<open>The runtime's steps\<close>

lemma wp_on_vault [wp_simps]:
  "wp (on_vault m) Q R rt = wp m (\<lambda>x v. Q x (rt\<lparr>rt_vault := v\<rparr>)) (\<lambda>e v. R e (rt\<lparr>rt_vault := v\<rparr>)) (rt_vault rt)"
  by (simp add: wp_def on_vault_def split: prod.split outcome.split)

lemma wp_on_both [wp_simps]:
  "wp (on_both m) Q R rt = wp m (\<lambda>x s. Q x (rt\<lparr>rt_core := fst s, rt_vault := snd s\<rparr>))
     (\<lambda>e s. R e (rt\<lparr>rt_core := fst s, rt_vault := snd s\<rparr>)) (rt_core rt, rt_vault rt)"
  by (simp add: wp_def on_both_def split: prod.split outcome.split)

lemma wp_rt_emit [wp_simps]: "wp (rt_emit st) Q R rt = Q () (rt\<lparr>rt_statuses := rt_statuses rt @ [st]\<rparr>)"
  by (simp add: wp_def rt_emit_def)

lemma wp_refuse_stopped [wp_simps]:
  "wp rt_refuse_stopped Q R rt = (if rt_stopped rt then R (Some (SyncError ''sync_runtime_stopped'' None)) rt else Q () rt)"
  by (simp add: wp_def rt_refuse_stopped_def)

text \<open>The runtime of a folder source over a vault that keeps its contract.\<close>

locale folder_runtime = vault_texts "te_nfc (nf_text nf)" "ro_vault opts" "ro_timer opts" names rem
  for nf :: folder_files and opts :: "('v, 'h) runtime_options" and names :: "'v \<Rightarrow> 'h \<Rightarrow> jsstr \<Rightarrow> bool"
    and rem :: "'v \<Rightarrow> jsstr \<Rightarrow> jsstr option" +
  fixes sha256_text :: "jsstr \<Rightarrow> jsstr" and options :: folder_options and d :: source_descriptor
  assumes credentials_look: "looks (cp_get (fo_credentials options))"
    and runtime_clock_looks: "looks (ro_now opts)"
    and source_clock_looks: "looks (fo_now options)"
    and interface_looks: "fo_ui options = Some emit \<Longrightarrow> looks (emit ev)"
    and digest_size: "length (ro_digest opts bs) = 32"

sublocale folder_runtime \<subseteq> sync: folder_sync "runtime_env (folder_core_options sha256_text nf options d) opts" rem
  nf sha256_text options d
proof (intro folder_sync.intro folder_sync_axioms.intro)
  let ?source = "folder_core_options sha256_text nf options d"
  let ?env = "runtime_env ?source opts"
  show "remote_texts (te_nfc (nf_text nf)) (re_remote ?env) rem"
    using remote_texts_axioms by (simp add: runtime_env_def)
qed (simp_all add: runtime_env_def folder_core_options_def credentials_look runtime_clock_looks source_clock_looks
  interface_looks digest_size)

context folder_runtime
begin

lemma marked: "keeps_texts rem (call_optional (vs_markInitialized (ro_vault opts))) v"
  using mark_keeps by (auto simp: call_optional_def wp_return split: option.split)

lemma sync_result:
  assumes ready: "folder_ready nf (rt_core rt)"
  defines "I \<equiv> start_texts (max_bytes (runtime_env (folder_core_options sha256_text nf options d) opts)) (folder_baseline (rt_core rt)) (ro_digest opts)
      (folder_text nf (rt_core rt)) (rem (rt_vault rt))"
  shows "wp (syncOnce (folder_core_options sha256_text nf options d) opts)
     (\<lambda>res rt'. synced_folder (ro_digest opts) I res (bs_hashes (folder_baseline (rt_core rt')))
        (folder_text nf (rt_core rt')) (rem (rt_vault rt')))
     (\<lambda>_ rt'. nothing_lost I (folder_text nf (rt_core rt')) (rem (rt_vault rt'))) rt"
    (is "wp _ ?Q ?R rt")
proof -
  have start: "nothing_lost I (folder_text nf (rt_core rt)) (rem (rt_vault rt))"
    by (auto simp: nothing_lost_def I_def start_texts_def starts_with_text_def kept_def local_text_def stored_as_def
        split: option.splits if_splits)
  let ?env = "runtime_env (folder_core_options sha256_text nf options d) opts"
  have digest: "re_digest ?env = ro_digest opts" by (simp add: runtime_env_def)
  have body: "wp (act_bind (on_both (reconcileFolder ?env)) (\<lambda>result.
        act_bind (rt_emit RtRunning) (\<lambda>_. act_return result))) ?Q ?R rt1"
    if "rt_core rt1 = rt_core rt" "rem (rt_vault rt1) = rem (rt_vault rt)" for rt1
    unfolding wp_bind wp_on_both wp_rt_emit wp_return that(1)
    by (rule wp_mono [OF sync.folder_result [OF ready, of "rt_vault rt1"]])
      (simp_all add: I_def that digest)
  have marking: "wp (act_bind (on_vault (call_optional (vs_markInitialized (ro_vault opts)))) (\<lambda>_.
        act_bind (on_both (reconcileFolder ?env)) (\<lambda>result.
        act_bind (rt_emit RtRunning) (\<lambda>_. act_return result)))) ?Q ?R rt1"
    if "rt_core rt1 = rt_core rt" "rem (rt_vault rt1) = rem (rt_vault rt)" for rt1
    unfolding wp_bind [of "on_vault _"] wp_on_vault
    by (rule wp_mono [OF marked]) (use that start in \<open>auto intro!: body\<close>)
  show ?thesis
    unfolding syncOnce_def
    apply (simp add: wp_bind [of rt_refuse_stopped] wp_bind [of "rt_emit _"] wp_refuse_stopped wp_rt_emit wp_catch start)
    apply (intro impI)
    apply (rule wp_mono [OF marking])
      apply (auto simp: wp_bind wp_rt_emit wp_throw split: option.split)
    done
qed

end

section \<open>What a reconciliation of the runtime promises\<close>

lemma sync_contract:
  assumes "vault_texts (te_nfc (nf_text nf)) (ro_vault opts) (ro_timer opts) names rem"
    and "looks (cp_get (fo_credentials options))" and "looks (ro_now opts)" and "looks (fo_now options)"
    and "\<forall>emit ev. fo_ui options = Some emit \<longrightarrow> looks (emit ev)"
    and "\<forall>bs. length (ro_digest opts bs) = 32" and "folder_ready nf (rt_core rt)"
  defines "I \<equiv> \<lambda>source. start_texts (max_bytes (runtime_env source opts)) (folder_baseline (rt_core rt)) (ro_digest opts)
      (folder_text nf (rt_core rt)) (rem (rt_vault rt))"
  shows "wp (syncOnce (folder_core_options sha256_text nf options d) opts)
     (\<lambda>res rt'. synced_folder (ro_digest opts) (I (folder_core_options sha256_text nf options d)) res
        (bs_hashes (folder_baseline (rt_core rt'))) (folder_text nf (rt_core rt')) (rem (rt_vault rt')))
     (\<lambda>_ rt'. nothing_lost (I (folder_core_options sha256_text nf options d)) (folder_text nf (rt_core rt'))
        (rem (rt_vault rt'))) rt"
proof -
  have "folder_runtime nf opts names rem options"
    by (intro folder_runtime.intro folder_runtime_axioms.intro) (use assms(1-6) in simp_all)
  from folder_runtime.sync_result [OF this assms(7)] show ?thesis by (simp add: I_def)
qed

lemma local_well_formed: "local_text n D p = Some t \<Longrightarrow> well_formed t"
  by (auto simp: local_text_def intro: utf8_decode_well_formed split: option.splits if_splits)

text \<open>
  C1. Whatever comes of a \<open>syncOnce\<close>, and wherever it is cut short, no text is lost: a text that a note or a
  file small enough to be read had at the start is the one that was last synchronised at its path, or it is
  still there, on disk or in the vault, at some path. A note's text with lone surrogates is not covered,
  since it is written to disk with replacement characters. The vault's document has schema 2 or later and
  nothing else edits it meanwhile; what the listing of the folder sees has portable names, is no link and no
  secret-shaped directory, and no entry has the name of a temporary file.
\<close>

theorem sync_loses_nothing:
  fixes opts :: "('v, 'h) runtime_options" and rem :: "'v \<Rightarrow> jsstr \<Rightarrow> jsstr option"
    and options :: folder_options and nf :: folder_files and sha256_text :: "jsstr \<Rightarrow> jsstr"
    and d :: source_descriptor
  defines "source \<equiv> folder_core_options sha256_text nf options d"
  assumes "vault_texts (te_nfc (nf_text nf)) (ro_vault opts) (ro_timer opts) names rem"
    and "looks (cp_get (fo_credentials options))" and "looks (ro_now opts)" and "looks (fo_now options)"
    and "\<forall>emit ev. fo_ui options = Some emit \<longrightarrow> looks (emit ev)"
    and "\<forall>bs. length (ro_digest opts bs) = 32"
    and "folder_ready nf (rt_core rt)"
    and "syncOnce source opts rt = (r, rt')"
    and "local_text (max_bytes (runtime_env source opts)) (folder_text nf (rt_core rt)) p = Some t \<or>
      rem (rt_vault rt) p = Some t \<and> well_formed t"
  shows "map_of (bs_hashes (folder_baseline (rt_core rt))) p = Some (sha256 (ro_digest opts) t) \<or>
    kept (folder_text nf (rt_core rt')) (rem (rt_vault rt')) t"
proof -
  have "well_formed t" using assms(10) local_well_formed by blast
  with sync_contract [OF assms(2-8), of sha256_text d] assms(9,10) show ?thesis
    by (cases r) (auto simp: wp_def synced_folder_def nothing_lost_def start_texts_def starts_with_text_def assms(1))
qed

text \<open>
  C4. When a \<open>syncOnce\<close> returns, the two sides agree: at each path whose hash it records, the file and the
  note hold texts of that hash; and the path of every text is recorded, save that of a file whose note had
  been deleted, which is reported as a conflict. Of the vault and the folder the same is asked as for C1.
\<close>

theorem sync_agrees:
  fixes opts :: "('v, 'h) runtime_options" and rem :: "'v \<Rightarrow> jsstr \<Rightarrow> jsstr option"
    and options :: folder_options and nf :: folder_files and sha256_text :: "jsstr \<Rightarrow> jsstr"
    and d :: source_descriptor
  defines "source \<equiv> folder_core_options sha256_text nf options d"
  assumes "vault_texts (te_nfc (nf_text nf)) (ro_vault opts) (ro_timer opts) names rem"
    and "looks (cp_get (fo_credentials options))" and "looks (ro_now opts)" and "looks (fo_now options)"
    and "\<forall>emit ev. fo_ui options = Some emit \<longrightarrow> looks (emit ev)"
    and "\<forall>bs. length (ro_digest opts bs) = 32"
    and "folder_ready nf (rt_core rt)"
    and "syncOnce source opts rt = (Return res, rt')"
  shows "agreed (ro_digest opts) (bs_hashes (folder_baseline (rt_core rt'))) (folder_text nf (rt_core rt')) (rem (rt_vault rt')) \<and>
    (local_text (max_bytes (runtime_env source opts)) (folder_text nf (rt_core rt)) p = Some t \<or>
       rem (rt_vault rt) p = Some t \<longrightarrow>
     rem (rt_vault rt) p = None \<and> p \<in> set (rr_conflicts res) \<or>
     map_of (bs_hashes (folder_baseline (rt_core rt'))) p \<noteq> None)"
  using sync_contract [OF assms(2-8), of sha256_text d] assms(9)
  by (auto simp: wp_def synced_folder_def start_texts_def starts_with_text_def assms(1))

text \<open>
  C37. A file that is too large to be read does not count as the text of its path: when the vault has a note
  there, a \<open>syncOnce\<close> that returns has replaced the file by the note. The ceiling is the runtime's
  \<open>maxFileBytes\<close>, the default of 2 MiB or another; the file may be larger than the adapter's own ceiling
  too. Of the vault and the folder the same is asked as for C1.
\<close>

theorem oversize_replaced:
  fixes opts :: "('v, 'h) runtime_options" and rem :: "'v \<Rightarrow> jsstr \<Rightarrow> jsstr option"
    and options :: folder_options and nf :: folder_files and sha256_text :: "jsstr \<Rightarrow> jsstr"
    and d :: source_descriptor
  defines "source \<equiv> folder_core_options sha256_text nf options d"
  assumes "vault_texts (te_nfc (nf_text nf)) (ro_vault opts) (ro_timer opts) names rem"
    and "looks (cp_get (fo_credentials options))" and "looks (ro_now opts)" and "looks (fo_now options)"
    and "\<forall>emit ev. fo_ui options = Some emit \<longrightarrow> looks (emit ev)"
    and "\<forall>bs. length (ro_digest opts bs) = 32"
    and "folder_ready nf (rt_core rt)"
    and "folder_text nf (rt_core rt) p = Some bs" and "max_bytes (runtime_env source opts) < length bs"
    and "rem (rt_vault rt) p = Some t"
    and "syncOnce source opts rt = (Return res, rt')"
  shows "folder_text nf (rt_core rt') p = Some (utf8_encode t)"
  using sync_contract [OF assms(2-8), of sha256_text d] assms(9-12)
  by (simp add: wp_def synced_folder_def start_texts_def local_text_def assms(1))

section \<open>Stopping\<close>

text \<open>The calls of a runtime's methods and of its watcher's callback, whatever they return.\<close>

inductive runtime_step ::
  "folder_world core_options \<Rightarrow> ('v, 'h) runtime_options \<Rightarrow> 'v sync_runtime \<Rightarrow> 'v sync_runtime \<Rightarrow> bool"
  for source :: "folder_world core_options" and opts :: "('v, 'h) runtime_options" where
  started: "runtime_start source opts rt = (r, rt') \<Longrightarrow> runtime_step source opts rt rt'"
| synced: "syncOnce source opts rt = (r, rt') \<Longrightarrow> runtime_step source opts rt rt'"
| stopped: "runtime_stop source opts rt = (r, rt') \<Longrightarrow> runtime_step source opts rt rt'"
| changed: "runtime_change source opts rt = (r, rt') \<Longrightarrow> runtime_step source opts rt rt'"

definition still_open :: "('v, 'a) rt_act \<Rightarrow> bool" where
  "still_open m \<longleftrightarrow> (\<forall>rt. rt_stopped (snd (m rt)) = rt_stopped rt)"

lemma still_openD: "still_open m \<Longrightarrow> m rt = (r, rt') \<Longrightarrow> rt_stopped rt' = rt_stopped rt"
  unfolding still_open_def by (drule spec [of _ rt]) simp

lemma open_bind:
  assumes "still_open m" and "\<And>x. still_open (k x)"
  shows "still_open (act_bind m k)"
  unfolding still_open_def
proof
  fix rt
  obtain r rt1 where m: "m rt = (r, rt1)" by (cases "m rt")
  with still_openD [OF assms(1) m] assms(2) show "rt_stopped (snd (act_bind m k rt)) = rt_stopped rt"
    by (cases r) (simp_all add: act_bind_def still_open_def)
qed

lemma open_catch:
  assumes "still_open m" and "\<And>e. still_open (h e)"
  shows "still_open (act_catch m h)"
  unfolding still_open_def
proof
  fix rt
  obtain r rt1 where m: "m rt = (r, rt1)" by (cases "m rt")
  with still_openD [OF assms(1) m] assms(2) show "rt_stopped (snd (act_catch m h rt)) = rt_stopped rt"
    by (cases r) (simp_all add: act_catch_def still_open_def)
qed

lemma open_ignore: "still_open m \<Longrightarrow> still_open (ignore_errors m)"
  by (simp add: still_open_def ignore_errors_def split: prod.split outcome.split) (metis snd_conv)

lemma open_if: "still_open m \<Longrightarrow> still_open n \<Longrightarrow> still_open (if b then m else n)"
  by simp

lemma open_parts:
  "still_open (act_return x)" "still_open (act_throw e)" "still_open (rt_emit st)" "still_open rt_refuse_stopped"
  "still_open (on_vault m)" "still_open (on_source m')" "still_open (on_both m'')" "still_open (installWatcher opts)"
  by (auto simp: still_open_def act_return_def act_throw_def rt_emit_def rt_refuse_stopped_def on_vault_def
      on_source_def on_both_def installWatcher_def split: prod.split)

lemmas open_intros = open_bind open_catch open_ignore open_if open_parts

lemma open_sync: "still_open (syncOnce source opts)"
  unfolding syncOnce_def by (intro open_intros)

lemma open_start: "still_open (runtime_start source opts)"
proof -
  have "still_open (case early of Some st \<Rightarrow> act_return st | None \<Rightarrow> act_bind (installWatcher opts) (\<lambda>_.
      let st = (if ready then RtRunning else RtOffline) in act_bind (rt_emit st) (\<lambda>_. act_return st)))"
    for early ready
    by (cases early) (simp_all add: Let_def open_intros)
  then show ?thesis
    unfolding runtime_start_def first_sync_def by (intro open_intros open_sync)
qed

lemma open_change: "still_open (runtime_change source opts)"
proof -
  have "still_open (ignore_errors (act_bind (syncOnce source opts) (\<lambda>_. act_return ())))"
    by (intro open_intros open_sync)
  then show ?thesis by (simp add: still_open_def runtime_change_def)
qed

text \<open>A stopped runtime refuses every call.\<close>

lemma stopped_refuses:
  assumes "rt_stopped rt"
  shows "runtime_start source opts rt = (Throw (SyncError ''sync_runtime_stopped'' None), rt)"
    and "syncOnce source opts rt = (Throw (SyncError ''sync_runtime_stopped'' None), rt)"
    and "runtime_stop source opts rt = (Return (), rt)"
  using assms by (simp_all add: runtime_start_def syncOnce_def runtime_stop_def rt_refuse_stopped_def act_bind_def)

lemma stop_unwatches:
  assumes "\<not> rt_stopped rt" and "runtime_stop source opts rt = (r, rt')"
  shows "rt_stopped rt' \<and> \<not> rt_watching rt'"
  using assms
  by (auto simp: runtime_stop_def act_bind_def put_watching_def on_source_def on_vault_def rt_emit_def
      split: prod.splits outcome.splits)

definition quiet_when_stopped :: "'v sync_runtime \<Rightarrow> bool" where
  "quiet_when_stopped rt \<longleftrightarrow> (rt_stopped rt \<longrightarrow> \<not> rt_watching rt)"

lemma step_stopped:
  assumes "runtime_step source opts rt rt'" and "quiet_when_stopped rt" and "rt_stopped rt"
  shows "rt' = rt"
  using assms by cases (simp_all add: stopped_refuses runtime_change_def quiet_when_stopped_def)

lemma step_quiet:
  assumes "runtime_step source opts rt rt'" and "quiet_when_stopped rt"
  shows "quiet_when_stopped rt'"
proof (cases "rt_stopped rt")
  case True
  with step_stopped [OF assms] assms(2) show ?thesis by simp
next
  case False
  from assms(1) have "rt_stopped rt' \<longrightarrow> \<not> rt_watching rt'"
    by cases (use False in \<open>auto dest: still_openD [OF open_start] still_openD [OF open_sync]
      still_openD [OF open_change] stop_unwatches\<close>)
  then show ?thesis by (simp add: quiet_when_stopped_def)
qed

lemma reached_quiet: "(runtime_step source opts)\<^sup>*\<^sup>* (new_runtime w v) rt \<Longrightarrow> quiet_when_stopped rt"
  by (induction rule: rtranclp_induct) (simp add: new_runtime_def quiet_when_stopped_def, erule (1) step_quiet)

lemma stays_stopped:
  assumes "(runtime_step source opts)\<^sup>*\<^sup>* rt rt'" and "quiet_when_stopped rt" and "rt_stopped rt"
  shows "rt' = rt"
  using assms by (induction rule: rtranclp_induct) (auto dest: step_stopped)

text \<open>
  C38. A runtime is stopped for good, however it came to be stopped and even if the stop failed: no later
  call of its methods or of its watcher's callback changes the folder, the vault or anything else, and to
  start it or to reconcile is refused with an error.
\<close>

theorem stopped_for_good:
  assumes "(runtime_step source opts)\<^sup>*\<^sup>* (new_runtime w v) rt"
    and "runtime_stop source opts rt = (r, rt1)" and "(runtime_step source opts)\<^sup>*\<^sup>* rt1 rt2"
  shows "rt2 = rt1 \<and>
    runtime_start source opts rt2 = (Throw (SyncError ''sync_runtime_stopped'' None), rt2) \<and>
    syncOnce source opts rt2 = (Throw (SyncError ''sync_runtime_stopped'' None), rt2) \<and>
    runtime_change source opts rt2 = (Return (), rt2)"
proof -
  have quiet: "quiet_when_stopped rt1"
    using reached_quiet [OF assms(1)] runtime_step.stopped [OF assms(2)] by (rule step_quiet [rotated])
  have "rt_stopped rt1"
    using stop_unwatches [OF _ assms(2)] assms(2) by (cases "rt_stopped rt") (auto simp: stopped_refuses)
  with stays_stopped [OF assms(3) quiet] quiet show ?thesis
    by (simp add: stopped_refuses runtime_change_def quiet_when_stopped_def)
qed

section \<open>A vault in memory\<close>

text \<open>The notes by path; a text's handle is its path, and edits have no transactions.\<close>

type_synonym memory_notes = "(jsstr \<times> jsstr) list"

definition memory_edit :: "jsstr \<Rightarrow> (jsstr \<Rightarrow> jsstr) \<Rightarrow> (memory_notes, source_error, unit) act" where
  "memory_edit p f = (\<lambda>v. (Return (), case map_of v p of Some t \<Rightarrow> AList.update p (f t) v | None \<Rightarrow> v))"

definition memory_path :: "jsstr \<Rightarrow> jsstr" where
  "memory_path = canonicalizeVaultPath (te_nfc (nf_text plain_folder))"

lemma memory_path_code [code]:
  "memory_path p = (if p = lit ''a.md'' then p else canonicalizeVaultPath (te_nfc (nf_text plain_folder)) p)"
proof -
  have "canonicalizeVaultPath (te_nfc (nf_text plain_folder)) (lit ''a.md'') = lit ''a.md''" by code_simp
  then show ?thesis unfolding memory_path_def by (cases "p = lit ''a.md''") (simp_all del: lit_simps)
qed

definition memory_find :: "jsstr \<Rightarrow> memory_notes \<Rightarrow> (source_error, jsstr option) outcome \<times> memory_notes" where
  "memory_find k = (\<lambda>v. (Return (if map_of v k = None then None else Some k), v))"

definition memory_vault :: "(memory_notes, jsstr) vault_sync" where
  "memory_vault = \<lparr>vs_getActiveMarkdownPaths = (\<lambda>v. (Return (List.map fst v), v)),
     vs_getTextForPath = (\<lambda>p. memory_find (memory_path p)),
     vs_ensureFile = (\<lambda>p t device v. (Return (Some (memory_path p)), AList.update (memory_path p) t v)),
     vs_markInitialized = None, vs_writeMarkdownText = None, vs_isMarkdownTombstoned = None,
     vs_waitForLocalPersistence = None, vs_waitForProviderSync = None,
     vs_connected = act_return (Some True), vs_providerSynced = act_return (Some True),
     vs_serverAppliedLocalState = act_return (Some True), vs_destroy = None, vs_getStateVector = None,
     vs_texts = \<lparr>tx_toString = (\<lambda>p v. (Return (case map_of v p of Some t \<Rightarrow> t | None \<Rightarrow> []), v)),
       tx_delete = (\<lambda>p i n. memory_edit p (\<lambda>t. take i t @ drop (i + n) t)),
       tx_insert = (\<lambda>p i s. memory_edit p (\<lambda>t. take i t @ s @ drop i t)),
       tx_transact = (\<lambda>_. None)\<rparr>\<rparr>"

definition memory_options :: "(memory_notes, jsstr) runtime_options" where
  "memory_options = \<lparr>ro_vault = memory_vault,
     ro_timer = \<lparr>tp_now = act_return 0, tp_sleep = (\<lambda>_. act_return ())\<rparr>, ro_device = None,
     ro_now = act_return (Fin 7), ro_maxFileBytes = Some (Fin 1), ro_watch = None,
     ro_digest = (\<lambda>bs. take 32 (bs @ replicate 32 0)), ro_compare = (\<lambda>_ _. True)\<rparr>"

definition memory_names :: "memory_notes \<Rightarrow> jsstr \<Rightarrow> jsstr \<Rightarrow> bool" where
  "memory_names v h p \<longleftrightarrow> h = p \<and> map_of v p \<noteq> None"

lemma memory_custody: "looks (cp_get createMemoryCredentialCustody)"
  by (simp add: createMemoryCredentialCustody_def looks_def wp_def)

interpretation memory: folder_runtime plain_folder memory_options memory_names map_of id plain_options plain_descriptor
  by unfold_locales
    (auto simp: memory_options_def memory_vault_def memory_find_def memory_path_def memory_names_def memory_edit_def wp_def act_return_def
      plain_options_def memory_custody looks_simple [unfolded act_return_def] update_conv
      intro: rev_image_eqI [OF map_of_SomeD] split: option.splits)

definition memory_runtime :: "memory_notes \<Rightarrow> memory_notes sync_runtime" where
  "memory_runtime v = (new_runtime paired_disk v)\<lparr>rt_core := running_core\<rparr>"

lemma memory_ready: "folder_ready plain_folder (rt_core (memory_runtime v))"
  by (simp add: memory_runtime_def) code_simp

lemma bind_return: "m s = (Return x, s1) \<Longrightarrow> act_bind m f s = f x s1"
  by (simp add: act_bind_def)

definition memory_note :: workspace_entry where
  "memory_note = \<lparr>we_path = lit ''a.md'', we_kind = KFile, we_size = Some 2, we_mtimeMs = Some (Fin 0)\<rparr>"

lemma memory_directory: "files_list plain_folder [] paired_disk = (Return [memory_note], paired_disk)"
  by code_simp

lemma memory_note_path: "validateRelativePath (te_nfc (nf_text plain_folder)) (lit ''a.md'') = Inr (lit ''a.md'')"
  "shouldExclude (lit ''a.md'') KFile = False" "path_depth (lit ''a.md'') = 1"
  by code_simp+

lemma memory_listed: "listMarkdown (nf_text plain_folder) (NodeFolderFiles plain_folder) no_options paired_disk =
    (Return [memory_note], paired_disk)"
  by (simp add: listMarkdown_def boundedOptions_def ceiling_value_def no_options_def DEFAULT_SCAN_OPTIONS_def
      listWith_def listLoop.simps NodeFolderFiles_def memory_directory memory_note_path [simplified] listEntry_def Let_def act_bind_def act_return_def act_of_def
      act_throw_def memory_note_def sort_by_def)

lemma memory_running: "requireRunning plain_opts running_core = (Return (), running_core)"
  by code_simp

lemma memory_disk_read: "read_disk plain_opts 1 running_core = (Return ([], [lit ''a.md'']), running_core)"
proof -
  have "core_world running_core = paired_disk" "running_core\<lparr>core_world := paired_disk\<rparr> = running_core"
    by (simp_all add: running_core_def)
  moreover have "co_files plain_opts = NodeFolderFiles plain_folder" "co_text plain_opts = nf_text plain_folder"
    by (simp_all add: plain_opts_def folder_core_options_def)
  ultimately have "core_listMarkdown plain_opts no_options running_core = (Return [memory_note], running_core)"
    by (simp add: core_listMarkdown_def memory_running act_bind_def on_world_def memory_listed)
  then show ?thesis
    by (simp add: read_disk_def act_bind_def memory_note_def entry_size_def act_return_def)
qed

definition memory_env :: "(folder_world, memory_notes) reconcile_env" where
  "memory_env = runtime_env plain_opts memory_options"

definition memory_notes :: memory_notes where
  "memory_notes = [(lit ''a.md'', [111])]"

lemma memory_rest: "case act_bind (on_remote (rp_listPaths (re_remote memory_env))) (\<lambda>listed.
     act_bind (act_of (validated_paths (te_nfc (co_text (re_core memory_env))) listed)) (\<lambda>remotePaths.
     let paths = fold set_add remotePaths (List.map fst []) in
     act_bind (act_fold (reconcile_path memory_env 1 7 empty_baseline []) (sort_by (re_compare memory_env) paths)
         \<lparr>rs_occupied = paths, rs_hashes = [], rs_conflicts = [], rs_diskWrites = 0, rs_remoteWrites = 0\<rparr>) (\<lambda>st.
     act_bind (if rs_remoteWrites st = 0 then act_return True
         else on_remote (rp_confirmDurable (re_remote memory_env))) (\<lambda>durable.
     if 0 < rs_remoteWrites st \<and> \<not> durable then act_throw (SyncError ''remote_receipt_unconfirmed'' None)
     else act_bind (on_core (on_world (lsp_write (re_state memory_env) BASELINE_KEY
         (baseline_value (Fin 7) (rs_hashes st))))) (\<lambda>_.
       act_return \<lparr>rr_conflicts = rs_conflicts st, rr_diskWrites = rs_diskWrites st,
         rr_remoteWrites = rs_remoteWrites st, rr_skippedOversize = [lit ''a.md''], rr_durable = durable\<rparr>)))))
     (running_core, memory_notes) of (Return _, _) \<Rightarrow> True | _ \<Rightarrow> False"
  by code_simp

lemma memory_texts_return: "\<exists>res s'. reconcile_texts memory_env 1 7 empty_baseline (running_core, memory_notes) = (Return res, s')"
proof -
  have core: "on_core (read_disk (re_core memory_env) 1) (running_core, memory_notes) =
      (Return ([], [lit ''a.md'']), (running_core, memory_notes))"
    by (simp add: on_core_def memory_env_def runtime_env_def memory_disk_read [simplified])
  show ?thesis
    using memory_rest unfolding reconcile_texts_def bind_return [where m = "on_core _" and s = "(running_core, memory_notes)", OF core] prod.case
    by (auto split: prod.splits outcome.splits)
qed

lemma memory_folder_returns: "\<exists>res s'. reconcileFolder memory_env (running_core, memory_notes) = (Return res, s')"
proof -
  have clock: "on_core (on_world (re_now memory_env)) (running_core, memory_notes) = (Return (Fin 7), (running_core, memory_notes))"
    by code_simp
  have base: "on_core (on_world (lsp_read (re_state memory_env) BASELINE_KEY)) (running_core, memory_notes) =
     (Return JUndefined, (running_core, memory_notes))"
    by code_simp
  have max: "re_maxFileBytes memory_env = Fin 1" by (simp add: memory_env_def runtime_env_def memory_options_def)
  have empty: "readBaseline JUndefined = empty_baseline" by code_simp
  show ?thesis
    using memory_texts_return by (simp add: reconcileFolder_def max is_safe_integer_num_def int_of_num_def bind_return [where m = "on_core _" and s = "(running_core, memory_notes)", OF clock] bind_return [where m = "on_core _" and s = "(running_core, memory_notes)", OF base] empty)
qed

lemma memory_returns: "\<exists>res rt'. syncOnce plain_opts memory_options (memory_runtime memory_notes) = (Return res, rt')"
  using memory_folder_returns
  by (auto simp: syncOnce_def memory_runtime_def new_runtime_def act_bind_def rt_refuse_stopped_def rt_emit_def act_catch_def
      on_vault_def on_both_def act_return_def call_optional_def memory_options_def memory_vault_def memory_env_def
      split: prod.splits outcome.splits)

lemma memory_contract:
  "vault_texts (te_nfc (nf_text plain_folder)) (ro_vault memory_options) (ro_timer memory_options) memory_names map_of"
  "looks (cp_get (fo_credentials plain_options))" "looks (ro_now memory_options)" "looks (fo_now plain_options)"
  "\<forall>emit ev. fo_ui plain_options = Some emit \<longrightarrow> looks (emit ev)"
  "\<forall>bs. length (ro_digest memory_options bs) = 32" "folder_ready plain_folder (rt_core (memory_runtime v))"
  using memory.vault_texts_axioms memory.credentials_look memory.runtime_clock_looks memory.source_clock_looks
    memory.interface_looks memory.digest_size memory_ready
  by blast+

lemma memory_start:
  "folder_text plain_folder (rt_core (memory_runtime v)) (lit ''a.md'') = Some [104, 105]"
  "bs_hashes (folder_baseline (rt_core (memory_runtime v))) = []"
  "rt_vault (memory_runtime v) = v" "map_of memory_notes (lit ''a.md'') = Some [111]"
  "max_bytes (runtime_env plain_opts memory_options) = 1"
proof -
  have "folder_text plain_folder running_core (lit ''a.md'') = Some [104, 105]"
    and "bs_hashes (folder_baseline running_core) = []"
    by code_simp+
  then show "folder_text plain_folder (rt_core (memory_runtime v)) (lit ''a.md'') = Some [104, 105]"
    and "bs_hashes (folder_baseline (rt_core (memory_runtime v))) = []"
    by (simp_all add: memory_runtime_def)
qed (simp_all add: memory_runtime_def new_runtime_def memory_notes_def max_bytes_def runtime_env_def memory_options_def
  int_of_num_def)

theorem sync_loses_nothing_witness:
  "kept (folder_text plain_folder (rt_core (snd (syncOnce plain_opts memory_options (memory_runtime memory_notes)))))
     (map_of (rt_vault (snd (syncOnce plain_opts memory_options (memory_runtime memory_notes))))) [111]"
proof -
  obtain r rt' where run: "syncOnce plain_opts memory_options (memory_runtime memory_notes) = (r, rt')" by fastforce
  have "map_of (rt_vault (memory_runtime memory_notes)) (lit ''a.md'') = Some [111]" using memory_start(3,4) by simp
  moreover have "well_formed [111]" by (simp add: high_surrogate_def low_surrogate_def)
  ultimately have "map_of (rt_vault (memory_runtime memory_notes)) (lit ''a.md'') = Some [111] \<and> well_formed [111]" ..
  from sync_loses_nothing [OF memory_contract run [unfolded plain_opts_def] disjI2 [OF this]] run
  show ?thesis by (simp add: memory_start(2))
qed

theorem sync_agrees_witness:
  "\<exists>res rt'. syncOnce plain_opts memory_options (memory_runtime memory_notes) = (Return res, rt') \<and>
     agreed (ro_digest memory_options) (bs_hashes (folder_baseline (rt_core rt'))) (folder_text plain_folder (rt_core rt'))
       (map_of (rt_vault rt')) \<and>
     map_of (bs_hashes (folder_baseline (rt_core rt'))) (lit ''a.md'') \<noteq> None"
proof -
  obtain res rt' where run: "syncOnce plain_opts memory_options (memory_runtime memory_notes) = (Return res, rt')"
    using memory_returns by blast
  have "map_of (rt_vault (memory_runtime memory_notes)) (lit ''a.md'') = Some [111]" using memory_start(3,4) by simp
  with sync_agrees [OF memory_contract run [unfolded plain_opts_def], of "lit ''a.md''" "[111]"] run
  show ?thesis by simp
qed

theorem oversize_replaced_witness:
  "folder_text plain_folder (rt_core (memory_runtime memory_notes)) (lit ''a.md'') = Some [104, 105] \<and>
   (\<exists>res rt'. syncOnce plain_opts memory_options (memory_runtime memory_notes) = (Return res, rt') \<and>
     folder_text plain_folder (rt_core rt') (lit ''a.md'') = Some (utf8_encode [111]))"
proof -
  obtain res rt' where run: "syncOnce plain_opts memory_options (memory_runtime memory_notes) = (Return res, rt')"
    using memory_returns by blast
  have limit: "max_bytes (runtime_env (folder_core_options id plain_folder plain_options plain_descriptor) memory_options)
      < length [104::8 word, 105]"
    using memory_start(5) by (simp add: plain_opts_def)
  have "map_of (rt_vault (memory_runtime memory_notes)) (lit ''a.md'') = Some [111]" using memory_start(3,4) by simp
  from oversize_replaced [OF memory_contract memory_start(1) limit this run [unfolded plain_opts_def]] run memory_start(1)
  show ?thesis by blast
qed

theorem stopped_for_good_witness:
  "runtime_change plain_opts memory_options
     (snd (runtime_stop plain_opts memory_options (snd (runtime_start plain_opts memory_options (new_runtime paired_disk []))))) =
   (Return (), snd (runtime_stop plain_opts memory_options
     (snd (runtime_start plain_opts memory_options (new_runtime paired_disk [])))))"
proof -
  let ?rt = "new_runtime paired_disk []"
  obtain r rt r1 rt1 where run: "runtime_start plain_opts memory_options ?rt = (r, rt)"
    "runtime_stop plain_opts memory_options rt = (r1, rt1)"
    by fastforce
  have "(runtime_step plain_opts memory_options)\<^sup>*\<^sup>* ?rt rt" using run(1) by (blast intro: runtime_step.started)
  from stopped_for_good [OF this run(2) rtranclp.rtrancl_refl] run show ?thesis by simp
qed

section \<open>Waiting for the server\<close>

lemma await_ends:
  assumes "\<forall>v. vs_serverAppliedLocalState vault v = (Return (applied v), v)"
    and "\<forall>v. tp_now timer v = (Return (clock v), v)"
    and "\<forall>v. tp_sleep timer 100 v = (Return (), later v) \<and> clock v + 100 \<le> clock (later v)"
    and "deadline \<le> clock v + 100 * fuel"
  shows "\<exists>v'. await_applied (Suc fuel) vault timer deadline v = (Return (applied v' = Some True), v') \<and>
    (applied v' = Some True \<or> deadline \<le> clock v')"
  using assms(4)
proof (induction fuel arbitrary: v)
  case 0
  then show ?case by (simp add: assms(1,2) act_bind_def is_applied_def act_return_def)
next
  case (Suc fuel)
  show ?case
  proof (cases "deadline \<le> clock v \<or> applied v = Some True")
    case True
    then show ?thesis
      by (subst await_applied.simps) (auto simp add: assms(1,2) act_bind_def is_applied_def act_return_def)
  next
    case False
    have "deadline \<le> clock (later v) + 100 * fuel" using Suc.prems assms(3) [rule_format, of v] by simp
    from Suc.IH [OF this] False show ?thesis
      by (subst await_applied.simps) (simp add: assms(1-3) act_bind_def is_applied_def act_return_def)
  qed
qed

text \<open>
  C39. \<open>confirmDurable\<close> always answers, and within its polls: it says true exactly when the vault's flag says
  that the server applied the local state, and false only after five seconds, or at once when there is no
  connection or the provider is not synchronised. The flags are read without effect and each sleep lasts at
  least as long as asked.
\<close>

theorem confirm_answers:
  assumes "\<forall>v. vs_serverAppliedLocalState vault v = (Return (applied v), v)"
    and "\<forall>v. vs_connected vault v = (Return (online v), v)"
    and "\<forall>v. vs_providerSynced vault v = (Return (caughtup v), v)"
    and "\<forall>v. tp_now timer v = (Return (clock v), v)"
    and "\<forall>v. tp_sleep timer 100 v = (Return (), later v) \<and> clock v + 100 \<le> clock (later v)"
  shows "\<exists>v'. rp_confirmDurable (createVaultSyncRemote vault timer device) v = (Return (applied v' = Some True), v') \<and>
    (applied v' = Some True \<or> clock v + 5000 \<le> clock v' \<or>
     v' = v \<and> (online v = Some False \<or> caughtup v = Some False))"
proof -
  have "clock v + 5000 \<le> clock v + 100 * 50" by simp
  from await_ends [OF assms(1,4,5) this]
  have "\<exists>v'. await_applied 51 vault timer (clock v + 5000) v = (Return (applied v' = Some True), v') \<and>
      (applied v' = Some True \<or> clock v + 5000 \<le> clock v')" by simp
  then show ?thesis
    by (auto simp: createVaultSyncRemote_def confirm_durable_def is_applied_def act_bind_def act_return_def assms)
qed

text \<open>A vault whose server applies the state after 250 ms.\<close>

definition slow_vault :: "(nat, unit) vault_sync" where
  "slow_vault = \<lparr>vs_getActiveMarkdownPaths = act_return [], vs_getTextForPath = (\<lambda>_. act_return None),
     vs_ensureFile = (\<lambda>_ _ _. act_return None), vs_markInitialized = None, vs_writeMarkdownText = None,
     vs_isMarkdownTombstoned = None, vs_waitForLocalPersistence = None, vs_waitForProviderSync = None,
     vs_connected = act_return None, vs_providerSynced = act_return None,
     vs_serverAppliedLocalState = (\<lambda>t. (Return (Some (250 \<le> t)), t)), vs_destroy = None, vs_getStateVector = None,
     vs_texts = \<lparr>tx_toString = (\<lambda>_. act_return []), tx_delete = (\<lambda>_ _ _. act_return ()),
       tx_insert = (\<lambda>_ _ _. act_return ()), tx_transact = (\<lambda>_. None)\<rparr>\<rparr>"

definition slow_timer :: "nat timer_port" where
  "slow_timer = \<lparr>tp_now = (\<lambda>t. (Return t, t)), tp_sleep = (\<lambda>ms t. (Return (), t + ms))\<rparr>"

theorem confirm_answers_witness:
  "\<exists>t. rp_confirmDurable (createVaultSyncRemote slow_vault slow_timer None) 0 = (Return (250 \<le> t), t) \<and> 250 \<le> t"
  using confirm_answers [of slow_vault "\<lambda>t. Some (250 \<le> t)" "\<lambda>_. None" "\<lambda>_. None" slow_timer "\<lambda>t. t" "\<lambda>t. t + 100" None 0]
  by (auto simp: slow_vault_def slow_timer_def act_return_def)

end
