(* ===== verification/NoteSnapshot.thy ===== *)
theory NoteSnapshot
  imports VaultPath SourceScan FileMeta
begin

text \<open>
  The notes of a vault's document, \<open>apps/worker/src/materialization-snapshot.ts\<close>: which metadata entries are
  live, which of two entries with one path wins, and the snapshot of all notes within the ceilings. The
  maps of a document are listed in the order \<open>forEach\<close> visits them; a value of \<open>idToText\<close> that is not a
  text is \<open>None\<close>. The collation is a parameter.
\<close>

section \<open>The document\<close>

record note_doc =
  nd_schemaVersion :: js_value
  nd_meta :: meta_map
  nd_idToText :: "(jsstr \<times> jsstr option) list"
  nd_pathToId :: "(jsstr \<times> js_value) list"

record note_env =
  ne_paths :: path_env
  ne_compare :: "jsstr \<Rightarrow> jsstr \<Rightarrow> bool"

definition MAX_MATERIALIZED_NOTES :: nat where
  "MAX_MATERIALIZED_NOTES = 2000"

definition MAX_MATERIALIZED_NOTE_BYTES :: nat where
  "MAX_MATERIALIZED_NOTE_BYTES = 1024 * 1024"

definition MAX_MATERIALIZED_GENERATION_BYTES :: nat where
  "MAX_MATERIALIZED_GENERATION_BYTES = 32 * 1024 * 1024"

datatype materialization_failure = MsGenerationTooLarge | MsNoteTooLarge | MsSnapshotInvalid
  | MsSchemaUnsupported | MsPathCollision | MsPathInvalid

record snapshot_note =
  sn_byteLength :: nat
  sn_content :: jsstr
  sn_fileId :: jsstr
  sn_modifiedAt :: "rat option"
  sn_path :: jsstr
  sn_pathKey :: jsstr
  sn_title :: jsstr

record note_snapshot =
  ns_notes :: "snapshot_note list"
  ns_schemaVersion :: rat
  ns_totalBytes :: nat

record candidate =
  ca_fileId :: jsstr
  ca_modifiedAt :: "rat option"
  ca_path :: jsstr

section \<open>The live entries\<close>

text \<open>\<open>left > right\<close> on strings compares code units.\<close>

fun string_greater :: "jsstr \<Rightarrow> jsstr \<Rightarrow> bool" where
  "string_greater [] t = False"
| "string_greater (u # s) [] = True"
| "string_greater (u # s) (v # t) = (v < u \<or> u = v \<and> string_greater s t)"

definition mtime_or_zero :: "candidate \<Rightarrow> rat" where
  "mtime_or_zero c = (case ca_modifiedAt c of Some t \<Rightarrow> t | None \<Rightarrow> 0)"

definition candidateIsNewer :: "candidate \<Rightarrow> candidate \<Rightarrow> bool" where
  "candidateIsNewer candidate existing =
     (if mtime_or_zero candidate \<noteq> mtime_or_zero existing then mtime_or_zero existing < mtime_or_zero candidate
      else string_greater (ca_fileId candidate) (ca_fileId existing))"

definition add_candidate :: "candidate \<Rightarrow> (jsstr \<times> candidate) list \<Rightarrow> (jsstr \<times> candidate) list" where
  "add_candidate c cs = (case map_of cs (ca_path c) of
     None \<Rightarrow> AList.update (ca_path c) c cs
   | Some existing \<Rightarrow> if candidateIsNewer c existing then AList.update (ca_path c) c cs else cs)"

definition meta_candidate :: "jsstr \<Rightarrow> decoded_meta \<Rightarrow> candidate" where
  "meta_candidate fileId d = \<lparr>ca_fileId = fileId, ca_modifiedAt = dm_mtime d, ca_path = dm_path d\<rparr>"

text \<open>The loop of schema 2 and later over the metadata.\<close>

fun meta_candidates ::
  "meta_map \<Rightarrow> (jsstr \<times> candidate) list \<Rightarrow> materialization_failure + (jsstr \<times> candidate) list" where
  "meta_candidates [] cs = Inr cs"
| "meta_candidates ((fileId, v) # m) cs = (case decodeFileMeta v of
     None \<Rightarrow> Inl MsSnapshotInvalid
   | Some d \<Rightarrow> meta_candidates m (if is_tombstone d then cs else add_candidate (meta_candidate fileId d) cs))"

text \<open>The two loops of schema 1: over the paths, and over the metadata for the paths that are left.\<close>

fun path_candidates ::
  "meta_map \<Rightarrow> (jsstr \<times> js_value) list \<Rightarrow> (jsstr \<times> candidate) list \<Rightarrow>
     materialization_failure + (jsstr \<times> candidate) list" where
  "path_candidates m [] cs = Inr cs"
| "path_candidates m ((path, v) # ps) cs = (case v of
     JStr fileId \<Rightarrow>
       if fileId = [] then Inl MsSnapshotInvalid
       else (let d = decodeFileMeta (meta_get m fileId) in
         path_candidates m ps
           (if (case d of Some d \<Rightarrow> is_tombstone d | None \<Rightarrow> False) then cs
            else add_candidate \<lparr>ca_fileId = fileId,
              ca_modifiedAt = (case d of Some d \<Rightarrow> dm_mtime d | None \<Rightarrow> None), ca_path = path\<rparr> cs))
   | _ \<Rightarrow> Inl MsSnapshotInvalid)"

fun other_candidates ::
  "meta_map \<Rightarrow> (jsstr \<times> candidate) list \<Rightarrow> materialization_failure + (jsstr \<times> candidate) list" where
  "other_candidates [] cs = Inr cs"
| "other_candidates ((fileId, v) # m) cs = (case decodeFileMeta v of
     None \<Rightarrow> Inl MsSnapshotInvalid
   | Some d \<Rightarrow> other_candidates m
       (if is_tombstone d \<or> map_of cs (dm_path d) \<noteq> None then cs else add_candidate (meta_candidate fileId d) cs))"

definition activeCandidates :: "note_doc \<Rightarrow> rat \<Rightarrow> materialization_failure + candidate list" where
  "activeCandidates doc schemaVersion =
     (case (if 2 \<le> schemaVersion then meta_candidates (nd_meta doc) []
            else case path_candidates (nd_meta doc) (nd_pathToId doc) [] of
              Inl e \<Rightarrow> Inl e | Inr cs \<Rightarrow> other_candidates (nd_meta doc) cs) of
        Inl e \<Rightarrow> Inl e | Inr cs \<Rightarrow> Inr (List.map snd cs))"

section \<open>The snapshot\<close>

definition SERVER_MIN_SCHEMA_VERSION :: rat where
  "SERVER_MIN_SCHEMA_VERSION = 1"

definition SERVER_MAX_SCHEMA_VERSION :: rat where
  "SERVER_MAX_SCHEMA_VERSION = 3"

definition supported_schema :: "js_value \<Rightarrow> rat option" where
  "supported_schema v = (case v of
     JNum (Fin q) \<Rightarrow> if is_integer_num (Fin q) \<and> SERVER_MIN_SCHEMA_VERSION \<le> q \<and> q \<le> SERVER_MAX_SCHEMA_VERSION
       then Some q else None
   | _ \<Rightarrow> None)"

record snapshot_state =
  st_notes :: "snapshot_note list"
  st_canonicalPaths :: "(jsstr \<times> jsstr) list"
  st_totalBytes :: nat

text \<open>The body of the loop over the candidates.\<close>

definition snapshot_step ::
  "note_env \<Rightarrow> note_doc \<Rightarrow> candidate \<Rightarrow> snapshot_state \<Rightarrow> materialization_failure + snapshot_state" where
  "snapshot_step env doc c st =
     (case validateMarkdownVaultPath (ne_paths env) (ca_path c) of
        Inl _ \<Rightarrow> Inl MsPathInvalid
      | Inr v \<Rightarrow>
          if (case map_of (st_canonicalPaths st) (vp_pathKey v) of Some existing \<Rightarrow> existing \<noteq> vp_path v | None \<Rightarrow> False)
          then Inl MsPathCollision
          else (case map_of (nd_idToText doc) (ca_fileId c) of
            Some (Some content) \<Rightarrow>
              (let byteLength = utf8_length content; totalBytes = st_totalBytes st + byteLength in
               if MAX_MATERIALIZED_NOTE_BYTES < byteLength then Inl MsNoteTooLarge
               else if MAX_MATERIALIZED_NOTES \<le> length (st_notes st) \<or> MAX_MATERIALIZED_GENERATION_BYTES < totalBytes
               then Inl MsGenerationTooLarge
               else Inr \<lparr>st_notes = st_notes st @ [\<lparr>sn_byteLength = byteLength, sn_content = content,
                     sn_fileId = ca_fileId c, sn_modifiedAt = ca_modifiedAt c, sn_path = vp_path v,
                     sn_pathKey = vp_pathKey v, sn_title = vp_title v\<rparr>],
                   st_canonicalPaths = AList.update (vp_pathKey v) (vp_path v) (st_canonicalPaths st),
                   st_totalBytes = totalBytes\<rparr>)
          | _ \<Rightarrow> Inl MsSnapshotInvalid))"

fun snapshot_loop ::
  "note_env \<Rightarrow> note_doc \<Rightarrow> candidate list \<Rightarrow> snapshot_state \<Rightarrow> materialization_failure + snapshot_state" where
  "snapshot_loop env doc [] st = Inr st"
| "snapshot_loop env doc (c # cs) st = (case snapshot_step env doc c st of
     Inl e \<Rightarrow> Inl e | Inr st' \<Rightarrow> snapshot_loop env doc cs st')"

definition extractMaterializedSnapshot :: "note_env \<Rightarrow> note_doc \<Rightarrow> materialization_failure + note_snapshot" where
  "extractMaterializedSnapshot env doc =
     (case supported_schema (nd_schemaVersion doc) of
        None \<Rightarrow> Inl MsSchemaUnsupported
      | Some schemaVersion \<Rightarrow>
          (case activeCandidates doc schemaVersion of
             Inl e \<Rightarrow> Inl e
           | Inr cs \<Rightarrow>
               (case snapshot_loop env doc cs \<lparr>st_notes = [], st_canonicalPaths = [], st_totalBytes = 0\<rparr> of
                  Inl e \<Rightarrow> Inl e
                | Inr st \<Rightarrow> Inr \<lparr>ns_notes = sort_by (\<lambda>a b. ne_compare env (sn_pathKey a) (sn_pathKey b)) (st_notes st),
                    ns_schemaVersion = schemaVersion, ns_totalBytes = st_totalBytes st\<rparr>)))"

end
