(* ===== verification/NoteContent.thy ===== *)
theory NoteContent
  imports NoteSnapshot
begin

text \<open>
  Reading, writing and restoring a note of the live document, \<open>apps/worker/src/vault-content.ts\<close>. A call
  returns its answer with the document it leaves; a transaction is the edits it makes, one after the
  other. \<open>clock\<close> is what \<open>Date.now()\<close> answers inside \<open>yaos-core\<close>.
\<close>

section \<open>Failures and answers\<close>

datatype content_failure = CfGenerationTooLarge | CfNoteExists | CfNoteNotFound | CfNoteStale | CfNoteTombstoned
  | CfNoteTooLarge | CfSnapshotInvalid | CfSchemaUnsupported | CfVaultBusy | CfVaultNotActive | CfPathCollision
  | CfPathInvalid | CfPersistenceUnavailable

definition WEB_DEVICE :: jsstr where
  "WEB_DEVICE = lit ''owd-web''"

definition RESTORE_DEVICE :: jsstr where
  "RESTORE_DEVICE = lit ''owd-restore''"

record stable_note =
  sb_snapshot :: note_snapshot
  sb_note :: snapshot_note

fun contentError :: "materialization_failure \<Rightarrow> content_failure" where
  "contentError MsGenerationTooLarge = CfGenerationTooLarge"
| "contentError MsNoteTooLarge = CfNoteTooLarge"
| "contentError MsSnapshotInvalid = CfSnapshotInvalid"
| "contentError MsSchemaUnsupported = CfSchemaUnsupported"
| "contentError MsPathCollision = CfPathCollision"
| "contentError MsPathInvalid = CfPathInvalid"

definition find_note :: "jsstr \<Rightarrow> note_snapshot \<Rightarrow> snapshot_note option" where
  "find_note pathKey snapshot = find (\<lambda>n. sn_pathKey n = pathKey) (ns_notes snapshot)"

definition readSnapshotNote :: "note_env \<Rightarrow> note_doc \<Rightarrow> jsstr \<Rightarrow> content_failure + stable_note" where
  "readSnapshotNote env doc rawPath =
     (case validateMarkdownVaultPath (ne_paths env) rawPath of
        Inl _ \<Rightarrow> Inl CfPathInvalid
      | Inr requested \<Rightarrow>
          (case extractMaterializedSnapshot env doc of
             Inl e \<Rightarrow> Inl (contentError e)
           | Inr snapshot \<Rightarrow>
               (case find_note (vp_pathKey requested) snapshot of
                  None \<Rightarrow> Inl CfNoteNotFound
                | Some note \<Rightarrow> Inr \<lparr>sb_snapshot = snapshot, sb_note = note\<rparr>)))"

section \<open>Tombstones\<close>

definition is_tombstone_of :: "note_env \<Rightarrow> jsstr \<Rightarrow> js_value \<Rightarrow> bool" where
  "is_tombstone_of env pathKey v = (case decodeFileMeta v of
     None \<Rightarrow> False
   | Some d \<Rightarrow> is_tombstone d \<and> (case validateMarkdownVaultPath (ne_paths env) (dm_path d) of
       Inr p \<Rightarrow> vp_pathKey p = pathKey | Inl _ \<Rightarrow> False))"

definition pathHasTombstone :: "note_env \<Rightarrow> note_doc \<Rightarrow> jsstr \<Rightarrow> bool" where
  "pathHasTombstone env doc pathKey = list_ex (\<lambda>(_, v). is_tombstone_of env pathKey v) (nd_meta doc)"

definition removePathTombstones :: "note_env \<Rightarrow> note_doc \<Rightarrow> jsstr \<Rightarrow> note_doc" where
  "removePathTombstones env doc pathKey =
     (let ids = List.map fst (filter (\<lambda>(_, v). is_tombstone_of env pathKey v) (nd_meta doc));
          stale = List.map fst (filter (\<lambda>(_, v). case v of JStr fileId \<Rightarrow> fileId \<in> set ids | _ \<Rightarrow> False) (nd_pathToId doc)) in
      if ids = [] then doc
      else doc\<lparr>nd_meta := fold AList.delete ids (nd_meta doc), nd_idToText := fold AList.delete ids (nd_idToText doc),
               nd_pathToId := fold AList.delete stale (nd_pathToId doc)\<rparr>)"

section \<open>Writing\<close>

definition ensureGenerationBounds :: "note_snapshot \<Rightarrow> nat \<Rightarrow> nat \<Rightarrow> bool \<Rightarrow> content_failure option" where
  "ensureGenerationBounds snapshot previousByteLength nextByteLength creating =
     (if MAX_MATERIALIZED_NOTE_BYTES < nextByteLength then Some CfNoteTooLarge
      else if creating \<and> MAX_MATERIALIZED_NOTES \<le> length (ns_notes snapshot) then Some CfGenerationTooLarge
      else if int MAX_MATERIALIZED_GENERATION_BYTES <
          int (ns_totalBytes snapshot) - int previousByteLength + int nextByteLength
        then Some CfGenerationTooLarge
      else None)"

definition ymap_set :: "string \<Rightarrow> js_value \<Rightarrow> js_value \<Rightarrow> js_value" where
  "ymap_set k x v = (case v of JYMap ps \<Rightarrow> JYMap (AList.update k x ps) | _ \<Rightarrow> v)"

definition ymap_delete :: "string \<Rightarrow> js_value \<Rightarrow> js_value" where
  "ymap_delete k v = (case v of JYMap ps \<Rightarrow> JYMap (AList.delete k ps) | _ \<Rightarrow> v)"

text \<open>The metadata of a note that is edited: the entry, made nested if it was not, with its new fields.\<close>

definition touched_entry :: "jsstr \<Rightarrow> rat \<Rightarrow> jsstr \<Rightarrow> js_value \<Rightarrow> js_value" where
  "touched_entry path now device entry =
     ymap_set ''device'' (JStr device) (ymap_set ''mtime'' (JNum (Fin now))
       (ymap_delete ''deletedAt'' (ymap_delete ''deleted'' (ymap_set ''path'' (JStr path) entry))))"

definition updateMetadata ::
  "rat \<Rightarrow> meta_map \<Rightarrow> jsstr \<Rightarrow> jsstr \<Rightarrow> rat \<Rightarrow> jsstr \<Rightarrow> (content_failure + unit) \<times> meta_map" where
  "updateMetadata clock m fileId path now device =
     (case ensureNestedMetaEntry clock m fileId (Some \<lparr>dm_shape = FlatShape, dm_path = path, dm_deletedAt = None,
         dm_deleted = False, dm_mtime = Some now, dm_device = Some device\<rparr>) of
        (None, m') \<Rightarrow> (Inl CfSnapshotInvalid, m')
      | (Some entry, m') \<Rightarrow> (Inr (), AList.update fileId (touched_entry path now device entry) m'))"

record write_request =
  wr_path :: jsstr
  wr_content :: jsstr
  wr_expectedVersion :: "jsstr option"

record note_identity =
  ni_contentVersion :: jsstr
  ni_fileId :: jsstr

record live_note =
  ln_content :: jsstr
  ln_contentVersion :: jsstr
  ln_modifiedAt :: "rat option"
  ln_path :: jsstr

datatype write_operation = NoteCreated | NoteUnchanged | NoteUpdated

type_synonym write_answer = "content_failure + (live_note \<times> write_operation)"

text \<open>The transaction that makes a new note.\<close>

definition insert_note :: "jsstr \<Rightarrow> jsstr \<Rightarrow> jsstr \<Rightarrow> rat \<Rightarrow> jsstr \<Rightarrow> note_doc \<Rightarrow> note_doc" where
  "insert_note fileId path content now device doc =
     doc\<lparr>nd_idToText := AList.update fileId (Some content) (nd_idToText doc),
         nd_meta := AList.update fileId (createNestedActiveMeta path (Fin now) (Some device)) (nd_meta doc)\<rparr>"

text \<open>The transaction that replaces the text of a note: all of it is deleted, then the new one inserted.\<close>

definition replace_note ::
  "rat \<Rightarrow> jsstr \<Rightarrow> jsstr \<Rightarrow> jsstr \<Rightarrow> rat \<Rightarrow> jsstr \<Rightarrow> note_doc \<Rightarrow> (content_failure + unit) \<times> note_doc" where
  "replace_note clock fileId path content now device doc =
     (let doc' = doc\<lparr>nd_idToText := AList.update fileId (Some content) (nd_idToText doc)\<rparr> in
      case updateMetadata clock (nd_meta doc') fileId path now device of
        (r, m) \<Rightarrow> (r, doc'\<lparr>nd_meta := m\<rparr>))"

definition live_answer :: "jsstr \<Rightarrow> note_identity \<Rightarrow> rat option \<Rightarrow> jsstr \<Rightarrow> live_note" where
  "live_answer content identity modifiedAt path = \<lparr>ln_content = content,
     ln_contentVersion = ni_contentVersion identity, ln_modifiedAt = modifiedAt, ln_path = path\<rparr>"

definition applyMarkdownNoteWrite ::
  "note_env \<Rightarrow> rat \<Rightarrow> note_doc \<Rightarrow> write_request \<Rightarrow> stable_note option \<Rightarrow> rat \<Rightarrow> note_identity \<Rightarrow>
     write_answer \<times> note_doc" where
  "applyMarkdownNoteWrite env clock doc request expectedNote now identity =
     (case validateMarkdownVaultPath (ne_paths env) (wr_path request) of
        Inl _ \<Rightarrow> (Inl CfPathInvalid, doc)
      | Inr validated \<Rightarrow>
          (let nextByteLength = utf8_length (wr_content request) in
           if wr_expectedVersion request = None
           then (case extractMaterializedSnapshot env doc of
               Inl e \<Rightarrow> (Inl (contentError e), doc)
             | Inr snapshot \<Rightarrow>
                 if find_note (vp_pathKey validated) snapshot \<noteq> None then (Inl CfNoteExists, doc)
                 else if pathHasTombstone env doc (vp_pathKey validated) then (Inl CfNoteTombstoned, doc)
                 else (case ensureGenerationBounds snapshot 0 nextByteLength True of
                     Some e \<Rightarrow> (Inl e, doc)
                   | None \<Rightarrow>
                       (Inr (live_answer (wr_content request) identity (Some now) (vp_path validated), NoteCreated),
                        insert_note (ni_fileId identity) (vp_path validated) (wr_content request) now WEB_DEVICE doc)))
           else (case expectedNote of
               None \<Rightarrow> (Inl CfNoteNotFound, doc)
             | Some held \<Rightarrow>
                 if sn_pathKey (sb_note held) \<noteq> vp_pathKey validated then (Inl CfNoteNotFound, doc)
                 else (case ensureGenerationBounds (sb_snapshot held) (sn_byteLength (sb_note held)) nextByteLength False of
                     Some e \<Rightarrow> (Inl e, doc)
                   | None \<Rightarrow>
                       (case map_of (nd_idToText doc) (sn_fileId (sb_note held)) of
                          Some (Some _) \<Rightarrow>
                            (case replace_note clock (sn_fileId (sb_note held)) (sn_path (sb_note held))
                                (wr_content request) now WEB_DEVICE doc of
                               (Inl e, doc') \<Rightarrow> (Inl e, doc')
                             | (Inr _, doc') \<Rightarrow>
                                 (Inr (live_answer (wr_content request) identity (Some now) (sn_path (sb_note held)), NoteUpdated),
                                  doc'))
                        | _ \<Rightarrow> (Inl CfSnapshotInvalid, doc))))))"

section \<open>Restoring\<close>

record restore_request =
  rq_path :: jsstr
  rq_content :: jsstr
  rq_contentSha256 :: jsstr
  rq_expectedTarget :: "jsstr option"
  rq_modifiedAt :: "rat option"

definition applyMarkdownNoteRestore ::
  "note_env \<Rightarrow> rat \<Rightarrow> note_doc \<Rightarrow> restore_request \<Rightarrow> stable_note option \<Rightarrow> rat \<Rightarrow> note_identity \<Rightarrow>
     write_answer \<times> note_doc" where
  "applyMarkdownNoteRestore env clock doc request expectedNote now identity =
     (case validateMarkdownVaultPath (ne_paths env) (rq_path request) of
        Inl _ \<Rightarrow> (Inl CfPathInvalid, doc)
      | Inr validated \<Rightarrow>
          (let nextByteLength = utf8_length (rq_content request);
               modifiedAt = (case rq_modifiedAt request of Some t \<Rightarrow> t | None \<Rightarrow> now) in
           case expectedNote of
             None \<Rightarrow>
               (case extractMaterializedSnapshot env doc of
                  Inl e \<Rightarrow> (Inl (contentError e), doc)
                | Inr snapshot \<Rightarrow>
                    if find_note (vp_pathKey validated) snapshot \<noteq> None then (Inl CfNoteStale, doc)
                    else (case ensureGenerationBounds snapshot 0 nextByteLength True of
                        Some e \<Rightarrow> (Inl e, doc)
                      | None \<Rightarrow>
                          (Inr (live_answer (rq_content request) identity (Some modifiedAt) (vp_path validated), NoteCreated),
                           insert_note (ni_fileId identity) (vp_path validated) (rq_content request) modifiedAt
                             RESTORE_DEVICE (removePathTombstones env doc (vp_pathKey validated)))))
           | Some held \<Rightarrow>
               if sn_pathKey (sb_note held) \<noteq> vp_pathKey validated then (Inl CfNoteStale, doc)
               else if sn_content (sb_note held) = rq_content request
               then (Inr (live_answer (rq_content request) identity (sn_modifiedAt (sb_note held)) (sn_path (sb_note held)),
        NoteUnchanged), doc)
               else (case ensureGenerationBounds (sb_snapshot held) (sn_byteLength (sb_note held)) nextByteLength False of
                   Some e \<Rightarrow> (Inl e, doc)
                 | None \<Rightarrow>
                     (case map_of (nd_idToText doc) (sn_fileId (sb_note held)) of
                        Some (Some _) \<Rightarrow>
                          (case replace_note clock (sn_fileId (sb_note held)) (sn_path (sb_note held))
                              (rq_content request) modifiedAt RESTORE_DEVICE doc of
                             (Inl e, doc') \<Rightarrow> (Inl e, doc')
                           | (Inr _, doc') \<Rightarrow>
                               (Inr (live_answer (rq_content request) identity (Some modifiedAt) (sn_path (sb_note held)),
                                 NoteUpdated), doc'))
                      | _ \<Rightarrow> (Inl CfSnapshotInvalid, doc)))))"

end
