(* ===== verification/NoteSpec.thy ===== *)
theory NoteSpec
  imports NoteContent SourceScanSpec
begin

text \<open>
  What a snapshot contains. Of the live entries with one path the newest wins, by modification time and
  then by file id; the snapshot of a document, in any order of its maps, has the text of each winner and
  exists when they are valid, do not collide and stay within the ceilings.
\<close>

section \<open>Which entry wins\<close>

lemma string_greater_trans: "string_greater s t \<Longrightarrow> string_greater t r \<Longrightarrow> string_greater s r"
proof (induction s t arbitrary: r rule: string_greater.induct)
  case (2 u s)
  then show ?case by (cases r) auto
next
  case (3 u s v t)
  then show ?case by (cases r) (auto dest: order.strict_trans)
qed auto

lemma string_greater_asym: "string_greater s t \<Longrightarrow> \<not> string_greater t s"
  by (induction s t rule: string_greater.induct) auto

lemma string_greater_total: "s \<noteq> t \<Longrightarrow> string_greater s t \<or> string_greater t s"
proof (induction s t rule: string_greater.induct)
  case (1 t)
  then show ?case by (cases t) auto
next
  case (3 u s v t)
  then show ?case by (cases u v rule: linorder_cases) auto
qed auto

lemma newer_trans: "candidateIsNewer a b \<Longrightarrow> candidateIsNewer b c \<Longrightarrow> candidateIsNewer a c"
  by (auto simp: candidateIsNewer_def dest: string_greater_trans split: if_splits)

lemma newer_asym: "candidateIsNewer a b \<Longrightarrow> \<not> candidateIsNewer b a"
  by (auto simp: candidateIsNewer_def dest: string_greater_asym split: if_splits)

lemma newer_total: "ca_fileId a \<noteq> ca_fileId b \<Longrightarrow> candidateIsNewer a b \<or> candidateIsNewer b a"
  using string_greater_total [of "ca_fileId a" "ca_fileId b"] by (auto simp: candidateIsNewer_def)

text \<open>\<open>c\<close> has the latest time of all entries of its path, and among those of that time the greatest file id.\<close>

definition newest :: "candidate set \<Rightarrow> candidate \<Rightarrow> bool" where
  "newest S c \<longleftrightarrow> c \<in> S \<and> (\<forall>c'\<in>S. ca_path c' = ca_path c \<and> c' \<noteq> c \<longrightarrow> mtime_or_zero c' < mtime_or_zero c \<or>
     mtime_or_zero c' = mtime_or_zero c \<and> string_greater (ca_fileId c) (ca_fileId c'))"

lemma newest_iff: "newest S c \<longleftrightarrow> c \<in> S \<and> (\<forall>c'\<in>S. ca_path c' = ca_path c \<longrightarrow> c' = c \<or> candidateIsNewer c c')"
  by (auto simp: newest_def candidateIsNewer_def split: if_splits)

lemma newest_unique: "newest S c \<Longrightarrow> newest S c' \<Longrightarrow> ca_path c = ca_path c' \<Longrightarrow> c = c'"
  unfolding newest_iff by (metis newer_asym)

definition chosen :: "(jsstr \<times> candidate) list \<Rightarrow> candidate set \<Rightarrow> bool" where
  "chosen cs S \<longleftrightarrow> distinct (List.map fst cs) \<and> (\<forall>p c. map_of cs p = Some c \<longleftrightarrow> newest S c \<and> ca_path c = p)"

lemma chosen_add:
  assumes chosen: "chosen cs S" and fresh: "\<forall>c'\<in>S. ca_fileId c' \<noteq> ca_fileId c"
    and cover: "\<forall>c'\<in>S. \<exists>e. newest S e \<and> ca_path e = ca_path c'"
  shows "chosen (add_candidate c cs) (insert c S)" and "\<forall>c'\<in>insert c S. \<exists>e. newest (insert c S) e \<and> ca_path e = ca_path c'"
proof -
  have map: "map_of cs p = Some e \<longleftrightarrow> newest S e \<and> ca_path e = p" for p e using chosen by (simp add: chosen_def)
  have other: "newest (insert c S) e \<longleftrightarrow> newest S e" if "ca_path e \<noteq> ca_path c" for e
    using that by (auto simp: newest_iff)
  define r where "r = (case map_of cs (ca_path c) of None \<Rightarrow> c | Some x \<Rightarrow> if candidateIsNewer c x then c else x)"
  have r_path: "ca_path r = ca_path c" using map [of "ca_path c"] by (auto simp: r_def split: option.split)
  have here: "newest (insert c S) e \<longleftrightarrow> e = r" if "ca_path e = ca_path c" for e
  proof (cases "map_of cs (ca_path c)")
    case None
    have "ca_path c' \<noteq> ca_path c" if "c' \<in> S" for c'
    proof
      assume same: "ca_path c' = ca_path c"
      from cover that obtain x where "newest S x" "ca_path x = ca_path c'" by blast
      with map [of "ca_path c" x] None same show False by simp
    qed
    with None \<open>ca_path e = ca_path c\<close> show ?thesis by (auto simp: newest_iff r_def)
  next
    case (Some x)
    with map have x: "newest S x" "ca_path x = ca_path c" by auto
    then have "x \<in> S" by (simp add: newest_iff)
    with fresh newer_total [of c x] have total: "candidateIsNewer c x \<or> candidateIsNewer x c" by metis
    show ?thesis
    proof (cases "candidateIsNewer c x")
      case True
      have "newest (insert c S) c"
        using x True newer_trans [OF True] by (auto simp: newest_iff)
      with newest_unique [of "insert c S" e c] that Some True show ?thesis by (auto simp: r_def)
    next
      case False
      with total x have "newest (insert c S) x" by (auto simp: newest_iff)
      with newest_unique [of "insert c S" e x] that x Some False show ?thesis by (auto simp: r_def)
    qed
  qed
  show "chosen (add_candidate c cs) (insert c S)"
    unfolding chosen_def
  proof (intro conjI allI)
    show "distinct (List.map fst (add_candidate c cs))"
      using chosen by (auto simp: chosen_def add_candidate_def distinct_update split: option.split)
    fix p e
    show "map_of (add_candidate c cs) p = Some e \<longleftrightarrow> newest (insert c S) e \<and> ca_path e = p"
    proof (cases "p = ca_path c")
      case True
      then have "map_of (add_candidate c cs) p = Some r"
        by (simp add: add_candidate_def update_conv r_def split: option.split)
      with True here [of e] r_path show ?thesis by auto
    next
      case False
      then have "map_of (add_candidate c cs) p = map_of cs p"
        by (simp add: add_candidate_def update_conv split: option.split)
      with False other [of e] map [of p e] show ?thesis by auto
    qed
  qed
  show "\<forall>c'\<in>insert c S. \<exists>e. newest (insert c S) e \<and> ca_path e = ca_path c'"
  proof
    fix c'
    assume c': "c' \<in> insert c S"
    show "\<exists>e. newest (insert c S) e \<and> ca_path e = ca_path c'"
    proof (cases "ca_path c' = ca_path c")
      case True
      with here [OF r_path] r_path show ?thesis by auto
    next
      case False
      with c' cover other show ?thesis by (metis insertE)
    qed
  qed
qed

section \<open>The live entries\<close>

definition live_entries :: "meta_map \<Rightarrow> candidate set" where
  "live_entries m = {meta_candidate f d | f v d. (f, v) \<in> set m \<and> decodeFileMeta v = Some d \<and> \<not> is_tombstone d}"

definition winners :: "meta_map \<Rightarrow> candidate set" where
  "winners m = {c. newest (live_entries m) c}"

lemma live_Nil [simp]: "live_entries [] = {}"
  by (simp add: live_entries_def)

lemma live_Cons: "live_entries ((f, v) # m) = (case decodeFileMeta v of
    Some d \<Rightarrow> (if is_tombstone d then {} else {meta_candidate f d}) | None \<Rightarrow> {}) \<union> live_entries m"
  by (auto simp: live_entries_def split: option.splits)

lemma live_id: "c \<in> live_entries m \<Longrightarrow> ca_fileId c \<in> fst ` set m"
  by (force simp: live_entries_def meta_candidate_def)

lemma meta_candidates_chosen:
  assumes "distinct (List.map fst m)" and "\<forall>c\<in>S. ca_fileId c \<notin> fst ` set m"
    and "chosen cs S" and "\<forall>c'\<in>S. \<exists>e. newest S e \<and> ca_path e = ca_path c'"
  shows "case meta_candidates m cs of
      Inl e \<Rightarrow> e = MsSnapshotInvalid \<and> \<not> list_all (\<lambda>(f, v). decodeFileMeta v \<noteq> None) m
    | Inr cs' \<Rightarrow> list_all (\<lambda>(f, v). decodeFileMeta v \<noteq> None) m \<and> chosen cs' (S \<union> live_entries m) \<and>
        (\<forall>c'\<in>S \<union> live_entries m. \<exists>e. newest (S \<union> live_entries m) e \<and> ca_path e = ca_path c')"
  using assms
proof (induction m arbitrary: cs S)
  case Nil
  then show ?case by simp
next
  case (Cons fv m)
  obtain f v where fv: "fv = (f, v)" by (cases fv)
  show ?case
  proof (cases "decodeFileMeta v")
    case None
    then show ?thesis by (simp add: fv)
  next
    case (Some d)
    show ?thesis
    proof (cases "is_tombstone d")
      case True
      with Some fv Cons.IH [of S cs] Cons.prems show ?thesis by (auto simp: live_Cons split: sum.splits)
    next
      case False
      let ?c = "meta_candidate f d"
      have fresh: "\<forall>c'\<in>S. ca_fileId c' \<noteq> ca_fileId ?c" using Cons.prems(2) by (auto simp: fv meta_candidate_def)
      note add = chosen_add [OF Cons.prems(3) fresh Cons.prems(4)]
      have "\<forall>c\<in>insert ?c S. ca_fileId c \<notin> fst ` set m"
        using Cons.prems(1,2) by (auto simp: fv meta_candidate_def)
      from Cons.IH [OF _ this add] Cons.prems(1) Some False fv show ?thesis
        by (auto simp: live_Cons split: sum.splits)
    qed
  qed
qed

definition readable :: "meta_map \<Rightarrow> bool" where
  "readable m \<longleftrightarrow> distinct (List.map fst m) \<and> list_all (\<lambda>(f, v). decodeFileMeta v \<noteq> None) m"

lemma live_has_winner:
  assumes "readable m" and "c \<in> live_entries m"
  shows "\<exists>w\<in>winners m. ca_path w = ca_path c"
proof -
  have "chosen [] {}" by (simp add: chosen_def newest_iff)
  from meta_candidates_chosen [OF _ _ this, of m] assms show ?thesis
    by (auto simp: readable_def winners_def split: sum.splits)
qed

lemma activeCandidates_winners:
  assumes "2 \<le> s" and "distinct (List.map fst (nd_meta doc))"
  shows "case activeCandidates doc s of
      Inl e \<Rightarrow> e = MsSnapshotInvalid \<and> \<not> readable (nd_meta doc)
    | Inr cs \<Rightarrow> readable (nd_meta doc) \<and> set cs = winners (nd_meta doc) \<and> distinct (List.map ca_path cs)"
proof -
  have "chosen [] {}" by (simp add: chosen_def newest_iff)
  from meta_candidates_chosen [OF assms(2) _ this]
  have spec: "case meta_candidates (nd_meta doc) [] of
      Inl e \<Rightarrow> e = MsSnapshotInvalid \<and> \<not> readable (nd_meta doc)
    | Inr cs' \<Rightarrow> readable (nd_meta doc) \<and> chosen cs' (live_entries (nd_meta doc))"
    using assms(2) by (auto simp: readable_def split: sum.splits)
  have "set (List.map snd cs) = winners (nd_meta doc) \<and> distinct (List.map ca_path (List.map snd cs))"
    if "chosen cs (live_entries (nd_meta doc))" for cs
  proof -
    have d: "distinct (List.map fst cs)" using that by (simp add: chosen_def)
    have mem: "(p, c) \<in> set cs \<longleftrightarrow> newest (live_entries (nd_meta doc)) c \<and> ca_path c = p" for p c
      using that map_of_eq_Some_iff [OF d] by (simp add: chosen_def)
    have paths: "List.map (ca_path \<circ> snd) cs = List.map fst cs"
      by (rule map_cong [OF refl]) (metis mem comp_apply prod.collapse)
    from d have "distinct (List.map ca_path (List.map snd cs))" by (simp only: map_map paths)
    moreover have "c \<in> set (List.map snd cs) \<longleftrightarrow> c \<in> winners (nd_meta doc)" for c
    proof -
      have "c \<in> set (List.map snd cs) \<longleftrightarrow> (\<exists>p. (p, c) \<in> set cs)" by force
      then show ?thesis by (simp add: mem winners_def)
    qed
    ultimately show ?thesis by blast
  qed
  with spec assms(1) show ?thesis by (auto simp: activeCandidates_def split: sum.splits)
qed


section \<open>The snapshot of the winners\<close>

definition text_of :: "note_doc \<Rightarrow> candidate \<Rightarrow> jsstr" where
  "text_of doc c = (case map_of (nd_idToText doc) (ca_fileId c) of Some (Some t) \<Rightarrow> t | _ \<Rightarrow> [])"

definition key_of :: "note_env \<Rightarrow> candidate \<Rightarrow> jsstr" where
  "key_of env c = pe_lower (ne_paths env) (ca_path c)"

definition note_of :: "note_env \<Rightarrow> note_doc \<Rightarrow> candidate \<Rightarrow> snapshot_note" where
  "note_of env doc c = \<lparr>sn_byteLength = utf8_length (text_of doc c), sn_content = text_of doc c,
     sn_fileId = ca_fileId c, sn_modifiedAt = ca_modifiedAt c, sn_path = ca_path c, sn_pathKey = key_of env c,
     sn_title = (case validateMarkdownVaultPath (ne_paths env) (ca_path c) of Inr v \<Rightarrow> vp_title v | Inl _ \<Rightarrow> [])\<rparr>"

definition admissible :: "note_env \<Rightarrow> note_doc \<Rightarrow> candidate \<Rightarrow> bool" where
  "admissible env doc c \<longleftrightarrow> (\<exists>v. validateMarkdownVaultPath (ne_paths env) (ca_path c) = Inr v) \<and>
     (\<exists>t. map_of (nd_idToText doc) (ca_fileId c) = Some (Some t)) \<and>
     utf8_length (text_of doc c) \<le> MAX_MATERIALIZED_NOTE_BYTES"

text \<open>The candidates in \<open>cs\<close> do not collide with each other, nor with the canonical paths \<open>m\<close>.\<close>

definition apart :: "note_env \<Rightarrow> (jsstr \<Rightarrow> jsstr option) \<Rightarrow> candidate set \<Rightarrow> bool" where
  "apart env m C \<longleftrightarrow> (\<forall>c\<in>C. \<forall>q. m (key_of env c) = Some q \<longrightarrow> q = ca_path c) \<and>
     (\<forall>c\<in>C. \<forall>c'\<in>C. key_of env c = key_of env c' \<longrightarrow> ca_path c = ca_path c')"

lemma apartD:
  assumes "apart env m C" and "c \<in> C"
  shows "m (key_of env c) = Some q \<Longrightarrow> q = ca_path c"
    and "c' \<in> C \<Longrightarrow> key_of env c = key_of env c' \<Longrightarrow> ca_path c = ca_path c'"
  using assms unfolding apart_def by blast+

lemma apartI:
  assumes "\<And>c q. c \<in> C \<Longrightarrow> m (key_of env c) = Some q \<Longrightarrow> q = ca_path c"
    and "\<And>c c'. c \<in> C \<Longrightarrow> c' \<in> C \<Longrightarrow> key_of env c = key_of env c' \<Longrightarrow> ca_path c = ca_path c'"
  shows "apart env m C"
  unfolding apart_def using assms by blast

lemma apart_insert:
  "apart env m (insert c C) \<longleftrightarrow> (\<forall>q. m (key_of env c) = Some q \<longrightarrow> q = ca_path c) \<and>
     apart env (m(key_of env c \<mapsto> ca_path c)) C" (is "?L \<longleftrightarrow> ?R")
proof
  assume L: ?L
  have "q = ca_path c'" if "c' \<in> C" "(m(key_of env c \<mapsto> ca_path c)) (key_of env c') = Some q" for c' q
  proof (cases "key_of env c' = key_of env c")
    case True
    then have "ca_path c' = ca_path c" using apartD(2) [OF L, of c' c] that(1) by blast
    with True that(2) show ?thesis by simp
  next
    case False
    with that(2) have "m (key_of env c') = Some q" by simp
    then show ?thesis using apartD(1) [OF L, of c'] that(1) by blast
  qed
  then show ?R using apartD [OF L] by (intro conjI allI impI apartI) blast+
next
  assume R: ?R
  have same: "ca_path c = ca_path c'" if "c' \<in> C" "key_of env c' = key_of env c" for c'
    using apartD(1) [OF conjunct2 [OF R] that(1), of "ca_path c"] that(2) by simp
  have canonical: "q = ca_path c'" if "c' \<in> C" "m (key_of env c') = Some q" for c' q
  proof (cases "key_of env c' = key_of env c")
    case True
    with R that(2) have "q = ca_path c" by simp
    with same [OF that(1) True] show ?thesis by simp
  next
    case False
    with that(2) have "(m(key_of env c \<mapsto> ca_path c)) (key_of env c') = Some q" by simp
    then show ?thesis using apartD(1) [OF conjunct2 [OF R] that(1)] by blast
  qed
  have pair: "ca_path c1 = ca_path c2" if "c1 \<in> C" "c2 \<in> C" "key_of env c1 = key_of env c2" for c1 c2
    using apartD(2) [OF conjunct2 [OF R]] that by blast
  show ?L
  proof (rule apartI)
    fix c' q
    assume "c' \<in> insert c C" "m (key_of env c') = Some q"
    then show "q = ca_path c'" using R canonical by blast
  next
    fix c1 c2
    assume "c1 \<in> insert c C" "c2 \<in> insert c C" "key_of env c1 = key_of env c2"
    then show "ca_path c1 = ca_path c2" using same pair by (metis insertE)
  qed
qed

lemma snapshot_step_ok:
  "snapshot_step env doc c st = Inr st' \<longleftrightarrow>
     admissible env doc c \<and>
     (\<forall>q. map_of (st_canonicalPaths st) (key_of env c) = Some q \<longrightarrow> q = ca_path c) \<and>
     length (st_notes st) < MAX_MATERIALIZED_NOTES \<and>
     st_totalBytes st + utf8_length (text_of doc c) \<le> MAX_MATERIALIZED_GENERATION_BYTES \<and>
     st' = \<lparr>st_notes = st_notes st @ [note_of env doc c],
       st_canonicalPaths = AList.update (key_of env c) (ca_path c) (st_canonicalPaths st),
       st_totalBytes = st_totalBytes st + utf8_length (text_of doc c)\<rparr>"
proof (cases "validateMarkdownVaultPath (ne_paths env) (ca_path c)")
  case (Inl e)
  then show ?thesis by (simp add: snapshot_step_def admissible_def)
next
  case (Inr v)
  note v = validated_fields [OF Inr]
  show ?thesis
  proof (cases "\<exists>t. map_of (nd_idToText doc) (ca_fileId c) = Some (Some t)")
    case True
    then obtain t where t: "map_of (nd_idToText doc) (ca_fileId c) = Some (Some t)" by blast
    have canonical: "(case map_of (st_canonicalPaths st) (pe_lower (ne_paths env) (ca_path c)) of
        Some existing \<Rightarrow> existing \<noteq> ca_path c | None \<Rightarrow> False) \<longleftrightarrow>
        \<not> (\<forall>q. map_of (st_canonicalPaths st) (key_of env c) = Some q \<longrightarrow> q = ca_path c)"
      by (simp add: key_of_def split: option.split)
    show ?thesis
      unfolding snapshot_step_def Inr sum.case v canonical t option.case Let_def
      by (simp add: admissible_def text_of_def note_of_def key_of_def Inr t not_le eq_commute [of st'] conj_ac) blast
  next
    case False
    then have "(case map_of (nd_idToText doc) (ca_fileId c) of None \<Rightarrow> True | Some None \<Rightarrow> True | Some (Some _) \<Rightarrow> False)"
      by (auto split: option.split)
    with False show ?thesis by (auto simp: snapshot_step_def Inr admissible_def split: option.splits)
  qed
qed

definition bytes_of :: "note_doc \<Rightarrow> candidate list \<Rightarrow> nat" where
  "bytes_of doc cs = sum_list (List.map (\<lambda>c. utf8_length (text_of doc c)) cs)"

lemma snapshot_loop_ok:
  assumes "length (st_notes st) \<le> MAX_MATERIALIZED_NOTES" and "st_totalBytes st \<le> MAX_MATERIALIZED_GENERATION_BYTES"
  shows "snapshot_loop env doc cs st = Inr st' \<longleftrightarrow>
     list_all (admissible env doc) cs \<and> apart env (map_of (st_canonicalPaths st)) (set cs) \<and>
     length (st_notes st) + length cs \<le> MAX_MATERIALIZED_NOTES \<and>
     st_totalBytes st + bytes_of doc cs \<le> MAX_MATERIALIZED_GENERATION_BYTES \<and>
     st' = \<lparr>st_notes = st_notes st @ List.map (note_of env doc) cs,
       st_canonicalPaths = fold (\<lambda>c. AList.update (key_of env c) (ca_path c)) cs (st_canonicalPaths st),
       st_totalBytes = st_totalBytes st + bytes_of doc cs\<rparr>"
  using assms
proof (induction cs arbitrary: st)
  case Nil
  then show ?case by (auto simp: apart_def bytes_of_def)
next
  case (Cons c cs)
  let ?st = "\<lparr>st_notes = st_notes st @ [note_of env doc c],
       st_canonicalPaths = AList.update (key_of env c) (ca_path c) (st_canonicalPaths st),
       st_totalBytes = st_totalBytes st + utf8_length (text_of doc c)\<rparr>"
  have step: "snapshot_loop env doc (c # cs) st = Inr st' \<longleftrightarrow>
      snapshot_step env doc c st = Inr ?st \<and> snapshot_loop env doc cs ?st = Inr st'"
  proof (cases "snapshot_step env doc c st")
    case (Inr st1)
    then have "st1 = ?st" using snapshot_step_ok [of env doc c st st1] by blast
    with Inr show ?thesis by simp
  qed simp
  have map: "map_of (AList.update (key_of env c) (ca_path c) (st_canonicalPaths st)) =
      (map_of (st_canonicalPaths st))(key_of env c \<mapsto> ca_path c)"
    by (simp add: update_conv' fun_eq_iff)
  show ?case
  proof (cases "length (st_notes ?st) \<le> MAX_MATERIALIZED_NOTES \<and> st_totalBytes ?st \<le> MAX_MATERIALIZED_GENERATION_BYTES")
    case True
    then have ih: "snapshot_loop env doc cs ?st = Inr st' \<longleftrightarrow>
     list_all (admissible env doc) cs \<and> apart env (map_of (st_canonicalPaths ?st)) (set cs) \<and>
     length (st_notes ?st) + length cs \<le> MAX_MATERIALIZED_NOTES \<and>
     st_totalBytes ?st + bytes_of doc cs \<le> MAX_MATERIALIZED_GENERATION_BYTES \<and>
     st' = \<lparr>st_notes = st_notes ?st @ List.map (note_of env doc) cs,
       st_canonicalPaths = fold (\<lambda>c. AList.update (key_of env c) (ca_path c)) cs (st_canonicalPaths ?st),
       st_totalBytes = st_totalBytes ?st + bytes_of doc cs\<rparr>"
      by (intro Cons.IH) simp_all
    show ?thesis
    proof
      assume "snapshot_loop env doc (c # cs) st = Inr st'"
      then have run: "snapshot_step env doc c st = Inr ?st" "snapshot_loop env doc cs ?st = Inr st'"
        unfolding step by blast+
      from run(1) [unfolded snapshot_step_ok] run(2) [unfolded ih]
      show "list_all (admissible env doc) (c # cs) \<and> apart env (map_of (st_canonicalPaths st)) (set (c # cs)) \<and>
          length (st_notes st) + length (c # cs) \<le> MAX_MATERIALIZED_NOTES \<and>
          st_totalBytes st + bytes_of doc (c # cs) \<le> MAX_MATERIALIZED_GENERATION_BYTES \<and>
          st' = \<lparr>st_notes = st_notes st @ List.map (note_of env doc) (c # cs),
            st_canonicalPaths = fold (\<lambda>c. AList.update (key_of env c) (ca_path c)) (c # cs) (st_canonicalPaths st),
            st_totalBytes = st_totalBytes st + bytes_of doc (c # cs)\<rparr>"
        by (simp add: apart_insert map bytes_of_def)
    next
      assume "list_all (admissible env doc) (c # cs) \<and> apart env (map_of (st_canonicalPaths st)) (set (c # cs)) \<and>
          length (st_notes st) + length (c # cs) \<le> MAX_MATERIALIZED_NOTES \<and>
          st_totalBytes st + bytes_of doc (c # cs) \<le> MAX_MATERIALIZED_GENERATION_BYTES \<and>
          st' = \<lparr>st_notes = st_notes st @ List.map (note_of env doc) (c # cs),
            st_canonicalPaths = fold (\<lambda>c. AList.update (key_of env c) (ca_path c)) (c # cs) (st_canonicalPaths st),
            st_totalBytes = st_totalBytes st + bytes_of doc (c # cs)\<rparr>"
      then show "snapshot_loop env doc (c # cs) st = Inr st'"
        unfolding step ih snapshot_step_ok by (simp add: apart_insert map bytes_of_def)
    qed
  next
    case False
    then show ?thesis unfolding step by (auto simp: snapshot_step_ok bytes_of_def)
  qed
qed

text \<open>What a snapshot of the winners needs, and what it then is.\<close>

definition snapshot_fits :: "note_env \<Rightarrow> note_doc \<Rightarrow> bool" where
  "snapshot_fits env doc \<longleftrightarrow> (\<forall>c\<in>winners (nd_meta doc). admissible env doc c) \<and>
     apart env Map.empty (winners (nd_meta doc)) \<and> card (winners (nd_meta doc)) \<le> MAX_MATERIALIZED_NOTES \<and>
     (\<Sum>c\<in>winners (nd_meta doc). utf8_length (text_of doc c)) \<le> MAX_MATERIALIZED_GENERATION_BYTES"

lemma extract_ok:
  assumes "supported_schema (nd_schemaVersion doc) = Some s" and "2 \<le> s" and "distinct (List.map fst (nd_meta doc))"
  shows "(\<exists>snap. extractMaterializedSnapshot env doc = Inr snap) \<longleftrightarrow> readable (nd_meta doc) \<and> snapshot_fits env doc"
    and "extractMaterializedSnapshot env doc = Inr snap \<Longrightarrow>
      set (ns_notes snap) = note_of env doc ` winners (nd_meta doc) \<and>
      length (ns_notes snap) = card (winners (nd_meta doc)) \<and>
      ns_totalBytes snap = (\<Sum>c\<in>winners (nd_meta doc). utf8_length (text_of doc c))"
proof -
  let ?init = "\<lparr>st_notes = [], st_canonicalPaths = [], st_totalBytes = 0\<rparr>"
  have init: "length (st_notes ?init) \<le> MAX_MATERIALIZED_NOTES" "st_totalBytes ?init \<le> MAX_MATERIALIZED_GENERATION_BYTES"
    by simp_all
  consider (bad) "activeCandidates doc s = Inl MsSnapshotInvalid" "\<not> readable (nd_meta doc)"
    | (good) cs where "activeCandidates doc s = Inr cs" "readable (nd_meta doc)" "set cs = winners (nd_meta doc)"
      "distinct (List.map ca_path cs)"
    using activeCandidates_winners [OF assms(2,3)] by (auto split: sum.splits)
  note candidates = this
  have both: "((\<exists>snap. extractMaterializedSnapshot env doc = Inr snap) \<longleftrightarrow> readable (nd_meta doc) \<and> snapshot_fits env doc) \<and>
    (\<forall>snap. extractMaterializedSnapshot env doc = Inr snap \<longrightarrow>
      set (ns_notes snap) = note_of env doc ` winners (nd_meta doc) \<and>
      length (ns_notes snap) = card (winners (nd_meta doc)) \<and>
      ns_totalBytes snap = (\<Sum>c\<in>winners (nd_meta doc). utf8_length (text_of doc c)))"
  proof (cases rule: candidates)
    case bad
    then show ?thesis by (simp add: extractMaterializedSnapshot_def assms(1))
  next
    case (good cs)
    then have "distinct cs" by (simp add: distinct_map)
    with good(3) have sum: "bytes_of doc cs = (\<Sum>c\<in>winners (nd_meta doc). utf8_length (text_of doc c))"
      and card: "length cs = card (winners (nd_meta doc))"
      by (simp_all add: bytes_of_def sum_list_distinct_conv_sum_set distinct_card flip: good(3))
    have fits: "snapshot_fits env doc \<longleftrightarrow> list_all (admissible env doc) cs \<and> apart env Map.empty (set cs) \<and>
        length cs \<le> MAX_MATERIALIZED_NOTES \<and> bytes_of doc cs \<le> MAX_MATERIALIZED_GENERATION_BYTES"
      by (simp add: snapshot_fits_def sum card good(3) list_all_iff)
    note loop = snapshot_loop_ok [OF init, of env doc cs]
    have runs: "(\<exists>st'. snapshot_loop env doc cs ?init = Inr st') \<longleftrightarrow> snapshot_fits env doc"
      unfolding loop fits by simp
    have result: "st_notes st' = List.map (note_of env doc) cs \<and> st_totalBytes st' = bytes_of doc cs"
      if "snapshot_loop env doc cs ?init = Inr st'" for st'
      using that unfolding loop by simp
    show ?thesis
    proof (cases "snapshot_loop env doc cs ?init")
      case (Inl e)
      with runs good(1) show ?thesis by (simp add: extractMaterializedSnapshot_def assms(1))
    next
      case (Inr st')
      with runs good(1,2) result [OF Inr] sum card good(3) show ?thesis
        by (simp add: extractMaterializedSnapshot_def assms(1) image_set [symmetric] del: image_set)
    qed
  qed
  then show "(\<exists>snap. extractMaterializedSnapshot env doc = Inr snap) \<longleftrightarrow> readable (nd_meta doc) \<and> snapshot_fits env doc"
    and "extractMaterializedSnapshot env doc = Inr snap \<Longrightarrow>
      set (ns_notes snap) = note_of env doc ` winners (nd_meta doc) \<and>
      length (ns_notes snap) = card (winners (nd_meta doc)) \<and>
      ns_totalBytes snap = (\<Sum>c\<in>winners (nd_meta doc). utf8_length (text_of doc c))"
    by blast+
qed

end
