(* ===== verification/NoteProps.thy ===== *)
theory NoteProps
  imports NoteSpec
begin

text \<open>
  The properties of the notes of a vault: a snapshot has exactly the newest live entry of every path, and
  writing and restoring a note implement an update of the map from path keys to paths and contents.
\<close>

section \<open>Documents\<close>

text \<open>A document of schema 2 or later; a map has each key once.\<close>

definition note_doc_ok :: "note_doc \<Rightarrow> bool" where
  "note_doc_ok doc \<longleftrightarrow> (case supported_schema (nd_schemaVersion doc) of Some s \<Rightarrow> 2 \<le> s | None \<Rightarrow> False) \<and>
     distinct (List.map fst (nd_meta doc))"

lemma doc_okE:
  assumes "note_doc_ok doc"
  obtains s where "supported_schema (nd_schemaVersion doc) = Some s" "2 \<le> s" "distinct (List.map fst (nd_meta doc))"
  using assms by (auto simp: note_doc_ok_def split: option.splits)

lemma extracted:
  assumes "note_doc_ok doc" and "extractMaterializedSnapshot env doc = Inr snap"
  shows "set (ns_notes snap) = note_of env doc ` winners (nd_meta doc)"
    and "length (ns_notes snap) = card (winners (nd_meta doc))"
    and "ns_totalBytes snap = (\<Sum>c\<in>winners (nd_meta doc). utf8_length (text_of doc c))"
    and "readable (nd_meta doc)" and "snapshot_fits env doc"
proof -
  obtain s where s: "supported_schema (nd_schemaVersion doc) = Some s" "2 \<le> s" "distinct (List.map fst (nd_meta doc))"
    using assms(1) by (rule doc_okE)
  from extract_ok(2) [OF s assms(2)]
  show "set (ns_notes snap) = note_of env doc ` winners (nd_meta doc)"
    and "length (ns_notes snap) = card (winners (nd_meta doc))"
    and "ns_totalBytes snap = (\<Sum>c\<in>winners (nd_meta doc). utf8_length (text_of doc c))" by blast+
  show "readable (nd_meta doc)" "snapshot_fits env doc" using extract_ok(1) [OF s, of env] assms(2) by blast+
qed

lemma extractI:
  assumes "note_doc_ok doc" and "readable (nd_meta doc)" and "snapshot_fits env doc"
  obtains snap where "extractMaterializedSnapshot env doc = Inr snap"
proof -
  obtain s where s: "supported_schema (nd_schemaVersion doc) = Some s" "2 \<le> s" "distinct (List.map fst (nd_meta doc))"
    using assms(1) by (rule doc_okE)
  from extract_ok(1) [OF s, of env] assms(2,3) that show ?thesis by blast
qed

lemma finite_winners: "finite (winners m)"
proof -
  have "winners m \<subseteq> live_entries m" by (auto simp: winners_def newest_iff)
  moreover have "live_entries m \<subseteq> (\<lambda>(f, v). meta_candidate f (the (decodeFileMeta v))) ` set m"
    by (force simp: live_entries_def)
  ultimately show ?thesis by (meson finite_imageI finite_set finite_subset)
qed

lemma winners_key:
  assumes "snapshot_fits env doc" and "c \<in> winners (nd_meta doc)" and "c' \<in> winners (nd_meta doc)"
    and "key_of env c = key_of env c'"
  shows "c = c'"
proof -
  have "ca_path c = ca_path c'"
    using assms apartD(2) [of env Map.empty "winners (nd_meta doc)" c c'] by (simp add: snapshot_fits_def)
  with assms(2,3) show ?thesis by (auto simp: winners_def dest: newest_unique)
qed

section \<open>What a snapshot is\<close>

text \<open>
  C7. A snapshot of a document has for each path of a live metadata entry the newest of its entries, by
  modification time and then by file id, with the text of that entry, and nothing else; no two of its
  notes have paths that differ in case only; and it is within the three ceilings.
\<close>

theorem snapshot_exact:
  assumes "note_doc_ok doc" and "extractMaterializedSnapshot env doc = Inr snap"
  shows "(\<lambda>n. (sn_path n, sn_fileId n, sn_modifiedAt n, sn_content n)) ` set (ns_notes snap) =
      {(ca_path c, ca_fileId c, ca_modifiedAt c, text_of doc c) | c. newest (live_entries (nd_meta doc)) c} \<and>
    distinct (List.map sn_pathKey (ns_notes snap)) \<and> length (ns_notes snap) \<le> 2000 \<and>
    (\<forall>n\<in>set (ns_notes snap). sn_pathKey n = pe_lower (ne_paths env) (sn_path n) \<and>
       utf8_length (sn_content n) \<le> 1024 * 1024) \<and>
    sum_list (List.map (\<lambda>n. utf8_length (sn_content n)) (ns_notes snap)) \<le> 32 * 1024 * 1024"
proof -
  note ex = extracted [OF assms]
  let ?W = "winners (nd_meta doc)"
  have inj: "inj_on (key_of env) ?W" using winners_key [OF ex(5)] by (auto intro: inj_onI)
  have "sn_pathKey ` set (ns_notes snap) = key_of env ` ?W" unfolding ex(1) by (force simp: note_of_def)
  then have "card (set (List.map sn_pathKey (ns_notes snap))) = length (List.map sn_pathKey (ns_notes snap))"
    using card_image [OF inj] ex(2) by simp
  then have distinct: "distinct (List.map sn_pathKey (ns_notes snap))" by (rule card_distinct)
  then have "distinct (ns_notes snap)" by (simp add: distinct_map)
  then have "sum_list (List.map (\<lambda>n. utf8_length (sn_content n)) (ns_notes snap)) =
      (\<Sum>n\<in>note_of env doc ` ?W. utf8_length (sn_content n))"
    by (simp add: sum_list_distinct_conv_sum_set ex(1))
  also have "\<dots> = (\<Sum>c\<in>?W. utf8_length (text_of doc c))"
  proof (subst sum.reindex)
    show "inj_on (note_of env doc) ?W" by (rule inj_onI) (auto simp: note_of_def intro: inj_onD [OF inj])
  qed (simp add: note_of_def)
  finally have total: "sum_list (List.map (\<lambda>n. utf8_length (sn_content n)) (ns_notes snap)) =
      (\<Sum>c\<in>?W. utf8_length (text_of doc c))" .
  have "(\<lambda>n. (sn_path n, sn_fileId n, sn_modifiedAt n, sn_content n)) ` set (ns_notes snap) =
      {(ca_path c, ca_fileId c, ca_modifiedAt c, text_of doc c) | c. newest (live_entries (nd_meta doc)) c}"
    unfolding ex(1) by (force simp: note_of_def winners_def)
  moreover have "\<forall>n\<in>set (ns_notes snap). sn_pathKey n = pe_lower (ne_paths env) (sn_path n) \<and>
       utf8_length (sn_content n) \<le> 1024 * 1024"
    using ex(5) unfolding ex(1)
    by (auto simp: note_of_def key_of_def snapshot_fits_def admissible_def MAX_MATERIALIZED_NOTE_BYTES_def)
  ultimately show ?thesis
    using distinct ex(2,5) by (simp add: total snapshot_fits_def MAX_MATERIALIZED_NOTES_def MAX_MATERIALIZED_GENERATION_BYTES_def)
qed


section \<open>Metadata that is written\<close>

lemma live_map:
  assumes "distinct (List.map fst m)"
  shows "c \<in> live_entries m \<longleftrightarrow> (\<exists>v d. map_of m (ca_fileId c) = Some v \<and> decodeFileMeta v = Some d \<and>
    \<not> is_tombstone d \<and> c = meta_candidate (ca_fileId c) d)"
  unfolding live_entries_def using map_of_eq_Some_iff [OF assms] by (force simp: meta_candidate_def)

lemma readable_map:
  assumes "distinct (List.map fst m)"
  shows "readable m \<longleftrightarrow> (\<forall>f v. map_of m f = Some v \<longrightarrow> decodeFileMeta v \<noteq> None)"
  using map_of_eq_Some_iff [OF assms] assms by (auto simp: readable_def list_all_iff)

text \<open>\<open>m'\<close> is \<open>m\<close> with the entry \<open>f\<close> replaced by one that decodes to \<open>d\<close>.\<close>

definition entry_written :: "jsstr \<Rightarrow> decoded_meta \<Rightarrow> meta_map \<Rightarrow> meta_map \<Rightarrow> bool" where
  "entry_written f d m m' \<longleftrightarrow> distinct (List.map fst m') \<and>
     (\<exists>v. decodeFileMeta v = Some d \<and> map_of m' = (map_of m)(f \<mapsto> v))"

lemma written_readable:
  assumes "readable m" and "entry_written f d m m'"
  shows "readable m'"
proof -
  have distinct: "distinct (List.map fst m)" "distinct (List.map fst m')"
    using assms by (simp_all add: readable_def entry_written_def)
  obtain v where v: "decodeFileMeta v = Some d" "map_of m' = (map_of m)(f \<mapsto> v)"
    using assms(2) by (auto simp: entry_written_def)
  have old: "\<forall>f v. map_of m f = Some v \<longrightarrow> decodeFileMeta v \<noteq> None"
    using assms(1) by (simp only: readable_map [OF distinct(1)])
  show ?thesis unfolding readable_map [OF distinct(2)] using old v by simp
qed

lemma written_live:
  assumes "readable m" and "entry_written f d m m'" and "\<not> is_tombstone d"
  shows "live_entries m' = insert (meta_candidate f d) {c\<in>live_entries m. ca_fileId c \<noteq> f}"
proof -
  have distinct: "distinct (List.map fst m)" "distinct (List.map fst m')"
    using assms(1,2) by (simp_all add: readable_def entry_written_def)
  obtain v where v: "decodeFileMeta v = Some d" "map_of m' = (map_of m)(f \<mapsto> v)"
    using assms(2) by (auto simp: entry_written_def)
  have "c \<in> live_entries m' \<longleftrightarrow> c \<in> insert (meta_candidate f d) {c\<in>live_entries m. ca_fileId c \<noteq> f}" for c
  proof (cases "ca_fileId c = f")
    case True
    then show ?thesis using v assms(3) by (auto simp: live_map [OF distinct(2)])
  next
    case False
    then have "c \<noteq> meta_candidate f d" by (auto simp: meta_candidate_def)
    with False v show ?thesis by (simp add: live_map [OF distinct(2)] live_map [OF distinct(1)])
  qed
  then show ?thesis by blast
qed

lemma decode_touched:
  assumes "path \<noteq> []"
  shows "decodeFileMeta (touched_entry path now device (JYMap ps)) = Some \<lparr>dm_shape = NestedShape, dm_path = path,
     dm_deletedAt = None, dm_deleted = False, dm_mtime = Some now, dm_device = Some device\<rparr>"
  using assms
  by (simp add: touched_entry_def ymap_set_def ymap_delete_def decodeFileMeta_def meta_fields_def decode_fields_def
      ymap_get_def update_conv' delete_conv' path_value_def finite_value_def text_value_def)

lemma ensured_entry:
  "\<exists>ps m1. ensureNestedMetaEntry clock m f (Some d) = (Some (JYMap ps), m1) \<and> (m1 = m \<or> (\<exists>e. m1 = AList.update f e m))"
proof (cases "isNestedFileMeta (meta_get m f)")
  case True
  then obtain ps where "meta_get m f = JYMap ps" by (cases "meta_get m f") (simp_all add: isNestedFileMeta_def)
  then show ?thesis by (simp add: ensureNestedMetaEntry_def isNestedFileMeta_def)
next
  case False
  then show ?thesis
    by (cases "decodeFileMeta (meta_get m f)") (auto simp: ensureNestedMetaEntry_def createNestedMetaFromDecoded_def Let_def)
qed

lemma updateMetadata_written:
  assumes "path \<noteq> []" and "distinct (List.map fst m)"
  shows "\<exists>m'. updateMetadata clock m f path now device = (Inr (), m') \<and>
    entry_written f \<lparr>dm_shape = NestedShape, dm_path = path, dm_deletedAt = None, dm_deleted = False,
      dm_mtime = Some now, dm_device = Some device\<rparr> m m'"
proof -
  let ?fallback = "Some \<lparr>dm_shape = FlatShape, dm_path = path, dm_deletedAt = None, dm_deleted = False, dm_mtime = Some now,
      dm_device = Some device\<rparr>"
  obtain ps m1 where ensured: "ensureNestedMetaEntry clock m f ?fallback = (Some (JYMap ps), m1)"
    "m1 = m \<or> (\<exists>e. m1 = AList.update f e m)"
    using ensured_entry [of clock m f "the ?fallback"] by auto
  then have "distinct (List.map fst m1)" "\<And>g. g \<noteq> f \<Longrightarrow> map_of m1 g = map_of m g"
    using assms(2) by (auto simp: distinct_update update_conv')
  then have "map_of (AList.update f (touched_entry path now device (JYMap ps)) m1) =
      (map_of m)(f \<mapsto> touched_entry path now device (JYMap ps))"
    by (auto simp: update_conv' fun_eq_iff)
  with ensured(1) \<open>distinct (List.map fst m1)\<close> decode_touched [OF assms(1), of now device ps] show ?thesis
    by (auto simp: updateMetadata_def entry_written_def distinct_update)
qed

lemma insert_written:
  assumes "path \<noteq> []" and "device \<noteq> []" and "distinct (List.map fst m)"
  shows "entry_written f \<lparr>dm_shape = NestedShape, dm_path = path, dm_deletedAt = None, dm_deleted = False,
      dm_mtime = Some now, dm_device = Some device\<rparr> m
    (AList.update f (createNestedActiveMeta path (Fin now) (Some device)) m)"
  using assms
  by (auto simp: entry_written_def distinct_update update_conv' createNestedActiveMeta_def decodeFileMeta_def
      meta_fields_def decode_fields_def ymap_get_def path_value_def finite_value_def text_value_def
      intro!: exI [of _ "createNestedActiveMeta path (Fin now) (Some device)"])


lemma live_unique:
  assumes "readable m" and "c \<in> live_entries m" and "c' \<in> live_entries m" and "ca_fileId c = ca_fileId c'"
  shows "c = c'"
proof -
  have distinct: "distinct (List.map fst m)" using assms(1) by (simp add: readable_def)
  from assms(2-4) show ?thesis unfolding live_map [OF distinct] by auto
qed

lemma winners_created:
  assumes "readable m" and "entry_written f d m m'" and "\<not> is_tombstone d"
    and "\<forall>c\<in>live_entries m. ca_path c \<noteq> dm_path d \<and> ca_fileId c \<noteq> f"
  shows "winners m' = insert (meta_candidate f d) (winners m)"
proof -
  have "live_entries m' = insert (meta_candidate f d) (live_entries m)"
    using written_live [OF assms(1-3)] assms(4) by blast
  moreover have "ca_path (meta_candidate f d) = dm_path d" by (simp add: meta_candidate_def)
  ultimately show ?thesis using assms(4) by (auto simp: winners_def newest_iff)
qed

lemma winners_updated:
  assumes "readable m" and "entry_written f d m m'" and "\<not> is_tombstone d"
    and "w \<in> winners m" and "ca_fileId w = f" and "ca_path w = dm_path d"
    and "\<forall>c\<in>live_entries m. ca_path c = dm_path d \<and> ca_fileId c \<noteq> f \<longrightarrow> candidateIsNewer (meta_candidate f d) c"
  shows "winners m' = insert (meta_candidate f d) (winners m - {w})"
proof -
  let ?n = "meta_candidate f d"
  have n: "ca_path ?n = dm_path d" "ca_fileId ?n = f" by (simp_all add: meta_candidate_def)
  have w: "w \<in> live_entries m" using assms(4) by (simp add: winners_def newest_iff)
  have only: "ca_fileId c \<noteq> f \<longleftrightarrow> c \<noteq> w" if "c \<in> live_entries m" for c
    using live_unique [OF assms(1) that w] assms(5) by auto
  have live: "live_entries m' = insert ?n (live_entries m - {w})"
    using written_live [OF assms(1-3)] only by blast
  have top: "newest (live_entries m') ?n" using assms(7) only n unfolding live newest_iff by auto
  have other: "newest (live_entries m') c \<longleftrightarrow> c \<in> winners m \<and> c \<noteq> w" if "ca_path c \<noteq> dm_path d" for c
    using that n assms(6) unfolding live by (auto simp: winners_def newest_iff)
  have old: "c = w" if "c \<in> winners m" "ca_path c = dm_path d" for c
    using that assms(4,6) by (intro newest_unique [of "live_entries m"]) (simp_all add: winners_def)
  have new: "c = ?n" if "newest (live_entries m') c" "ca_path c = dm_path d" for c
    using newest_unique [OF that(1) top] that(2) n by simp
  have "c \<in> winners m' \<longleftrightarrow> c \<in> insert ?n (winners m - {w})" for c
  proof (cases "ca_path c = dm_path d")
    case True
    then show ?thesis using top new old by (auto simp: winners_def)
  next
    case False
    then have "c \<noteq> ?n" using n by auto
    with other [OF False] show ?thesis by (simp add: winners_def)
  qed
  then show ?thesis by blast
qed

section \<open>The notes as a map\<close>

definition notes_of :: "note_snapshot \<Rightarrow> jsstr \<Rightarrow> (jsstr \<times> jsstr) option" where
  "notes_of snap = map_of (List.map (\<lambda>n. (sn_pathKey n, (sn_path n, sn_content n))) (ns_notes snap))"

lemma notes_of_winner:
  assumes "note_doc_ok doc" and "extractMaterializedSnapshot env doc = Inr snap"
  shows "notes_of snap k = Some (p, t) \<longleftrightarrow>
    (\<exists>c\<in>winners (nd_meta doc). key_of env c = k \<and> ca_path c = p \<and> text_of doc c = t)"
proof -
  note ex = extracted [OF assms]
  have "distinct (List.map sn_pathKey (ns_notes snap))" using snapshot_exact [OF assms] by blast
  then have "distinct (List.map fst (List.map (\<lambda>n. (sn_pathKey n, (sn_path n, sn_content n))) (ns_notes snap)))"
    by (simp add: comp_def)
  then have "notes_of snap k = Some (p, t) \<longleftrightarrow>
      (k, (p, t)) \<in> (\<lambda>n. (sn_pathKey n, (sn_path n, sn_content n))) ` set (ns_notes snap)"
    by (simp add: notes_of_def map_of_eq_Some_iff)
  then show ?thesis unfolding ex(1) by (force simp: note_of_def)
qed

lemma replaced_snapshot:
  assumes "note_doc_ok doc" and "extractMaterializedSnapshot env doc = Inr snap"
    and "note_doc_ok doc'" and "readable (nd_meta doc')"
    and W: "winners (nd_meta doc') = insert c0 (winners (nd_meta doc) - R)"
    and texts: "\<forall>c\<in>winners (nd_meta doc) - R. map_of (nd_idToText doc') (ca_fileId c) = map_of (nd_idToText doc) (ca_fileId c)"
    and adm: "admissible env doc' c0"
    and keys: "\<forall>c\<in>winners (nd_meta doc). key_of env c = key_of env c0 \<longleftrightarrow> c \<in> R"
    and card: "card (winners (nd_meta doc) - R) < MAX_MATERIALIZED_NOTES"
    and bytes: "(\<Sum>c\<in>winners (nd_meta doc) - R. utf8_length (text_of doc c)) + utf8_length (text_of doc' c0)
      \<le> MAX_MATERIALIZED_GENERATION_BYTES"
  shows "\<exists>snap'. extractMaterializedSnapshot env doc' = Inr snap' \<and>
    notes_of snap' = (notes_of snap)(key_of env c0 \<mapsto> (ca_path c0, text_of doc' c0))"
proof -
  note ex = extracted [OF assms(1,2)]
  let ?rest = "winners (nd_meta doc) - R"
  have finite: "finite ?rest" using finite_winners by simp
  have content: "text_of doc' c = text_of doc c" if "c \<in> ?rest" for c using texts that by (simp add: text_of_def)
  have new: "c0 \<notin> ?rest" using keys by auto
  have "admissible env doc' c" if "c \<in> ?rest" for c
    using ex(5) texts that content [OF that] by (simp add: snapshot_fits_def admissible_def)
  moreover have "apart env Map.empty (insert c0 ?rest)"
  proof (rule apartI)
    fix c c'
    assume "c \<in> insert c0 ?rest" "c' \<in> insert c0 ?rest" "key_of env c = key_of env c'"
    then show "ca_path c = ca_path c'"
      using keys winners_key [OF ex(5), of c c'] by (metis DiffE insertE)
  qed simp
  moreover have "(\<Sum>c\<in>?rest. utf8_length (text_of doc' c)) = (\<Sum>c\<in>?rest. utf8_length (text_of doc c))"
    using content by simp
  ultimately have "snapshot_fits env doc'"
    using adm card bytes finite new by (simp add: snapshot_fits_def W)
  from extractI [OF assms(3,4) this] obtain snap' where snap': "extractMaterializedSnapshot env doc' = Inr snap'" .
  have "notes_of snap' k = ((notes_of snap)(key_of env c0 \<mapsto> (ca_path c0, text_of doc' c0))) k" for k
  proof (cases "k = key_of env c0")
    case True
    then have "notes_of snap' k = Some (ca_path c0, text_of doc' c0)"
      by (simp add: notes_of_winner [OF assms(3) snap'] W)
    with True show ?thesis by simp
  next
    case False
    have "notes_of snap' k = Some (p, t) \<longleftrightarrow> notes_of snap k = Some (p, t)" for p t
      unfolding notes_of_winner [OF assms(3) snap'] notes_of_winner [OF assms(1,2)] W
      using False keys content by (metis DiffD1 DiffI insertE insertI2)
    then have "notes_of snap' k = notes_of snap k" by (metis option.exhaust surj_pair)
    with False show ?thesis by simp
  qed
  with snap' show ?thesis by blast
qed


section \<open>Creating and replacing a note\<close>

lemma found_note:
  assumes "note_doc_ok doc" and "extractMaterializedSnapshot env doc = Inr snap"
  shows "find_note key snap = Some n \<Longrightarrow> \<exists>c\<in>winners (nd_meta doc). n = note_of env doc c \<and> key_of env c = key"
    and "find_note key snap = None \<Longrightarrow> \<forall>c\<in>winners (nd_meta doc). key_of env c \<noteq> key"
proof -
  note all = extracted(1) [OF assms]
  assume "find_note key snap = Some n"
  then have "n \<in> set (ns_notes snap)" "sn_pathKey n = key"
    by (auto simp: find_note_def find_Some_iff)
  then show "\<exists>c\<in>winners (nd_meta doc). n = note_of env doc c \<and> key_of env c = key"
    unfolding all by (force simp: note_of_def)
next
  note all = extracted(1) [OF assms]
  assume "find_note key snap = None"
  then have "\<forall>n\<in>set (ns_notes snap). sn_pathKey n \<noteq> key" by (auto simp: find_note_def find_None_iff)
  then show "\<forall>c\<in>winners (nd_meta doc). key_of env c \<noteq> key" unfolding all by (simp add: note_of_def)
qed

lemma bounds_None:
  assumes "ensureGenerationBounds snap before after creating = None" and "before \<le> ns_totalBytes snap"
  shows "after \<le> MAX_MATERIALIZED_NOTE_BYTES" and "creating \<Longrightarrow> length (ns_notes snap) < MAX_MATERIALIZED_NOTES"
    and "ns_totalBytes snap - before + after \<le> MAX_MATERIALIZED_GENERATION_BYTES"
  using assms by (auto simp: ensureGenerationBounds_def split: if_splits)

lemma accepted_nonempty: "validateMarkdownVaultPath pe p = Inr v \<Longrightarrow> p \<noteq> []"
  by (auto simp: validateMarkdownVaultPath_def)

lemma insert_note_refines:
  assumes ok: "note_doc_ok doc" and snap: "extractMaterializedSnapshot env doc = Inr snap"
    and path: "validateMarkdownVaultPath (ne_paths env) path = Inr v" and "device \<noteq> []"
    and none: "find_note (pe_lower (ne_paths env) path) snap = None"
    and bounds: "ensureGenerationBounds snap 0 (utf8_length content) True = None"
    and fresh: "f \<notin> fst ` set (nd_meta doc)"
  shows "\<exists>snap'. extractMaterializedSnapshot env (insert_note f path content now device doc) = Inr snap' \<and>
    notes_of snap' = (notes_of snap)(pe_lower (ne_paths env) path \<mapsto> (path, content))"
proof -
  note ex = extracted [OF ok snap]
  let ?doc = "insert_note f path content now device doc"
  let ?d = "\<lparr>dm_shape = NestedShape, dm_path = path, dm_deletedAt = None, dm_deleted = False,
      dm_mtime = Some now, dm_device = Some device\<rparr>"
  have distinct: "distinct (List.map fst (nd_meta doc))" using ex(4) by (simp add: readable_def)
  have written: "entry_written f ?d (nd_meta doc) (nd_meta ?doc)"
    using insert_written [OF accepted_nonempty [OF path] assms(4) distinct] by (simp add: insert_note_def)
  have ok': "note_doc_ok ?doc" using ok written by (simp add: note_doc_ok_def entry_written_def insert_note_def)
  have apart: "ca_path c \<noteq> path \<and> ca_fileId c \<noteq> f" if "c \<in> live_entries (nd_meta doc)" for c
  proof -
    from live_has_winner [OF ex(4) that] obtain w where "w \<in> winners (nd_meta doc)" "ca_path w = ca_path c" by blast
    with found_note(2) [OF ok snap none] have "ca_path c \<noteq> path" by (auto simp: key_of_def)
    with live_id [OF that] fresh show ?thesis by metis
  qed
  have W: "winners (nd_meta ?doc) = insert (meta_candidate f ?d) (winners (nd_meta doc) - {})"
    using winners_created [OF ex(4) written] apart by (simp add: is_tombstone_def)
  have n: "ca_path (meta_candidate f ?d) = path" "ca_fileId (meta_candidate f ?d) = f" by (simp_all add: meta_candidate_def)
  then have content: "text_of ?doc (meta_candidate f ?d) = content" by (simp add: text_of_def insert_note_def update_conv')
  have texts: "\<forall>c\<in>winners (nd_meta doc) - {}. map_of (nd_idToText ?doc) (ca_fileId c) = map_of (nd_idToText doc) (ca_fileId c)"
    using apart by (simp add: insert_note_def update_conv' winners_def newest_iff)
  note fits = bounds_None [OF bounds, simplified]
  have adm: "admissible env ?doc (meta_candidate f ?d)"
    using path fits(1) by (simp add: admissible_def content n) (simp add: insert_note_def update_conv')
  have keys: "\<forall>c\<in>winners (nd_meta doc). key_of env c = key_of env (meta_candidate f ?d) \<longleftrightarrow> c \<in> {}"
    using found_note(2) [OF ok snap none] n by (simp add: key_of_def)
  from replaced_snapshot [OF ok snap ok' written_readable [OF ex(4) written] W texts adm keys] fits ex(2,3)
  show ?thesis by (simp add: content n key_of_def)
qed

lemma replace_note_refines:
  assumes ok: "note_doc_ok doc" and snap: "extractMaterializedSnapshot env doc = Inr snap"
    and found: "find_note key snap = Some n"
    and bounds: "ensureGenerationBounds snap (sn_byteLength n) (utf8_length content) False = None"
    and dated: "\<forall>c\<in>live_entries (nd_meta doc). ca_path c = sn_path n \<and> ca_fileId c \<noteq> sn_fileId n \<longrightarrow> mtime_or_zero c < now"
  shows "\<exists>doc' snap'. replace_note clock (sn_fileId n) (sn_path n) content now device doc = (Inr (), doc') \<and>
    extractMaterializedSnapshot env doc' = Inr snap' \<and> notes_of snap' = (notes_of snap)(key \<mapsto> (sn_path n, content))"
proof -
  note ex = extracted [OF ok snap]
  obtain w where w: "w \<in> winners (nd_meta doc)" "n = note_of env doc w" "key_of env w = key"
    using found_note(1) [OF ok snap found] by blast
  have note_fields: "sn_path n = ca_path w" "sn_fileId n = ca_fileId w" "sn_byteLength n = utf8_length (text_of doc w)"
    by (simp_all add: w(2) note_of_def)
  obtain v where path: "validateMarkdownVaultPath (ne_paths env) (ca_path w) = Inr v"
    using ex(5) w(1) by (auto simp: snapshot_fits_def admissible_def)
  let ?d = "\<lparr>dm_shape = NestedShape, dm_path = ca_path w, dm_deletedAt = None, dm_deleted = False,
      dm_mtime = Some now, dm_device = Some device\<rparr>"
  let ?c = "meta_candidate (ca_fileId w) ?d"
  have distinct: "distinct (List.map fst (nd_meta doc))" using ex(4) by (simp add: readable_def)
  obtain m where m: "updateMetadata clock (nd_meta doc) (ca_fileId w) (ca_path w) now device = (Inr (), m)"
    "entry_written (ca_fileId w) ?d (nd_meta doc) m"
    using updateMetadata_written [OF accepted_nonempty [OF path] distinct] by blast
  let ?doc = "doc\<lparr>nd_idToText := AList.update (ca_fileId w) (Some content) (nd_idToText doc), nd_meta := m\<rparr>"
  have run: "replace_note clock (sn_fileId n) (sn_path n) content now device doc = (Inr (), ?doc)"
    by (simp add: replace_note_def note_fields m(1))
  have ok': "note_doc_ok ?doc" using ok m(2) by (simp add: note_doc_ok_def entry_written_def)
  have c: "ca_path ?c = ca_path w" "ca_fileId ?c = ca_fileId w" by (simp_all add: meta_candidate_def)
  have newer: "candidateIsNewer ?c x" if "mtime_or_zero x < now" for x
    using that by (auto simp: candidateIsNewer_def meta_candidate_def mtime_or_zero_def)
  have W: "winners (nd_meta ?doc) = insert ?c (winners (nd_meta doc) - {w})"
    using winners_updated [OF ex(4) m(2) _ w(1)] dated newer by (simp add: is_tombstone_def note_fields)
  have content: "text_of ?doc ?c = content" by (simp add: text_of_def update_conv' c)
  have texts: "\<forall>x\<in>winners (nd_meta doc) - {w}. map_of (nd_idToText ?doc) (ca_fileId x) = map_of (nd_idToText doc) (ca_fileId x)"
  proof
    fix x
    assume x: "x \<in> winners (nd_meta doc) - {w}"
    then have "ca_fileId x \<noteq> ca_fileId w"
      using live_unique [OF ex(4), of x w] w(1) by (auto simp: winners_def newest_iff)
    then show "map_of (nd_idToText ?doc) (ca_fileId x) = map_of (nd_idToText doc) (ca_fileId x)" by (simp add: update_conv')
  qed
  have total: "(\<Sum>c\<in>winners (nd_meta doc). utf8_length (text_of doc c)) =
      utf8_length (text_of doc w) + (\<Sum>c\<in>winners (nd_meta doc) - {w}. utf8_length (text_of doc c))"
    by (rule sum.remove [OF finite_winners w(1)])
  note fits = bounds_None [OF bounds, simplified note_fields ex(3) total, simplified]
  have adm: "admissible env ?doc ?c"
    using path fits(1) by (simp add: admissible_def content c) (simp add: update_conv')
  have keys: "\<forall>x\<in>winners (nd_meta doc). key_of env x = key_of env ?c \<longleftrightarrow> x \<in> {w}"
  proof
    fix x
    assume x: "x \<in> winners (nd_meta doc)"
    have "key_of env ?c = key_of env w" using c by (simp add: key_of_def)
    with winners_key [OF ex(5) x w(1)] show "key_of env x = key_of env ?c \<longleftrightarrow> x \<in> {w}" by auto
  qed
  have card: "card (winners (nd_meta doc) - {w}) < MAX_MATERIALIZED_NOTES"
    using ex(5) card_Diff1_less [OF finite_winners w(1)] by (simp add: snapshot_fits_def)
  have readable: "readable (nd_meta ?doc)" using written_readable [OF ex(4) m(2)] by simp
  have bytes: "(\<Sum>x\<in>winners (nd_meta doc) - {w}. utf8_length (text_of doc x)) + utf8_length (text_of ?doc ?c)
      \<le> MAX_MATERIALIZED_GENERATION_BYTES"
    using fits(3) by (simp add: content add.commute)
  from replaced_snapshot [OF ok snap ok' readable W texts adm keys card bytes] run w(3) show ?thesis
    by (simp add: content key_of_def c note_fields)
qed


text \<open>The note that a request names, as the coordinator looks it up.\<close>

lemma read_note:
  assumes "readSnapshotNote env doc path = Inr held" and "extractMaterializedSnapshot env doc = Inr snap"
    and "validateMarkdownVaultPath (ne_paths env) path = Inr v"
  shows "sb_snapshot held = snap" and "find_note (vp_pathKey v) snap = Some (sb_note held)"
  using assms by (auto simp: readSnapshotNote_def split: option.splits)

text \<open>No other live entry of the note's path is as new as \<open>now\<close>.\<close>

definition dated :: "note_doc \<Rightarrow> snapshot_note \<Rightarrow> rat \<Rightarrow> bool" where
  "dated doc n now \<longleftrightarrow> (\<forall>c\<in>live_entries (nd_meta doc).
     ca_path c = sn_path n \<and> ca_fileId c \<noteq> sn_fileId n \<longrightarrow> mtime_or_zero c < now)"

lemma write_on_map:
  assumes "note_doc_ok doc" and "extractMaterializedSnapshot env doc = Inr snap"
    and "\<forall>held. expected = Some held \<longrightarrow> readSnapshotNote env doc (wr_path req) = Inr held \<and> dated doc (sb_note held) now"
    and "ni_fileId ident \<notin> fst ` set (nd_meta doc) \<or> wr_expectedVersion req \<noteq> None"
  shows "case applyMarkdownNoteWrite env clock doc req expected now ident of
      (Inl e, doc') \<Rightarrow> doc' = doc
    | (Inr (note, op), doc') \<Rightarrow> ln_content note = wr_content req \<and>
        (op = NoteCreated \<longleftrightarrow> notes_of snap (pe_lower (ne_paths env) (wr_path req)) = None) \<and>
        (\<exists>snap'. extractMaterializedSnapshot env doc' = Inr snap' \<and>
          notes_of snap' = (notes_of snap)(pe_lower (ne_paths env) (wr_path req) \<mapsto> (ln_path note, wr_content req)))"
proof (cases "validateMarkdownVaultPath (ne_paths env) (wr_path req)")
  case (Inl e)
  then show ?thesis by (simp add: applyMarkdownNoteWrite_def)
next
  case (Inr v)
  let ?key = "pe_lower (ne_paths env) (wr_path req)"
  note v = validated_fields [OF Inr]
  have absent: "notes_of snap ?key = None" if "find_note ?key snap = None"
    using found_note(2) [OF assms(1,2) that] notes_of_winner [OF assms(1,2)] by (metis not_Some_eq surj_pair)
  have present: "notes_of snap ?key \<noteq> None" if "find_note ?key snap = Some n" for n
    using found_note(1) [OF assms(1,2) that] notes_of_winner [OF assms(1,2)] by (metis option.distinct(1))
  show ?thesis
  proof (cases "wr_expectedVersion req")
    case None
    with assms(4) have fresh: "ni_fileId ident \<notin> fst ` set (nd_meta doc)" by simp
    have "WEB_DEVICE \<noteq> []" by (simp add: WEB_DEVICE_def lit_def)
    from insert_note_refines [OF assms(1,2) Inr this _ _ fresh, of "wr_content req" now] absent None show ?thesis
      by (auto simp: applyMarkdownNoteWrite_def Inr assms(2) v Let_def live_answer_def split: option.split)
  next
    case (Some version)
    show ?thesis
    proof (cases expected)
      case None
      with Some Inr show ?thesis by (simp add: applyMarkdownNoteWrite_def Let_def)
    next
      case (Some held)
      with assms(3) have held: "readSnapshotNote env doc (wr_path req) = Inr held" "dated doc (sb_note held) now" by auto
      note read = read_note [OF held(1) assms(2) Inr, unfolded v]
      note replace = replace_note_refines [OF assms(1,2) read(2) _ held(2) [unfolded dated_def],
          of "wr_content req" clock WEB_DEVICE]
      show ?thesis
        using replace present [OF read(2)] \<open>wr_expectedVersion req = Some version\<close> Some
        by (auto simp: applyMarkdownNoteWrite_def Inr v Let_def live_answer_def read(1) split: option.split)
    qed
  qed
qed

text \<open>
  C13. Take a document of schema 2 or later that has a snapshot. A write that is refused leaves it as it was. One that
  succeeds has the effect of an update of the map of notes at the key of its path, and of that alone: it creates
  the note if there was none, and otherwise keeps the note's own spelling of the path. This holds where the
  file id of a new note is fresh, the note that is held for replacement is the one that a read of this document
  gives, and no other live entry of its path is as new as the time of the write (\<open>dated\<close>; otherwise that entry can
  remain the note of the path).
\<close>

theorem write_refines:
  assumes "note_doc_ok doc" and "extractMaterializedSnapshot env doc = Inr snap"
    and "\<forall>held. expected = Some held \<longrightarrow> readSnapshotNote env doc (wr_path req) = Inr held \<and> dated doc (sb_note held) now"
    and "ni_fileId ident \<notin> fst ` set (nd_meta doc) \<or> wr_expectedVersion req \<noteq> None"
  shows "case applyMarkdownNoteWrite env clock doc req expected now ident of
      (Inl e, doc') \<Rightarrow> doc' = doc
    | (Inr (note, op), doc') \<Rightarrow> ln_content note = wr_content req \<and>
        (op = NoteCreated \<longleftrightarrow> notes_of snap (pe_lower (ne_paths env) (wr_path req)) = None) \<and>
        (\<exists>snap'. extractMaterializedSnapshot env doc' = Inr snap' \<and>
          notes_of snap' = (notes_of snap)(pe_lower (ne_paths env) (wr_path req) \<mapsto> (ln_path note, wr_content req)))"
  using write_on_map [OF assms] .


section \<open>Restoring a note\<close>

lemma fold_delete:
  assumes "distinct (List.map fst m)"
  shows "map_of (fold AList.delete ks m) = (\<lambda>k. if k \<in> set ks then None else map_of m k)"
    and "distinct (List.map fst (fold AList.delete ks m))"
proof -
  have "map_of (fold AList.delete ks m) = (\<lambda>k. if k \<in> set ks then None else map_of m k) \<and>
      distinct (List.map fst (fold AList.delete ks m))"
    using assms
  proof (induction ks arbitrary: m)
    case (Cons k ks)
    from Cons.IH [of "AList.delete k m"] Cons.prems show ?case
      by (auto simp: delete_conv' distinct_delete fun_eq_iff)
  qed simp
  then show "map_of (fold AList.delete ks m) = (\<lambda>k. if k \<in> set ks then None else map_of m k)"
    and "distinct (List.map fst (fold AList.delete ks m))" by blast+
qed

lemma delete_all_map: "map_of (fold AList.delete ks m) k = (if k \<in> set ks then None else map_of m k)"
  by (induction ks arbitrary: m) (auto simp: delete_conv')

text \<open>Removing tombstones changes no live entry and no text of one.\<close>

lemma removal:
  fixes key :: jsstr
  assumes "note_doc_ok doc" and "extractMaterializedSnapshot env doc = Inr snap"
  defines "doc' \<equiv> removePathTombstones env doc key"
  shows "note_doc_ok doc'" and "winners (nd_meta doc') = winners (nd_meta doc)"
    and "readable (nd_meta doc')" and "fst ` set (nd_meta doc') \<subseteq> fst ` set (nd_meta doc)"
    and "\<forall>c\<in>winners (nd_meta doc). map_of (nd_idToText doc') (ca_fileId c) = map_of (nd_idToText doc) (ca_fileId c)"
    and "\<not> pathHasTombstone env doc' key"
proof -
  note ex = extracted [OF assms(1,2)]
  let ?m = "nd_meta doc"
  have distinct: "distinct (List.map fst ?m)" using ex(4) by (simp add: readable_def)
  let ?ids = "List.map fst (filter (\<lambda>(_, v). is_tombstone_of env key v) ?m)"
  have ids: "f \<in> set ?ids \<longleftrightarrow> (\<exists>v. map_of ?m f = Some v \<and> is_tombstone_of env key v)" for f
    using map_of_eq_Some_iff [OF distinct] by force
  have meta: "nd_meta doc' = fold AList.delete ?ids ?m" and texts: "nd_idToText doc' = fold AList.delete ?ids (nd_idToText doc)"
    and schema: "nd_schemaVersion doc' = nd_schemaVersion doc"
    by (auto simp: doc'_def removePathTombstones_def Let_def)
  note map = fold_delete [OF distinct, of ?ids]
  have live_id: "ca_fileId c \<notin> set ?ids" if "c \<in> live_entries ?m" for c
    using that ids unfolding live_map [OF distinct] by (auto simp: is_tombstone_of_def split: option.splits)
  have "c \<in> live_entries (nd_meta doc') \<longleftrightarrow> c \<in> live_entries ?m" for c
    using live_id [of c] unfolding meta live_map [OF map(2)] live_map [OF distinct] map(1) by auto
  then have "live_entries (nd_meta doc') = live_entries ?m" by blast
  then show W: "winners (nd_meta doc') = winners ?m" by (simp add: winners_def)
  show "note_doc_ok doc'" using assms(1) map(2) by (simp add: note_doc_ok_def schema meta)
  have "\<forall>f v. map_of ?m f = Some v \<longrightarrow> decodeFileMeta v \<noteq> None"
    using ex(4) by (simp only: readable_map [OF distinct])
  then show "readable (nd_meta doc')" unfolding meta readable_map [OF map(2)] map(1) by simp
  have "dom (map_of (nd_meta doc')) \<subseteq> dom (map_of ?m)" unfolding meta map(1) by (auto split: if_splits)
  then show "fst ` set (nd_meta doc') \<subseteq> fst ` set ?m" by (simp add: dom_map_of_conv_image_fst)
  show "\<forall>c\<in>winners ?m. map_of (nd_idToText doc') (ca_fileId c) = map_of (nd_idToText doc) (ca_fileId c)"
    unfolding texts delete_all_map using live_id by (simp add: winners_def newest_iff)
  show "\<not> pathHasTombstone env doc' key"
  proof
    assume "pathHasTombstone env doc' key"
    then obtain f v where "(f, v) \<in> set (nd_meta doc')" "is_tombstone_of env key v"
      by (auto simp: pathHasTombstone_def list_ex_iff)
    then have "map_of (nd_meta doc') f = Some v" using map(2) by (simp add: meta)
    with \<open>is_tombstone_of env key v\<close> ids [of f] show False by (simp add: meta map(1) split: if_splits)
  qed
qed

lemma removal_snapshot:
  assumes "note_doc_ok doc" and "extractMaterializedSnapshot env doc = Inr snap"
  obtains snap' where "extractMaterializedSnapshot env (removePathTombstones env doc key) = Inr snap'"
    "notes_of snap' = notes_of snap" "set (ns_notes snap') = set (ns_notes snap)"
    "length (ns_notes snap') = length (ns_notes snap)" "ns_totalBytes snap' = ns_totalBytes snap"
proof -
  let ?doc = "removePathTombstones env doc key"
  note ex = extracted [OF assms]
  note gone = removal [OF assms, of key]
  have content: "text_of ?doc c = text_of doc c" if "c \<in> winners (nd_meta doc)" for c
    using gone(5) that by (simp add: text_of_def)
  have "admissible env ?doc c" if "c \<in> winners (nd_meta doc)" for c
    using ex(5) that gone(5) content [OF that] by (simp add: snapshot_fits_def admissible_def)
  then have "snapshot_fits env ?doc"
    using ex(5) content by (simp add: snapshot_fits_def gone(2))
  from extractI [OF gone(1,3) this] obtain snap' where snap': "extractMaterializedSnapshot env ?doc = Inr snap'" .
  note ex' = extracted [OF gone(1) snap']
  have "note_of env ?doc c = note_of env doc c" if "c \<in> winners (nd_meta doc)" for c
    using content [OF that] by (simp add: note_of_def)
  then have set: "set (ns_notes snap') = set (ns_notes snap)" unfolding ex'(1) ex(1) gone(2) by simp
  have "notes_of snap' k = Some (p, t) \<longleftrightarrow> notes_of snap k = Some (p, t)" for k p t
    unfolding notes_of_winner [OF gone(1) snap'] notes_of_winner [OF assms] gone(2) using content by auto
  then have "notes_of snap' k = notes_of snap k" for k by (metis option.exhaust surj_pair)
  then have "notes_of snap' = notes_of snap" by blast
  from that [OF snap' this set] ex'(2,3) ex(2,3) content gone(2) show ?thesis by simp
qed

text \<open>
  C14. Take a document of schema 2 or later that has a snapshot. A restore that is refused leaves it as it was, and so
  does one of the text the note already has. One that succeeds updates the map of notes at the key of its path
  with the restored text, and nothing else, also where the path has tombstones, which are gone then. As for a
  write, the file id of a new note is fresh and the held note is this document's own; and no other live entry of
  the path is as new as the time that is restored (\<open>dated\<close>): where one is, the restore is answered with success
  and that entry remains the note of the path, as \<open>restore_hidden\<close> shows.
\<close>

theorem restore_refines:
  assumes "note_doc_ok doc" and "extractMaterializedSnapshot env doc = Inr snap"
    and "\<forall>held. expected = Some held \<longrightarrow> readSnapshotNote env doc (rq_path req) = Inr held \<and>
      dated doc (sb_note held) (case rq_modifiedAt req of Some t \<Rightarrow> t | None \<Rightarrow> now)"
    and "ni_fileId ident \<notin> fst ` set (nd_meta doc) \<or> expected \<noteq> None"
  shows "case applyMarkdownNoteRestore env clock doc req expected now ident of
      (Inl e, doc') \<Rightarrow> doc' = doc
    | (Inr (note, op), doc') \<Rightarrow> ln_content note = rq_content req \<and> (op = NoteUnchanged \<longrightarrow> doc' = doc) \<and>
        (op = NoteCreated \<longrightarrow> notes_of snap (pe_lower (ne_paths env) (rq_path req)) = None) \<and>
        (\<exists>snap'. extractMaterializedSnapshot env doc' = Inr snap' \<and>
          notes_of snap' = (notes_of snap)(pe_lower (ne_paths env) (rq_path req) \<mapsto> (ln_path note, rq_content req)))"
proof (cases "validateMarkdownVaultPath (ne_paths env) (rq_path req)")
  case (Inl e)
  then show ?thesis by (simp add: applyMarkdownNoteRestore_def)
next
  case (Inr v)
  let ?key = "pe_lower (ne_paths env) (rq_path req)"
  let ?time = "case rq_modifiedAt req of Some t \<Rightarrow> t | None \<Rightarrow> now"
  note v = validated_fields [OF Inr]
  show ?thesis
  proof (cases expected)
    case None
    with assms(4) have fresh: "ni_fileId ident \<notin> fst ` set (nd_meta doc)" by simp
    obtain snap' where removed: "extractMaterializedSnapshot env (removePathTombstones env doc ?key) = Inr snap'"
      "notes_of snap' = notes_of snap" "set (ns_notes snap') = set (ns_notes snap)"
      "length (ns_notes snap') = length (ns_notes snap)" "ns_totalBytes snap' = ns_totalBytes snap"
      by (rule removal_snapshot [OF assms(1,2)])
    note gone = removal [OF assms(1,2), of ?key]
    have none: "find_note ?key snap' = None \<longleftrightarrow> find_note ?key snap = None"
      using removed(3) by (simp add: find_note_def find_None_iff)
    have absent: "notes_of snap ?key = None" if "find_note ?key snap = None"
      using found_note(2) [OF assms(1,2) that] notes_of_winner [OF assms(1,2)] by (metis not_Some_eq surj_pair)
    have bounds: "ensureGenerationBounds snap' 0 n True = ensureGenerationBounds snap 0 n True" for n
      using removed(4,5) by (simp add: ensureGenerationBounds_def)
    have fresh': "ni_fileId ident \<notin> fst ` set (nd_meta (removePathTombstones env doc ?key))" using fresh gone(4) by blast
    have "RESTORE_DEVICE \<noteq> []" by (simp add: RESTORE_DEVICE_def lit_def)
    from insert_note_refines [OF gone(1) removed(1) Inr this _ _ fresh', of "rq_content req" ?time] none absent bounds removed(2) None
    show ?thesis
      by (auto simp: applyMarkdownNoteRestore_def Inr assms(2) v Let_def live_answer_def split: option.split)
  next
    case (Some held)
    with assms(3) have held: "readSnapshotNote env doc (rq_path req) = Inr held" "dated doc (sb_note held) ?time" by auto
    note read = read_note [OF held(1) assms(2) Inr, unfolded v]
    note replace = replace_note_refines [OF assms(1,2) read(2) _ held(2) [unfolded dated_def],
        of "rq_content req" clock RESTORE_DEVICE]
    obtain w where w: "w \<in> winners (nd_meta doc)" "sb_note held = note_of env doc w" "key_of env w = ?key"
      using found_note(1) [OF assms(1,2) read(2)] by blast
    have same: "notes_of snap = (notes_of snap)(?key \<mapsto> (sn_path (sb_note held), sn_content (sb_note held)))"
    proof -
      have "notes_of snap ?key = Some (ca_path w, text_of doc w)"
        unfolding notes_of_winner [OF assms(1,2)] using w by blast
      then have "notes_of snap ?key = Some (sn_path (sb_note held), sn_content (sb_note held))"
        by (simp add: w(2) note_of_def)
      then show ?thesis by (simp add: fun_upd_idem)
    qed
    show ?thesis
      using replace same assms(2) Some
      by (auto simp: applyMarkdownNoteRestore_def Inr v Let_def live_answer_def read(1) split: option.split)
  qed
qed

end
