(* ===== verification/NoteCoordinator.thy ===== *)
theory NoteCoordinator
  imports NoteContent JsJson JsUtf8
begin

text \<open>
  The note operations of a vault's coordinator, \<open>apps/worker/src/vault-coordinator.ts\<close>: reading, writing and
  restoring a note of the document that peers edit meanwhile. At every \<open>await\<close> the coordinator lets others
  run; what they do is listed in the state, one element per \<open>await\<close>: the edits of peers that are applied,
  whether what is awaited fails, and the answers of the vaults table and of the persistence coordinator.
  The document is opaque: \<open>ae_doc\<close> reads its maps, \<open>ae_commit\<close> is a transaction that leaves them with the
  given values, \<open>ae_stateVector\<close> encodes its state vector.
\<close>

section \<open>The coordinator\<close>

datatype actor_error = ContentError content_failure | OtherError

record 'd moment =
  mo_edits :: "'d \<Rightarrow> 'd"
  mo_fails :: bool
  mo_row :: "jsstr option"
  mo_saved :: bool

record 'd vault_actor =
  va_name :: jsstr
  va_loaded :: bool
  va_doc :: 'd
  va_tokens :: nat
  va_moments :: "'d moment list"

record 'd actor_env =
  ae_notes :: note_env
  ae_doc :: "'d \<Rightarrow> note_doc"
  ae_commit :: "'d \<Rightarrow> note_doc \<Rightarrow> 'd"
  ae_stateVector :: "'d \<Rightarrow> bytes"
  ae_stored :: "'d \<Rightarrow> 'd"
  ae_setName :: "jsstr \<Rightarrow> jsstr \<Rightarrow> jsstr"
  ae_digest :: "bytes \<Rightarrow> bytes"
  ae_token :: "nat \<Rightarrow> jsstr"
  ae_clock :: rat

type_synonym ('d, 'a) actor = "('d vault_actor, actor_error, 'a) act"

definition idle :: "'d moment" where
  "idle = \<lparr>mo_edits = id, mo_fails = False, mo_row = None, mo_saved = False\<rparr>"

text \<open>One \<open>await\<close>; what was not foreseen in the list neither edits nor fails.\<close>

definition awaited :: "('d, 'd moment) actor" where
  "awaited s = (case va_moments s of
     [] \<Rightarrow> (Return idle, s)
   | m # ms \<Rightarrow> (if mo_fails m then Throw OtherError else Return m,
       s\<lparr>va_doc := mo_edits m (va_doc s), va_moments := ms\<rparr>))"

definition the_doc :: "('d, 'd) actor" where
  "the_doc s = (Return (va_doc s), s)"

section \<open>Shared steps\<close>

definition content_act :: "content_failure + 'a \<Rightarrow> ('d, 'a) actor" where
  "content_act r = (case r of Inl e \<Rightarrow> act_throw (ContentError e) | Inr x \<Rightarrow> act_return x)"

definition bytesEqual :: "bytes \<Rightarrow> bytes \<Rightarrow> bool" where
  "bytesEqual left right = (length left = length right \<and> list_all (\<lambda>i. left ! i = right ! i) [0..<length left])"

definition readSchemaVersion :: "note_doc \<Rightarrow> rat option" where
  "readSchemaVersion doc = (case nd_schemaVersion doc of
     JNum (Fin q) \<Rightarrow> if is_integer_num (Fin q) \<and> 0 \<le> q then Some q else None
   | _ \<Rightarrow> None)"

definition worker_sha256Hex :: "'d actor_env \<Rightarrow> jsstr \<Rightarrow> ('d, jsstr) actor" where
  "worker_sha256Hex env value = act_bind awaited (\<lambda>_. act_return (sha256Hex (ae_digest env) (utf8_encode value)))"

definition note_version :: "'d actor_env \<Rightarrow> jsstr \<Rightarrow> jsstr \<Rightarrow> jsstr \<Rightarrow> jsstr" where
  "note_version env fileId path content =
     sha256Hex (ae_digest env) (utf8_encode (json_array (List.map json_string [fileId, path, content])))"

definition markdownNoteVersion :: "'d actor_env \<Rightarrow> jsstr \<Rightarrow> jsstr \<Rightarrow> jsstr \<Rightarrow> ('d, jsstr) actor" where
  "markdownNoteVersion env fileId path content =
     worker_sha256Hex env (json_array (List.map json_string [fileId, path, content]))"

definition ensureDocumentLoaded :: "'d actor_env \<Rightarrow> ('d, unit) actor" where
  "ensureDocumentLoaded env s =
     (if va_loaded s then act_return () s
      else act_bind awaited (\<lambda>_ s. (Return (), s\<lparr>va_doc := ae_stored env (va_doc s), va_loaded := True\<rparr>)) s)"

definition prepareNamedVault :: "'d actor_env \<Rightarrow> jsstr \<Rightarrow> ('d, unit) actor" where
  "prepareNamedVault env vaultId =
     act_bind awaited (\<lambda>_.
     act_bind (\<lambda>s. (Return (), s\<lparr>va_name := ae_setName env (va_name s) vaultId\<rparr>)) (\<lambda>_.
     act_bind (ensureDocumentLoaded env) (\<lambda>_ s.
       (if va_name s \<noteq> vaultId then act_throw (ContentError CfVaultNotActive) else act_return ()) s)))"

definition isVaultActive :: "jsstr \<Rightarrow> ('d, bool) actor" where
  "isVaultActive vaultId = act_bind awaited (\<lambda>m. act_return (mo_row m = Some vaultId))"

text \<open>Saving is the persistence coordinator's part; after a success the state vector is recorded.\<close>

definition persistCurrentDocument :: "'d actor_env \<Rightarrow> ('d, bool) actor" where
  "persistCurrentDocument env =
     act_bind (ensureDocumentLoaded env) (\<lambda>_.
     act_bind awaited (\<lambda>m.
       if mo_saved m then act_bind awaited (\<lambda>_. act_return True) else act_return False))"

definition vaultContentFailure :: "actor_error \<Rightarrow> ('d, content_failure + 'a) actor" where
  "vaultContentFailure e = (case e of ContentError c \<Rightarrow> act_return (Inl c) | OtherError \<Rightarrow> act_throw OtherError)"

record stable_live =
  sl_note :: stable_note
  sl_contentVersion :: jsstr
  sl_stateVector :: bytes

fun capture_attempts :: "nat \<Rightarrow> 'd actor_env \<Rightarrow> jsstr \<Rightarrow> ('d, stable_live) actor" where
  "capture_attempts 0 env path = act_throw (ContentError CfVaultBusy)"
| "capture_attempts (Suc n) env path =
     act_bind the_doc (\<lambda>d.
     act_bind (content_act (readSnapshotNote (ae_notes env) (ae_doc env d) path)) (\<lambda>current.
     act_bind (markdownNoteVersion env (sn_fileId (sb_note current)) (sn_path (sb_note current))
       (sn_content (sb_note current))) (\<lambda>contentVersion.
     act_bind the_doc (\<lambda>d'.
       if bytesEqual (ae_stateVector env d) (ae_stateVector env d')
       then act_return \<lparr>sl_note = current, sl_contentVersion = contentVersion, sl_stateVector = ae_stateVector env d\<rparr>
       else capture_attempts n env path))))"

definition captureStableLiveNote :: "'d actor_env \<Rightarrow> jsstr \<Rightarrow> ('d, stable_live) actor" where
  "captureStableLiveNote env path = capture_attempts 5 env path"

section \<open>Reading a note\<close>

fun read_attempts :: "nat \<Rightarrow> 'd actor_env \<Rightarrow> jsstr \<Rightarrow> jsstr \<Rightarrow> ('d, content_failure + live_note) actor" where
  "read_attempts 0 env vaultId path = act_return (Inl CfVaultBusy)"
| "read_attempts (Suc n) env vaultId path =
     act_bind (captureStableLiveNote env path) (\<lambda>stable.
     act_bind (isVaultActive vaultId) (\<lambda>active.
       if \<not> active then act_return (Inl CfVaultNotActive)
       else act_bind the_doc (\<lambda>d.
         if \<not> bytesEqual (sl_stateVector stable) (ae_stateVector env d) then read_attempts n env vaultId path
         else (let held = sb_note (sl_note stable) in
           act_return (Inr \<lparr>ln_content = sn_content held, ln_contentVersion = sl_contentVersion stable,
             ln_modifiedAt = sn_modifiedAt held, ln_path = sn_path held\<rparr>)))))"

text \<open>The arguments of the calls are what the schemas of the contracts package made of the input.\<close>

definition readMarkdownNote ::
  "'d actor_env \<Rightarrow> jsstr option \<Rightarrow> jsstr option \<Rightarrow> ('d, content_failure + live_note) actor" where
  "readMarkdownNote env vaultIdInput pathInput = (case (vaultIdInput, pathInput) of
     (Some vaultId, Some path) \<Rightarrow>
       act_catch (act_bind (prepareNamedVault env vaultId) (\<lambda>_. read_attempts 5 env vaultId path)) vaultContentFailure
   | _ \<Rightarrow> act_return (Inl CfPathInvalid))"

section \<open>Writing a note\<close>

text \<open>
  The document changes where a transaction ran: always before an answer other than "unchanged", and never
  before a refusal unless the refusal came out of the transaction.
\<close>

definition commit_note ::
  "'d actor_env \<Rightarrow> (note_doc \<Rightarrow> write_answer \<times> note_doc) \<Rightarrow> ('d, live_note \<times> write_operation) actor" where
  "commit_note env f s = (let doc = ae_doc env (va_doc s) in case f doc of
     (Inl e, doc') \<Rightarrow> (Throw (ContentError e),
        if doc' = doc then s else s\<lparr>va_doc := ae_commit env (va_doc s) doc'\<rparr>)
   | (Inr (answer, op), doc') \<Rightarrow> (Return (answer, op),
        if op = NoteUnchanged then s else s\<lparr>va_doc := ae_commit env (va_doc s) doc'\<rparr>))"

definition persistMarkdownMutation ::
  "'d actor_env \<Rightarrow> live_note \<times> write_operation \<Rightarrow> ('d, content_failure + (live_note \<times> write_operation)) actor" where
  "persistMarkdownMutation env mutation =
     act_bind (persistCurrentDocument env) (\<lambda>saved.
       act_return (if saved then Inr mutation else Inl CfPersistenceUnavailable))"

definition randomToken :: "'d actor_env \<Rightarrow> ('d, jsstr) actor" where
  "randomToken env s = (Return (ae_token env (va_tokens s)), s\<lparr>va_tokens := va_tokens s + 1\<rparr>)"

definition create_note ::
  "'d actor_env \<Rightarrow> jsstr \<Rightarrow> write_request \<Rightarrow> rat \<Rightarrow> ('d, content_failure + (live_note \<times> write_operation)) actor" where
  "create_note env vaultId request now =
     act_bind (randomToken env) (\<lambda>fileId.
     act_bind (markdownNoteVersion env fileId (wr_path request) (wr_content request)) (\<lambda>contentVersion.
     act_bind (isVaultActive vaultId) (\<lambda>active.
       if \<not> active then act_return (Inl CfVaultNotActive)
       else act_bind the_doc (\<lambda>d.
         if readSchemaVersion (ae_doc env d) \<noteq> Some 3 then act_return (Inl CfSchemaUnsupported)
         else act_bind (commit_note env (\<lambda>doc. applyMarkdownNoteWrite (ae_notes env) (ae_clock env) doc request None now
             \<lparr>ni_contentVersion = contentVersion, ni_fileId = fileId\<rparr>)) (persistMarkdownMutation env)))))"

fun update_attempts ::
  "nat \<Rightarrow> 'd actor_env \<Rightarrow> jsstr \<Rightarrow> write_request \<Rightarrow> rat \<Rightarrow> ('d, content_failure + (live_note \<times> write_operation)) actor" where
  "update_attempts 0 env vaultId request now = act_return (Inl CfVaultBusy)"
| "update_attempts (Suc n) env vaultId request now =
     act_bind (captureStableLiveNote env (wr_path request)) (\<lambda>stable.
     act_bind (markdownNoteVersion env (sn_fileId (sb_note (sl_note stable))) (sn_path (sb_note (sl_note stable)))
       (wr_content request)) (\<lambda>contentVersion.
     act_bind (isVaultActive vaultId) (\<lambda>active.
       if \<not> active then act_return (Inl CfVaultNotActive)
       else act_bind the_doc (\<lambda>d.
         if \<not> bytesEqual (sl_stateVector stable) (ae_stateVector env d) then update_attempts n env vaultId request now
         else if Some (sl_contentVersion stable) \<noteq> wr_expectedVersion request then act_return (Inl CfNoteStale)
         else act_bind (commit_note env (\<lambda>doc. applyMarkdownNoteWrite (ae_notes env) (ae_clock env) doc request
             (Some (sl_note stable)) now
             \<lparr>ni_contentVersion = contentVersion, ni_fileId = sn_fileId (sb_note (sl_note stable))\<rparr>))
           (persistMarkdownMutation env)))))"

definition write_body ::
  "'d actor_env \<Rightarrow> jsstr \<Rightarrow> write_request \<Rightarrow> rat \<Rightarrow> ('d, content_failure + (live_note \<times> write_operation)) actor" where
  "write_body env vaultId request now =
     act_bind (prepareNamedVault env vaultId) (\<lambda>_.
     act_bind the_doc (\<lambda>d.
       if readSchemaVersion (ae_doc env d) \<noteq> Some 3 then act_return (Inl CfSchemaUnsupported)
       else if wr_expectedVersion request = None then create_note env vaultId request now
       else update_attempts 5 env vaultId request now))"

definition valid_now :: "js_num \<Rightarrow> rat option" where
  "valid_now n = (case n of Fin q \<Rightarrow> if is_safe_integer_num n \<and> 0 \<le> q then Some q else None | _ \<Rightarrow> None)"

definition writeMarkdownNote ::
  "'d actor_env \<Rightarrow> jsstr option \<Rightarrow> write_request option \<Rightarrow> js_num \<Rightarrow>
     ('d, content_failure + (live_note \<times> write_operation)) actor" where
  "writeMarkdownNote env vaultIdInput requestInput nowInput =
     (case (vaultIdInput, requestInput, valid_now nowInput) of
        (Some vaultId, Some request, Some now) \<Rightarrow>
          act_catch (write_body env vaultId request now)
            (\<lambda>e. if e = ContentError CfNoteNotFound \<and> wr_expectedVersion request \<noteq> None
                 then act_return (Inl CfNoteStale) else vaultContentFailure e)
      | _ \<Rightarrow> act_return (Inl CfPathInvalid))"

section \<open>Restoring a note\<close>

text \<open>A failure of the path or of the snapshot here is not a content error.\<close>

definition plain_act :: "'e + 'a \<Rightarrow> ('d, 'a) actor" where
  "plain_act r = (case r of Inl _ \<Rightarrow> act_throw OtherError | Inr x \<Rightarrow> act_return x)"

definition target_sha :: "'d actor_env \<Rightarrow> snapshot_note option \<Rightarrow> ('d, jsstr option) actor" where
  "target_sha env held = (case held of
     None \<Rightarrow> act_return None
   | Some n \<Rightarrow> act_bind (worker_sha256Hex env (sn_content n)) (\<lambda>h. act_return (Some h)))"

definition persist_restore :: "'d actor_env \<Rightarrow> live_note \<times> write_operation \<Rightarrow> ('d, content_failure + write_operation) actor" where
  "persist_restore env mutation =
     act_bind (persistCurrentDocument env) (\<lambda>saved.
       act_return (if saved then Inr (snd mutation) else Inl CfPersistenceUnavailable))"

fun restore_attempts ::
  "nat \<Rightarrow> 'd actor_env \<Rightarrow> jsstr \<Rightarrow> restore_request \<Rightarrow> vault_path \<Rightarrow> rat \<Rightarrow> ('d, content_failure + write_operation) actor" where
  "restore_attempts 0 env vaultId request requested now = act_return (Inl CfVaultBusy)"
| "restore_attempts (Suc n) env vaultId request requested now =
     act_bind the_doc (\<lambda>d.
     act_bind (plain_act (extractMaterializedSnapshot (ae_notes env) (ae_doc env d))) (\<lambda>snapshot.
     let held = find_note (vp_pathKey requested) snapshot in
     act_bind (target_sha env held) (\<lambda>currentContentSha256.
       if currentContentSha256 \<noteq> Some (rq_contentSha256 request) \<and> currentContentSha256 \<noteq> rq_expectedTarget request
       then act_return (Inl CfNoteStale)
       else
         act_bind (case held of Some n \<Rightarrow> act_return (sn_fileId n) | None \<Rightarrow> randomToken env) (\<lambda>fileId.
         act_bind (markdownNoteVersion env fileId (vp_path requested) (rq_content request)) (\<lambda>contentVersion.
         act_bind (isVaultActive vaultId) (\<lambda>active.
           if \<not> active then act_return (Inl CfVaultNotActive)
           else act_bind the_doc (\<lambda>d'.
             if \<not> bytesEqual (ae_stateVector env d) (ae_stateVector env d')
             then restore_attempts n env vaultId request requested now
             else act_bind (commit_note env (\<lambda>doc. applyMarkdownNoteRestore (ae_notes env) (ae_clock env) doc request
                 (map_option (\<lambda>n. \<lparr>sb_snapshot = snapshot, sb_note = n\<rparr>) held) now
                 \<lparr>ni_contentVersion = contentVersion, ni_fileId = fileId\<rparr>))
               (persist_restore env))))))))"

definition restore_body ::
  "'d actor_env \<Rightarrow> jsstr \<Rightarrow> restore_request \<Rightarrow> rat \<Rightarrow> ('d, content_failure + write_operation) actor" where
  "restore_body env vaultId request now =
     act_bind (prepareNamedVault env vaultId) (\<lambda>_.
     act_bind the_doc (\<lambda>d.
       if readSchemaVersion (ae_doc env d) \<noteq> Some 3 then act_return (Inl CfSchemaUnsupported)
       else act_bind (worker_sha256Hex env (rq_content request)) (\<lambda>h.
         if h \<noteq> rq_contentSha256 request then act_return (Inl CfSnapshotInvalid)
         else act_bind (plain_act (validateMarkdownVaultPath (ne_paths (ae_notes env)) (rq_path request))) (\<lambda>requested.
           restore_attempts 5 env vaultId request requested now))))"

definition restoreMarkdownNote ::
  "'d actor_env \<Rightarrow> jsstr option \<Rightarrow> restore_request option \<Rightarrow> js_num \<Rightarrow> ('d, content_failure + write_operation) actor" where
  "restoreMarkdownNote env vaultIdInput requestInput nowInput =
     (case (vaultIdInput, requestInput, valid_now nowInput) of
        (Some vaultId, Some request, Some now) \<Rightarrow>
          act_catch (restore_body env vaultId request now) vaultContentFailure
      | _ \<Rightarrow> act_return (Inl CfPathInvalid))"

end
