(* ===== verification/NoteCoordinatorProps.thy ===== *)
theory NoteCoordinatorProps
  imports NoteProps NoteCoordinator
begin

text \<open>
  The note operations of the coordinator among the edits of peers: each call is an atomic step on the
  document that some prefix of the peers' edits had left, and the rest of the edits come after it.
\<close>

section \<open>Edits of peers\<close>

definition apply_edits :: "('d \<Rightarrow> 'd) list \<Rightarrow> 'd \<Rightarrow> 'd" where
  "apply_edits es d = fold (\<lambda>e. e) es d"

definition peer_edits :: "'d vault_actor \<Rightarrow> ('d \<Rightarrow> 'd) list" where
  "peer_edits s = List.map mo_edits (va_moments s)"

text \<open>The document that the first \<open>k\<close> awaits leave.\<close>

definition doc_at :: "'d vault_actor \<Rightarrow> nat \<Rightarrow> 'd" where
  "doc_at s k = apply_edits (take k (peer_edits s)) (va_doc s)"

text \<open>\<open>s'\<close> is reached after \<open>k\<close> awaits, where after the first \<open>i\<close> of them the document was set to \<open>d\<close>.\<close>

definition later :: "'d vault_actor \<Rightarrow> nat \<Rightarrow> 'd \<Rightarrow> nat \<Rightarrow> 'd vault_actor \<Rightarrow> bool" where
  "later s i d k s' \<longleftrightarrow> i \<le> k \<and> k \<le> length (va_moments s) \<and> va_moments s' = drop k (va_moments s) \<and> va_loaded s' \<and>
     va_doc s' = apply_edits (take (k - i) (drop i (peer_edits s))) d"

definition unwritten :: "'d vault_actor \<Rightarrow> nat \<Rightarrow> 'd vault_actor \<Rightarrow> bool" where
  "unwritten s k s' \<longleftrightarrow> later s 0 (va_doc s) k s'"

lemma unwritten_doc: "unwritten s k s' \<Longrightarrow> va_doc s' = doc_at s k"
  by (simp add: unwritten_def later_def doc_at_def)

lemma later_refl: "unwritten s i s' \<Longrightarrow> later s i d i (s'\<lparr>va_doc := d\<rparr>)"
  by (simp add: unwritten_def later_def apply_edits_def)

lemma later_token: "later s i d k (s'\<lparr>va_tokens := t\<rparr>) = later s i d k s'"
  by (simp add: later_def)

lemma unwritten_token: "unwritten s k (s'\<lparr>va_tokens := t\<rparr>) = unwritten s k s'"
  by (simp add: unwritten_def later_token)

lemma later_step:
  assumes "later s i d k s'" and "va_moments s' = m # ms"
  shows "later s i d (Suc k) (s'\<lparr>va_doc := mo_edits m (va_doc s'), va_moments := ms\<rparr>)"
proof -
  have k: "k < length (va_moments s)" using assms by (auto simp: later_def intro: ccontr)
  then have m: "m = va_moments s ! k" "ms = drop (Suc k) (va_moments s)"
    using assms by (auto simp: later_def Cons_nth_drop_Suc [symmetric])
  have "Suc k - i = Suc (k - i)" "k - i < length (drop i (peer_edits s))" using assms(1) k by (auto simp: later_def peer_edits_def)
  then have "take (Suc k - i) (drop i (peer_edits s)) = take (k - i) (drop i (peer_edits s)) @ [mo_edits m]"
    using assms(1) k m by (simp add: take_Suc_conv_app_nth later_def peer_edits_def)
  with assms k m show ?thesis by (auto simp: later_def apply_edits_def)
qed

lemma wp_awaited:
  assumes "later s i d k s1"
  shows "wp awaited (\<lambda>_ s'. \<exists>k'\<ge>k. later s i d k' s') (\<lambda>e s'. e = Some OtherError \<and> (\<exists>k'\<ge>k. later s i d k' s')) s1"
proof (cases "va_moments s1")
  case Nil
  with assms show ?thesis by (auto simp: wp_def awaited_def)
next
  case (Cons m ms)
  with later_step [OF assms Cons] show ?thesis by (auto simp: wp_def awaited_def intro: exI [of _ "Suc k"])
qed

lemma wp_after_await:
  assumes "later s i d k s1"
    and "\<And>m k' s'. k \<le> k' \<Longrightarrow> later s i d k' s' \<Longrightarrow> wp (f m) Q R s'"
    and "\<And>k' s'. k \<le> k' \<Longrightarrow> later s i d k' s' \<Longrightarrow> R (Some OtherError) s'"
  shows "wp (act_bind awaited f) Q R s1"
  unfolding wp_bind using wp_awaited [OF assms(1)] by (rule wp_mono) (use assms(2,3) in auto)

lemma wp_version:
  assumes "later s i d k s1"
    and "\<And>k' s'. k \<le> k' \<Longrightarrow> later s i d k' s' \<Longrightarrow> wp (f (note_version env fileId path content)) Q R s'"
    and "\<And>k' s'. k \<le> k' \<Longrightarrow> later s i d k' s' \<Longrightarrow> R (Some OtherError) s'"
  shows "wp (act_bind (markdownNoteVersion env fileId path content) f) Q R s1"
  unfolding wp_bind markdownNoteVersion_def worker_sha256Hex_def
  using wp_awaited [OF assms(1)] by (rule wp_mono) (use assms(2,3) in \<open>auto simp: wp_simps note_version_def\<close>)

lemma wp_active:
  assumes "later s i d k s1"
    and "\<And>a k' s'. k \<le> k' \<Longrightarrow> later s i d k' s' \<Longrightarrow> wp (f a) Q R s'"
    and "\<And>k' s'. k \<le> k' \<Longrightarrow> later s i d k' s' \<Longrightarrow> R (Some OtherError) s'"
  shows "wp (act_bind (isVaultActive vaultId) f) Q R s1"
  unfolding wp_bind isVaultActive_def
  using wp_awaited [OF assms(1)] by (rule wp_mono) (use assms(2,3) in \<open>auto simp: wp_simps\<close>)

lemma wp_the_doc [wp_simps]: "wp the_doc Q R s = Q (va_doc s) s"
  by (simp add: wp_def the_doc_def)

lemma bind_assoc: "act_bind (act_bind m f) g = act_bind m (\<lambda>x. act_bind (f x) g)"
  by (auto simp: act_bind_def fun_eq_iff split: prod.split outcome.split)

lemma bind_the_doc: "wp (act_bind the_doc f) Q R s = wp (f (va_doc s)) Q R s"
  by (simp add: wp_simps)

lemma bind_if: "act_bind (if b then m else n) f = (if b then act_bind m f else act_bind n f)"
  by simp

lemma bind_throw: "act_bind (act_throw e) f = act_throw e"
  by (simp add: act_bind_def act_throw_def fun_eq_iff)

lemmas bind_simps = bind_assoc bind_the_doc bind_if bind_throw

lemma bytesEqual_eq [simp]: "bytesEqual l r \<longleftrightarrow> l = r"
  by (auto simp: bytesEqual_def list_all_iff intro: nth_equalityI)

lemma wp_persist:
  assumes "later s i d k s1"
    and "\<And>b k' s'. later s i d k' s' \<Longrightarrow> wp (f b) Q R s'"
    and "\<And>k' s'. later s i d k' s' \<Longrightarrow> R (Some OtherError) s'"
  shows "wp (act_bind (persistCurrentDocument env) f) Q R s1"
proof -
  have loaded: "va_loaded s1" using assms(1) by (simp add: later_def)
  have "wp (act_bind awaited (\<lambda>m. act_bind (if mo_saved m then act_bind awaited (\<lambda>_. act_return True) else act_return False) f)) Q R s1"
  proof (rule wp_after_await [OF assms(1)])
    fix m :: "'a moment" and k' s' assume s': "later s i d k' s'"
    show "wp (act_bind (if mo_saved m then act_bind awaited (\<lambda>_. act_return True) else act_return False) f) Q R s'"
    proof (cases "mo_saved m")
      case True
      have "wp (act_bind awaited (\<lambda>_. f True)) Q R s'" by (rule wp_after_await [OF s']) (use assms(2,3) in auto)
      with True show ?thesis by (simp add: wp_simps wp_return_fun)
    next
      case False
      with s' assms(2) show ?thesis by (simp add: wp_simps)
    qed
  qed (use assms(3) in blast)
  then show ?thesis
    using loaded by (simp add: persistCurrentDocument_def bind_assoc) (simp add: wp_def act_bind_def ensureDocumentLoaded_def act_return_def)
qed


section \<open>What the calls do\<close>

text \<open>The note that a call holds when it writes: one that the document had at an earlier await.\<close>

definition seen_note ::
  "'d actor_env \<Rightarrow> 'd vault_actor \<Rightarrow> jsstr \<Rightarrow> nat \<Rightarrow> stable_note \<Rightarrow> jsstr \<Rightarrow> bool" where
  "seen_note env s path i held version \<longleftrightarrow> (\<exists>h\<le>i.
     readSnapshotNote (ae_notes env) (ae_doc env (doc_at s h)) path = Inr held \<and>
     version = note_version env (sn_fileId (sb_note held)) (sn_path (sb_note held)) (sn_content (sb_note held)) \<and>
     ae_stateVector env (doc_at s h) = ae_stateVector env (doc_at s i))"

lemma wp_capture:
  assumes "unwritten s k s1"
    and "\<And>stable h k' s'. h \<le> k' \<Longrightarrow> unwritten s k' s' \<Longrightarrow>
      readSnapshotNote (ae_notes env) (ae_doc env (doc_at s h)) path = Inr (sl_note stable) \<Longrightarrow>
      sl_contentVersion stable = note_version env (sn_fileId (sb_note (sl_note stable)))
        (sn_path (sb_note (sl_note stable))) (sn_content (sb_note (sl_note stable))) \<Longrightarrow>
      sl_stateVector stable = ae_stateVector env (doc_at s h) \<Longrightarrow> wp (f stable) Q R s'"
    and "\<And>e k' s'. unwritten s k' s' \<Longrightarrow> R (Some e) s'"
  shows "wp (act_bind (capture_attempts n env path) f) Q R s1"
  using assms(1)
proof (induction n arbitrary: k s1)
  case 0
  with assms(3) show ?case by (simp add: wp_simps)
next
  case (Suc n)
  show ?case
  proof (cases "readSnapshotNote (ae_notes env) (ae_doc env (va_doc s1)) path")
    case (Inl e)
    with assms(3) [OF Suc.prems] show ?thesis by (simp add: wp_simps content_act_def)
  next
    case (Inr held)
    have "wp (act_bind (markdownNoteVersion env (sn_fileId (sb_note held)) (sn_path (sb_note held)) (sn_content (sb_note held)))
        (\<lambda>v. act_bind the_doc (\<lambda>d'. act_bind (if bytesEqual (ae_stateVector env (va_doc s1)) (ae_stateVector env d')
           then act_return \<lparr>sl_note = held, sl_contentVersion = v, sl_stateVector = ae_stateVector env (va_doc s1)\<rparr>
           else capture_attempts n env path) f))) Q R s1"
    proof (rule wp_version)
      show "later s 0 (va_doc s) k s1" using Suc.prems by (simp add: unwritten_def)
    next
      fix k' s' assume s': "k \<le> k'" "later s 0 (va_doc s) k' s'"
      have doc: "va_doc s1 = doc_at s k" by (rule unwritten_doc [OF Suc.prems])
      show "wp (act_bind the_doc (\<lambda>d'. act_bind (if bytesEqual (ae_stateVector env (va_doc s1)) (ae_stateVector env d')
          then act_return \<lparr>sl_note = held, sl_contentVersion = note_version env (sn_fileId (sb_note held))
            (sn_path (sb_note held)) (sn_content (sb_note held)), sl_stateVector = ae_stateVector env (va_doc s1)\<rparr>
          else capture_attempts n env path) f)) Q R s'"
      proof (cases "ae_stateVector env (va_doc s1) = ae_stateVector env (va_doc s')")
        case True
        have "wp (f \<lparr>sl_note = held, sl_contentVersion = note_version env (sn_fileId (sb_note held))
            (sn_path (sb_note held)) (sn_content (sb_note held)), sl_stateVector = ae_stateVector env (va_doc s1)\<rparr>) Q R s'"
          by (rule assms(2) [OF s'(1)]) (use s' Inr doc in \<open>simp_all add: unwritten_def\<close>)
        with True show ?thesis by (simp add: wp_simps)
      next
        case False
        have "unwritten s k' s'" using s'(2) by (simp add: unwritten_def)
        from Suc.IH [OF this] False show ?thesis by (simp add: wp_simps)
      qed
    qed (use assms(3) in \<open>auto simp: unwritten_def\<close>)
    with Inr show ?thesis by (simp add: bind_simps content_act_def)
  qed
qed

lemma replace_note_returns: "fst (replace_note clock f path content now device doc) = Inr ()"
proof -
  obtain ps m1 where "ensureNestedMetaEntry clock (nd_meta doc) f (Some \<lparr>dm_shape = FlatShape, dm_path = path,
      dm_deletedAt = None, dm_deleted = False, dm_mtime = Some now, dm_device = Some device\<rparr>) = (Some (JYMap ps), m1)"
    using ensured_entry by blast
  then show ?thesis by (simp add: replace_note_def updateMetadata_def Let_def)
qed

lemma replace_note_as:
  obtains g where "\<And>f path. replace_note clock f path content now device doc = (Inr (), g f path)"
proof -
  have "replace_note clock f path content now device doc = (Inr (), snd (replace_note clock f path content now device doc))" for f path
    using replace_note_returns by (metis prod.collapse)
  then show thesis using that [of "\<lambda>f path. snd (replace_note clock f path content now device doc)"] by blast
qed

lemma write_outcome:
  "case applyMarkdownNoteWrite env clock doc req expected now ident of
     (Inl _, doc') \<Rightarrow> doc' = doc | (Inr (_, op), _) \<Rightarrow> op \<noteq> NoteUnchanged"
proof -
  obtain g where g: "\<And>f path. replace_note clock f path (wr_content req) now WEB_DEVICE doc = (Inr (), g f path)"
    by (rule replace_note_as) blast
  show ?thesis
  proof (cases "validateMarkdownVaultPath (ne_paths env) (wr_path req)")
    case (Inr v)
    show ?thesis
    proof (cases "wr_expectedVersion req")
      case None
      with Inr show ?thesis
        by (cases "extractMaterializedSnapshot env doc") (simp_all add: applyMarkdownNoteWrite_def Let_def split: option.split)
    next
      case (Some v')
      show ?thesis
      proof (cases expected)
        case (Some held)
        with Inr \<open>wr_expectedVersion req = Some v'\<close> show ?thesis
          by (cases "ensureGenerationBounds (sb_snapshot held) (sn_byteLength (sb_note held)) (utf8_length (wr_content req)) False";
              cases "map_of (nd_idToText doc) (sn_fileId (sb_note held))")
            (simp_all add: applyMarkdownNoteWrite_def g split: option.split)
      qed (simp add: applyMarkdownNoteWrite_def Inr Some)
    qed
  qed (simp add: applyMarkdownNoteWrite_def)
qed

text \<open>What an answered write did, and when: it is an atomic write to the document after \<open>i\<close> awaits.\<close>

definition wrote ::
  "'d actor_env \<Rightarrow> 'd vault_actor \<Rightarrow> write_request \<Rightarrow> rat \<Rightarrow> live_note \<times> write_operation \<Rightarrow> 'd vault_actor \<Rightarrow> bool" where
  "wrote env s req now answer s' \<longleftrightarrow> (\<exists>i k expected ident doc'.
     (case wr_expectedVersion req of None \<Rightarrow> expected = None
      | Some v \<Rightarrow> \<exists>held. expected = Some held \<and> seen_note env s (wr_path req) i held v) \<and>
     (expected = None \<longrightarrow> ni_fileId ident = ae_token env (va_tokens s)) \<and>
     applyMarkdownNoteWrite (ae_notes env) (ae_clock env) (ae_doc env (doc_at s i)) req expected now ident = (Inr answer, doc') \<and>
     later s i (ae_commit env (doc_at s i) doc') k s')"

text \<open>What holds when a part of a write answers, and when it throws.\<close>

definition answered ::
  "'d actor_env \<Rightarrow> 'd vault_actor \<Rightarrow> write_request \<Rightarrow> rat \<Rightarrow> content_failure + (live_note \<times> write_operation) \<Rightarrow>
     'd vault_actor \<Rightarrow> bool" where
  "answered env s req now r s' \<longleftrightarrow> (case r of
     Inr answer \<Rightarrow> wrote env s req now answer s'
   | Inl c \<Rightarrow> (\<exists>k. unwritten s k s') \<or> c = CfPersistenceUnavailable \<and> (\<exists>answer. wrote env s req now answer s'))"

definition threw :: "'d actor_env \<Rightarrow> 'd vault_actor \<Rightarrow> write_request \<Rightarrow> rat \<Rightarrow> actor_error option \<Rightarrow> 'd vault_actor \<Rightarrow> bool" where
  "threw env s req now e s' \<longleftrightarrow> (\<exists>e'. e = Some e' \<and> ((\<exists>k. unwritten s k s') \<or>
     e' = OtherError \<and> (\<exists>answer. wrote env s req now answer s')))"

lemma unwritten_outcome [simp]:
  "unwritten s k s' \<Longrightarrow> answered env s req now (Inl c) s'"
  "unwritten s k s' \<Longrightarrow> threw env s req now (Some e) s'"
  by (auto simp: answered_def threw_def)

lemma wrote_outcome:
  assumes "wrote env s req now answer s'"
  shows "answered env s req now (Inr answer) s'" "answered env s req now (Inl CfPersistenceUnavailable) s'"
    "threw env s req now (Some OtherError) s'"
proof -
  show "answered env s req now (Inr answer) s'" using assms by (simp add: answered_def)
  show "answered env s req now (Inl CfPersistenceUnavailable) s'" using assms unfolding answered_def by (simp only: sum.case) blast
  show "threw env s req now (Some OtherError) s'" using assms unfolding threw_def by blast
qed

lemma wp_commit_note:
  assumes "f (ae_doc env (va_doc s)) = (Inr (n, op), doc')" and "op \<noteq> NoteUnchanged"
  shows "wp (act_bind (commit_note env f) m) Q R s = wp (m (n, op)) Q R (s\<lparr>va_doc := ae_commit env (va_doc s) doc'\<rparr>)"
  using assms by (simp add: wp_bind) (simp add: wp_def commit_note_def)

lemma wp_write:
  assumes "unwritten s i s1"
    and "case wr_expectedVersion req of None \<Rightarrow> expected = None
      | Some v \<Rightarrow> \<exists>held. expected = Some held \<and> seen_note env s (wr_path req) i held v"
    and "expected = None \<longrightarrow> ni_fileId ident = ae_token env (va_tokens s)"
  shows "wp (act_bind (commit_note env (\<lambda>doc. applyMarkdownNoteWrite (ae_notes env) (ae_clock env) doc req expected now ident))
    (persistMarkdownMutation env)) (answered env s req now) (threw env s req now) s1"
proof -
  have doc: "va_doc s1 = doc_at s i" by (rule unwritten_doc [OF assms(1)])
  obtain r doc' where run: "applyMarkdownNoteWrite (ae_notes env) (ae_clock env) (ae_doc env (va_doc s1)) req expected now ident = (r, doc')"
    by fastforce
  note outcome = write_outcome [of "ae_doc env (va_doc s1)" "ae_notes env" "ae_clock env" req expected now ident, unfolded run]
  show ?thesis
  proof (cases r)
    case (Inl e)
    with run outcome assms(1) show ?thesis by (simp add: wp_bind) (simp add: wp_def commit_note_def)
  next
    case (Inr answer)
    obtain n op where answer: "answer = (n, op)" by fastforce
    with outcome Inr have op: "op \<noteq> NoteUnchanged" by simp
    let ?s = "s1\<lparr>va_doc := ae_commit env (doc_at s i) doc'\<rparr>"
    have wrote: "wrote env s req now answer s'" if "later s i (ae_commit env (doc_at s i) doc') k s'" for k s'
      unfolding wrote_def using assms(2,3) run [unfolded doc Inr] that
      by (intro exI [of _ i] exI [of _ k] exI [of _ expected] exI [of _ ident] exI [of _ doc'] conjI)
    have "wp (act_bind (persistCurrentDocument env) (\<lambda>saved. act_return (if saved then Inr (n, op) else Inl CfPersistenceUnavailable)))
        (answered env s req now) (threw env s req now) ?s"
      by (rule wp_persist [OF later_refl [OF assms(1)]]) (use wrote_outcome [OF wrote [unfolded answer]] in \<open>simp_all add: wp_return\<close>)
    with run Inr answer op doc show ?thesis by (simp add: wp_commit_note persistMarkdownMutation_def)
  qed
qed

lemma wp_create_note:
  assumes "unwritten s k s1" and "wr_expectedVersion req = None" and "va_tokens s1 = va_tokens s"
  shows "wp (create_note env vaultId req now) (answered env s req now) (threw env s req now) s1"
proof -
  have rest: "wp (act_bind the_doc (\<lambda>d. if readSchemaVersion (ae_doc env d) \<noteq> Some 3 then act_return (Inl CfSchemaUnsupported)
      else act_bind (commit_note env (\<lambda>doc. applyMarkdownNoteWrite (ae_notes env) (ae_clock env) doc req None now ident))
        (persistMarkdownMutation env))) (answered env s req now) (threw env s req now) s'"
    if "later s 0 (va_doc s) i s'" "ni_fileId ident = ae_token env (va_tokens s1)" for i s' ident
  proof -
    have s': "unwritten s i s'" using that(1) by (simp add: unwritten_def)
    from wp_write [OF s', where req = req and expected = None and ident = ident] assms(2,3) that(2) s' show ?thesis by (simp add: bind_the_doc wp_return)
  qed
  have start: "later s 0 (va_doc s) k (s1\<lparr>va_tokens := va_tokens s1 + 1\<rparr>)"
    using assms(1) by (simp add: unwritten_def later_token)
  show ?thesis
    unfolding create_note_def wp_bind [of "randomToken env"]
  proof (simp only: wp_def [of "randomToken env"] randomToken_def prod.case outcome.case, rule wp_version [OF start])
    fix k' s' assume "later s 0 (va_doc s) k' s'"
    then show "wp (act_bind (isVaultActive vaultId) (\<lambda>active. if \<not> active then act_return (Inl CfVaultNotActive)
        else act_bind the_doc (\<lambda>d. if readSchemaVersion (ae_doc env d) \<noteq> Some 3 then act_return (Inl CfSchemaUnsupported)
          else act_bind (commit_note env (\<lambda>doc. applyMarkdownNoteWrite (ae_notes env) (ae_clock env) doc req None now
            \<lparr>ni_contentVersion = note_version env (ae_token env (va_tokens s1)) (wr_path req) (wr_content req),
             ni_fileId = ae_token env (va_tokens s1)\<rparr>))
            (persistMarkdownMutation env)))) (answered env s req now) (threw env s req now) s'"
      by (rule wp_active) (use rest in \<open>auto simp: wp_return unwritten_def [symmetric]\<close>)
  qed (simp add: unwritten_def [symmetric])
qed

lemma wp_update_attempts:
  assumes "unwritten s k s1" and "wr_expectedVersion req \<noteq> None"
  shows "wp (update_attempts n env vaultId req now) (answered env s req now) (threw env s req now) s1"
  using assms(1)
proof (induction n arbitrary: k s1)
  case 0
  then show ?case by (simp add: wp_return)
next
  case (Suc n)
  show ?case
    unfolding update_attempts.simps captureStableLiveNote_def
  proof (rule wp_capture [OF Suc.prems])
    fix stable h k1 s2
    assume s2: "h \<le> k1" "unwritten s k1 s2"
      and seen: "readSnapshotNote (ae_notes env) (ae_doc env (doc_at s h)) (wr_path req) = Inr (sl_note stable)"
        "sl_contentVersion stable = note_version env (sn_fileId (sb_note (sl_note stable)))
          (sn_path (sb_note (sl_note stable))) (sn_content (sb_note (sl_note stable)))"
        "sl_stateVector stable = ae_stateVector env (doc_at s h)"
    have rest: "wp (act_bind the_doc (\<lambda>d.
         if \<not> bytesEqual (sl_stateVector stable) (ae_stateVector env d) then update_attempts n env vaultId req now
         else if Some (sl_contentVersion stable) \<noteq> wr_expectedVersion req then act_return (Inl CfNoteStale)
         else act_bind (commit_note env (\<lambda>doc. applyMarkdownNoteWrite (ae_notes env) (ae_clock env) doc req
             (Some (sl_note stable)) now ident)) (persistMarkdownMutation env)))
        (answered env s req now) (threw env s req now) s'" if "k1 \<le> i" "later s 0 (va_doc s) i s'" for i s' ident
    proof -
      have s': "unwritten s i s'" using that(2) by (simp add: unwritten_def)
      have "wp (act_bind (commit_note env (\<lambda>doc. applyMarkdownNoteWrite (ae_notes env) (ae_clock env) doc req
             (Some (sl_note stable)) now ident)) (persistMarkdownMutation env)) (answered env s req now) (threw env s req now) s'"
        if "ae_stateVector env (doc_at s h) = ae_stateVector env (doc_at s i)" "wr_expectedVersion req = Some (sl_contentVersion stable)"
      proof -
        have "h \<le> i" using s2(1) \<open>k1 \<le> i\<close> by simp
        then have "seen_note env s (wr_path req) i (sl_note stable) (sl_contentVersion stable)"
          unfolding seen_note_def using seen(1,2) that(1) by blast
        with that(2) show ?thesis by (intro wp_write [OF s']) simp_all
      qed
      with Suc.IH [OF s'] s' seen(3) unwritten_doc [OF s'] show ?thesis by (auto simp: bind_the_doc wp_return)
    qed
    show "wp (act_bind (markdownNoteVersion env (sn_fileId (sb_note (sl_note stable))) (sn_path (sb_note (sl_note stable)))
       (wr_content req)) (\<lambda>contentVersion. act_bind (isVaultActive vaultId) (\<lambda>active.
       if \<not> active then act_return (Inl CfVaultNotActive)
       else act_bind the_doc (\<lambda>d.
         if \<not> bytesEqual (sl_stateVector stable) (ae_stateVector env d) then update_attempts n env vaultId req now
         else if Some (sl_contentVersion stable) \<noteq> wr_expectedVersion req then act_return (Inl CfNoteStale)
         else act_bind (commit_note env (\<lambda>doc. applyMarkdownNoteWrite (ae_notes env) (ae_clock env) doc req
             (Some (sl_note stable)) now
             \<lparr>ni_contentVersion = contentVersion, ni_fileId = sn_fileId (sb_note (sl_note stable))\<rparr>))
           (persistMarkdownMutation env))))) (answered env s req now) (threw env s req now) s2"
    proof (rule wp_version [OF s2(2) [unfolded unwritten_def]])
      fix k2 s3 assume s3: "k1 \<le> k2" "later s 0 (va_doc s) k2 s3"
      show "wp (act_bind (isVaultActive vaultId) (\<lambda>active.
       if \<not> active then act_return (Inl CfVaultNotActive)
       else act_bind the_doc (\<lambda>d.
         if \<not> bytesEqual (sl_stateVector stable) (ae_stateVector env d) then update_attempts n env vaultId req now
         else if Some (sl_contentVersion stable) \<noteq> wr_expectedVersion req then act_return (Inl CfNoteStale)
         else act_bind (commit_note env (\<lambda>doc. applyMarkdownNoteWrite (ae_notes env) (ae_clock env) doc req
             (Some (sl_note stable)) now
             \<lparr>ni_contentVersion = note_version env (sn_fileId (sb_note (sl_note stable))) (sn_path (sb_note (sl_note stable)))
                (wr_content req), ni_fileId = sn_fileId (sb_note (sl_note stable))\<rparr>))
           (persistMarkdownMutation env)))) (answered env s req now) (threw env s req now) s3"
      proof (rule wp_active [OF s3(2)])
        fix a i s' assume s': "k2 \<le> i" "later s 0 (va_doc s) i s'"
        from rest [of i s'] s3(1) s' show "wp (if \<not> a then act_return (Inl CfVaultNotActive)
           else act_bind the_doc (\<lambda>d.
             if \<not> bytesEqual (sl_stateVector stable) (ae_stateVector env d) then update_attempts n env vaultId req now
             else if Some (sl_contentVersion stable) \<noteq> wr_expectedVersion req then act_return (Inl CfNoteStale)
             else act_bind (commit_note env (\<lambda>doc. applyMarkdownNoteWrite (ae_notes env) (ae_clock env) doc req
                 (Some (sl_note stable)) now
                 \<lparr>ni_contentVersion = note_version env (sn_fileId (sb_note (sl_note stable))) (sn_path (sb_note (sl_note stable)))
                    (wr_content req), ni_fileId = sn_fileId (sb_note (sl_note stable))\<rparr>))
               (persistMarkdownMutation env))) (answered env s req now) (threw env s req now) s'"
          by (cases a) (simp_all only: if_True if_False not_True_eq_False not_False_eq_True wp_return unwritten_def [symmetric]
              unwritten_outcome order_trans)
      qed (simp add: unwritten_def [symmetric])
    qed (simp add: unwritten_def [symmetric])
  qed simp
qed

section \<open>A write is atomic\<close>

lemma prepared:
  assumes "prepareNamedVault env vaultId s = (Return (), s0)"
  shows "unwritten s0 0 s0"
proof -
  have "wp (prepareNamedVault env vaultId) (\<lambda>_ s'. va_loaded s') (\<lambda>_ _. True) s"
    by (auto simp: prepareNamedVault_def ensureDocumentLoaded_def awaited_def wp_def act_bind_def act_return_def act_throw_def
        split: list.split)
  with assms have "va_loaded s0" by (simp add: wp_def)
  then show ?thesis by (simp add: unwritten_def later_def apply_edits_def)
qed

lemma note_write_outcome:
  assumes "prepareNamedVault env vaultId s = (Return (), s0)" and "valid_now nowInput = Some now"
  shows "case writeMarkdownNote env (Some vaultId) (Some req) nowInput s of
      (Return (Inr answer), s') \<Rightarrow> wrote env s0 req now answer s'
    | (Return (Inl c), s') \<Rightarrow> (\<exists>k. unwritten s0 k s') \<or>
        c = CfPersistenceUnavailable \<and> (\<exists>answer. wrote env s0 req now answer s')
    | (Throw e, s') \<Rightarrow> e = OtherError \<and> ((\<exists>k. unwritten s0 k s') \<or> (\<exists>answer. wrote env s0 req now answer s'))
    | (Diverge, _) \<Rightarrow> False"
proof -
  note start = prepared [OF assms(1)]
  have tail: "wp (act_bind the_doc (\<lambda>d. if readSchemaVersion (ae_doc env d) \<noteq> Some 3 then act_return (Inl CfSchemaUnsupported)
      else if wr_expectedVersion req = None then create_note env vaultId req now
      else update_attempts 5 env vaultId req now)) (answered env s0 req now) (threw env s0 req now) s0"
    using wp_create_note [OF start] wp_update_attempts [OF start] start by (simp add: bind_the_doc wp_return)
  have "wp (writeMarkdownNote env (Some vaultId) (Some req) nowInput) (answered env s0 req now)
      (\<lambda>e s'. e = Some OtherError \<and> threw env s0 req now e s') s"
    unfolding writeMarkdownNote_def assms(2) prod.case option.case write_body_def wp_catch wp_bind [of "prepareNamedVault env vaultId"]
      wp_def [of "prepareNamedVault env vaultId"] assms(1) outcome.case
  proof (rule wp_mono [OF tail])
    fix e s' assume e: "threw env s0 req now e s'"
    then obtain e' where e': "e = Some e'" by (auto simp: threw_def)
    show "case e of None \<Rightarrow> None = Some OtherError \<and> threw env s0 req now None s'
      | Some e' \<Rightarrow> wp (if e' = ContentError CfNoteNotFound \<and> wr_expectedVersion req \<noteq> None then act_return (Inl CfNoteStale)
          else vaultContentFailure e') (answered env s0 req now)
          (\<lambda>e s'. e = Some OtherError \<and> threw env s0 req now e s') s'"
    proof (cases e')
      case (ContentError c)
      with e e' obtain k where "unwritten s0 k s'" by (auto simp: threw_def)
      with ContentError e' show ?thesis by (simp add: vaultContentFailure_def wp_return)
    next
      case OtherError
      with e e' show ?thesis by (simp add: vaultContentFailure_def wp_throw)
    qed
  qed
  then show ?thesis
    by (auto simp: wp_def answered_def threw_def split: prod.splits outcome.splits sum.splits)
qed

lemma read_note_map:
  assumes "note_doc_ok doc" and "extractMaterializedSnapshot env doc = Inr snap" and "readSnapshotNote env doc path = Inr h"
  shows "notes_of snap (pe_lower (ne_paths env) path) = Some (sn_path (sb_note h), sn_content (sb_note h))"
proof -
  obtain v where v: "validateMarkdownVaultPath (ne_paths env) path = Inr v"
    using assms(3) by (auto simp: readSnapshotNote_def split: sum.splits)
  obtain w where w: "w \<in> winners (nd_meta doc)" "sb_note h = note_of env doc w" "key_of env w = vp_pathKey v"
    using found_note(1) [OF assms(1,2) read_note(2) [OF assms(3,2) v]] by blast
  then have "notes_of snap (pe_lower (ne_paths env) path) = Some (ca_path w, text_of doc w)"
    unfolding notes_of_winner [OF assms(1,2)] using validated_fields [OF v] by auto
  then show ?thesis by (simp add: w(2) note_of_def)
qed

lemma write_creates:
  assumes "applyMarkdownNoteWrite env clock doc req None now ident = (Inr (n, op), doc')" and "wr_expectedVersion req = None"
  shows "op = NoteCreated \<and> (\<exists>snap. extractMaterializedSnapshot env doc = Inr snap)"
proof (cases "validateMarkdownVaultPath (ne_paths env) (wr_path req)")
  case (Inr v)
  with assms show ?thesis
    by (cases "extractMaterializedSnapshot env doc")
      (auto simp: applyMarkdownNoteWrite_def Let_def split: if_splits option.splits)
qed (use assms in \<open>simp add: applyMarkdownNoteWrite_def\<close>)

text \<open>
  C6. writeMarkdownNote always ends, and it is one atomic step among the edits of peers. An answer with a note
  means that after some number of awaits the write was applied to the document the peers had left, and only
  their later edits came after it: it created a note, or it replaced one that the document had held under the
  expected version at an await with the same state vector. A refusal leaves the edits of peers alone, but for
  a write that could not be saved; so does an exception.
\<close>

theorem note_write_atomic:
  assumes "prepareNamedVault env vaultId s = (Return (), s0)" and "valid_now nowInput = Some now"
  shows "case writeMarkdownNote env (Some vaultId) (Some req) nowInput s of
      (Return (Inr answer), s') \<Rightarrow> wrote env s0 req now answer s'
    | (Return (Inl c), s') \<Rightarrow> (\<exists>k. unwritten s0 k s') \<or>
        c = CfPersistenceUnavailable \<and> (\<exists>answer. wrote env s0 req now answer s')
    | (Throw e, s') \<Rightarrow> e = OtherError \<and> ((\<exists>k. unwritten s0 k s') \<or> (\<exists>answer. wrote env s0 req now answer s'))
    | (Diverge, _) \<Rightarrow> False"
  using note_write_outcome [OF assms] .

text \<open>
  C2. A write of a note is an atomic compare and set on the map of notes: an answer with a note means that at
  one point the map had no note at the path, or had the one of the expected version, and that it then became
  the map with the requested content at the path and was otherwise the same; the later edits of peers follow. This holds
  under four conditions on the documents the call can see: they are of schema 2 or later, equal state vectors mean equal
  documents (no edit of a peer only deletes), the token for the file id of a new note is not in use in any of
  them, and no other live entry of the requested path is as new as the time of the write (\<open>dated\<close>; such an entry
  can remain the note of the path although the write is answered).
\<close>

theorem note_compare_and_set:
  assumes "prepareNamedVault env vaultId s = (Return (), s0)" and "valid_now nowInput = Some now"
    and "writeMarkdownNote env (Some vaultId) (Some req) nowInput s = (Return (Inr (n, op)), s')"
    and "\<forall>d doc. ae_doc env (ae_commit env d doc) = doc"
    and "\<forall>k. note_doc_ok (ae_doc env (doc_at s0 k)) \<and> ae_token env (va_tokens s0) \<notin> fst ` set (nd_meta (ae_doc env (doc_at s0 k)))"
    and "\<forall>j k. ae_stateVector env (doc_at s0 j) = ae_stateVector env (doc_at s0 k) \<longrightarrow>
      ae_doc env (doc_at s0 j) = ae_doc env (doc_at s0 k)"
    and "\<forall>k held. readSnapshotNote (ae_notes env) (ae_doc env (doc_at s0 k)) (wr_path req) = Inr held \<longrightarrow>
      dated (ae_doc env (doc_at s0 k)) (sb_note held) now"
  shows "\<exists>k d' snap snap'. extractMaterializedSnapshot (ae_notes env) (ae_doc env (doc_at s0 k)) = Inr snap \<and>
    (case wr_expectedVersion req of
       None \<Rightarrow> notes_of snap (pe_lower (ne_paths (ae_notes env)) (wr_path req)) = None
     | Some v \<Rightarrow> \<exists>f p c. notes_of snap (pe_lower (ne_paths (ae_notes env)) (wr_path req)) = Some (p, c) \<and>
         v = note_version env f p c) \<and>
    extractMaterializedSnapshot (ae_notes env) (ae_doc env d') = Inr snap' \<and>
    notes_of snap' = (notes_of snap)(pe_lower (ne_paths (ae_notes env)) (wr_path req) \<mapsto> (ln_path n, wr_content req)) \<and>
    (\<exists>j\<ge>k. va_doc s' = apply_edits (take (j - k) (drop k (peer_edits s0))) d')"
proof -
  let ?doc = "\<lambda>k. ae_doc env (doc_at s0 k)" and ?key = "pe_lower (ne_paths (ae_notes env)) (wr_path req)"
  from note_write_outcome [OF assms(1,2), of req] assms(3) have "wrote env s0 req now (n, op) s'" by simp
  then obtain i k expected ident doc' where
    held: "case wr_expectedVersion req of None \<Rightarrow> expected = None
      | Some v \<Rightarrow> \<exists>held. expected = Some held \<and> seen_note env s0 (wr_path req) i held v" and
    ident: "expected = None \<longrightarrow> ni_fileId ident = ae_token env (va_tokens s0)" and
    run: "applyMarkdownNoteWrite (ae_notes env) (ae_clock env) (?doc i) req expected now ident = (Inr (n, op), doc')" and
    after: "later s0 i (ae_commit env (doc_at s0 i) doc') k s'"
    unfolding wrote_def by blast
  have read: "readSnapshotNote (ae_notes env) (?doc i) (wr_path req) = Inr h \<and>
      v = note_version env (sn_fileId (sb_note h)) (sn_path (sb_note h)) (sn_content (sb_note h))"
    if "expected = Some h" "wr_expectedVersion req = Some v" for h v
  proof -
    have "seen_note env s0 (wr_path req) i h v" using held that by simp
    then obtain m where m: "readSnapshotNote (ae_notes env) (?doc m) (wr_path req) = Inr h"
      "v = note_version env (sn_fileId (sb_note h)) (sn_path (sb_note h)) (sn_content (sb_note h))"
      "ae_stateVector env (doc_at s0 m) = ae_stateVector env (doc_at s0 i)"
      unfolding seen_note_def by blast
    have "?doc m = ?doc i" using assms(6) m(3) by blast
    with m(1,2) show ?thesis by simp
  qed
  obtain snap where snap: "extractMaterializedSnapshot (ae_notes env) (?doc i) = Inr snap"
  proof (cases "wr_expectedVersion req")
    case None
    with held have "expected = None" by simp
    with write_creates [OF run [unfolded \<open>expected = None\<close>] None] that show thesis by blast
  next
    case (Some v)
    with held obtain h where "expected = Some h" by auto
    from read [OF this Some] that show thesis by (auto simp: readSnapshotNote_def split: sum.splits)
  qed
  have some: "expected = None \<longleftrightarrow> wr_expectedVersion req = None"
    using held by (cases "wr_expectedVersion req") auto
  have "\<forall>h. expected = Some h \<longrightarrow> readSnapshotNote (ae_notes env) (?doc i) (wr_path req) = Inr h \<and> dated (?doc i) (sb_note h) now"
    using read some assms(7) by (metis not_None_eq option.distinct(1))
  from write_on_map [OF _ snap this, of ident "ae_clock env"] run assms(5) ident some
  obtain snap' where snap': "extractMaterializedSnapshot (ae_notes env) doc' = Inr snap'"
    "notes_of snap' = (notes_of snap)(?key \<mapsto> (ln_path n, wr_content req))" "op = NoteCreated \<longleftrightarrow> notes_of snap ?key = None"
    by auto
  have "case wr_expectedVersion req of None \<Rightarrow> notes_of snap ?key = None
     | Some v \<Rightarrow> \<exists>f p c. notes_of snap ?key = Some (p, c) \<and> v = note_version env f p c"
  proof (cases "wr_expectedVersion req")
    case None
    with held have "expected = None" by simp
    with write_creates [OF run [unfolded \<open>expected = None\<close>] None] None snap'(3) show ?thesis by simp
  next
    case (Some v)
    then obtain h where h: "expected = Some h" using some by auto
    note here = read [OF h Some]
    have "notes_of snap ?key = Some (sn_path (sb_note h), sn_content (sb_note h))"
      using here snap assms(5) by (metis read_note_map)
    with here Some show ?thesis by auto
  qed
  moreover have "\<exists>j\<ge>i. va_doc s' = apply_edits (take (j - i) (drop i (peer_edits s0))) (ae_commit env (doc_at s0 i) doc')"
    using after by (auto simp: later_def)
  moreover have "extractMaterializedSnapshot (ae_notes env) (ae_doc env (ae_commit env (doc_at s0 i) doc')) = Inr snap'"
    using snap'(1) assms(4) by simp
  ultimately show ?thesis using snap snap'(2) by blast
qed

section \<open>Restoring to a path that is not valid\<close>

text \<open>
  C40. A restore to a path that the validator refuses is not answered with a code: once the content's digest
  has been found right, restoreMarkdownNote throws, and so it does where the document has no snapshot. Only
  the edits of peers change the document.
\<close>

theorem restore_throws:
  assumes "prepareNamedVault env vaultId s = (Return (), s0)" and "valid_now nowInput = Some now"
    and "readSchemaVersion (ae_doc env (va_doc s0)) = Some 3"
    and "rq_contentSha256 req = sha256Hex (ae_digest env) (utf8_encode (rq_content req))"
    and "\<forall>v. validateMarkdownVaultPath (ne_paths (ae_notes env)) (rq_path req) = Inr v \<longrightarrow>
      (\<forall>k snap. extractMaterializedSnapshot (ae_notes env) (ae_doc env (doc_at s0 k)) \<noteq> Inr snap)"
  shows "case restoreMarkdownNote env (Some vaultId) (Some req) nowInput s of
      (Return _, _) \<Rightarrow> False
    | (Throw e, s') \<Rightarrow> e = OtherError \<and> (\<exists>k. va_doc s' = doc_at s0 k)
    | (Diverge, _) \<Rightarrow> False"
proof -
  let ?R = "\<lambda>e s'. e = Some OtherError \<and> (\<exists>k. unwritten s0 k s')"
  note start = prepared [OF assms(1)]
  have tail: "wp (act_bind awaited (\<lambda>_. act_bind (plain_act (validateMarkdownVaultPath (ne_paths (ae_notes env)) (rq_path req)))
      (\<lambda>requested. restore_attempts 5 env vaultId req requested now))) (\<lambda>_ _. False) ?R s0"
  proof (rule wp_after_await [OF start [unfolded unwritten_def]])
    fix k s' assume s': "later s0 0 (va_doc s0) k s'"
    then have s': "unwritten s0 k s'" by (simp add: unwritten_def)
    show "wp (act_bind (plain_act (validateMarkdownVaultPath (ne_paths (ae_notes env)) (rq_path req)))
      (\<lambda>requested. restore_attempts 5 env vaultId req requested now)) (\<lambda>_ _. False) ?R s'"
    proof (cases "validateMarkdownVaultPath (ne_paths (ae_notes env)) (rq_path req)")
      case (Inl f)
      with s' show ?thesis by (auto simp: plain_act_def bind_throw wp_throw)
    next
      case (Inr v)
      with assms(5) obtain e where "extractMaterializedSnapshot (ae_notes env) (ae_doc env (va_doc s')) = Inl e"
        using unwritten_doc [OF s'] by (metis old.sum.exhaust)
      with Inr s' show ?thesis
        by (auto simp: plain_act_def numeral_eq_Suc bind_the_doc bind_throw wp_throw)
    qed
  qed (auto simp: unwritten_def)
  have "wp (restoreMarkdownNote env (Some vaultId) (Some req) nowInput) (\<lambda>_ _. False) ?R s"
    unfolding restoreMarkdownNote_def assms(2) prod.case option.case restore_body_def wp_catch
      wp_bind [of "prepareNamedVault env vaultId"] wp_def [of "prepareNamedVault env vaultId"] assms(1) outcome.case
  proof (rule wp_mono [where Q = "\<lambda>_ _. False" and R = ?R])
    show "wp (act_bind the_doc (\<lambda>d. if readSchemaVersion (ae_doc env d) \<noteq> Some 3 then act_return (Inl CfSchemaUnsupported)
       else act_bind (worker_sha256Hex env (rq_content req)) (\<lambda>h.
         if h \<noteq> rq_contentSha256 req then act_return (Inl CfSnapshotInvalid)
         else act_bind (plain_act (validateMarkdownVaultPath (ne_paths (ae_notes env)) (rq_path req))) (\<lambda>requested.
           restore_attempts 5 env vaultId req requested now)))) (\<lambda>_ _. False) ?R s0"
      using tail assms(3,4) by (simp add: bind_the_doc worker_sha256Hex_def bind_assoc)
  qed (auto simp: vaultContentFailure_def wp_throw)
  then show ?thesis
    by (auto simp: wp_def dest: unwritten_doc split: prod.splits outcome.splits)
qed

end
