(* ===== verification/NoteSamples.thy ===== *)
theory NoteSamples
  imports NoteProps
begin

text \<open>
  A small vault: the properties of snapshots, writes and restores at concrete documents, and a document on
  which a restore that reports success does not show.
\<close>

definition ascii_notes :: note_env where
  "ascii_notes = \<lparr>ne_paths = \<lparr>pe_nfc = id, pe_lower = id, pe_control = (\<lambda>c. c < 32)\<rparr>, ne_compare = (\<lambda>_ _. True)\<rparr>"

definition one_note :: note_doc where
  "one_note = \<lparr>nd_schemaVersion = JNum (Fin 3),
     nd_meta = [(lit ''f'', createNestedActiveMeta (lit ''a.md'') (Fin 5) None)],
     nd_idToText = [(lit ''f'', Some (lit ''hi''))], nd_pathToId = []\<rparr>"

lemma sample_paths:
  "validateMarkdownVaultPath (ne_paths ascii_notes) (lit ''a.md'') =
     Inr \<lparr>vp_path = lit ''a.md'', vp_pathKey = lit ''a.md'', vp_title = lit ''a''\<rparr>"
  "validateMarkdownVaultPath (ne_paths ascii_notes) (lit ''b.md'') =
     Inr \<lparr>vp_path = lit ''b.md'', vp_pathKey = lit ''b.md'', vp_title = lit ''b''\<rparr>"
  by code_simp+

definition hi_note :: snapshot_note where
  "hi_note = \<lparr>sn_byteLength = 2, sn_content = lit ''hi'', sn_fileId = lit ''f'', sn_modifiedAt = Some 5,
     sn_path = lit ''a.md'', sn_pathKey = lit ''a.md'', sn_title = lit ''a''\<rparr>"

definition hi_snapshot :: note_snapshot where
  "hi_snapshot = \<lparr>ns_notes = [hi_note], ns_schemaVersion = 3, ns_totalBytes = 2\<rparr>"

lemma sample_candidates: "activeCandidates one_note 3 = Inr [\<lparr>ca_fileId = lit ''f'', ca_modifiedAt = Some 5, ca_path = lit ''a.md''\<rparr>]"
  by code_simp

lemma sample_schema: "supported_schema (JNum (Fin 3)) = Some 3"
  by (simp add: supported_schema_def is_integer_num_def SERVER_MIN_SCHEMA_VERSION_def SERVER_MAX_SCHEMA_VERSION_def)

lemma sample_extracted: "extractMaterializedSnapshot ascii_notes one_note = Inr hi_snapshot"
  using sample_candidates
  by (simp add: extractMaterializedSnapshot_def one_note_def sample_schema snapshot_step_def sample_paths [simplified] Let_def
      MAX_MATERIALIZED_NOTE_BYTES_def MAX_MATERIALIZED_NOTES_def MAX_MATERIALIZED_GENERATION_BYTES_def
      sort_by_def hi_snapshot_def hi_note_def)

lemma sample_ok: "note_doc_ok one_note"
  by (simp add: note_doc_ok_def one_note_def sample_schema)

theorem snapshot_exact_witness:
  "(\<lambda>n. (sn_path n, sn_fileId n, sn_modifiedAt n, sn_content n)) ` set (ns_notes hi_snapshot) =
     {(ca_path c, ca_fileId c, ca_modifiedAt c, text_of one_note c) | c. newest (live_entries (nd_meta one_note)) c} \<and>
   ns_notes hi_snapshot = [hi_note]"
  using snapshot_exact [OF sample_ok sample_extracted] by (simp add: hi_snapshot_def)

definition sample_request :: write_request where
  "sample_request = \<lparr>wr_path = lit ''a.md'', wr_content = lit ''yo'', wr_expectedVersion = Some (lit ''v'')\<rparr>"

definition sample_identity :: note_identity where
  "sample_identity = \<lparr>ni_contentVersion = lit ''w'', ni_fileId = lit ''g''\<rparr>"

definition sample_held :: stable_note where
  "sample_held = \<lparr>sb_snapshot = hi_snapshot, sb_note = hi_note\<rparr>"

lemma sample_read: "readSnapshotNote ascii_notes one_note (lit ''a.md'') = Inr sample_held"
  by (simp add: readSnapshotNote_def sample_extracted sample_paths [simplified] find_note_def hi_snapshot_def hi_note_def sample_held_def)

lemma sample_live: "live_entries (nd_meta one_note) = {\<lparr>ca_fileId = lit ''f'', ca_modifiedAt = Some 5, ca_path = lit ''a.md''\<rparr>}"
proof -
  have "decodeFileMeta (createNestedActiveMeta (lit ''a.md'') (Fin 5) None) = Some \<lparr>dm_shape = NestedShape, dm_path = lit ''a.md'',
      dm_deletedAt = None, dm_deleted = False, dm_mtime = Some 5, dm_device = None\<rparr>"
    by code_simp
  then show ?thesis by (simp add: one_note_def live_Cons is_tombstone_def meta_candidate_def)
qed

lemma sample_dated: "dated one_note (sb_note sample_held) now"
  by (simp add: dated_def sample_live sample_held_def hi_note_def)

lemma sample_write: "case applyMarkdownNoteWrite ascii_notes 9 one_note sample_request (Some sample_held) 9 sample_identity of
   (Inr (note, op), _) \<Rightarrow> ln_path note = lit ''a.md'' \<and> op = NoteUpdated | _ \<Rightarrow> False"
  by (simp add: applyMarkdownNoteWrite_def sample_request_def sample_paths [simplified] sample_held_def hi_note_def
      hi_snapshot_def ensureGenerationBounds_def MAX_MATERIALIZED_NOTE_BYTES_def MAX_MATERIALIZED_GENERATION_BYTES_def
      one_note_def replace_note_def updateMetadata_def ensureNestedMetaEntry_def isNestedFileMeta_def Let_def
      createNestedActiveMeta_def meta_get_def live_answer_def)


theorem write_refines_witness:
  "\<exists>note doc' snap'. applyMarkdownNoteWrite ascii_notes 9 one_note sample_request (Some sample_held) 9 sample_identity =
      (Inr (note, NoteUpdated), doc') \<and> extractMaterializedSnapshot ascii_notes doc' = Inr snap' \<and>
     notes_of snap' (lit ''a.md'') = Some (lit ''a.md'', lit ''yo'')"
proof -
  obtain ln doc' where run: "applyMarkdownNoteWrite ascii_notes 9 one_note sample_request (Some sample_held) 9 sample_identity =
      (Inr (ln, NoteUpdated), doc')" "ln_path ln = lit ''a.md''"
    using sample_write by (auto split: prod.splits sum.splits)
  have fields: "wr_path sample_request = lit ''a.md''" "wr_content sample_request = lit ''yo''"
    "wr_expectedVersion sample_request \<noteq> None" "pe_lower (ne_paths ascii_notes) x = x" for x
    by (simp_all add: sample_request_def ascii_notes_def)
  from write_refines [OF sample_ok sample_extracted, where expected = "Some sample_held" and req = sample_request and now = 9 and
      ident = sample_identity and clock = 9] sample_read sample_dated run
  show ?thesis by (auto simp: fields simp del: lit_simps)
qed

definition sample_restore :: restore_request where
  "sample_restore = \<lparr>rq_path = lit ''a.md'', rq_content = lit ''yo'', rq_contentSha256 = [], rq_expectedTarget = None,
     rq_modifiedAt = Some 3\<rparr>"

lemma sample_restored: "case applyMarkdownNoteRestore ascii_notes 9 one_note sample_restore (Some sample_held) 9 sample_identity of
   (Inr (note, op), _) \<Rightarrow> ln_path note = lit ''a.md'' \<and> op = NoteUpdated | _ \<Rightarrow> False"
  by (simp add: applyMarkdownNoteRestore_def sample_restore_def sample_paths [simplified] sample_held_def hi_note_def
      hi_snapshot_def ensureGenerationBounds_def MAX_MATERIALIZED_NOTE_BYTES_def MAX_MATERIALIZED_GENERATION_BYTES_def
      one_note_def replace_note_def updateMetadata_def ensureNestedMetaEntry_def isNestedFileMeta_def Let_def
      createNestedActiveMeta_def meta_get_def live_answer_def)

theorem restore_refines_witness:
  "\<exists>note doc' snap'. applyMarkdownNoteRestore ascii_notes 9 one_note sample_restore (Some sample_held) 9 sample_identity =
      (Inr (note, NoteUpdated), doc') \<and> extractMaterializedSnapshot ascii_notes doc' = Inr snap' \<and>
     notes_of snap' (lit ''a.md'') = Some (lit ''a.md'', lit ''yo'')"
proof -
  obtain ln doc' where run: "applyMarkdownNoteRestore ascii_notes 9 one_note sample_restore (Some sample_held) 9 sample_identity =
      (Inr (ln, NoteUpdated), doc')" "ln_path ln = lit ''a.md''"
    using sample_restored by (auto split: prod.splits sum.splits)
  have fields: "rq_path sample_restore = lit ''a.md''" "rq_content sample_restore = lit ''yo''"
    "pe_lower (ne_paths ascii_notes) x = x" for x
    by (simp_all add: sample_restore_def ascii_notes_def)
  from restore_refines [OF sample_ok sample_extracted, where expected = "Some sample_held" and req = sample_restore and now = 9 and
      ident = sample_identity and clock = 9] sample_read sample_dated run
  show ?thesis by (auto simp: fields simp del: lit_simps)
qed

section \<open>A restore that does not show\<close>

text \<open>Two live entries have the path; the newer one is the note.\<close>

definition two_entries :: note_doc where
  "two_entries = \<lparr>nd_schemaVersion = JNum (Fin 3),
     nd_meta = [(lit ''f'', createNestedActiveMeta (lit ''a.md'') (Fin 9) None),
       (lit ''g'', createNestedActiveMeta (lit ''a.md'') (Fin 7) None)],
     nd_idToText = [(lit ''f'', Some (lit ''hi'')), (lit ''g'', Some (lit ''old''))], nd_pathToId = []\<rparr>"

definition first_note :: snapshot_note where
  "first_note = hi_note\<lparr>sn_modifiedAt := Some 9\<rparr>"

definition second_note :: snapshot_note where
  "second_note = \<lparr>sn_byteLength = 3, sn_content = lit ''old'', sn_fileId = lit ''g'', sn_modifiedAt = Some 7,
     sn_path = lit ''a.md'', sn_pathKey = lit ''a.md'', sn_title = lit ''a''\<rparr>"

definition one_of :: "snapshot_note \<Rightarrow> stable_note" where
  "one_of n = \<lparr>sb_snapshot = \<lparr>ns_notes = [n], ns_schemaVersion = 3, ns_totalBytes = sn_byteLength n\<rparr>, sb_note = n\<rparr>"

definition restored_entries :: note_doc where
  "restored_entries = two_entries\<lparr>
     nd_meta := [(lit ''f'', touched_entry (lit ''a.md'') 3 RESTORE_DEVICE (createNestedActiveMeta (lit ''a.md'') (Fin 9) None)),
       (lit ''g'', createNestedActiveMeta (lit ''a.md'') (Fin 7) None)],
     nd_idToText := [(lit ''f'', Some (lit ''yo'')), (lit ''g'', Some (lit ''old''))]\<rparr>"

lemma two_candidates:
  "activeCandidates two_entries 3 = Inr [\<lparr>ca_fileId = lit ''f'', ca_modifiedAt = Some 9, ca_path = lit ''a.md''\<rparr>]"
  "activeCandidates restored_entries 3 = Inr [\<lparr>ca_fileId = lit ''g'', ca_modifiedAt = Some 7, ca_path = lit ''a.md''\<rparr>]"
  by code_simp+

lemmas sample_bounds = MAX_MATERIALIZED_NOTE_BYTES_def MAX_MATERIALIZED_NOTES_def MAX_MATERIALIZED_GENERATION_BYTES_def

lemma two_reads:
  "readSnapshotNote ascii_notes two_entries (lit ''a.md'') = Inr (one_of first_note)"
  "readSnapshotNote ascii_notes restored_entries (lit ''a.md'') = Inr (one_of second_note)"
  using two_candidates
  by (simp_all add: readSnapshotNote_def extractMaterializedSnapshot_def two_entries_def restored_entries_def sample_schema
      snapshot_step_def sample_paths [simplified] Let_def sample_bounds sort_by_def find_note_def one_of_def first_note_def
      hi_note_def second_note_def)

lemma restored_two:
  "applyMarkdownNoteRestore ascii_notes 9 two_entries sample_restore (Some (one_of first_note)) 9 sample_identity =
     (Inr (live_answer (lit ''yo'') sample_identity (Some 3) (lit ''a.md''), NoteUpdated), restored_entries)"
  by (simp add: applyMarkdownNoteRestore_def sample_restore_def sample_paths [simplified] one_of_def first_note_def hi_note_def
      ensureGenerationBounds_def sample_bounds two_entries_def restored_entries_def replace_note_def updateMetadata_def
      ensureNestedMetaEntry_def isNestedFileMeta_def Let_def createNestedActiveMeta_def meta_get_def)

text \<open>
  Where two live entries have one path, a restore can report success and yet not show. It gives the
  newer entry the time that is restored, and when that is older than the other entry's the note at the
  path is then the other entry's: a read that follows returns a text that is not the restored one.
\<close>

theorem restore_hidden:
  "\<exists>env clock doc req held now ident note doc' held'.
     readSnapshotNote env doc (rq_path req) = Inr held \<and>
     applyMarkdownNoteRestore env clock doc req (Some held) now ident = (Inr (note, NoteUpdated), doc') \<and>
     readSnapshotNote env doc' (rq_path req) = Inr held' \<and> sn_content (sb_note held') \<noteq> rq_content req"
proof -
  have "rq_path sample_restore = lit ''a.md''" "sn_content (sb_note (one_of second_note)) \<noteq> rq_content sample_restore"
    by (simp_all add: sample_restore_def one_of_def second_note_def)
  with two_reads restored_two show ?thesis by metis
qed

end
