(* ===== verification/NoteCoordinatorSamples.thy ===== *)
theory NoteCoordinatorSamples
  imports NoteCoordinatorProps NoteSamples
begin

text \<open>
  A small vault behind a coordinator: its properties at a concrete call, and a peer whose deletion a write
  under an expected version overwrites.
\<close>

text \<open>A document is its maps and the number of insertions, which is all that the state vector counts.\<close>

definition sample_env :: "(note_doc \<times> nat) actor_env" where
  "sample_env = \<lparr>ae_notes = ascii_notes, ae_doc = fst, ae_commit = (\<lambda>d doc. (doc, snd d + 1)),
     ae_stateVector = (\<lambda>d. [of_nat (snd d)]), ae_stored = id, ae_setName = (\<lambda>_ n. n), ae_digest = id,
     ae_token = (\<lambda>_. lit ''t''), ae_clock = 9\<rparr>"

definition vault_name :: jsstr where
  "vault_name = lit ''v''"

text \<open>The awaits of a call after the name is set; \<open>e\<close> is the edit of a peer just before the vault's row is read.\<close>

definition sample_moments :: "(note_doc \<times> nat \<Rightarrow> note_doc \<times> nat) \<Rightarrow> (note_doc \<times> nat) moment list" where
  "sample_moments e = [idle, idle\<lparr>mo_edits := e\<rparr>, idle\<lparr>mo_row := Some vault_name\<rparr>, idle\<lparr>mo_saved := True\<rparr>, idle]"

definition sample_vault :: "(note_doc \<times> nat) moment list \<Rightarrow> (note_doc \<times> nat) vault_actor" where
  "sample_vault ms = \<lparr>va_name = vault_name, va_loaded = True, va_doc = (one_note, 0), va_tokens = 0, va_moments = ms\<rparr>"

definition sample_compare :: write_request where
  "sample_compare = sample_request\<lparr>wr_expectedVersion := Some (note_version sample_env (lit ''f'') (lit ''a.md'') (lit ''hi''))\<rparr>"

definition with_text :: "jsstr \<Rightarrow> note_doc" where
  "with_text t = one_note\<lparr>nd_idToText := [(lit ''f'', Some t)]\<rparr>"

definition written_note :: note_doc where
  "written_note = one_note\<lparr>nd_meta := [(lit ''f'', touched_entry (lit ''a.md'') 9 WEB_DEVICE
     (createNestedActiveMeta (lit ''a.md'') (Fin 5) None))], nd_idToText := [(lit ''f'', Some (lit ''yo''))]\<rparr>"

lemma with_hi: "with_text (lit ''hi'') = one_note"
  by (simp add: with_text_def one_note_def)

lemma sample_applied:
  "applyMarkdownNoteWrite ascii_notes 9 (with_text t) sample_compare (Some sample_held) 9 ident =
     (Inr (live_answer (lit ''yo'') ident (Some 9) (lit ''a.md''), NoteUpdated), written_note)"
  by (simp add: applyMarkdownNoteWrite_def sample_compare_def sample_request_def sample_paths [simplified] sample_held_def
      hi_note_def hi_snapshot_def ensureGenerationBounds_def sample_bounds with_text_def written_note_def
      one_note_def replace_note_def updateMetadata_def ensureNestedMetaEntry_def isNestedFileMeta_def Let_def
      createNestedActiveMeta_def meta_get_def)

lemma sample_prepared:
  "prepareNamedVault sample_env vault_name (sample_vault (idle # ms)) = (Return (), sample_vault ms)"
  by (simp add: prepareNamedVault_def ensureDocumentLoaded_def awaited_def act_bind_def act_return_def sample_vault_def
      sample_env_def idle_def)

lemma sample_doc: "va_doc (sample_vault ms) = (one_note, 0)"
  by (simp add: sample_vault_def)

lemma sample_version: "readSchemaVersion one_note = Some 3"
  by (simp add: readSchemaVersion_def one_note_def is_integer_num_def)

lemma sample_now: "valid_now (Fin 9) = Some 9"
  by (simp add: valid_now_def is_safe_integer_num_def)

definition sample_answer :: live_note where
  "sample_answer = live_answer (lit ''yo'') \<lparr>ni_contentVersion = note_version sample_env (lit ''f'') (lit ''a.md'') (lit ''yo''),
     ni_fileId = lit ''f''\<rparr> (Some 9) (lit ''a.md'')"

lemma sample_fields:
  "wr_path sample_compare = lit ''a.md''" "wr_content sample_compare = lit ''yo''"
  "wr_expectedVersion sample_compare = Some (note_version sample_env (lit ''f'') (lit ''a.md'') (lit ''hi''))"
  "ae_notes sample_env = ascii_notes" "ae_doc sample_env = fst" "ae_clock sample_env = 9"
  "ae_commit sample_env = (\<lambda>d doc. (doc, snd d + 1))" "ae_stateVector sample_env = (\<lambda>d. [of_nat (snd d)])"
  "sb_note sample_held = hi_note" "sn_fileId hi_note = lit ''f''" "sn_path hi_note = lit ''a.md''" "sn_content hi_note = lit ''hi''"
  by (simp_all add: sample_compare_def sample_request_def sample_env_def sample_held_def hi_note_def)

lemma sample_captured:
  "captureStableLiveNote sample_env (lit ''a.md'') (sample_vault (idle # ms)) =
     (Return \<lparr>sl_note = sample_held, sl_contentVersion = note_version sample_env (lit ''f'') (lit ''a.md'') (lit ''hi''),
        sl_stateVector = [0]\<rparr>, sample_vault ms)"
  by (simp add: captureStableLiveNote_def numeral_eq_Suc act_bind_def act_return_def the_doc_def content_act_def sample_fields
      sample_read sample_vault_def markdownNoteVersion_def worker_sha256Hex_def awaited_def idle_def note_version_def
      del: lit_simps)

lemma sample_written:
  assumes "e (one_note, 0) = (with_text t, 0)"
  shows "writeMarkdownNote sample_env (Some vault_name) (Some sample_compare) (Fin 9) (sample_vault (idle # sample_moments e)) =
    (Return (Inr (sample_answer, NoteUpdated)), (sample_vault [])\<lparr>va_doc := (written_note, 1)\<rparr>)"
proof -
  have start: "update_attempts 5 sample_env vault_name sample_compare 9 (sample_vault (sample_moments e)) =
      (Return (Inr (sample_answer, NoteUpdated)), (sample_vault [])\<lparr>va_doc := (written_note, 1)\<rparr>)"
    unfolding numeral_eq_Suc sample_moments_def sample_fields pred_numeral_simps update_attempts.simps
      act_bind_run [where m = "captureStableLiveNote sample_env (lit ''a.md'')", OF sample_captured]
    using assms
    by (simp add: sample_fields act_bind_def act_return_def markdownNoteVersion_def worker_sha256Hex_def
        awaited_def isVaultActive_def the_doc_def commit_note_def sample_applied
        persistMarkdownMutation_def persistCurrentDocument_def ensureDocumentLoaded_def idle_def sample_vault_def
        sample_answer_def note_version_def del: lit_simps)
  show ?thesis
    by (simp add: writeMarkdownNote_def sample_now write_body_def act_catch_def
        act_bind_run [where m = "prepareNamedVault sample_env vault_name", OF sample_prepared] sample_fields)
      (simp add: act_bind_def the_doc_def sample_fields start sample_doc sample_version)
qed

section \<open>A quiet vault\<close>

definition quiet_vault :: "(note_doc \<times> nat) vault_actor" where
  "quiet_vault = sample_vault (sample_moments id)"

definition quiet_result :: "(note_doc \<times> nat) vault_actor" where
  "quiet_result = (sample_vault [])\<lparr>va_doc := (written_note, 1)\<rparr>"

lemma quiet_written:
  "writeMarkdownNote sample_env (Some vault_name) (Some sample_compare) (Fin 9) (sample_vault (idle # sample_moments id)) =
    (Return (Inr (sample_answer, NoteUpdated)), quiet_result)"
  unfolding quiet_result_def by (rule sample_written [of _ "lit ''hi''"]) (simp add: with_hi del: lit_simps)

lemma idle_edits: "\<forall>e\<in>set es. e = id \<Longrightarrow> apply_edits es d = d"
  unfolding apply_edits_def by (induction es) auto

lemma quiet_docs: "doc_at quiet_vault k = (one_note, 0)"
proof -
  have "\<forall>e\<in>set (peer_edits quiet_vault). e = id"
    by (simp add: peer_edits_def quiet_vault_def sample_vault_def sample_moments_def idle_def)
  then have "\<forall>e\<in>set (take k (peer_edits quiet_vault)). e = id" by (meson in_set_takeD)
  then show ?thesis by (simp add: doc_at_def idle_edits quiet_vault_def sample_doc)
qed

lemma quiet_prepared: "prepareNamedVault sample_env vault_name (sample_vault (idle # sample_moments id)) = (Return (), quiet_vault)"
  unfolding quiet_vault_def by (rule sample_prepared)

theorem note_write_atomic_witness:
  "wrote sample_env quiet_vault sample_compare 9 (sample_answer, NoteUpdated) quiet_result"
  using note_write_atomic [OF quiet_prepared sample_now, of sample_compare] by (simp add: quiet_written)

theorem note_compare_and_set_witness:
  "\<exists>snap snap'. extractMaterializedSnapshot ascii_notes one_note = Inr snap \<and>
    notes_of snap' = (notes_of snap)(lit ''a.md'' \<mapsto> (lit ''a.md'', lit ''yo''))"
proof -
  have "\<forall>d doc. ae_doc sample_env (ae_commit sample_env d doc) = doc" by (simp add: sample_fields)
  moreover have "\<forall>k. note_doc_ok (ae_doc sample_env (doc_at quiet_vault k)) \<and>
      ae_token sample_env (va_tokens quiet_vault) \<notin> fst ` set (nd_meta (ae_doc sample_env (doc_at quiet_vault k)))"
    using sample_ok by (simp add: quiet_docs sample_fields) (simp add: sample_env_def one_note_def)
  moreover have "\<forall>j k. ae_stateVector sample_env (doc_at quiet_vault j) = ae_stateVector sample_env (doc_at quiet_vault k) \<longrightarrow>
      ae_doc sample_env (doc_at quiet_vault j) = ae_doc sample_env (doc_at quiet_vault k)"
    by (simp add: quiet_docs)
  moreover have "\<forall>k held. readSnapshotNote (ae_notes sample_env) (ae_doc sample_env (doc_at quiet_vault k)) (wr_path sample_compare) = Inr held \<longrightarrow>
      dated (ae_doc sample_env (doc_at quiet_vault k)) (sb_note held) 9"
    using sample_read sample_dated by (simp add: quiet_docs sample_fields del: lit_simps)
  ultimately have "\<exists>k d' snap snap'. extractMaterializedSnapshot ascii_notes (fst (doc_at quiet_vault k)) = Inr snap \<and>
      notes_of snap' = (notes_of snap)(pe_lower (ne_paths ascii_notes) (lit ''a.md'') \<mapsto> (ln_path sample_answer, lit ''yo''))"
    using note_compare_and_set [OF quiet_prepared sample_now quiet_written] unfolding sample_fields by blast
  then show ?thesis by (auto simp: quiet_docs ascii_notes_def sample_answer_def live_answer_def simp del: lit_simps)
qed

section \<open>A deletion that is overwritten\<close>

definition deleting :: "note_doc \<times> nat \<Rightarrow> note_doc \<times> nat" where
  "deleting d = (with_text (lit ''h''), snd d)"

text \<open>
  A peer deletes a letter while a write under an expected version waits. The state vector stays the same, and
  the write replaces a text whose version is not the expected one.
\<close>

theorem deletion_overwritten:
  "writeMarkdownNote sample_env (Some vault_name) (Some sample_compare) (Fin 9) (sample_vault (idle # sample_moments deleting)) =
      (Return (Inr (sample_answer, NoteUpdated)), quiet_result) \<and>
   wr_expectedVersion sample_compare = Some (note_version sample_env (lit ''f'') (lit ''a.md'') (lit ''hi'')) \<and>
   (\<forall>k\<in>{2..5}. \<exists>held. readSnapshotNote ascii_notes (fst (doc_at (sample_vault (sample_moments deleting)) k)) (lit ''a.md'') = Inr held \<and>
     sn_content (sb_note held) = lit ''h'')"
proof -
  have docs: "doc_at (sample_vault (sample_moments deleting)) k = (with_text (lit ''h''), 0)" if "k \<in> {2..5}" for k
  proof -
    have "k = 2 \<or> k = 3 \<or> k = 4 \<or> k = 5" using that by auto
    then show ?thesis
      by (auto simp: doc_at_def apply_edits_def peer_edits_def sample_vault_def sample_moments_def idle_def deleting_def
          numeral_eq_Suc simp del: lit_simps)
  qed
  have "activeCandidates (with_text (lit ''h'')) 3 = Inr [\<lparr>ca_fileId = lit ''f'', ca_modifiedAt = Some 5, ca_path = lit ''a.md''\<rparr>]"
    by code_simp
  then have "\<exists>held. readSnapshotNote ascii_notes (with_text (lit ''h'')) (lit ''a.md'') = Inr held \<and> sn_content (sb_note held) = lit ''h''"
    by (simp add: readSnapshotNote_def extractMaterializedSnapshot_def with_text_def one_note_def sample_schema
      snapshot_step_def sample_paths [simplified] Let_def sample_bounds sort_by_def find_note_def)
  moreover have "writeMarkdownNote sample_env (Some vault_name) (Some sample_compare) (Fin 9) (sample_vault (idle # sample_moments deleting)) =
      (Return (Inr (sample_answer, NoteUpdated)), quiet_result)"
    unfolding quiet_result_def by (rule sample_written) (simp add: deleting_def del: lit_simps)
  ultimately show ?thesis by (simp add: docs sample_fields del: lit_simps)
qed

section \<open>A restore that throws\<close>

definition unnamed_restore :: restore_request where
  "unnamed_restore = \<lparr>rq_path = lit ''a'', rq_content = lit ''yo'',
     rq_contentSha256 = sha256Hex (ae_digest sample_env) (utf8_encode (lit ''yo'')), rq_expectedTarget = None, rq_modifiedAt = None\<rparr>"

theorem restore_throws_witness:
  "\<exists>s'. restoreMarkdownNote sample_env (Some vault_name) (Some unnamed_restore) (Fin 9) (sample_vault (idle # [])) =
     (Throw OtherError, s')"
proof -
  have "validateMarkdownVaultPath (ne_paths ascii_notes) (lit ''a'') = Inl NotMarkdown" by code_simp
  then have "\<forall>v. validateMarkdownVaultPath (ne_paths (ae_notes sample_env)) (rq_path unnamed_restore) \<noteq> Inr v"
    by (simp add: unnamed_restore_def sample_fields del: lit_simps)
  moreover have "rq_contentSha256 unnamed_restore = sha256Hex (ae_digest sample_env) (utf8_encode (rq_content unnamed_restore))"
    by (simp add: unnamed_restore_def)
  moreover have "readSchemaVersion (ae_doc sample_env (va_doc (sample_vault []))) = Some 3"
    by (simp add: sample_doc sample_fields sample_version)
  ultimately show ?thesis
    using restore_throws [OF sample_prepared sample_now, of "[]" unnamed_restore]
    by (auto split: prod.splits outcome.splits)
qed

end
