(* ===== verification/Spec2Isabelle.thy ===== *)
theory Spec2Isabelle
  imports DocStoreProps PersistenceProps SvEchoProps FolderSamples FolderListing FileMetaProps FolderReconcileProps CliRuntimeProps NoteCoordinatorSamples
begin

text \<open>
  A verification of the synchronisation core of MDevolved: Markdown vaults whose document is a CRDT kept by a
  server, mirrored to folders of files by clients. File names below are relative to the repository.

  \<^bold>\<open>The program.\<close> A vault is one document with three maps: metadata by file id, texts by file id, and, for old
  documents, file ids by path. On the server a coordinator owns the document
  (\<^verbatim>\<open>apps/worker/src/vault-coordinator.ts\<close>). It persists it through a save chain
  (\<^verbatim>\<open>packages/yaos-core/src/persistenceCoordinator.ts\<close>) into a chunked store over transactional key-value storage
  (\<^verbatim>\<open>chunkedDocStore.ts\<close>), confirms to clients what is persisted by receipts of state vectors (\<^verbatim>\<open>svEcho.ts\<close> and its
  neighbours), and reads and writes single notes for the web client, agents and restore jobs
  (\<^verbatim>\<open>vault-content.ts\<close>, \<^verbatim>\<open>materialization-snapshot.ts\<close>, \<^verbatim>\<open>packages/contracts/src/vault-path.ts\<close>). Entries of the metadata
  are decoded by \<^verbatim>\<open>fileMeta.ts\<close>. On the client a source is a credentialed, path-checked view of a folder
  (\<^verbatim>\<open>sourceBoundary.ts\<close> over \<^verbatim>\<open>packages/folder-adapter/src/index.ts\<close>), and the runtime of the command line
  (\<^verbatim>\<open>packages/mdevolved-cli/src/runtime.ts\<close>) reconciles it with the vault (\<^verbatim>\<open>folderReconciliation.ts\<close>,
  \<^verbatim>\<open>closedFileConflict.ts\<close>).

  \<^bold>\<open>Conventions.\<close> Strings are lists of UTF-16 code units, bytes are 8-bit words, numbers are exact rationals with
  NaN and the infinities, objects of unknown type are the values of \<open>JsValue\<close>. An effectful function is a state
  transformer with the outcomes \<open>Return\<close>, \<open>Throw\<close> and \<open>Diverge\<close> (\<open>Prelude\<close>, with weakest preconditions \<open>wp\<close>). What
  lies outside the repository is an argument: SHA-256, the Unicode tables, the collation, the CRDT library, the
  storage runtime, the vaults table, the clock and random tokens. Where a proof needs a law of such an argument
  it is an assumption of a locale or a hypothesis with a witness at a concrete instance.

  \<^bold>\<open>The runtime of JavaScript.\<close> \<open>JsValue\<close> (values, numbers, hexadecimal digests), \<open>JsText\<close> (lengths in UTF-8, base64),
  \<open>JsUtf8\<close> (encoder and strict decoder, inverse to each other on texts without lone surrogates), \<open>JsJson\<close> (writer and reader of JSON), \<open>JsDate\<close> (ISO
  texts of times, injective).

  \<^bold>\<open>Chunked document store.\<close> \<open>StoragePort\<close> states the contract of the storage as the locale \<open>txn_storage\<close>, with a
  reference implementation and a wrapper that injects faults. \<open>DocStore\<close> is \<^verbatim>\<open>chunkedDocStore.ts\<close>, function by
  function; the sequence numbers of the journal are doubles there, and the loop over them has no end where adding one
  no longer changes the number. \<open>DocStoreRep\<close> says which contents represent which abstract document (checkpoint, journal, latest state),
  \<open>DocStoreCorrect\<close> and \<open>DocStoreOps\<close> that loading, appending and rewriting implement the abstract operations,
  \<open>DocStoreSafe\<close> what loading guarantees for contents nobody vouches for. \<open>DocStoreProps\<close> interprets the interface
  \<open>doc_store\<close> of the persistence coordinator on the store and holds the properties, among them histories with
  injected storage failures.

  \<^bold>\<open>Persistence coordinator.\<close> \<open>Persistence\<close> is the class and the coordinator's \<open>loadDocument\<close>; \<open>PersistenceSpec\<close> states
  the laws of the CRDT library (\<open>crdt_laws\<close>) and proves that a save keeps the vault durable; \<open>PersistenceProps\<close> has
  the promise chain as a step relation of edits, enqueued saves, runs and settlings with its invariant, a
  reference CRDT, and saving and loading composed with the chunked store.

  \<^bold>\<open>Receipts.\<close> \<open>SvEcho\<close> has both ends of the receipt message, its counters, the dominance test and the classifier of
  frames; \<open>SvEchoProps\<close> its delivery, the counters and the pointwise meaning of dominance.

  \<^bold>\<open>Sources.\<close> \<open>SourcePaths\<close> (descriptors, path policy), \<open>SourceScan\<close> (listing, concurrent scan) and \<open>SourceCore\<close> (every
  method of \<open>SourceNeutralSyncCore\<close>) are \<^verbatim>\<open>sourceBoundary.ts\<close> over arbitrary ports. \<open>SourceScanSpec\<close> and
  \<open>SourceScanProps\<close> show that listings are bounded, and over a directory tree exact, and that scans do not depend on
  the order of their reads; \<open>SourceCoreSpec\<close>, \<open>SourceCoreProps\<close> and \<open>SourceLifecycle\<close> that stored state survives, that
  no file is touched without an active credential, and that revocation is final. The loop of a listing has one
  more step of fuel than the ceiling of entries: each step takes a directory, and all but the first were entries.

  \<^bold>\<open>Folders.\<close> \<open>FolderFs\<close> is a file system in which any call can fail, \<open>FolderAdapter\<close> the adapter over it. \<open>FolderSpec\<close>,
  \<open>FolderProps\<close> and \<open>FolderListing\<close> show that reads stay inside the folder, that a write is atomic, that the folder
  source provides the interfaces of the core, and that a scan of a folder is exact; \<open>FolderQuiet\<close> that listing changes
  nothing and that a directory with a secret-shaped name, at any depth, keeps it from returning.
  \<open>FolderState\<close> opens a folder as a source and shows that local state is kept outside it; \<open>FolderWatch\<close> is the watcher
  with its timers as a step relation, which reports every change and is silent once stopped; \<open>FolderSamples\<close> has
  their concrete instances.

  \<^bold>\<open>Metadata.\<close> \<open>FileMeta\<close> is \<^verbatim>\<open>fileMeta.ts\<close>, \<open>FileMetaProps\<close> compares the incremental and the full computation of
  changes and shows what converting an entry keeps.

  \<^bold>\<open>Reconciliation.\<close> \<open>FolderReconcile\<close> is the three-way decision and \<open>reconcileFolder\<close> over any files and any remote.
  \<open>FolderReconcileSpec\<close> follows which texts are still somewhere after each write, \<open>FolderReconcileRun\<close> proves for any
  ports with the contract that no text is lost and that both sides agree at the end, \<open>FolderQuiet\<close> and \<open>FolderSync\<close>
  discharge the contract for the folder source, and \<open>CliRuntimeProps\<close> for the remote port over a vault whose texts are
  looked up by the normal form of a path, so that the properties hold of \<open>syncOnce\<close> of \<open>CliRuntime\<close>. The search for a free name tries one name more than there are
  occupied paths, which is enough because the names differ; waiting for the server's acknowledgement asks 51
  times at intervals of 100 milliseconds, which are the five seconds of the code.

  \<^bold>\<open>Notes.\<close> \<open>VaultPath\<close> is the path validator, \<open>NoteSnapshot\<close> the snapshot of a document, \<open>NoteContent\<close> reading, writing
  and restoring a note of it. \<open>NoteSpec\<close> and \<open>NoteProps\<close> show that a snapshot has exactly the newest live entry of
  every path, and that writes and restores update the map of notes and nothing else. \<open>NoteCoordinator\<close> puts them
  into the coordinator: at each await peers may edit the document and what is awaited may fail. The attempts are
  five, as in the code. \<open>NoteCoordinatorProps\<close> shows that a write is one atomic step among the edits of peers and,
  when none of them only deletes, a compare-and-set on the map of notes. \<open>NoteSamples\<close> and \<open>NoteCoordinatorSamples\<close>
  have the concrete instances and two runs in which a restore or a write does not do what its answer says.

  \<^bold>\<open>Assumed of the environment.\<close> During a reconciliation the folder and the vault change only by what it writes, and a
  method of the runtime runs to its end before the next one starts. Directory trees of folders are finite, and in
  the properties of scans and of reconciliations the folder is tidy as its listing sees it: portable names, no
  links, no secret-shaped directory, and for a reconciliation no file with the name of a temporary file; nothing
  is asked of excluded directories. A scan also takes the admitted files to be within the adapter's ceiling; a
  reconciliation does not. The vault of a reconciliation is the client's over a document of schema 2 or
  later, without a rename waiting to be flushed; a text with lone surrogates is not covered by \<open>sync_loses_nothing\<close>,
  since no file can hold it. A storage transaction is atomic. A journal's sequence numbers stay within \<open>2 ^ 53\<close>
  between two checkpoints, and so do the other stored counters, which are exact integers here. The texts,
  metadata and path maps of a document have each key once; the properties of writes and restores of notes say
  which other live entries of the path they exclude.

  \<^bold>\<open>Not modelled.\<close> The coordinator's connections, alarm and materialization queue, and
  the rows it records in the database. The services for collaboration, agents, lead, policy and elastic
  operations, projects, backups and snapshots, with their stores and routes: they are kept by guards inside SQL
  statements and by the schemas of a validation library, which would need a semantics of their own. The contracts
  package beyond the path validator and the note requests: declarations of such schemas. The web client, the
  desktop shell, the marketing site, the client packs, the command line outside its runtime, and the Obsidian
  plugin with its vendored client: interface, processes and network.
\<close>

end
